(* ===== verification/Prelude.thy ===== *)
theory Prelude
  imports Main "HOL-Library.List_Lexorder" "HOL-Library.Char_ord" "HOL-Library.AList"
begin

text \<open>
  Shared vocabulary of the Sieve development: Python exceptions as values of a sum type, the
  sequencing of statements that may raise, loops over a list with an accumulator, the parts of
  Python's \<open>str\<close> and \<open>dict\<close> the sources use, and the generic lemmas every component relies on.
  A Python \<open>str\<close> is a HOL \<open>string\<close> (code points U+0000 to U+00FF, one \<open>char\<close> each); a Python
  \<open>dict\<close> is an association list in insertion order, read by \<open>map_of\<close> and written by
  \<open>AList.update\<close>, which overwrites a present key in place and appends a new one.
\<close>

named_theorems res_simps \<open>rules that take apart statements that may raise\<close>
named_theorems dict_simps \<open>what a dict returns after an update\<close>

section \<open>Exceptions as values\<close>

text \<open>
  The exceptions the modelled code can raise; \<open>PyException\<close> is \<open>Exception\<close> with its message. The last two
  are not exceptions: \<open>OutOfModel\<close> is
  the value of an operation on an input the model does not represent (a float literal or a code
  point above U+00FF in JSON text), \<open>OutOfFuel\<close> that of a recursion stopped by its fuel; where
  fuel is used, a lemma shows that this value is never returned.
\<close>

datatype py_error =
    AssertionError
  | KeyError
  | IndexError
  | TypeError
  | ValueError
  | AttributeError
  | UnboundLocalError
  | FileNotFoundError
  | FileExistsError
  | OSError
  | SystemExit
  | PyException string
  | OutOfModel
  | OutOfFuel

type_synonym 'a res = "py_error + 'a"

definition res_bind :: "'a res \<Rightarrow> ('a \<Rightarrow> 'b res) \<Rightarrow> 'b res" where
  "res_bind m f = (case m of Inl e \<Rightarrow> Inl e | Inr x \<Rightarrow> f x)"

lemma res_bind_Inl [simp]: "res_bind (Inl e) f = Inl e"
  by (simp add: res_bind_def)

lemma res_bind_Inr [simp]: "res_bind (Inr x) f = f x"
  by (simp add: res_bind_def)

lemma res_bind_assoc: "res_bind (res_bind m f) g = res_bind m (\<lambda>x. res_bind (f x) g)"
  by (cases m) simp_all

lemma res_bind_eq_Inr [res_simps]:
  "res_bind m f = Inr y \<longleftrightarrow> (\<exists>x. m = Inr x \<and> f x = Inr y)"
  by (cases m) simp_all

lemma res_bind_eq_Inl [res_simps]:
  "res_bind m f = Inl e \<longleftrightarrow> m = Inl e \<or> (\<exists>x. m = Inr x \<and> f x = Inl e)"
  by (cases m) simp_all

lemma res_bind_cong [fundef_cong]:
  "m = m' \<Longrightarrow> (\<And>x. m' = Inr x \<Longrightarrow> f x = g x) \<Longrightarrow> res_bind m f = res_bind m' g"
  by (cases m') simp_all

definition py_assert :: "bool \<Rightarrow> unit res" where
  "py_assert b = (if b then Inr () else Inl AssertionError)"

lemma py_assert_True [simp]: "py_assert True = Inr ()"
  by (simp add: py_assert_def)

lemma py_assert_False [simp]: "py_assert False = Inl AssertionError"
  by (simp add: py_assert_def)

lemma py_assert_eq_Inr [res_simps]: "py_assert b = Inr u \<longleftrightarrow> b"
  by (simp add: py_assert_def)

lemma py_assert_eq_Inl [res_simps]: "py_assert b = Inl e \<longleftrightarrow> \<not> b \<and> e = AssertionError"
  by (auto simp: py_assert_def)

definition from_option :: "py_error \<Rightarrow> 'a option \<Rightarrow> 'a res" where
  "from_option e x = (case x of None \<Rightarrow> Inl e | Some v \<Rightarrow> Inr v)"

lemma from_option_simps [simp]:
  "from_option e None = Inl e" "from_option e (Some v) = Inr v"
  by (simp_all add: from_option_def)

lemma from_option_eq_Inr [res_simps]: "from_option e x = Inr v \<longleftrightarrow> x = Some v"
  by (cases x) simp_all

lemma from_option_eq_Inl [res_simps]: "from_option e x = Inl e' \<longleftrightarrow> x = None \<and> e' = e"
  by (cases x) auto

text \<open>\<open>for x in xs: s = f(s, x)\<close>, where the body may raise.\<close>

primrec res_fold :: "('s \<Rightarrow> 'a \<Rightarrow> 's res) \<Rightarrow> 's \<Rightarrow> 'a list \<Rightarrow> 's res" where
  "res_fold f s [] = Inr s"
| "res_fold f s (x # xs) = res_bind (f s x) (\<lambda>s'. res_fold f s' xs)"

lemma res_fold_append:
  "res_fold f s (xs @ ys) = res_bind (res_fold f s xs) (\<lambda>s'. res_fold f s' ys)"
  by (induction xs arbitrary: s) (auto simp: res_bind_def split: sum.splits)

text \<open>An invariant of the body is an invariant of the loop.\<close>

lemma res_fold_invariant:
  assumes "res_fold f s xs = Inr s'" and "I s"
    and "\<And>s x s'. x \<in> set xs \<Longrightarrow> I s \<Longrightarrow> f s x = Inr s' \<Longrightarrow> I s'"
  shows "I s'"
  using assms
proof (induction xs arbitrary: s)
  case Nil
  then show ?case by simp
next
  case (Cons x xs)
  from Cons.prems(1) obtain t where t: "f s x = Inr t" and rest: "res_fold f t xs = Inr s'"
    by (auto simp: res_simps)
  from Cons.prems(2,3) t have "I t" by (meson list.set_intros(1))
  with rest Cons.prems(3) show ?case
    by (meson Cons.IH list.set_intros(2))
qed

text \<open>
  The contract of a loop body: on an argument it accepts it keeps an invariant of the state. What
  a whole loop keeps follows once for all.
\<close>

locale step_invariant =
  fixes inv :: "'s \<Rightarrow> bool"
    and ok :: "'a \<Rightarrow> bool"
    and step :: "'s \<Rightarrow> 'a \<Rightarrow> 's res"
  assumes step_inv: "inv s \<Longrightarrow> ok x \<Longrightarrow> step s x = Inr s' \<Longrightarrow> inv s'"
begin

lemma fold_inv:
  assumes "res_fold step s xs = Inr s'" "inv s" "\<forall>x\<in>set xs. ok x"
  shows "inv s'"
  by (rule res_fold_invariant[where I = inv, OF assms(1,2)]) (use assms(3) step_inv in blast)

end

text \<open>A loop whose body never raises from a state that satisfies the invariant returns.\<close>

lemma res_fold_cong:
  "(\<And>s x. x \<in> set xs \<Longrightarrow> f s x = g s x) \<Longrightarrow> res_fold f s xs = res_fold g s xs"
  by (induction xs arbitrary: s) (auto intro!: res_bind_cong)

lemma res_fold_total:
  assumes "I s"
    and "\<And>s x. x \<in> set xs \<Longrightarrow> I s \<Longrightarrow> \<exists>s'. f s x = Inr s' \<and> I s'"
  shows "\<exists>s'. res_fold f s xs = Inr s' \<and> I s'"
  using assms
proof (induction xs arbitrary: s)
  case Nil
  then show ?case by simp
next
  case (Cons x xs)
  then obtain t where "f s x = Inr t" "I t"
    by (meson list.set_intros(1))
  with Cons show ?case
    by (metis list.set_intros(2) res_bind_Inr res_fold.simps(2))
qed

lemma res_fold_pure: "res_fold (\<lambda>s x. Inr (f s x)) s xs = Inr (foldl f s xs)"
  by (induction xs arbitrary: s) simp_all

text \<open>\<open>[f(x) for x in xs]\<close>, where \<open>f\<close> may raise.\<close>

primrec res_map :: "('a \<Rightarrow> 'b res) \<Rightarrow> 'a list \<Rightarrow> 'b list res" where
  "res_map f [] = Inr []"
| "res_map f (x # xs) =
     res_bind (f x) (\<lambda>y. res_bind (res_map f xs) (\<lambda>ys. Inr (y # ys)))"

lemma res_map_Inr: "res_map f xs = Inr ys \<longleftrightarrow> list_all2 (\<lambda>x y. f x = Inr y) xs ys"
proof (induction xs arbitrary: ys)
  case Nil
  then show ?case by auto
next
  case (Cons x xs)
  show ?case
    by (auto simp: res_simps Cons.IH list_all2_Cons1)
qed

text \<open>\<open>[x for x in xs if p(x)]\<close>, where \<open>p\<close> may raise.\<close>

primrec res_filter :: "('a \<Rightarrow> bool res) \<Rightarrow> 'a list \<Rightarrow> 'a list res" where
  "res_filter p [] = Inr []"
| "res_filter p (x # xs) =
     res_bind (p x) (\<lambda>b. res_bind (res_filter p xs) (\<lambda>ys. Inr (if b then x # ys else ys)))"

lemma res_filter_Inr:
  assumes "res_filter p xs = Inr ys"
  shows "ys = filter (\<lambda>x. p x = Inr True) xs"
    and "\<forall>x\<in>set xs. \<exists>b. p x = Inr b"
  using assms by (induction xs arbitrary: ys) (auto simp: res_simps)

lemma res_filter_length: "res_filter p xs = Inr ys \<Longrightarrow> length ys \<le> length xs"
  using res_filter_Inr[of p xs ys] by simp

lemma res_map_length: "res_map f xs = Inr ys \<Longrightarrow> length ys = length xs"
  by (auto simp: res_map_Inr dest: list_all2_lengthD)

lemma res_filter_total:
  "\<forall>x\<in>set xs. p x = Inr (q x) \<Longrightarrow> res_filter p xs = Inr (filter q xs)"
  by (induction xs) simp_all

lemma res_filter_raises:
  "x \<in> set xs \<Longrightarrow> p x = Inl e \<Longrightarrow> \<exists>e'. res_filter p xs = Inl e'"
proof (induction xs)
  case Nil
  then show ?case by simp
next
  case (Cons y ys)
  then show ?case
    by (cases "p y"; cases "res_filter p ys") auto
qed

text \<open>A loop that returns true at the first hit.\<close>

primrec res_any :: "('a \<Rightarrow> bool res) \<Rightarrow> 'a list \<Rightarrow> bool res" where
  "res_any p [] = Inr False"
| "res_any p (x # xs) = res_bind (p x) (\<lambda>b. if b then Inr True else res_any p xs)"

lemma res_any_total: "\<forall>x\<in>set xs. p x = Inr (q x) \<Longrightarrow> res_any p xs = Inr (\<exists>x\<in>set xs. q x)"
  by (induction xs) auto

text \<open>A computation that raises at most the exceptions of a set.\<close>

definition raises_only :: "py_error set \<Rightarrow> 'a res \<Rightarrow> bool" where
  "raises_only E r \<longleftrightarrow> (\<forall>e. r = Inl e \<longrightarrow> e \<in> E)"

lemma raises_only_bind:
  "raises_only E m \<Longrightarrow> (\<And>x. m = Inr x \<Longrightarrow> raises_only E (f x)) \<Longrightarrow> raises_only E (res_bind m f)"
  by (auto simp: raises_only_def res_simps)

lemma raises_only_cases [simp]: "raises_only E (Inr x)" "raises_only E (Inl e) \<longleftrightarrow> e \<in> E"
  by (simp_all add: raises_only_def)

lemma raises_only_fold:
  assumes "I s" "\<And>s x. x \<in> set xs \<Longrightarrow> I s \<Longrightarrow> raises_only E (f s x) \<and> (\<forall>s'. f s x = Inr s' \<longrightarrow> I s')"
  shows "raises_only E (res_fold f s xs) \<and> (\<forall>s'. res_fold f s xs = Inr s' \<longrightarrow> I s')"
  using assms
proof (induction xs arbitrary: s)
  case (Cons x xs)
  have "raises_only E (f s x)" and next_inv: "I s'" if "f s x = Inr s'" for s'
    using Cons.prems that by auto
  moreover have "raises_only E (res_fold f s' xs) \<and> (\<forall>t. res_fold f s' xs = Inr t \<longrightarrow> I t)" if "f s x = Inr s'" for s'
    by (rule Cons.IH[OF next_inv[OF that]]) (use Cons.prems(2) in auto)
  ultimately show ?case using Cons.prems by (auto simp: res_simps intro!: raises_only_bind)
qed auto

text \<open>A loop that returns has run its body on every element.\<close>

lemma res_fold_visits:
  assumes "res_fold f s xs = Inr s'" "x \<in> set xs" "I s"
    "\<And>s x s'. I s \<Longrightarrow> f s x = Inr s' \<Longrightarrow> I s'"
  shows "\<exists>t t'. I t \<and> f t x = Inr t'"
  using assms(1-3)
proof (induction xs arbitrary: s)
  case (Cons y ys)
  then obtain t where "f s y = Inr t" "res_fold f t ys = Inr s'" by (auto simp: res_simps)
  then show ?case using Cons assms(4) by (cases "x = y") auto
qed simp

section \<open>Strings\<close>

definition py_startswith :: "string \<Rightarrow> string \<Rightarrow> bool" where
  "py_startswith s p \<longleftrightarrow> take (length p) s = p"

definition py_endswith :: "string \<Rightarrow> string \<Rightarrow> bool" where
  "py_endswith s p \<longleftrightarrow> length p \<le> length s \<and> drop (length s - length p) s = p"

lemma py_startswith_iff: "py_startswith s p \<longleftrightarrow> (\<exists>t. s = p @ t)"
  by (metis append_eq_conv_conj append_take_drop_id py_startswith_def)

text \<open>\<open>s.find(m)\<close>: the index of the first occurrence, \<open>None\<close> for Python's \<open>-1\<close>.\<close>

fun py_find :: "string \<Rightarrow> string \<Rightarrow> nat option" where
  "py_find m [] = (if m = [] then Some 0 else None)"
| "py_find m (x # xs) =
     (if py_startswith (x # xs) m then Some 0 else map_option Suc (py_find m xs))"

text \<open>\<open>m in s\<close> for two strings.\<close>

definition py_contains :: "string \<Rightarrow> string \<Rightarrow> bool" where
  "py_contains m s \<longleftrightarrow> py_find m s \<noteq> None"

text \<open>\<open>s[s.find(m):]\<close>; with no occurrence the index is \<open>-1\<close> and the slice is the last character.\<close>

definition from_mark :: "string \<Rightarrow> string \<Rightarrow> string" where
  "from_mark m s = (case py_find m s of Some i \<Rightarrow> drop i s | None \<Rightarrow> drop (length s - 1) s)"

lemma py_find_Some:
  "py_find m s = Some i \<Longrightarrow> i \<le> length s \<and> (\<exists>t. drop i s = m @ t)"
  by (induction s arbitrary: i) (auto simp: py_startswith_iff split: if_splits)

lemma py_contains_iff: "py_contains m s \<longleftrightarrow> (\<exists>a b. s = a @ m @ b)"
proof
  assume "py_contains m s"
  then obtain i where "py_find m s = Some i" by (auto simp: py_contains_def)
  then obtain t where "drop i s = m @ t" using py_find_Some by blast
  then have "s = take i s @ m @ t" by (metis append_take_drop_id)
  then show "\<exists>a b. s = a @ m @ b" by blast
next
  assume "\<exists>a b. s = a @ m @ b"
  then obtain a b where s: "s = a @ m @ b" by blast
  have "py_find m (a @ m @ b) \<noteq> None"
  proof (induction a)
    case Nil
    have "py_startswith (m @ b) m" by (auto simp: py_startswith_iff)
    then show ?case by (cases "m @ b") auto
  next
    case (Cons x a)
    then show ?case by auto
  qed
  with s show "py_contains m s" by (simp add: py_contains_def)
qed

text \<open>\<open>s.split(c)\<close> and \<open>sep.join(ws)\<close>.\<close>

fun py_split :: "char \<Rightarrow> string \<Rightarrow> string list" where
  "py_split c [] = [[]]"
| "py_split c (x # xs) =
     (if x = c then [] # py_split c xs
      else (case py_split c xs of [] \<Rightarrow> [[x]] | w # ws \<Rightarrow> (x # w) # ws))"

fun py_join :: "string \<Rightarrow> string list \<Rightarrow> string" where
  "py_join sep [] = []"
| "py_join sep [w] = w"
| "py_join sep (w # v # ws) = w @ sep @ py_join sep (v # ws)"

lemma py_split_nonempty [simp]: "py_split c s \<noteq> []"
  by (induction s) (auto split: list.splits)

lemma py_join_Cons: "ws \<noteq> [] \<Longrightarrow> py_join sep (w # ws) = w @ sep @ py_join sep ws"
  by (cases ws) simp_all

lemma py_join_py_split [simp]: "py_join [c] (py_split c s) = s"
proof (induction s)
  case Nil
  then show ?case by simp
next
  case (Cons x xs)
  obtain w ws where ws: "py_split c xs = w # ws"
    using py_split_nonempty by (metis neq_Nil_conv)
  with Cons show ?case
    by (cases ws) auto
qed

lemma py_split_no_sep: "c \<notin> set s \<Longrightarrow> py_split c s = [s]"
  by (induction s) auto

lemma py_split_append: "c \<notin> set w \<Longrightarrow> py_split c (w @ c # s) = w # py_split c s"
  by (induction w) auto

lemma py_split_py_join:
  "ws \<noteq> [] \<Longrightarrow> \<forall>w\<in>set ws. c \<notin> set w \<Longrightarrow> py_split c (py_join [c] ws) = ws"
proof (induction "[c]" ws rule: py_join.induct)
  case 1
  then show ?case by simp
next
  case (2 w)
  then show ?case by (simp add: py_split_no_sep)
next
  case (3 w v ws)
  then show ?case by (simp add: py_split_append)
qed

lemma py_split_parts: "w \<in> set (py_split c s) \<Longrightarrow> c \<notin> set w"
proof (induction s arbitrary: w)
  case Nil
  then show ?case by simp
next
  case (Cons x xs)
  then show ?case
    by (auto split: if_splits list.splits)
qed

text \<open>\<open>s.strip(c)\<close> for one character, and \<open>s.strip()\<close>.\<close>

definition strip_while :: "(char \<Rightarrow> bool) \<Rightarrow> string \<Rightarrow> string" where
  "strip_while p s = rev (dropWhile p (rev (dropWhile p s)))"

definition py_space :: "char \<Rightarrow> bool" where
  "py_space c \<longleftrightarrow> (of_char c :: nat) \<in> {9, 10, 11, 12, 13, 28, 29, 30, 31, 32, 133, 160}"

abbreviation strip_newline :: "string \<Rightarrow> string" where
  "strip_newline \<equiv> strip_while (\<lambda>c. c = CHR 0x0A)"

lemma strip_while_id:
  "s = [] \<or> (\<not> p (hd s) \<and> \<not> p (last s)) \<Longrightarrow> strip_while p s = s"
proof -
  assume a: "s = [] \<or> (\<not> p (hd s) \<and> \<not> p (last s))"
  show ?thesis
  proof (cases s)
    case Nil
    then show ?thesis by (simp add: strip_while_def)
  next
    case (Cons x xs)
    with a have d: "dropWhile p s = s" by simp
    from a Cons have "\<not> p (hd (rev s))" by (auto simp: hd_rev simp del: rev.simps)
    then have "dropWhile p (rev s) = rev s"
      by (cases "rev s") auto
    with d show ?thesis by (simp add: strip_while_def)
  qed
qed

section \<open>Decimal numbers\<close>

definition is_digit :: "char \<Rightarrow> bool" where
  "is_digit c \<longleftrightarrow> 48 \<le> (of_char c :: nat) \<and> (of_char c :: nat) \<le> 57"

definition digit_val :: "char \<Rightarrow> nat" where
  "digit_val c = of_char c - 48"

definition digit_char :: "nat \<Rightarrow> char" where
  "digit_char d = char_of (d + 48)"

lemma of_digit_char: "d < 10 \<Longrightarrow> (of_char (digit_char d) :: nat) = d + 48"
  by (simp add: digit_char_def)

lemma digit_char_simps [simp]:
  "d < 10 \<Longrightarrow> is_digit (digit_char d)" "d < 10 \<Longrightarrow> digit_val (digit_char d) = d"
  by (simp_all add: is_digit_def digit_val_def of_digit_char)

fun nat_str :: "nat \<Rightarrow> string" where
  "nat_str n = (if n < 10 then [digit_char n] else nat_str (n div 10) @ [digit_char (n mod 10)])"

declare nat_str.simps [simp del]

definition int_str :: "int \<Rightarrow> string" where
  "int_str i = (if i < 0 then CHR ''-'' # nat_str (nat (- i)) else nat_str (nat i))"

definition digits_val :: "string \<Rightarrow> nat" where
  "digits_val s = foldl (\<lambda>n c. 10 * n + digit_val c) 0 s"

lemma nat_str_nonempty [simp]: "nat_str n \<noteq> []"
  by (subst nat_str.simps) simp

lemma nat_str_digits: "\<forall>c\<in>set (nat_str n). is_digit c"
proof (induction n rule: nat_str.induct)
  case (1 n)
  then show ?case
    by (subst nat_str.simps) auto
qed

lemma digits_val_nat_str [simp]: "digits_val (nat_str n) = n"
proof (induction n rule: nat_str.induct)
  case (1 n)
  then show ?case
    by (subst nat_str.simps) (auto simp: digits_val_def)
qed

text \<open>
  \<open>int(s)\<close> on a string: blanks around the literal, an optional sign, decimal digits with single
  underscores between them.
\<close>

definition parse_nat :: "string \<Rightarrow> nat option" where
  "parse_nat s =
     (if list_all (\<lambda>w. w \<noteq> [] \<and> list_all is_digit w) (py_split CHR ''_'' s)
      then Some (digits_val (filter is_digit s)) else None)"

definition py_int :: "string \<Rightarrow> int res" where
  "py_int s = (case strip_while py_space s of
       [] \<Rightarrow> Inl ValueError
     | c # cs \<Rightarrow>
         if c = CHR ''-'' then from_option ValueError (map_option (\<lambda>n. - int n) (parse_nat cs))
         else if c = CHR ''+'' then from_option ValueError (map_option int (parse_nat cs))
         else from_option ValueError (map_option int (parse_nat (c # cs))))"

lemma is_digit_not_special:
  "is_digit c \<Longrightarrow> c \<noteq> CHR ''_''" "is_digit c \<Longrightarrow> c \<noteq> CHR ''-''"
  "is_digit c \<Longrightarrow> c \<noteq> CHR ''+''" "is_digit c \<Longrightarrow> \<not> py_space c"
  by (auto simp: is_digit_def py_space_def)

lemma parse_nat_nat_str [simp]: "parse_nat (nat_str n) = Some n"
proof -
  have "CHR ''_'' \<notin> set (nat_str n)"
    using nat_str_digits is_digit_not_special(1) by blast
  moreover have "filter is_digit (nat_str n) = nat_str n"
    using nat_str_digits by (simp add: filter_id_conv)
  ultimately show ?thesis
    using nat_str_digits by (simp add: parse_nat_def py_split_no_sep list_all_iff)
qed

lemma py_int_int_str [simp]: "py_int (int_str i) = Inr i"
proof (cases "i < 0")
  case True
  let ?n = "nat (- i)"
  have "last (nat_str ?n) \<in> set (nat_str ?n)" by simp
  then have "\<not> py_space (last (nat_str ?n))"
    using nat_str_digits is_digit_not_special(4) by blast
  then have "strip_while py_space (CHR ''-'' # nat_str ?n) = CHR ''-'' # nat_str ?n"
    by (intro strip_while_id) (simp add: py_space_def)
  with True show ?thesis by (simp add: py_int_def int_str_def)
next
  case False
  let ?n = "nat i"
  obtain c cs where cs: "nat_str ?n = c # cs"
    by (meson nat_str_nonempty neq_Nil_conv)
  have c: "is_digit c" using nat_str_digits cs by (metis list.set_intros(1))
  have "last (nat_str ?n) \<in> set (nat_str ?n)" by simp
  then have "\<not> py_space (last (nat_str ?n))"
    using nat_str_digits is_digit_not_special(4) by blast
  moreover have "\<not> py_space (hd (nat_str ?n))"
    using c is_digit_not_special(4) cs by simp
  ultimately have "strip_while py_space (nat_str ?n) = nat_str ?n"
    by (intro strip_while_id) simp
  moreover have "parse_nat (c # cs) = Some ?n" using cs parse_nat_nat_str by metis
  ultimately show ?thesis
    using False cs c is_digit_not_special by (simp add: py_int_def int_str_def)
qed

end
