(* ===== verification/Py_Dict.thy ===== *)
theory Py_Dict
  imports Prelude
begin

text \<open>
  Python dictionaries as association lists in insertion order, and the two idioms the sources
  build on them: a tally (\<open>if k not in d: d[k] = 0\<close>, then \<open>d[k] += 1\<close>) and a grouping
  (\<open>if k not in d: d[k] = []\<close>, then \<open>d[k].append(v)\<close>). Each idiom's contract is a locale,
  its clients' lemmas are proved once inside it, and the association-list operations interpret it.
\<close>

type_synonym ('k, 'v) dict = "('k \<times> 'v) list"

definition dict_ok :: "('k, 'v) dict \<Rightarrow> bool" where
  "dict_ok d \<longleftrightarrow> distinct (map fst d)"

text \<open>\<open>d[k]\<close>, raising \<open>KeyError\<close>.\<close>

definition dict_item :: "('k, 'v) dict \<Rightarrow> 'k \<Rightarrow> 'v res" where
  "dict_item d k = from_option KeyError (map_of d k)"

definition dict_append :: "'k \<Rightarrow> 'v \<Rightarrow> ('k, 'v list) dict \<Rightarrow> ('k, 'v list) dict" where
  "dict_append k v d =
     AList.update k ((case map_of d k of None \<Rightarrow> [] | Some vs \<Rightarrow> vs) @ [v]) d"

definition dict_group :: "('k, 'v list) dict \<Rightarrow> 'k \<Rightarrow> 'v list" where
  "dict_group d k = (case map_of d k of None \<Rightarrow> [] | Some vs \<Rightarrow> vs)"

definition dict_bump :: "'k \<Rightarrow> ('k, nat) dict \<Rightarrow> ('k, nat) dict" where
  "dict_bump k d = AList.update k (Suc (case map_of d k of None \<Rightarrow> 0 | Some n \<Rightarrow> n)) d"

definition dict_count :: "('k, nat) dict \<Rightarrow> 'k \<Rightarrow> nat" where
  "dict_count d k = (case map_of d k of None \<Rightarrow> 0 | Some n \<Rightarrow> n)"

lemma map_of_update [simp, dict_simps]:
  "map_of (AList.update k v d) j = (if j = k then Some v else map_of d j)"
  by (simp add: update_conv')

lemma dict_ok_Nil [simp]: "dict_ok []"
  by (simp add: dict_ok_def)

lemma dict_ok_update [simp, intro]: "dict_ok d \<Longrightarrow> dict_ok (AList.update k v d)"
  by (simp add: dict_ok_def distinct_update)

lemma dict_ok_append [simp, intro]: "dict_ok d \<Longrightarrow> dict_ok (dict_append k v d)"
  by (simp add: dict_append_def)

lemma dict_ok_bump [simp, intro]: "dict_ok d \<Longrightarrow> dict_ok (dict_bump k d)"
  by (simp add: dict_bump_def)

lemma keys_update [dict_simps]:
  "fst ` set (AList.update k v d) = insert k (fst ` set d)"
  by (simp add: dom_update)

lemma map_fst_update:
  "map fst (AList.update k v d) = (if k \<in> fst ` set d then map fst d else map fst d @ [k])"
  by (simp add: update_keys)

lemma dict_ok_map_of: "dict_ok d \<Longrightarrow> (k, v) \<in> set d \<longleftrightarrow> map_of d k = Some v"
  by (auto simp: dict_ok_def dest: map_of_SomeD)

lemma map_of_map_snd:
  "map_of (map (\<lambda>(k, v). (k, f v)) d) k = map_option f (map_of d k)"
  by (induction d) auto

section \<open>Tallies\<close>

locale tally =
  fixes start :: 'd
    and bump :: "'k \<Rightarrow> 'd \<Rightarrow> 'd"
    and count :: "'d \<Rightarrow> 'k \<Rightarrow> nat"
  assumes count_start: "count start k = 0"
    and count_bump: "count (bump k d) j = (if j = k then Suc (count d j) else count d j)"
begin

lemma count_fold: "count (fold bump ks d) k = count d k + count_list ks k"
  by (induction ks arbitrary: d) (auto simp: count_bump)

lemma count_all: "count (fold bump ks start) k = count_list ks k"
  by (simp add: count_fold count_start)

lemma count_bumped_fold:
  "count (bump k (fold bump ks start)) k = Suc (count_list ks k)"
  by (simp add: count_bump count_all)

end

interpretation bump_tally: tally "[]" dict_bump dict_count
  by unfold_locales (auto simp: dict_bump_def dict_count_def)

section \<open>Groupings\<close>

locale grouping =
  fixes start :: 'd
    and add :: "'k \<Rightarrow> 'v \<Rightarrow> 'd \<Rightarrow> 'd"
    and group :: "'d \<Rightarrow> 'k \<Rightarrow> 'v list"
  assumes group_start: "group start k = []"
    and group_add: "group (add k v d) j = (if j = k then group d j @ [v] else group d j)"
begin

lemma group_fold:
  "group (fold (\<lambda>x. add (f x) (g x)) xs d) k =
     group d k @ map g (filter (\<lambda>x. f x = k) xs)"
  by (induction xs arbitrary: d) (auto simp: group_add)

lemma group_all:
  "group (fold (\<lambda>x. add (f x) (g x)) xs start) k = map g (filter (\<lambda>x. f x = k) xs)"
  by (simp add: group_fold group_start)

end

interpretation append_grouping: grouping "[]" dict_append dict_group
  by unfold_locales (auto simp: dict_append_def dict_group_def)

lemma dict_append_keys:
  "fst ` set (dict_append k v d) = insert k (fst ` set d)"
  by (simp add: dict_append_def keys_update)

lemma dict_group_nonempty_key:
  "dict_group d k \<noteq> [] \<Longrightarrow> k \<in> fst ` set d"
  by (force simp: dict_group_def split: option.splits dest!: map_of_SomeD)

end
