(* ===== verification/Json_Value.thy ===== *)
theory Json_Value
  imports Py_Dict
begin

text \<open>
  The values \<open>json.loads\<close> returns, with Python's operations on them: \<open>==\<close> (which ignores the
  order of a dict's keys and identifies \<open>True\<close> with 1 and \<open>False\<close> with 0), \<open>in\<close>, and indexing
  by a string. Numbers are integers; objects the Kubernetes API returns hold no others.
  \<open>json_eq\<close> is shown to be equality of a canonical form, hence an equivalence.
\<close>

datatype json =
    JNull
  | JBool bool
  | JInt int
  | JStr string
  | JList "json list"
  | JObj "(string \<times> json) list"

lemma json_induct [case_names JNull JBool JInt JStr JList JObj, induct type: json]:
  assumes "P JNull" "\<And>b. P (JBool b)" "\<And>i. P (JInt i)" "\<And>s. P (JStr s)"
    and "\<And>xs. (\<And>x. x \<in> set xs \<Longrightarrow> P x) \<Longrightarrow> P (JList xs)"
    and "\<And>kvs. (\<And>k v. (k, v) \<in> set kvs \<Longrightarrow> P v) \<Longrightarrow> P (JObj kvs)"
  shows "P j"
proof (induction j rule: json.induct)
  case (JObj kvs)
  show ?case
  proof (rule assms(6))
    fix k v
    assume "(k, v) \<in> set kvs"
    then show "P v" by (rule JObj) (simp add: snds.intros)
  qed
qed (use assms in blast)+

lemma json_size_member [termination_simp]:
  "x \<in> set xs \<Longrightarrow> size x < Suc (size_list size xs)"
  by (induction xs) auto

lemma json_size_entry [termination_simp]:
  "(k, v) \<in> set kvs \<Longrightarrow> size v < Suc (size_list (size_prod (\<lambda>x. 0) size) kvs)"
  by (induction kvs) auto

lemma json_size_lookup [termination_simp]:
  "map_of kvs k = Some v \<Longrightarrow> size v < Suc (size_list (size_prod (\<lambda>x. 0) size) kvs)"
  using json_size_entry [OF map_of_SomeD] .

definition is_dict :: "json \<Rightarrow> bool" where
  "is_dict j \<longleftrightarrow> (case j of JObj _ \<Rightarrow> True | _ \<Rightarrow> False)"

definition is_list :: "json \<Rightarrow> bool" where
  "is_list j \<longleftrightarrow> (case j of JList _ \<Rightarrow> True | _ \<Rightarrow> False)"

lemma is_dict_simps [simp]:
  "is_dict (JObj m)" "\<not> is_dict JNull" "\<not> is_dict (JBool b)" "\<not> is_dict (JInt i)"
  "\<not> is_dict (JStr s)" "\<not> is_dict (JList xs)"
  by (simp_all add: is_dict_def)

lemma is_list_simps [simp]:
  "is_list (JList xs)" "\<not> is_list JNull" "\<not> is_list (JBool b)" "\<not> is_list (JInt i)"
  "\<not> is_list (JStr s)" "\<not> is_list (JObj m)"
  by (simp_all add: is_list_def)

lemma is_dict_iff: "is_dict j \<longleftrightarrow> (\<exists>m. j = JObj m)"
  by (cases j) auto

lemma is_list_iff: "is_list j \<longleftrightarrow> (\<exists>xs. j = JList xs)"
  by (cases j) auto

text \<open>A value a Python program can hold: the keys of every dict are distinct.\<close>

fun wf_json :: "json \<Rightarrow> bool" where
  "wf_json (JList xs) = (\<forall>x\<in>set xs. wf_json x)"
| "wf_json (JObj kvs) = (dict_ok kvs \<and> (\<forall>(k, v)\<in>set kvs. wf_json v))"
| "wf_json j = True"

lemma wf_json_lookup: "wf_json (JObj kvs) \<Longrightarrow> map_of kvs k = Some v \<Longrightarrow> wf_json v"
  by (auto dest: map_of_SomeD)

lemma wf_json_Cons:
  "wf_json (JObj ((k, v) # kvs)) \<longleftrightarrow> k \<notin> fst ` set kvs \<and> wf_json v \<and> wf_json (JObj kvs)"
  by (auto simp: dict_ok_def)

section \<open>Equality\<close>

fun num_of :: "json \<Rightarrow> int option" where
  "num_of (JBool b) = Some (if b then 1 else 0)"
| "num_of (JInt i) = Some i"
| "num_of j = None"

fun json_eq :: "json \<Rightarrow> json \<Rightarrow> bool"
  and json_list_eq :: "json list \<Rightarrow> json list \<Rightarrow> bool"
  and json_obj_sub :: "(string \<times> json) list \<Rightarrow> (string \<times> json) list \<Rightarrow> bool" where
  "json_eq JNull y = (y = JNull)"
| "json_eq (JBool b) y = (num_of y = Some (if b then 1 else 0))"
| "json_eq (JInt i) y = (num_of y = Some i)"
| "json_eq (JStr s) y = (y = JStr s)"
| "json_eq (JList xs) y = (case y of JList ys \<Rightarrow> json_list_eq xs ys | _ \<Rightarrow> False)"
| "json_eq (JObj kvs) y =
     (case y of JObj kvs' \<Rightarrow> length kvs = length kvs' \<and> json_obj_sub kvs kvs' | _ \<Rightarrow> False)"
| "json_list_eq [] ys = (ys = [])"
| "json_list_eq (x # xs) ys =
     (case ys of [] \<Rightarrow> False | y # ys' \<Rightarrow> json_eq x y \<and> json_list_eq xs ys')"
| "json_obj_sub [] m = True"
| "json_obj_sub ((k, v) # kvs) m =
     ((case map_of m k of None \<Rightarrow> False | Some w \<Rightarrow> json_eq v w) \<and> json_obj_sub kvs m)"

lemma json_list_eq_iff: "json_list_eq xs ys \<longleftrightarrow> list_all2 json_eq xs ys"
  by (induction xs arbitrary: ys) (auto split: list.splits)

lemma json_obj_sub_iff:
  "json_obj_sub a b \<longleftrightarrow> (\<forall>(k, v)\<in>set a. \<exists>w. map_of b k = Some w \<and> json_eq v w)"
  by (induction a) (auto split: option.splits)

text \<open>The canonical form: keys in order at every level, booleans as the integers they equal.\<close>

fun json_canon :: "json \<Rightarrow> json" where
  "json_canon (JBool b) = JInt (if b then 1 else 0)"
| "json_canon (JList xs) = JList (map json_canon xs)"
| "json_canon (JObj kvs) = JObj (sort_key fst (map (\<lambda>(k, v). (k, json_canon v)) kvs))"
| "json_canon j = j"

lemma sort_key_fst_eq_iff:
  fixes a b :: "('k::linorder \<times> 'v) list"
  assumes "dict_ok a" "dict_ok b"
  shows "sort_key fst a = sort_key fst b \<longleftrightarrow> set a = set b"
proof
  assume "sort_key fst a = sort_key fst b"
  then show "set a = set b" by (metis set_sort)
next
  assume eq: "set a = set b"
  have d: "distinct (map fst (sort_key fst x))" if "dict_ok x" for x :: "('k \<times> 'v) list"
    using that unfolding dict_ok_def
    by (metis distinct_map distinct_sort set_sort)
  have "inj_on fst (set (sort_key fst a) \<union> set (sort_key fst b))"
    using eq assms(2) by (simp add: dict_ok_def distinct_map)
  then show "sort_key fst a = sort_key fst b"
    using eq d[OF assms(1)] d[OF assms(2)]
    by (intro map_sorted_distinct_set_unique[of fst]) simp_all
qed

lemma dict_set_eq_iff:
  assumes "dict_ok a" "dict_ok b"
  shows "set a = set b \<longleftrightarrow> map_of a = map_of b"
  using assms by (simp add: dict_ok_def map_of_inject_set)

lemma dict_same_keys:
  assumes "dict_ok a" "dict_ok b" "length a = length b" "fst ` set a \<subseteq> fst ` set b"
  shows "fst ` set a = fst ` set b"
proof -
  have "card (fst ` set a) = length a" "card (fst ` set b) = length b"
    using assms(1,2) by (metis dict_ok_def distinct_card length_map list.set_map)+
  with assms(3,4) show ?thesis by (simp add: card_subset_eq)
qed

lemma dict_length_keys:
  assumes "dict_ok a" "dict_ok b" "fst ` set a = fst ` set b"
  shows "length a = length b"
  using assms by (metis dict_ok_def distinct_card length_map list.set_map)

text \<open>Two dicts are equal exactly when they have the same keys and equal values under them.\<close>

lemma json_eq_JObj:
  assumes "dict_ok a" "dict_ok b"
  shows "json_eq (JObj a) (JObj b) \<longleftrightarrow> (\<forall>k. rel_option json_eq (map_of a k) (map_of b k))"
proof
  assume eq: "json_eq (JObj a) (JObj b)"
  then have sub: "\<And>k v. (k, v) \<in> set a \<Longrightarrow> \<exists>w. map_of b k = Some w \<and> json_eq v w"
    by (auto simp: json_obj_sub_iff)
  then have "fst ` set a \<subseteq> fst ` set b"
    by (force dest: map_of_SomeD)
  then have keys: "fst ` set a = fst ` set b"
    using eq assms by (intro dict_same_keys) auto
  show "\<forall>k. rel_option json_eq (map_of a k) (map_of b k)"
  proof
    fix k
    show "rel_option json_eq (map_of a k) (map_of b k)"
    proof (cases "map_of a k")
      case None
      then have "map_of b k = None" using keys by (simp add: map_of_eq_None_iff)
      with None show ?thesis by simp
    next
      case (Some v)
      then show ?thesis using sub[OF map_of_SomeD[OF Some]] by auto
    qed
  qed
next
  assume r: "\<forall>k. rel_option json_eq (map_of a k) (map_of b k)"
  have "dom (map_of a) = dom (map_of b)"
    using r by (auto simp: dom_def) (metis option.rel_distinct(1,2) option.exhaust)+
  then have "length a = length b"
    using assms by (intro dict_length_keys) (simp_all add: dom_map_of_conv_image_fst)
  moreover have "json_obj_sub a b"
    unfolding json_obj_sub_iff
  proof safe
    fix k v
    assume "(k, v) \<in> set a"
    then have "map_of a k = Some v" using assms(1) by (simp add: dict_ok_map_of)
    then have "rel_option json_eq (Some v) (map_of b k)" using r by metis
    then show "\<exists>w. map_of b k = Some w \<and> json_eq v w" by (cases "map_of b k") auto
  qed
  ultimately show "json_eq (JObj a) (JObj b)" by simp
qed

lemma dict_ok_map_snd [simp]: "dict_ok (map (\<lambda>(k, v). (k, f v)) d) \<longleftrightarrow> dict_ok d"
  by (simp add: dict_ok_def comp_def case_prod_unfold)

lemma json_canon_JObj_iff:
  assumes "dict_ok a" "dict_ok b"
  shows "json_canon (JObj a) = json_canon (JObj b) \<longleftrightarrow>
    (\<forall>k. map_option json_canon (map_of a k) = map_option json_canon (map_of b k))"
proof -
  let ?f = "map (\<lambda>(k, v). (k, json_canon v))"
  have "set (?f a) = set (?f b) \<longleftrightarrow> map_of (?f a) = map_of (?f b)"
    using assms by (intro dict_set_eq_iff) simp_all
  moreover have "sort_key fst (?f a) = sort_key fst (?f b) \<longleftrightarrow> set (?f a) = set (?f b)"
    using assms by (intro sort_key_fst_eq_iff) simp_all
  ultimately show ?thesis by (simp add: fun_eq_iff map_of_map_snd)
qed

lemma json_eq_canon:
  "wf_json x \<Longrightarrow> wf_json y \<Longrightarrow> json_eq x y \<longleftrightarrow> json_canon x = json_canon y"
proof (induction x arbitrary: y rule: json_induct)
  case (JList xs)
  then show ?case
    by (cases y) (auto simp: json_list_eq_iff list_all2_conv_all_nth list_eq_iff_nth_eq)
next
  case (JObj a)
  show ?case
  proof (cases "\<exists>b. y = JObj b")
    case True
    then obtain b where y: "y = JObj b" by blast
    have ok: "dict_ok a" "dict_ok b" using JObj.prems y by auto
    have "rel_option json_eq (map_of a k) (map_of b k) \<longleftrightarrow>
        map_option json_canon (map_of a k) = map_option json_canon (map_of b k)" for k
    proof (cases "map_of a k")
      case None
      then show ?thesis by (cases "map_of b k") auto
    next
      case (Some v)
      show ?thesis
      proof (cases "map_of b k")
        case None
        with Some show ?thesis by simp
      next
        case (Some w)
        with \<open>map_of a k = Some v\<close> JObj y show ?thesis
          by (metis map_of_SomeD option.map(2) option.rel_inject(2) option.sel wf_json_lookup)
      qed
    qed
    then show ?thesis
      unfolding y json_eq_JObj[OF ok] json_canon_JObj_iff[OF ok] by simp
  next
    case False
    then show ?thesis by (cases y) auto
  qed
next
  case (JBool b)
  then show ?case by (cases y) auto
next
  case (JInt i)
  then show ?case by (cases y) auto
next
  case (JStr s)
  then show ?case by (cases y) auto
next
  case JNull
  then show ?case by (cases y) auto
qed

text \<open>Python's equality on these values is an equivalence relation.\<close>

lemma json_eq_refl: "wf_json x \<Longrightarrow> json_eq x x"
  by (simp add: json_eq_canon)

lemma json_eq_sym: "wf_json x \<Longrightarrow> wf_json y \<Longrightarrow> json_eq x y \<longleftrightarrow> json_eq y x"
  by (auto simp: json_eq_canon)

lemma json_eq_trans:
  "wf_json x \<Longrightarrow> wf_json y \<Longrightarrow> wf_json z \<Longrightarrow> json_eq x y \<Longrightarrow> json_eq y z \<Longrightarrow> json_eq x z"
  by (simp add: json_eq_canon)

lemma json_eq_kinds:
  "json_eq x y \<Longrightarrow> is_dict x = is_dict y" "json_eq x y \<Longrightarrow> is_list x = is_list y"
  by (cases x; cases y; simp)+

section \<open>Membership and indexing\<close>

text \<open>\<open>s in j\<close> for a string \<open>s\<close>, and \<open>j[s]\<close>.\<close>

definition py_in :: "string \<Rightarrow> json \<Rightarrow> bool res" where
  "py_in s j = (case j of
       JObj m \<Rightarrow> Inr (map_of m s \<noteq> None)
     | JList xs \<Rightarrow> Inr (list_ex (json_eq (JStr s)) xs)
     | JStr t \<Rightarrow> Inr (py_contains s t)
     | _ \<Rightarrow> Inl TypeError)"

definition py_getitem :: "json \<Rightarrow> string \<Rightarrow> json res" where
  "py_getitem j s = (case j of
       JObj m \<Rightarrow> from_option KeyError (map_of m s)
     | _ \<Rightarrow> Inl TypeError)"

lemma py_in_JObj [simp]: "py_in s (JObj m) = Inr (map_of m s \<noteq> None)"
  by (simp add: py_in_def)

lemma py_getitem_JObj [simp]: "py_getitem (JObj m) s = from_option KeyError (map_of m s)"
  by (simp add: py_getitem_def)

end
