(* ===== verification/Json_Text.thy ===== *)
theory Json_Text
  imports Json_Value
begin

text \<open>
  \<open>json.dumps(v, sort_keys=True)\<close> and \<open>json.loads(s)\<close> of Python's standard library on the values
  of \<open>json\<close>: the encoder with the default separators and ASCII escapes, the decoder with its
  scanner for strings, numbers, arrays and objects. The decoder's recursion is bounded by the
  length of the text (\<open>loads\<close> never runs out of fuel), and it inverts the encoder.
\<close>

abbreviation (input) quote_char :: char where "quote_char \<equiv> CHR 0x22"
abbreviation (input) backslash :: char where "backslash \<equiv> CHR 0x5C"

section \<open>Encoding\<close>

definition hex_char :: "nat \<Rightarrow> char" where
  "hex_char d = (if d < 10 then digit_char d else char_of (d + 87))"

definition esc_char :: "char \<Rightarrow> string" where
  "esc_char c =
     (if c = quote_char then [backslash, quote_char]
      else if c = backslash then [backslash, backslash]
      else if c = CHR 0x0A then [backslash, CHR ''n'']
      else if c = CHR 0x0D then [backslash, CHR ''r'']
      else if c = CHR 0x09 then [backslash, CHR ''t'']
      else if c = CHR 0x0C then [backslash, CHR ''f'']
      else if c = CHR 0x08 then [backslash, CHR ''b'']
      else if 32 \<le> (of_char c :: nat) \<and> (of_char c :: nat) \<le> 126 then [c]
      else [backslash, CHR ''u'', CHR ''0'', CHR ''0'',
            hex_char (of_char c div 16), hex_char (of_char c mod 16)])"

definition dump_str :: "string \<Rightarrow> string" where
  "dump_str s = quote_char # concat (map esc_char s) @ [quote_char]"

fun emit :: "json \<Rightarrow> string" where
  "emit JNull = ''null''"
| "emit (JBool b) = (if b then ''true'' else ''false'')"
| "emit (JInt i) = int_str i"
| "emit (JStr s) = dump_str s"
| "emit (JList xs) = ''['' @ py_join '', '' (map emit xs) @ '']''"
| "emit (JObj kvs) =
     ''{'' @ py_join '', '' (map (\<lambda>(k, v). dump_str k @ '': '' @ emit v) kvs) @ ''}''"

fun sort_keys :: "json \<Rightarrow> json" where
  "sort_keys (JList xs) = JList (map sort_keys xs)"
| "sort_keys (JObj kvs) = JObj (sort_key fst (map (\<lambda>(k, v). (k, sort_keys v)) kvs))"
| "sort_keys j = j"

definition dumps :: "json \<Rightarrow> string" where
  "dumps j = emit (sort_keys j)"

section \<open>Decoding\<close>

definition hex_val :: "char \<Rightarrow> nat option" where
  "hex_val c = (let n = of_char c :: nat in
     if 48 \<le> n \<and> n \<le> 57 then Some (n - 48)
     else if 97 \<le> n \<and> n \<le> 102 then Some (n - 87)
     else if 65 \<le> n \<and> n \<le> 70 then Some (n - 55)
     else None)"

definition unescape :: "char \<Rightarrow> char option" where
  "unescape e = map_of [(quote_char, quote_char), (backslash, backslash), (CHR ''/'', CHR ''/''),
     (CHR ''b'', CHR 0x08), (CHR ''f'', CHR 0x0C), (CHR ''n'', CHR 0x0A), (CHR ''r'', CHR 0x0D),
     (CHR ''t'', CHR 0x09)] e"

definition cons_char :: "char \<Rightarrow> (string \<times> string) res \<Rightarrow> (string \<times> string) res" where
  "cons_char c m = res_bind m (\<lambda>(t, r). Inr (c # t, r))"

text \<open>One escape sequence, the text after its backslash.\<close>

definition scan_esc :: "string \<Rightarrow> (char \<times> string) res" where
  "scan_esc s = (case s of
       [] \<Rightarrow> Inl ValueError
     | e # r \<Rightarrow>
         if e = CHR ''u'' then
           (case r of
              h1 # h2 # h3 # h4 # r' \<Rightarrow>
                (case (hex_val h1, hex_val h2, hex_val h3, hex_val h4) of
                   (Some a, Some b, Some x, Some y) \<Rightarrow>
                     if a = 0 \<and> b = 0 then Inr (char_of (16 * x + y), r') else Inl OutOfModel
                 | _ \<Rightarrow> Inl ValueError)
            | _ \<Rightarrow> Inl ValueError)
         else (case unescape e of Some ch \<Rightarrow> Inr (ch, r) | None \<Rightarrow> Inl ValueError))"

lemma scan_esc_shorter [termination_simp]: "scan_esc s = Inr (ch, r) \<Longrightarrow> length r < length s"
  by (auto simp: scan_esc_def split: list.splits if_splits option.splits)

lemma scan_esc_fuel: "scan_esc s \<noteq> Inl OutOfFuel"
  by (auto simp: scan_esc_def split: list.splits option.splits)

text \<open>The text after the opening quote, up to and including the closing quote.\<close>

function scan_str :: "string \<Rightarrow> (string \<times> string) res" where
  "scan_str [] = Inl ValueError"
| "scan_str (c # cs) =
     (if c = quote_char then Inr ([], cs)
      else if c = backslash then
        res_bind (scan_esc cs) (\<lambda>p. cons_char (fst p) (scan_str (snd p)))
      else if (of_char c :: nat) < 32 then Inl ValueError
      else cons_char c (scan_str cs))"
  by pat_completeness auto
termination
proof (relation "measure length")
  fix c cs p
  assume "scan_esc cs = Inr p"
  then have "length (snd p) < length cs" by (cases p) (auto dest: scan_esc_shorter)
  then show "(snd p, c # cs) \<in> measure length" by simp
qed simp_all

definition json_ws :: "char \<Rightarrow> bool" where
  "json_ws c \<longleftrightarrow> c = CHR '' '' \<or> c = CHR 0x09 \<or> c = CHR 0x0A \<or> c = CHR 0x0D"

definition skip_ws :: "string \<Rightarrow> string" where
  "skip_ws s = dropWhile json_ws s"

definition has_frac :: "string \<Rightarrow> bool" where
  "has_frac s \<longleftrightarrow> (case s of a # b # _ \<Rightarrow> a = CHR ''.'' \<and> is_digit b | _ \<Rightarrow> False)"

definition has_exp :: "string \<Rightarrow> bool" where
  "has_exp s \<longleftrightarrow> (case s of
       a # b # r \<Rightarrow> (a = CHR ''e'' \<or> a = CHR ''E'') \<and>
         (is_digit b \<or> ((b = CHR ''+'' \<or> b = CHR ''-'') \<and> r \<noteq> [] \<and> is_digit (hd r)))
     | _ \<Rightarrow> False)"

definition scan_nat :: "string \<Rightarrow> (nat \<times> string) res" where
  "scan_nat s = (case s of
       [] \<Rightarrow> Inl ValueError
     | d # ds \<Rightarrow>
         if d = CHR ''0'' then Inr (0, ds)
         else if is_digit d then Inr (digits_val (takeWhile is_digit s), dropWhile is_digit s)
         else Inl ValueError)"

definition scan_num :: "string \<Rightarrow> (json \<times> string) res" where
  "scan_num s =
     (let neg = (s \<noteq> [] \<and> hd s = CHR ''-'') in
      res_bind (scan_nat (if neg then tl s else s)) (\<lambda>(n, r).
        if has_frac r \<or> has_exp r then Inl OutOfModel
        else Inr (JInt (if neg then - int n else int n), r)))"

definition dict_of :: "('k \<times> 'v) list \<Rightarrow> ('k, 'v) dict" where
  "dict_of kvs = foldl (\<lambda>d (k, v). AList.update k v d) [] kvs"

fun scan_value :: "nat \<Rightarrow> string \<Rightarrow> (json \<times> string) res"
  and scan_elems :: "nat \<Rightarrow> string \<Rightarrow> (json list \<times> string) res"
  and scan_members :: "nat \<Rightarrow> string \<Rightarrow> ((string \<times> json) list \<times> string) res" where
  "scan_value 0 s = Inl OutOfFuel"
| "scan_value (Suc n) s = (case s of
     [] \<Rightarrow> Inl ValueError
   | c # cs \<Rightarrow>
       if c = quote_char then res_bind (scan_str cs) (\<lambda>(t, r). Inr (JStr t, r))
       else if c = CHR ''['' then
         (case skip_ws cs of
            [] \<Rightarrow> Inl ValueError
          | d # ds \<Rightarrow>
              if d = CHR '']'' then Inr (JList [], ds)
              else res_bind (scan_elems n (d # ds)) (\<lambda>(xs, r). Inr (JList xs, r)))
       else if c = CHR ''{'' then
         (case skip_ws cs of
            [] \<Rightarrow> Inl ValueError
          | d # ds \<Rightarrow>
              if d = CHR ''}'' then Inr (JObj [], ds)
              else if d = quote_char then
                res_bind (scan_members n ds) (\<lambda>(kvs, r). Inr (JObj (dict_of kvs), r))
              else Inl ValueError)
       else if py_startswith s ''null'' then Inr (JNull, drop 4 s)
       else if py_startswith s ''true'' then Inr (JBool True, drop 4 s)
       else if py_startswith s ''false'' then Inr (JBool False, drop 5 s)
       else scan_num s)"
| "scan_elems 0 s = Inl OutOfFuel"
| "scan_elems (Suc n) s = res_bind (scan_value n s) (\<lambda>(x, r). case skip_ws r of
     [] \<Rightarrow> Inl ValueError
   | c # cs \<Rightarrow>
       if c = CHR '']'' then Inr ([x], cs)
       else if c = CHR '','' then
         res_bind (scan_elems n (skip_ws cs)) (\<lambda>(xs, r'). Inr (x # xs, r'))
       else Inl ValueError)"
| "scan_members 0 s = Inl OutOfFuel"
| "scan_members (Suc n) s = res_bind (scan_str s) (\<lambda>(k, r). case skip_ws r of
     [] \<Rightarrow> Inl ValueError
   | c # cs \<Rightarrow>
       if c \<noteq> CHR '':'' then Inl ValueError
       else res_bind (scan_value n (skip_ws cs)) (\<lambda>(v, r'). case skip_ws r' of
              [] \<Rightarrow> Inl ValueError
            | d # ds \<Rightarrow>
                if d = CHR ''}'' then Inr ([(k, v)], ds)
                else if d = CHR '','' then
                  (case skip_ws ds of
                     [] \<Rightarrow> Inl ValueError
                   | q # qs \<Rightarrow>
                       if q = quote_char then
                         res_bind (scan_members n qs) (\<lambda>(kvs, r''). Inr ((k, v) # kvs, r''))
                       else Inl ValueError)
                else Inl ValueError))"

definition loads :: "string \<Rightarrow> json res" where
  "loads s = res_bind (scan_value (2 * length s + 2) (skip_ws s)) (\<lambda>(v, r).
     if skip_ws r = [] then Inr v else Inl ValueError)"

section \<open>The decoder consumes its input\<close>

lemma cons_char_eq_Inr [res_simps]:
  "cons_char c m = Inr p \<longleftrightarrow> (\<exists>t r. m = Inr (t, r) \<and> p = (c # t, r))"
  by (auto simp: cons_char_def res_simps)

lemma cons_char_eq_Inl [res_simps]: "cons_char c m = Inl e \<longleftrightarrow> m = Inl e"
  by (auto simp: cons_char_def res_simps)

lemma scan_str_shorter: "scan_str s = Inr (t, r) \<Longrightarrow> length r < length s"
proof (induction s arbitrary: t r rule: scan_str.induct)
  case 1
  then show ?case by simp
next
  case (2 c cs)
  then show ?case
    by (fastforce simp: res_simps split: if_splits dest: scan_esc_shorter)
qed

lemma scan_num_shorter: "scan_num s = Inr (v, r) \<Longrightarrow> length r < length s"
proof -
  have n: "length r' < length s'" if "scan_nat s' = Inr (n, r')" for s' r' n
    using that
    by (auto simp: scan_nat_def split: list.splits if_splits
        intro: le_imp_less_Suc length_dropWhile_le)
  assume "scan_num s = Inr (v, r)"
  then show "length r < length s"
    by (cases s) (auto simp: scan_num_def res_simps Let_def split: if_splits dest!: n)
qed

lemma skip_ws_length: "length (skip_ws s) \<le> length s"
  by (simp add: skip_ws_def length_dropWhile_le)

lemma skip_ws_Cons: "skip_ws s = c # cs \<Longrightarrow> length cs < length s"
  using skip_ws_length[of s] by simp

lemma less_skip_ws: "n < length (skip_ws s) \<Longrightarrow> n < length s"
  using skip_ws_length[of s] by simp

lemma scan_shorter_all:
  "(\<forall>s v r. scan_value n s = Inr (v, r) \<longrightarrow> length r < length s) \<and>
   (\<forall>s xs r. scan_elems n s = Inr (xs, r) \<longrightarrow> length r < length s) \<and>
   (\<forall>s kvs r. scan_members n s = Inr (kvs, r) \<longrightarrow> length r < length s)"
proof (induction n)
  case 0
  then show ?case by simp
next
  case (Suc n)
  have v: "length r < length s" if "scan_value n s = Inr (v, r)" for s v r
    using Suc that by blast
  have e: "length r < length s" if "scan_elems n s = Inr (xs, r)" for s xs r
    using Suc that by blast
  have m: "length r < length s" if "scan_members n s = Inr (kvs, r)" for s kvs r
    using Suc that by blast
  have "length r < length s" if "scan_value (Suc n) s = Inr (v, r)" for s v r
    using that
    by (auto simp: res_simps py_startswith_iff split: list.splits if_splits
        dest: scan_num_shorter dest!: scan_str_shorter skip_ws_Cons e m)
  moreover have "length r < length s" if a: "scan_elems (Suc n) s = Inr (xs, r)" for s xs r
  proof -
    from a obtain x r1 where 1: "scan_value n s = Inr (x, r1)"
      by (auto simp: res_simps)
    with a obtain c cs where 2: "skip_ws r1 = c # cs"
      by (cases "skip_ws r1") auto
    with a 1 have "r = cs \<or> (\<exists>ys. scan_elems n (skip_ws cs) = Inr (ys, r))"
      by (auto simp: res_simps split: if_splits)
    then have "length r \<le> length cs"
      using less_imp_le [OF less_skip_ws [OF e]] by blast
    with v[OF 1] skip_ws_Cons[OF 2] show ?thesis by simp
  qed
  moreover have "length r < length s" if a: "scan_members (Suc n) s = Inr (kvs, r)" for s kvs r
  proof -
    from a obtain k r1 where 1: "scan_str s = Inr (k, r1)"
      by (auto simp: res_simps)
    with a obtain c cs where 2: "skip_ws r1 = c # cs"
      by (cases "skip_ws r1") auto
    with a 1 obtain w r2 where 3: "scan_value n (skip_ws cs) = Inr (w, r2)"
      by (auto simp: res_simps split: if_splits)
    with a 1 2 obtain d ds where 4: "skip_ws r2 = d # ds"
      by (cases "skip_ws r2") (auto split: if_splits)
    with a 1 2 3 have "r = ds \<or>
        (\<exists>q qs kvs'. skip_ws ds = q # qs \<and> scan_members n qs = Inr (kvs', r))"
      by (cases "skip_ws ds") (auto simp: res_simps split: if_splits)
    then have "length r \<le> length ds"
      using m skip_ws_Cons by (metis less_imp_le order.strict_trans order_refl)
    with less_skip_ws[OF v[OF 3]] scan_str_shorter[OF 1] skip_ws_Cons[OF 2]
      skip_ws_Cons[OF 4] show ?thesis by simp
  qed
  ultimately show ?case by blast
qed

lemma scan_shorter:
  "scan_value n s = Inr (v, r) \<Longrightarrow> length r < length s"
  "scan_elems n s = Inr (xs, r) \<Longrightarrow> length r < length s"
  "scan_members n s = Inr (kvs, r) \<Longrightarrow> length r < length s"
  using scan_shorter_all by blast+

text \<open>Fuel twice the length of the text is enough: every call consumes a character.\<close>

lemma scan_str_fuel: "scan_str s \<noteq> Inl OutOfFuel"
proof (induction s rule: scan_str.induct)
  case 1
  then show ?case by simp
next
  case (2 c cs)
  then show ?case by (auto simp: res_simps scan_esc_fuel)
qed

lemma scan_num_fuel: "scan_num s \<noteq> Inl OutOfFuel"
  by (auto simp: scan_num_def scan_nat_def res_simps Let_def split: list.splits if_splits)

lemma scan_fuel_all:
  "(\<forall>s. 2 * length s < n \<longrightarrow> scan_value n s \<noteq> Inl OutOfFuel) \<and>
   (\<forall>s. 2 * length s + 1 < n \<longrightarrow> scan_elems n s \<noteq> Inl OutOfFuel) \<and>
   (\<forall>s. 2 * length s + 1 < n \<longrightarrow> scan_members n s \<noteq> Inl OutOfFuel)"
proof (induction n)
  case 0
  then show ?case by simp
next
  case (Suc n)
  have v: "scan_value n s \<noteq> Inl OutOfFuel" if "2 * length s < n" for s
    using Suc that by blast
  have e: "scan_elems n s \<noteq> Inl OutOfFuel" if "2 * length s + 1 < n" for s
    using Suc that by blast
  have m: "scan_members n s \<noteq> Inl OutOfFuel" if "2 * length s + 1 < n" for s
    using Suc that by blast
  have "scan_value (Suc n) s \<noteq> Inl OutOfFuel" if "2 * length s < Suc n" for s
  proof (cases s)
    case Nil
    then show ?thesis by simp
  next
    case (Cons c cs)
    have "length (skip_ws cs) \<le> length cs" by (rule skip_ws_length)
    with that Cons e[of "skip_ws cs"] m[of "tl (skip_ws cs)"] show ?thesis
      by (auto simp: res_simps scan_str_fuel scan_num_fuel split: list.splits)
  qed
  moreover have "scan_elems (Suc n) s \<noteq> Inl OutOfFuel" if b: "2 * length s + 1 < Suc n" for s
  proof -
    have "scan_value n s \<noteq> Inl OutOfFuel" using b by (intro v) simp
    moreover have "scan_elems n (skip_ws cs) \<noteq> Inl OutOfFuel"
      if "scan_value n s = Inr (x, r)" "skip_ws r = c # cs" for x r c cs
      using that b skip_ws_Cons[OF that(2)] skip_ws_length[of cs] scan_shorter(1)[OF that(1)]
      by (intro e) simp
    ultimately show ?thesis by (auto simp: res_simps split: list.splits)
  qed
  moreover have "scan_members (Suc n) s \<noteq> Inl OutOfFuel" if b: "2 * length s + 1 < Suc n" for s
  proof -
    have "scan_value n (skip_ws cs) \<noteq> Inl OutOfFuel"
      if "scan_str s = Inr (k, r)" "skip_ws r = c # cs" for k r c cs
      using that b skip_ws_Cons[OF that(2)] skip_ws_length[of cs] scan_str_shorter[OF that(1)]
      by (intro v) simp
    moreover have "scan_members n qs \<noteq> Inl OutOfFuel"
      if "scan_str s = Inr (k, r)" "skip_ws r = c # cs" "scan_value n (skip_ws cs) = Inr (w, r')"
        "skip_ws r' = d # ds" "skip_ws ds = q # qs" for k r c cs w r' d ds q qs
      using that b skip_ws_Cons[OF that(2)] skip_ws_length[of cs] scan_str_shorter[OF that(1)]
        scan_shorter(1)[OF that(3)] skip_ws_Cons[OF that(4)] skip_ws_Cons[OF that(5)]
      by (intro m) simp
    ultimately show ?thesis
      by (auto simp: res_simps scan_str_fuel split: list.splits)
  qed
  ultimately show ?case by blast
qed

lemma loads_fuel: "loads s \<noteq> Inl OutOfFuel"
proof -
  have "2 * length (skip_ws s) < 2 * length s + 2"
    using skip_ws_length[of s] by simp
  then have "scan_value (2 * length s + 2) (skip_ws s) \<noteq> Inl OutOfFuel"
    using scan_fuel_all by blast
  then show ?thesis by (auto simp: loads_def res_simps)
qed

section \<open>The decoder inverts the encoder\<close>

lemma hex_val_hex_char [simp]: "d < 16 \<Longrightarrow> hex_val (hex_char d) = Some d"
  by (auto simp: hex_val_def hex_char_def of_digit_char Let_def)

lemma hex_val_zero [simp]: "hex_val CHR ''0'' = Some 0"
  by (simp add: hex_val_def)

lemma scan_esc_u00:
  "scan_esc (CHR ''u'' # CHR ''0'' # CHR ''0'' # hex_char (of_char c div 16) #
     hex_char (of_char c mod 16) # r) = Inr (c, r)"
proof -
  have "(of_char c :: nat) < 256" by (rule nat_of_char_less_256)
  then have "(of_char c :: nat) div 16 < 16" by (simp add: less_mult_imp_div_less)
  then show ?thesis by (simp add: scan_esc_def)
qed

lemma unescape_simps [simp]:
  "unescape CHR ''n'' = Some CHR 0x0A" "unescape CHR ''r'' = Some CHR 0x0D"
  "unescape CHR ''t'' = Some CHR 0x09" "unescape CHR ''f'' = Some CHR 0x0C"
  "unescape CHR ''b'' = Some CHR 0x08" "unescape quote_char = Some quote_char"
  "unescape backslash = Some backslash"
  by (simp_all add: unescape_def)

lemma scan_esc_simple:
  "e \<noteq> CHR ''u'' \<Longrightarrow> unescape e = Some ch \<Longrightarrow> scan_esc (e # r) = Inr (ch, r)"
  by (simp add: scan_esc_def)

lemma scan_str_esc_char: "scan_str (esc_char c @ t) = cons_char c (scan_str t)"
  by (simp add: esc_char_def scan_esc_u00 scan_esc_simple)

lemma scan_str_dump: "scan_str (concat (map esc_char s) @ quote_char # r) = Inr (s, r)"
  by (induction s) (simp_all add: scan_str_esc_char cons_char_def)

definition ok_rest :: "string \<Rightarrow> bool" where
  "ok_rest r \<longleftrightarrow> r = [] \<or> hd r = CHR '','' \<or> hd r = CHR '']'' \<or> hd r = CHR ''}''"

lemma ok_rest_simps [simp]:
  "ok_rest []" "ok_rest (CHR '','' # r)" "ok_rest (CHR '']'' # r)" "ok_rest (CHR ''}'' # r)"
  by (simp_all add: ok_rest_def)

lemma scan_nat_nat_str:
  assumes "r = [] \<or> \<not> is_digit (hd r)"
  shows "scan_nat (nat_str n @ r) = Inr (n, r)"
proof (cases "n = 0")
  case True
  have "nat_str 0 = ''0''" by code_simp
  with True show ?thesis by (simp add: scan_nat_def)
next
  case False
  have take: "takeWhile is_digit (nat_str n @ r) = nat_str n"
    using assms nat_str_digits by (cases r) (auto simp: takeWhile_append2)
  have drop: "dropWhile is_digit (nat_str n @ r) = r"
    using assms nat_str_digits by (cases r) (auto simp: dropWhile_append2)
  have "hd (nat_str m) \<noteq> CHR ''0'' \<or> m = 0" for m
  proof (induction m rule: nat_str.induct)
    case (1 m)
    show ?case
    proof (cases "m < 10")
      case True
      then have "of_char (digit_char m) = m + (48 :: nat)" by (rule of_digit_char)
      then have "m \<noteq> 0 \<Longrightarrow> digit_char m \<noteq> CHR ''0''" by auto
      with True show ?thesis by (subst nat_str.simps) auto
    next
      case False
      with 1 show ?thesis by (subst nat_str.simps) auto
    qed
  qed
  with False have "hd (nat_str n) \<noteq> CHR ''0''" by blast
  moreover have "is_digit (hd (nat_str n))" using nat_str_digits hd_in_set nat_str_nonempty by blast
  ultimately show ?thesis
    using take drop digits_val_nat_str[of n] by (cases "nat_str n") (auto simp: scan_nat_def)
qed

lemma not_digit_seps [simp]:
  "\<not> is_digit CHR '',''" "\<not> is_digit CHR '']''" "\<not> is_digit CHR ''}''" "\<not> is_digit CHR ''-''"
  by (simp_all add: is_digit_def)

lemma ok_rest_number:
  "ok_rest r \<Longrightarrow> r = [] \<or> \<not> is_digit (hd r)" "ok_rest r \<Longrightarrow> \<not> has_frac r" "ok_rest r \<Longrightarrow> \<not> has_exp r"
  by (auto simp: ok_rest_def has_frac_def has_exp_def split: list.splits)

lemma scan_num_int_str: "ok_rest r \<Longrightarrow> scan_num (int_str i @ r) = Inr (JInt i, r)"
proof -
  assume r: "ok_rest r"
  have "hd (nat_str n) \<noteq> CHR ''-''" for n
    using nat_str_digits[of n] is_digit_not_special(2) by (metis hd_in_set nat_str_nonempty)
  then show ?thesis
    using scan_nat_nat_str[OF ok_rest_number(1)[OF r]] ok_rest_number(2,3)[OF r]
    by (auto simp: scan_num_def int_str_def Let_def)
qed

lemma int_str_head:
  obtains c cs where "int_str i = c # cs" "is_digit c \<or> c = CHR ''-''"
proof (cases "i < 0")
  case True
  then show ?thesis using that by (simp add: int_str_def)
next
  case False
  then show ?thesis
    using that nat_str_digits[of "nat i"] nat_str_nonempty[of "nat i"]
    by (cases "nat_str (nat i)") (auto simp: int_str_def)
qed

lemma emit_head:
  obtains c cs where "emit j = c # cs" "\<not> json_ws c" "c \<noteq> CHR '']''" "c \<noteq> CHR ''}''"
proof (cases j)
  case (JInt i)
  obtain c cs where c: "int_str i = c # cs" "is_digit c \<or> c = CHR ''-''" by (rule int_str_head)
  then have "\<not> json_ws c" "c \<noteq> CHR '']''" "c \<noteq> CHR ''}''"
    by (auto simp: json_ws_def is_digit_def)
  with c JInt that show ?thesis by simp
next
  case (JBool b)
  then show ?thesis using that by (cases b) (auto simp: json_ws_def)
qed (use that in \<open>auto simp: json_ws_def dump_str_def\<close>)

lemma skip_ws_emit [simp]: "skip_ws (emit j @ r) = emit j @ r"
proof -
  obtain c cs where "emit j = c # cs" "\<not> json_ws c" by (rule emit_head)
  then show ?thesis by (simp add: skip_ws_def)
qed

lemma skip_ws_simps [simp]:
  "skip_ws [] = []" "skip_ws (CHR '' '' # r) = skip_ws r" "skip_ws (CHR '','' # r) = CHR '','' # r"
  "skip_ws (CHR '']'' # r) = CHR '']'' # r" "skip_ws (CHR ''}'' # r) = CHR ''}'' # r"
  "skip_ws (CHR '':'' # r) = CHR '':'' # r" "skip_ws (quote_char # r) = quote_char # r"
  by (simp_all add: skip_ws_def json_ws_def)

lemma scan_elems_emit:
  assumes "xs \<noteq> []" and "2 * length (py_join '', '' (map emit xs)) + 1 < n"
    and "\<And>x m r. x \<in> set xs \<Longrightarrow> ok_rest r \<Longrightarrow> 2 * length (emit x) < m \<Longrightarrow>
      scan_value m (emit x @ r) = Inr (x, r)"
  shows "scan_elems n (py_join '', '' (map emit xs) @ CHR '']'' # r) = Inr (xs, r)"
  using assms
proof (induction xs arbitrary: n)
  case Nil
  then show ?case by simp
next
  case (Cons x xs)
  obtain n' where n: "n = Suc n'" using Cons.prems(2) by (cases n) auto
  show ?case
  proof (cases "xs = []")
    case True
    have "scan_value n' (emit x @ CHR '']'' # r) = Inr (x, CHR '']'' # r)"
      using Cons.prems n True by simp
    with n True show ?thesis by simp
  next
    case False
    let ?rest = "py_join '', '' (map emit xs) @ CHR '']'' # r"
    have join: "py_join '', '' (map emit (x # xs)) = emit x @ '', '' @ py_join '', '' (map emit xs)"
      using False by (simp add: py_join_Cons)
    have "scan_value n' (emit x @ CHR '','' # CHR '' '' # ?rest) = Inr (x, CHR '','' # CHR '' '' # ?rest)"
      using Cons.prems n join by simp
    moreover have "scan_elems n' ?rest = Inr (xs, r)"
      using Cons.prems n join False by (intro Cons.IH) simp_all
    moreover have "skip_ws ?rest = ?rest"
      using False by (cases xs; cases "tl xs") simp_all
    ultimately show ?thesis using n join by simp
  qed
qed

abbreviation (input) emit_entry :: "string \<times> json \<Rightarrow> string" where
  "emit_entry \<equiv> \<lambda>(k, v). dump_str k @ '': '' @ emit v"

lemma dump_str_eq: "dump_str k @ r = quote_char # concat (map esc_char k) @ quote_char # r"
  by (simp add: dump_str_def)

lemma scan_members_emit:
  assumes "kvs \<noteq> []" and "2 * length (py_join '', '' (map emit_entry kvs)) < n"
    and "\<And>k v m r. (k, v) \<in> set kvs \<Longrightarrow> ok_rest r \<Longrightarrow> 2 * length (emit v) < m \<Longrightarrow>
      scan_value m (emit v @ r) = Inr (v, r)"
  shows "\<exists>t. py_join '', '' (map emit_entry kvs) @ CHR ''}'' # r = quote_char # t \<and>
    scan_members n t = Inr (kvs, r)"
  using assms
proof (induction kvs arbitrary: n)
  case Nil
  then show ?case by simp
next
  case (Cons kv kvs)
  obtain k v where kv: "kv = (k, v)" by fastforce
  obtain n' where n: "n = Suc n'" using Cons.prems(2) by (cases n) auto
  show ?case
  proof (cases "kvs = []")
    case True
    have "scan_value n' (emit v @ CHR ''}'' # r) = Inr (v, CHR ''}'' # r)"
      using Cons.prems n kv True by (simp add: dump_str_def)
    with n kv True show ?thesis by (simp add: dump_str_eq scan_str_dump)
  next
    case False
    let ?body = "py_join '', '' (map emit_entry kvs) @ CHR ''}'' # r"
    have join: "py_join '', '' (map emit_entry (kv # kvs)) =
        dump_str k @ '': '' @ emit v @ '', '' @ py_join '', '' (map emit_entry kvs)"
      using False kv by (simp add: py_join_Cons)
    have v: "scan_value n' (emit v @ CHR '','' # CHR '' '' # ?body) =
        Inr (v, CHR '','' # CHR '' '' # ?body)"
    proof (rule Cons.prems(3))
      show "(k, v) \<in> set (kv # kvs)" using kv by simp
      show "2 * length (emit v) < n'" using Cons.prems(2) n unfolding join by simp
    qed simp
    have "\<exists>t. ?body = quote_char # t \<and> scan_members n' t = Inr (kvs, r)"
    proof (rule Cons.IH[OF False])
      show "2 * length (py_join '', '' (map emit_entry kvs)) < n'"
        using Cons.prems(2) n unfolding join by simp
      show "scan_value m (emit v @ r) = Inr (v, r)"
        if "(k, v) \<in> set kvs" "ok_rest r" "2 * length (emit v) < m" for k v m r
        using that by (intro Cons.prems(3)[of k]) simp_all
    qed
    then obtain t where "?body = quote_char # t" "scan_members n' t = Inr (kvs, r)" by blast
    with n join v kv show ?thesis
      by (simp add: dump_str_eq scan_str_dump)
  qed
qed

lemma foldl_update_distinct:
  "distinct (map fst d @ map fst kvs) \<Longrightarrow>
   foldl (\<lambda>d (k, v). AList.update k v d) d kvs = d @ kvs"
proof (induction kvs arbitrary: d)
  case Nil
  then show ?case by simp
next
  case (Cons kv kvs)
  have "fst kv \<notin> fst ` set d" using Cons.prems by auto
  then have "AList.update (fst kv) (snd kv) d = d @ [kv]"
    by (induction d) auto
  with Cons show ?case by (simp add: case_prod_unfold)
qed

lemma dict_of_distinct: "dict_ok kvs \<Longrightarrow> dict_of kvs = kvs"
  by (simp add: dict_of_def dict_ok_def foldl_update_distinct)

lemma scan_value_emit:
  "wf_json j \<Longrightarrow> ok_rest r \<Longrightarrow> 2 * length (emit j) < n \<Longrightarrow> scan_value n (emit j @ r) = Inr (j, r)"
proof (induction j arbitrary: n r rule: json_induct)
  case (JInt i)
  obtain m where n: "n = Suc m" using JInt by (cases n) auto
  obtain c cs where "int_str i = c # cs" "is_digit c \<or> c = CHR ''-''" by (rule int_str_head)
  moreover from this have "c \<notin> {quote_char, CHR ''['', CHR ''{'', CHR ''n'', CHR ''t'', CHR ''f''}"
    by (auto simp: is_digit_def)
  ultimately show ?case
    using n scan_num_int_str[of r i] JInt by (simp add: py_startswith_def)
next
  case (JList xs)
  obtain m where n: "n = Suc m" using JList by (cases n) auto
  show ?case
  proof (cases xs)
    case Nil
    with n show ?thesis by simp
  next
    case (Cons x ys)
    obtain c cs where c: "emit x = c # cs" "\<not> json_ws c" "c \<noteq> CHR '']''" by (rule emit_head)
    obtain t where t: "py_join '', '' (map emit xs) = c # t"
      using c Cons by (cases ys) simp_all
    have "scan_elems m (py_join '', '' (map emit xs) @ CHR '']'' # r) = Inr (xs, r)"
      using JList n Cons by (intro scan_elems_emit) auto
    with t n c show ?thesis by (simp add: skip_ws_def)
  qed
next
  case (JObj kvs)
  obtain m where n: "n = Suc m" using JObj by (cases n) auto
  show ?case
  proof (cases "kvs = []")
    case True
    with n show ?thesis by simp
  next
    case False
    have "\<exists>t. py_join '', '' (map emit_entry kvs) @ CHR ''}'' # r = quote_char # t \<and>
        scan_members m t = Inr (kvs, r)"
      using JObj n False by (intro scan_members_emit) auto
    with n JObj.prems(1) show ?thesis by (auto simp: dict_of_distinct)
  qed
next
  case JNull
  then show ?case by (cases n) (auto simp: py_startswith_def)
next
  case (JBool b)
  then show ?case by (cases n) (auto simp: py_startswith_def)
next
  case (JStr s)
  then show ?case by (cases n) (auto simp: dump_str_eq scan_str_dump)
qed

lemma wf_sort_keys [simp]: "wf_json j \<Longrightarrow> wf_json (sort_keys j)"
  by (induction j rule: json_induct)
    (auto simp: dict_ok_def distinct_map distinct_sort case_prod_unfold comp_def inj_on_def)

lemma loads_dumps: "wf_json j \<Longrightarrow> loads (dumps j) = Inr (sort_keys j)"
  using scan_value_emit[of "sort_keys j" "[]" "2 * length (dumps j) + 2"] skip_ws_emit[of _ "[]"]
  by (simp add: loads_def dumps_def)

text \<open>
  Two values have the same text exactly when they differ only in the order of keys; equal texts
  are texts of equal values.
\<close>

lemma dumps_eq_iff: "wf_json x \<Longrightarrow> wf_json y \<Longrightarrow> dumps x = dumps y \<longleftrightarrow> sort_keys x = sort_keys y"
  by (metis dumps_def loads_dumps sum.inject(2))

lemma canon_sort_keys: "wf_json x \<Longrightarrow> json_canon (sort_keys x) = json_canon x"
proof (induction x rule: json_induct)
  case (JObj kvs)
  let ?s = "map (\<lambda>(k, v). (k, sort_keys v)) kvs"
  let ?c = "map (\<lambda>(k, v). (k, json_canon v))"
  have ok: "dict_ok kvs" using JObj.prems by simp
  have ok2: "dict_ok (sort_key fst ?s)"
    using wf_sort_keys[OF JObj.prems] by simp
  have "set (?c (sort_key fst ?s)) = set (?c kvs)"
  proof -
    have "json_canon (sort_keys v) = json_canon v" if "(k, v) \<in> set kvs" for k v
      using JObj that by auto
    then show ?thesis
      by (simp add: image_image case_prod_unfold cong: image_cong_simp) (metis (no_types, lifting) image_cong prod.collapse)
  qed
  then have "sort_key fst (?c (sort_key fst ?s)) = sort_key fst (?c kvs)"
    using ok ok2 by (subst sort_key_fst_eq_iff) simp_all
  then show ?case by simp
qed simp_all

lemma dumps_eq_json_eq: "wf_json x \<Longrightarrow> wf_json y \<Longrightarrow> dumps x = dumps y \<Longrightarrow> json_eq x y"
  by (metis canon_sort_keys dumps_eq_iff json_eq_canon)

end
