(* ===== verification/Patterns.thy ===== *)
theory Patterns
  imports Json_Text
begin

text \<open>
  The string patterns the sources use: the two regular expressions of
  \<^verbatim>\<open>sieve_common/common.py\<close> that mask time stamps and IP addresses (regular expressions with a
  derivative matcher, shown to decide their language), \<open>os.path.join\<close>, and
  \<open>PurePath.match\<close> with shell wildcards.
\<close>

section \<open>Regular expressions\<close>

datatype rexp =
    Zero
  | One
  | Range char char
  | Seq rexp rexp
  | Alt rexp rexp
  | Star rexp

abbreviation Chr :: "char \<Rightarrow> rexp" where
  "Chr c \<equiv> Range c c"

fun lang :: "rexp \<Rightarrow> string set" where
  "lang Zero = {}"
| "lang One = {[]}"
| "lang (Range a b) = {[c] | c. a \<le> c \<and> c \<le> b}"
| "lang (Seq r s) = {v @ w | v w. v \<in> lang r \<and> w \<in> lang s}"
| "lang (Alt r s) = lang r \<union> lang s"
| "lang (Star r) = {concat ws | ws. set ws \<subseteq> lang r}"

definition seq_s :: "rexp \<Rightarrow> rexp \<Rightarrow> rexp" where
  "seq_s r s = (if r = Zero \<or> s = Zero then Zero else if r = One then s else Seq r s)"

definition alt_s :: "rexp \<Rightarrow> rexp \<Rightarrow> rexp" where
  "alt_s r s = (if r = Zero then s else if s = Zero then r else Alt r s)"

fun nullable :: "rexp \<Rightarrow> bool" where
  "nullable Zero = False"
| "nullable One = True"
| "nullable (Range a b) = False"
| "nullable (Seq r s) = (nullable r \<and> nullable s)"
| "nullable (Alt r s) = (nullable r \<or> nullable s)"
| "nullable (Star r) = True"

fun deriv :: "char \<Rightarrow> rexp \<Rightarrow> rexp" where
  "deriv c Zero = Zero"
| "deriv c One = Zero"
| "deriv c (Range a b) = (if a \<le> c \<and> c \<le> b then One else Zero)"
| "deriv c (Seq r s) =
     (if nullable r then alt_s (seq_s (deriv c r) s) (deriv c s) else seq_s (deriv c r) s)"
| "deriv c (Alt r s) = alt_s (deriv c r) (deriv c s)"
| "deriv c (Star r) = seq_s (deriv c r) (Star r)"

fun rmatch :: "rexp \<Rightarrow> string \<Rightarrow> bool" where
  "rmatch r [] = nullable r"
| "rmatch r (c # cs) = rmatch (deriv c r) cs"

text \<open>
  \<open>re.compile("^r$").match(s)\<close>: \<open>$\<close> also matches before a newline that ends the text.
\<close>

definition py_match :: "rexp \<Rightarrow> string \<Rightarrow> bool" where
  "py_match r s \<longleftrightarrow> rmatch r s \<or> (s \<noteq> [] \<and> last s = CHR 0x0A \<and> rmatch r (butlast s))"

lemma lang_seq_s [simp]: "lang (seq_s r s) = lang (Seq r s)"
  by (auto simp: seq_s_def)

lemma lang_alt_s [simp]: "lang (alt_s r s) = lang (Alt r s)"
  by (auto simp: alt_s_def)

lemma nullable_iff: "nullable r \<longleftrightarrow> [] \<in> lang r"
proof (induction r)
  case (Star r)
  have "concat [] \<in> lang (Star r)" by (auto intro: exI[of _ "[]"])
  then show ?case by simp
qed auto

lemma Cons_in_Star: "c # w \<in> lang (Star r) \<longleftrightarrow> (\<exists>u v. w = u @ v \<and> c # u \<in> lang r \<and> v \<in> lang (Star r))"
proof
  assume "c # w \<in> lang (Star r)"
  then obtain ws where "c # w = concat ws" "set ws \<subseteq> lang r" by auto
  then show "\<exists>u v. w = u @ v \<and> c # u \<in> lang r \<and> v \<in> lang (Star r)"
  proof (induction ws)
    case Nil
    then show ?case by simp
  next
    case (Cons x xs)
    then show ?case by (cases x) auto
  qed
next
  assume "\<exists>u v. w = u @ v \<and> c # u \<in> lang r \<and> v \<in> lang (Star r)"
  then obtain u ws where "w = u @ concat ws" "c # u \<in> lang r" "set ws \<subseteq> lang r" by auto
  then have "c # w = concat ((c # u) # ws)" "set ((c # u) # ws) \<subseteq> lang r" by simp_all
  then show "c # w \<in> lang (Star r)" unfolding lang.simps mem_Collect_eq by blast
qed

lemma deriv_iff: "w \<in> lang (deriv c r) \<longleftrightarrow> c # w \<in> lang r"
proof (induction r arbitrary: w)
  case (Seq r s)
  have "c # w \<in> lang (Seq r s) \<longleftrightarrow>
    (\<exists>u v. w = u @ v \<and> c # u \<in> lang r \<and> v \<in> lang s) \<or> ([] \<in> lang r \<and> c # w \<in> lang s)"
    by (auto simp: Cons_eq_append_conv)
  with Seq show ?case by (auto simp: nullable_iff)
next
  case (Star r)
  have "w \<in> lang (deriv c (Star r)) \<longleftrightarrow> (\<exists>u v. w = u @ v \<and> c # u \<in> lang r \<and> v \<in> lang (Star r))"
    using Star by (auto simp del: lang.simps(6)) 
  then show ?case by (simp only: Cons_in_Star)
qed (auto split: if_splits)

lemma rmatch_iff: "rmatch r s \<longleftrightarrow> s \<in> lang r"
  by (induction s arbitrary: r) (simp_all add: nullable_iff deriv_iff)

fun seqs :: "rexp list \<Rightarrow> rexp" where
  "seqs [] = One"
| "seqs [r] = r"
| "seqs (r # rs) = Seq r (seqs rs)"

abbreviation opt_r :: "rexp \<Rightarrow> rexp" where
  "opt_r r \<equiv> Alt r One"

abbreviation plus_r :: "rexp \<Rightarrow> rexp" where
  "plus_r r \<equiv> Seq r (Star r)"

abbreviation digit_r :: rexp where
  "digit_r \<equiv> Range CHR ''0'' CHR ''9''"

text \<open>The masks of \<^verbatim>\<open>common.py\<close>.\<close>

definition TIME_REG :: rexp where
  "TIME_REG = seqs [plus_r digit_r, Chr CHR ''-'', plus_r digit_r, Chr CHR ''-'', plus_r digit_r,
     Chr CHR ''T'', plus_r digit_r, Chr CHR '':'', plus_r digit_r, Chr CHR '':'', plus_r digit_r,
     Chr CHR ''Z'']"

definition octet_r :: rexp where
  "octet_r = Alt (seqs [Chr CHR ''2'', Chr CHR ''5'', Range CHR ''0'' CHR ''5''])
     (Alt (seqs [Chr CHR ''2'', Range CHR ''0'' CHR ''4'', digit_r])
       (seqs [opt_r (Range CHR ''0'' CHR ''1''), digit_r, opt_r digit_r]))"

definition IP_REG :: rexp where
  "IP_REG = seqs [octet_r, Chr CHR ''.'', octet_r, Chr CHR ''.'', octet_r, Chr CHR ''.'', octet_r]"

definition MASK_REGS :: "rexp list" where
  "MASK_REGS = [TIME_REG, IP_REG]"

definition match_mask_regex :: "json \<Rightarrow> bool" where
  "match_mask_regex val = (case val of
       JStr s \<Rightarrow> list_ex (\<lambda>reg. py_match reg s) MASK_REGS
     | _ \<Rightarrow> False)"

lemma match_mask_regex_simps [simp]:
  "\<not> match_mask_regex JNull" "\<not> match_mask_regex (JBool b)" "\<not> match_mask_regex (JInt i)"
  "\<not> match_mask_regex (JList xs)" "\<not> match_mask_regex (JObj m)"
  by (simp_all add: match_mask_regex_def)

text \<open>A masked string starts with a digit.\<close>

lemma seqs_prefix: "s \<in> lang (seqs (r # rs)) \<Longrightarrow> \<exists>v w. s = v @ w \<and> v \<in> lang r"
  by (cases rs) auto

lemma octet_head: "v \<in> lang octet_r \<Longrightarrow> v \<noteq> [] \<and> is_digit (hd v)"
  by (auto simp: octet_r_def is_digit_def less_eq_char_def)

lemma mask_head: "match_mask_regex (JStr s) \<Longrightarrow> s \<noteq> [] \<and> is_digit (hd s)"
proof -
  have dig: "v \<in> lang (plus_r digit_r) \<Longrightarrow> v \<noteq> [] \<and> is_digit (hd v)" for v
    by (auto simp: is_digit_def less_eq_char_def)
  have "s \<noteq> [] \<and> is_digit (hd s)" if "s \<in> lang TIME_REG" for s
    using seqs_prefix[OF that[unfolded TIME_REG_def]] dig by (metis append_is_Nil_conv hd_append2)
  moreover have "s \<noteq> [] \<and> is_digit (hd s)" if "s \<in> lang IP_REG" for s
    using seqs_prefix[OF that[unfolded IP_REG_def]] octet_head
    by (metis append_is_Nil_conv hd_append2)
  ultimately have m: "s \<noteq> [] \<and> is_digit (hd s)" if "rmatch r s" "r \<in> set MASK_REGS" for r s
    using that by (auto simp: MASK_REGS_def rmatch_iff)
  assume "match_mask_regex (JStr s)"
  then obtain r where r: "r \<in> set MASK_REGS" "py_match r s"
    by (auto simp: match_mask_regex_def list_ex_iff)
  then consider "rmatch r s" | "s \<noteq> []" "rmatch r (butlast s)" by (auto simp: py_match_def)
  then show ?thesis
  proof cases
    case 1
    with m r show ?thesis by blast
  next
    case 2
    with m r have "butlast s \<noteq> []" "is_digit (hd (butlast s))" by blast+
    then show ?thesis by (metis append_butlast_last_id butlast.simps(1) hd_append2)
  qed
qed

section \<open>Paths\<close>

text \<open>\<open>os.path.join(a, b)\<close> on POSIX.\<close>

definition path_join :: "string \<Rightarrow> string \<Rightarrow> string" where
  "path_join a b =
     (if py_startswith b ''/'' then b
      else if a = [] \<or> py_endswith a ''/'' then a @ b
      else a @ ''/'' @ b)"

text \<open>Shell wildcards: \<open>fnmatch.fnmatchcase(name, pat)\<close>.\<close>

text \<open>A bracket class after its \<open>[\<close>: negation, members, and the pattern after the \<open>]\<close>.\<close>

definition glob_class :: "string \<Rightarrow> (bool \<times> string \<times> string) option" where
  "glob_class p =
     (let neg = py_startswith p ''!'';
          q = (if neg then tl p else p);
          first = (if py_startswith q '']'' then '']'' else []);
          q' = drop (length first) q;
          body = takeWhile (\<lambda>c. c \<noteq> CHR '']'') q';
          rest = dropWhile (\<lambda>c. c \<noteq> CHR '']'') q'
      in if rest = [] then None else Some (neg, first @ body, tl rest))"

fun in_class :: "string \<Rightarrow> char \<Rightarrow> bool" where
  "in_class (a # m # b # r) c =
     (if m = CHR ''-'' then (a \<le> c \<and> c \<le> b) \<or> in_class r c
      else a = c \<or> in_class (m # b # r) c)"
| "in_class (a # r) c = (a = c \<or> in_class r c)"
| "in_class [] c = False"

lemma glob_class_shorter [termination_simp]:
  "glob_class p = Some (neg, m, rest) \<Longrightarrow> length rest < length p"
proof -
  assume "glob_class p = Some (neg, m, rest)"
  then obtain n where n: "rest = tl (dropWhile (\<lambda>c. c \<noteq> CHR '']'') (drop n p))"
    "dropWhile (\<lambda>c. c \<noteq> CHR '']'') (drop n p) \<noteq> []"
    unfolding glob_class_def Let_def
    by (simp add: drop_Suc flip: drop_Suc split: if_splits) (metis drop0 drop_Suc)+
  have "length (dropWhile (\<lambda>c. c \<noteq> CHR '']'') (drop n p)) \<le> length p"
    using length_dropWhile_le[of _ "drop n p"] by (metis diff_le_self le_trans length_drop)
  with n show ?thesis by (cases "dropWhile (\<lambda>c. c \<noteq> CHR '']'') (drop n p)") auto
qed

function fnmatch :: "string \<Rightarrow> string \<Rightarrow> bool" where
  "fnmatch [] s = (s = [])"
| "fnmatch (p # ps) s =
     (if p = CHR ''*'' then
        (case s of [] \<Rightarrow> fnmatch ps s | c # cs \<Rightarrow> fnmatch ps s \<or> fnmatch (p # ps) cs)
      else (case s of
          [] \<Rightarrow> False
        | c # cs \<Rightarrow>
            if p = CHR ''?'' then fnmatch ps cs
            else if p = CHR ''['' then
              (case glob_class ps of
                 Some (neg, members, rest) \<Rightarrow> in_class members c \<noteq> neg \<and> fnmatch rest cs
               | None \<Rightarrow> c = p \<and> fnmatch ps cs)
            else c = p \<and> fnmatch ps cs))"
  by pat_completeness auto
termination
  by (relation "measures [length \<circ> fst, length \<circ> snd]") (auto dest: glob_class_shorter)

declare fnmatch.simps(2) [simp del]

lemma fnmatch_star: "fnmatch ''*'' s"
  by (induction s) (simp_all add: fnmatch.simps(2))

lemma fnmatch_literal:
  "\<forall>c\<in>set p. c \<notin> {CHR ''*'', CHR ''?'', CHR ''[''} \<Longrightarrow> fnmatch p s \<longleftrightarrow> s = p"
  by (induction p arbitrary: s) (auto simp: fnmatch.simps(2) split: list.splits)

text \<open>
  \<open>PurePath("/" + key).match("/" + pat)\<close>: both paths are absolute; two slashes (and no third)
  are a root of their own; empty and \<open>.\<close> components are dropped; the paths have the same number
  of components and each matches its pattern.
\<close>

definition abs_root :: "string \<Rightarrow> string" where
  "abs_root s = (if py_startswith s ''/'' \<and> \<not> py_startswith s ''//'' then ''//'' else ''/'')"

definition abs_parts :: "string \<Rightarrow> string list" where
  "abs_parts s = filter (\<lambda>p. p \<noteq> [] \<and> p \<noteq> ''.'') (py_split CHR ''/'' s)"

definition path_match :: "string \<Rightarrow> string \<Rightarrow> bool" where
  "path_match key pat \<longleftrightarrow>
     abs_root key = abs_root pat \<and> list_all2 (\<lambda>part p. fnmatch p part) (abs_parts key) (abs_parts pat)"

end
