(* ===== verification/Event_Delta.thy ===== *)
theory Event_Delta
  imports Patterns
begin

text \<open>
  Model of \<^verbatim>\<open>sieve_common/event_delta.py\<close>: the difference between two versions of an object
  (\<open>diff_event\<close>), masking of nondeterministic fields (\<open>canonicalize_event\<close>), containment of a
  difference in an object (\<open>part_of_event_as_map\<close>), the conflict test built on it and the
  comparison of key sets (\<open>same_key\<close>). Where the source iterates over a Python set of keys the
  model takes the keys in the order of the dict they come from; the results are compared with
  \<open>json_eq\<close> and printed with sorted keys, which ignore that order.
\<close>

type_synonym jdict = "(string, json) dict"

section \<open>Constants of common.py\<close>

definition SIEVE_IDX_SKIP :: string where "SIEVE_IDX_SKIP = ''SIEVE-SKIP''"
definition SIEVE_VALUE_MASK :: string where "SIEVE_VALUE_MASK = ''SIEVE-NON-NIL''"
definition SIEVE_LEARN_VALUE_MASK :: string where "SIEVE_LEARN_VALUE_MASK = ''SIEVE-IGNORE''"

abbreviation jskip :: json where "jskip \<equiv> JStr SIEVE_IDX_SKIP"

section \<open>Differences\<close>

text \<open>
  \<open>diff_value\<close> is the body of the loops of both source functions: \<open>None\<close> where the source
  leaves the position out of the difference, else the two values it stores. \<open>diff_items\<close> is the
  loop over \<open>range(min_len)\<close>, \<open>diff_entries\<close> the loop over the common keys.
\<close>

function (sequential) diff_value :: "json \<Rightarrow> json \<Rightarrow> (json \<times> json) option"
  and diff_items :: "json list \<Rightarrow> json list \<Rightarrow> (json \<times> json) list"
  and diff_event_as_list :: "json list \<Rightarrow> json list \<Rightarrow> (json list \<times> json list) option"
  and diff_entries :: "jdict \<Rightarrow> jdict \<Rightarrow> (string \<times> json \<times> json) list"
  and diff_event_as_map :: "jdict \<Rightarrow> jdict \<Rightarrow> (jdict \<times> jdict) option" where
  "diff_value prev (JObj cur) = (case prev of
       JObj p \<Rightarrow> map_option (\<lambda>(a, b). (JObj a, JObj b)) (diff_event_as_map p cur)
     | _ \<Rightarrow> Some (prev, JObj cur))"
| "diff_value prev (JList cur) = (case prev of
       JList p \<Rightarrow> map_option (\<lambda>(a, b). (JList a, JList b)) (diff_event_as_list p cur)
     | _ \<Rightarrow> Some (prev, JList cur))"
| "diff_value prev cur = (if json_eq prev cur then None else Some (prev, cur))"
| "diff_items (p # ps) (c # cs) =
     (case diff_value p c of None \<Rightarrow> (jskip, jskip) | Some d \<Rightarrow> d) # diff_items ps cs"
| "diff_items ps cs = []"
| "diff_event_as_list prev cur =
     (let items = diff_items prev cur;
          min_len = length items;
          diff_prev = map fst items @ drop min_len prev;
          diff_cur = map snd items @ drop min_len cur
      in if length cur = length prev \<and>
            \<not> list_ex (\<lambda>(a, b). a \<noteq> jskip \<or> b \<noteq> jskip) (zip diff_prev diff_cur)
         then None else Some (diff_prev, diff_cur))"
| "diff_entries prev [] = []"
| "diff_entries prev ((k, c) # cs) = (case map_of prev k of
       None \<Rightarrow> diff_entries prev cs
     | Some p \<Rightarrow> (case diff_value p c of
           None \<Rightarrow> diff_entries prev cs
         | Some (a, b) \<Rightarrow> (k, a, b) # diff_entries prev cs))"
| "diff_event_as_map prev cur =
     (let common = diff_entries prev cur;
          pdc = filter (\<lambda>(k, v). map_of cur k = None) prev;
          cdp = filter (\<lambda>(k, v). map_of prev k = None) cur;
          diff_prev = map (\<lambda>(k, a, b). (k, a)) common @ pdc;
          diff_cur = map (\<lambda>(k, a, b). (k, b)) common @ cdp
      in if diff_cur = [] \<and> diff_prev = [] then None else Some (diff_prev, diff_cur))"
  by pat_completeness auto
termination
  by (relation "measure (\<lambda>x. case x of
        Inl (Inl (prev, cur)) \<Rightarrow> 2 * size cur
      | Inl (Inr (prev, cur)) \<Rightarrow> 2 * size_list size cur
      | Inr (Inl (prev, cur)) \<Rightarrow> 2 * size_list size cur + 1
      | Inr (Inr (Inl (prev, cur))) \<Rightarrow> 2 * size_list (size_prod (\<lambda>_. 0) size) cur
      | Inr (Inr (Inr (prev, cur))) \<Rightarrow> 2 * size_list (size_prod (\<lambda>_. 0) size) cur + 1)") auto

declare diff_event_as_list.simps [simp del] diff_event_as_map.simps [simp del]

section \<open>Masking\<close>

definition canonicalize_value :: "string \<Rightarrow> string" where
  "canonicalize_value value =
     (if match_mask_regex (JStr value) then SIEVE_VALUE_MASK else value)"

fun canonicalize_field :: "json \<Rightarrow> string \<Rightarrow> string set \<Rightarrow> string set \<Rightarrow> json"
  and canonicalize_event_as_list ::
    "json list \<Rightarrow> string \<Rightarrow> string set \<Rightarrow> string set \<Rightarrow> json list"
  and canonicalize_event_as_map :: "jdict \<Rightarrow> string \<Rightarrow> string set \<Rightarrow> string set \<Rightarrow> jdict" where
  "canonicalize_field (JList xs) path masked_keys masked_paths =
     JList (canonicalize_event_as_list xs path masked_keys masked_paths)"
| "canonicalize_field (JObj m) path masked_keys masked_paths =
     JObj (canonicalize_event_as_map m path masked_keys masked_paths)"
| "canonicalize_field (JStr s) path masked_keys masked_paths = JStr (canonicalize_value s)"
| "canonicalize_field j path masked_keys masked_paths = j"
| "canonicalize_event_as_list [] parent_path masked_keys masked_paths = []"
| "canonicalize_event_as_list (x # xs) parent_path masked_keys masked_paths =
     (let current_path = path_join parent_path ''*'' in
      if current_path \<in> masked_paths then JStr SIEVE_VALUE_MASK
      else canonicalize_field x current_path masked_keys masked_paths)
     # canonicalize_event_as_list xs parent_path masked_keys masked_paths"
| "canonicalize_event_as_map [] parent_path masked_keys masked_paths = []"
| "canonicalize_event_as_map ((key, v) # m) parent_path masked_keys masked_paths =
     (key,
      let current_path = path_join parent_path key in
      if key \<in> masked_keys \<or> current_path \<in> masked_paths then JStr SIEVE_VALUE_MASK
      else canonicalize_field v current_path masked_keys masked_paths)
     # canonicalize_event_as_map m parent_path masked_keys masked_paths"

definition canonicalize_event :: "jdict \<Rightarrow> string set \<Rightarrow> string set \<Rightarrow> jdict" where
  "canonicalize_event event masked_keys masked_paths =
     canonicalize_event_as_map event [] masked_keys masked_paths"

definition trim_kind_apiversion :: "jdict \<Rightarrow> jdict" where
  "trim_kind_apiversion event = AList.delete ''apiVersion'' (AList.delete ''kind'' event)"

definition diff_event ::
  "jdict \<Rightarrow> jdict \<Rightarrow> string set \<Rightarrow> string set \<Rightarrow> bool \<Rightarrow> bool \<Rightarrow> (jdict \<times> jdict) option" where
  "diff_event prev_event cur_event masked_keys masked_paths trim_ka can =
     (let prev1 = (if trim_ka then trim_kind_apiversion prev_event else prev_event);
          cur1 = (if trim_ka then trim_kind_apiversion cur_event else cur_event);
          prev2 = (if can then canonicalize_event prev1 masked_keys masked_paths else prev1);
          cur2 = (if can then canonicalize_event cur1 masked_keys masked_paths else cur1)
      in diff_event_as_map prev2 cur2)"

section \<open>Containment, conflicts and key sets\<close>

fun part_of_value :: "json \<Rightarrow> json \<Rightarrow> bool"
  and part_of_event_as_list :: "json list \<Rightarrow> json list \<Rightarrow> bool"
  and part_of_event_as_map :: "jdict \<Rightarrow> jdict \<Rightarrow> bool" where
  "part_of_value (JObj small) large = (case large of
       JObj l \<Rightarrow> part_of_event_as_map small l
     | _ \<Rightarrow> False)"
| "part_of_value (JList small) large = (case large of
       JList l \<Rightarrow> part_of_event_as_list small l
     | _ \<Rightarrow> False)"
| "part_of_value small large = json_eq small large"
| "part_of_event_as_list [] large = (large = [])"
| "part_of_event_as_list (x # small) large = (case large of
       [] \<Rightarrow> False
     | y # large' \<Rightarrow> (x = jskip \<or> part_of_value x y) \<and> part_of_event_as_list small large')"
| "part_of_event_as_map [] large = True"
| "part_of_event_as_map ((key, x) # small) large = ((case map_of large key of
       None \<Rightarrow> False
     | Some y \<Rightarrow> part_of_value x y) \<and> part_of_event_as_map small large)"

definition conflicting_event_payload ::
  "jdict option \<Rightarrow> jdict \<Rightarrow> string set \<Rightarrow> string set \<Rightarrow> bool" where
  "conflicting_event_payload small_event large_event masked_keys masked_paths =
     (case small_event of
        None \<Rightarrow> False
      | Some small \<Rightarrow>
          \<not> part_of_event_as_map small (canonicalize_event large_event masked_keys masked_paths))"

fun same_key :: "jdict \<Rightarrow> jdict \<Rightarrow> bool" where
  "same_key prev_event cur_event =
     (fst ` set prev_event = fst ` set cur_event \<and>
      (\<forall>(k, v)\<in>set prev_event. case v of
         JObj p \<Rightarrow> (case map_of cur_event k of Some (JObj c) \<Rightarrow> same_key p c | _ \<Rightarrow> False)
       | _ \<Rightarrow> True))"

declare same_key.simps [simp del]

section \<open>The difference is empty exactly for equal objects\<close>

lemma diff_value_not_skip: "diff_value p c = Some (a, b) \<Longrightarrow> \<not> (a = jskip \<and> b = jskip)"
  by (cases "(p, c)" rule: diff_value.cases) (auto split: json.splits if_splits)

lemma length_diff_items [simp]: "length (diff_items p c) = min (length p) (length c)"
  by (induction p arbitrary: c) (case_tac c; simp)+

lemmas diff_induct =
  diff_value_diff_items_diff_event_as_list_diff_entries_diff_event_as_map.induct

lemma zip_append_drop:
  "length ps = length cs \<Longrightarrow> length xs = length ps \<Longrightarrow> length ys = length ps \<Longrightarrow>
   zip (xs @ drop (length ps) ps) (ys @ drop (length ps) cs) = zip xs ys"
  by simp

lemma diff_event_as_list_None:
  "diff_event_as_list p c = None \<longleftrightarrow>
     length c = length p \<and> (\<forall>(a, b)\<in>set (diff_items p c). a = jskip \<and> b = jskip)"
proof (cases "length c = length p")
  case True
  then have "zip (map fst (diff_items p c)) (map snd (diff_items p c)) = diff_items p c"
    by (simp add: zip_map_fst_snd)
  with True show ?thesis
    by (auto simp: diff_event_as_list.simps Let_def list_ex_iff)
next
  case False
  then show ?thesis by (simp add: diff_event_as_list.simps Let_def)
qed

lemma diff_event_as_map_None:
  "diff_event_as_map p c = None \<longleftrightarrow> diff_entries p c = [] \<and> fst ` set p = fst ` set c"
proof -
  have "filter (\<lambda>(k, v). map_of b k = None) a = [] \<longleftrightarrow> fst ` set a \<subseteq> fst ` set b"
    for a b :: jdict
    by (force simp: filter_empty_conv map_of_eq_None_iff)
  then show ?thesis
    by (auto simp: diff_event_as_map.simps Let_def)
qed

lemma diff_entries_Nil_iff:
  "diff_entries p c = [] \<longleftrightarrow>
     (\<forall>(k, v)\<in>set c. \<forall>w. map_of p k = Some w \<longrightarrow> diff_value w v = None)"
  by (induction c) (auto split: option.splits)

lemma diff_items_skip_iff:
  "(\<forall>(a, b)\<in>set (diff_items p c). a = jskip \<and> b = jskip) \<longleftrightarrow>
   (\<forall>(x, y)\<in>set (zip p c). diff_value x y = None)"
proof (induction p arbitrary: c)
  case Nil
  then show ?case by simp
next
  case (Cons x p)
  show ?case
  proof (cases c)
    case Nil
    then show ?thesis by simp
  next
    case (Cons y c')
    with Cons.IH[of c'] show ?thesis
      by (auto split: option.splits dest: diff_value_not_skip)
  qed
qed

lemma diff_value_None:
  "wf_json p \<Longrightarrow> wf_json c \<Longrightarrow> diff_value p c = None \<longleftrightarrow> json_eq p c"
proof (induction c arbitrary: p rule: json_induct)
  case (JList cs)
  show ?case
  proof (cases "is_list p")
    case True
    then obtain ps where p: "p = JList ps" by (auto simp: is_list_iff)
    have "diff_value x y = None \<longleftrightarrow> json_eq x y" if "(x, y) \<in> set (zip ps cs)" for x y
      using JList p set_zip_leftD[OF that] set_zip_rightD[OF that] by simp
    then show ?thesis
      using p by (auto simp: diff_event_as_list_None diff_items_skip_iff json_list_eq_iff list_all2_iff)
  next
    case False
    then show ?thesis by (cases p) auto
  qed
next
  case (JObj cs)
  show ?case
  proof (cases "is_dict p")
    case True
    then obtain ps where p: "p = JObj ps" by (auto simp: is_dict_iff)
    have ok: "dict_ok ps" "dict_ok cs" using JObj.prems p by auto
    have v: "diff_value w v = None \<longleftrightarrow> json_eq w v"
      if "(k, v) \<in> set cs" "map_of ps k = Some w" for k v w
    proof -
      have "wf_json w" "wf_json v" using that JObj.prems p by (auto dest: map_of_SomeD)
      then show ?thesis using JObj.IH that(1) by blast
    qed
    have "diff_event_as_map ps cs = None \<longleftrightarrow> json_eq (JObj ps) (JObj cs)"
    proof
      assume "diff_event_as_map ps cs = None"
      then have d: "diff_entries ps cs = []" and keys: "fst ` set ps = fst ` set cs"
        by (simp_all add: diff_event_as_map_None)
      have "rel_option json_eq (map_of ps k) (map_of cs k)" for k
      proof (cases "map_of ps k")
        case None
        with keys show ?thesis by (metis map_of_eq_None_iff option.rel_inject(1))
      next
        case (Some w)
        with keys obtain u where u: "map_of cs k = Some u"
          by (metis map_of_eq_None_iff not_None_eq)
        with Some v d show ?thesis
          unfolding diff_entries_Nil_iff by (fastforce dest: map_of_SomeD)
      qed
      then show "json_eq (JObj ps) (JObj cs)" using json_eq_JObj[OF ok] by blast
    next
      assume "json_eq (JObj ps) (JObj cs)"
      then have r: "rel_option json_eq (map_of ps k) (map_of cs k)" for k
        using json_eq_JObj[OF ok] by blast
      have "diff_entries ps cs = []"
        unfolding diff_entries_Nil_iff
      proof safe
        fix k u w
        assume "(k, u) \<in> set cs" "map_of ps k = Some w"
        with r[of k] v ok show "diff_value w u = None" by (auto simp: dict_ok_map_of)
      qed
      moreover have "fst ` set ps = fst ` set cs"
      proof -
        have "map_of ps k = None \<longleftrightarrow> map_of cs k = None" for k
          using r[of k] by (cases "map_of ps k"; cases "map_of cs k") auto
        then show ?thesis by (auto simp: map_of_eq_None_iff)
      qed
      ultimately show "diff_event_as_map ps cs = None"
        by (simp add: diff_event_as_map_None)
    qed
    with p show ?thesis by simp
  next
    case False
    then show ?thesis by (cases p) auto
  qed
qed (simp_all split: json.splits)

lemma diff_event_as_map_None_iff:
  "wf_json (JObj p) \<Longrightarrow> wf_json (JObj c) \<Longrightarrow>
   diff_event_as_map p c = None \<longleftrightarrow> json_eq (JObj p) (JObj c)"
  using diff_value_None[of "JObj p" "JObj c"] by simp

section \<open>The difference is a part of the objects it was taken from\<close>

lemma part_of_list_iff:
  "part_of_event_as_list xs ys \<longleftrightarrow> list_all2 (\<lambda>x y. x = jskip \<or> part_of_value x y) xs ys"
  by (induction xs arbitrary: ys) (auto split: list.splits)

lemma part_of_map_iff:
  "part_of_event_as_map a b \<longleftrightarrow> (\<forall>(k, x)\<in>set a. \<exists>y. map_of b k = Some y \<and> part_of_value x y)"
  by (induction a) (auto split: option.splits)

lemma part_of_refl: "wf_json j \<Longrightarrow> part_of_value j j"
proof (induction j rule: json_induct)
  case (JList xs)
  then show ?case by (auto simp: part_of_list_iff list_all2_same)
next
  case (JObj m)
  then show ?case by (auto simp: part_of_map_iff dict_ok_map_of)
qed (simp_all add: json_eq_refl)

lemma diff_items_nth:
  "i < length p \<Longrightarrow> i < length c \<Longrightarrow>
   diff_items p c ! i = (case diff_value (p ! i) (c ! i) of None \<Rightarrow> (jskip, jskip) | Some d \<Rightarrow> d)"
proof (induction p arbitrary: c i)
  case Nil
  then show ?case by simp
next
  case (Cons x p)
  then show ?case by (cases c; cases i) auto
qed

lemma diff_event_as_list_Some:
  assumes "diff_event_as_list p c = Some (dp, dc)"
  shows "dp = map fst (diff_items p c) @ drop (min (length p) (length c)) p"
    and "dc = map snd (diff_items p c) @ drop (min (length p) (length c)) c"
  using assms by (auto simp: diff_event_as_list.simps Let_def split: if_splits)

lemma diff_list_nth:
  assumes "diff_event_as_list p c = Some (dp, dc)"
  shows "length dp = length p" "length dc = length c"
    and "i < length p \<Longrightarrow> i < length c \<Longrightarrow> (dp ! i, dc ! i) =
      (case diff_value (p ! i) (c ! i) of None \<Rightarrow> (jskip, jskip) | Some d \<Rightarrow> d)"
    and "length c \<le> i \<Longrightarrow> i < length p \<Longrightarrow> dp ! i = p ! i"
    and "length p \<le> i \<Longrightarrow> i < length c \<Longrightarrow> dc ! i = c ! i"
  using diff_event_as_list_Some[OF assms]
  by (auto simp: nth_append diff_items_nth[symmetric])

lemma diff_entries_member:
  "(k, a, b) \<in> set (diff_entries p c) \<longleftrightarrow>
     (\<exists>v w. (k, v) \<in> set c \<and> map_of p k = Some w \<and> diff_value w v = Some (a, b))"
  by (induction c) (auto split: option.splits)

lemma diff_event_as_map_Some:
  assumes "diff_event_as_map p c = Some (dp, dc)"
  shows "dp = map (\<lambda>(k, a, b). (k, a)) (diff_entries p c) @ filter (\<lambda>(k, v). map_of c k = None) p"
    and "dc = map (\<lambda>(k, a, b). (k, b)) (diff_entries p c) @ filter (\<lambda>(k, v). map_of p k = None) c"
  using assms by (auto simp: diff_event_as_map.simps Let_def split: if_splits)

lemma diff_value_part_of:
  "wf_json p \<Longrightarrow> wf_json c \<Longrightarrow> diff_value p c = Some (a, b) \<Longrightarrow> part_of_value a p \<and> part_of_value b c"
proof (induction c arbitrary: p a b rule: json_induct)
  case (JList cs)
  show ?case
  proof (cases "is_list p")
    case True
    then obtain ps where p: "p = JList ps" by (auto simp: is_list_iff)
    with JList.prems obtain dp dc where d: "diff_event_as_list ps cs = Some (dp, dc)"
      and ab: "a = JList dp" "b = JList dc" by auto
    have "(x = jskip \<or> part_of_value x (ps ! i)) \<and> (y = jskip \<or> part_of_value y (cs ! i))"
      if "i < length ps" "i < length cs" "x = dp ! i" "y = dc ! i" for i x y
    proof (cases "diff_value (ps ! i) (cs ! i)")
      case None
      then show ?thesis using diff_list_nth(3)[OF d that(1,2)] that by simp
    next
      case (Some pr)
      then have "diff_value (ps ! i) (cs ! i) = Some (x, y)"
        using diff_list_nth(3)[OF d that(1,2)] that by simp
      moreover have "wf_json (ps ! i)" "wf_json (cs ! i)" using that JList.prems p by auto
      ultimately show ?thesis using JList.IH that(2) by (meson nth_mem)
    qed
    moreover have "part_of_value (dp ! i) (ps ! i)" if "i < length ps" "length cs \<le> i" for i
      using diff_list_nth(4)[OF d that(2,1)] that JList.prems p by (simp add: part_of_refl)
    moreover have "part_of_value (dc ! i) (cs ! i)" if "i < length cs" "length ps \<le> i" for i
      using diff_list_nth(5)[OF d that(2,1)] that JList.prems p by (simp add: part_of_refl)
    ultimately show ?thesis
      using p ab diff_list_nth(1,2)[OF d]
      by (simp add: part_of_list_iff list_all2_conv_all_nth) (meson not_le)
  next
    case False
    then have "a = p \<and> b = JList cs" using JList.prems by (cases p) auto
    with JList.prems part_of_refl show ?thesis by blast
  qed
next
  case (JObj cs)
  show ?case
  proof (cases "is_dict p")
    case True
    then obtain ps where p: "p = JObj ps" by (auto simp: is_dict_iff)
    with JObj.prems obtain dp dc where d: "diff_event_as_map ps cs = Some (dp, dc)"
      and ab: "a = JObj dp" "b = JObj dc" by auto
    have ok: "dict_ok ps" "dict_ok cs" using JObj.prems p by auto
    have e: "part_of_value x w \<and> part_of_value y v"
      if "(k, v) \<in> set cs" "map_of ps k = Some w" "diff_value w v = Some (x, y)" for k v w x y
    proof -
      have "wf_json w" "wf_json v" using that JObj.prems p by (auto dest: map_of_SomeD)
      then show ?thesis using JObj.IH that(1,3) by blast
    qed
    have "part_of_event_as_map dp ps"
      using diff_event_as_map_Some(1)[OF d] ok JObj.prems p e
      by (force simp: part_of_map_iff diff_entries_member dict_ok_map_of
          intro: part_of_refl wf_json_lookup)
    moreover have "part_of_event_as_map dc cs"
      using diff_event_as_map_Some(2)[OF d] ok JObj.prems p e
      by (force simp: part_of_map_iff diff_entries_member dict_ok_map_of
          intro: part_of_refl wf_json_lookup)
    ultimately show ?thesis using p ab by simp
  next
    case False
    then have "a = p \<and> b = JObj cs" using JObj.prems by (cases p) auto
    with JObj.prems part_of_refl show ?thesis by blast
  qed
qed (auto split: if_splits intro: part_of_refl json_eq_refl)

section \<open>The difference loses nothing\<close>

text \<open>
  The specification a difference is measured against: \<open>patch_map prev dprev dcur\<close> rebuilds the
  current object from the previous one. A key of \<open>prev\<close> that the difference does not mention
  keeps its value, one that only \<open>dprev\<close> mentions is dropped, one that both mention is rebuilt,
  and the keys only \<open>dcur\<close> has are added. The entries \<open>SIEVE-SKIP\<close> of a list stand for unchanged
  elements.
\<close>

function (sequential) patch_value :: "json \<Rightarrow> json \<Rightarrow> json \<Rightarrow> json"
  and patch_list :: "json list \<Rightarrow> json list \<Rightarrow> json list \<Rightarrow> json list"
  and patch_map :: "jdict \<Rightarrow> jdict \<Rightarrow> jdict \<Rightarrow> jdict" where
  "patch_value (JObj m) (JObj dp) (JObj dc) = JObj (patch_map m dp dc)"
| "patch_value (JList xs) (JList dp) (JList dc) = JList (patch_list xs dp dc)"
| "patch_value p a b = b"
| "patch_list (p # ps) (a # as) (b # bs) =
     (if b = jskip then p else patch_value p a b) # patch_list ps as bs"
| "patch_list ps as bs = bs"
| "patch_map prev dp dc =
     concat (map (\<lambda>(k, p). case map_of dp k of
         None \<Rightarrow> [(k, p)]
       | Some a \<Rightarrow> (case map_of dc k of
             None \<Rightarrow> []
           | Some b \<Rightarrow> [(k, patch_value p a b)])) prev)
     @ filter (\<lambda>(k, b). map_of prev k = None) dc"
  by pat_completeness auto
termination
proof (relation "measure (\<lambda>x. case x of
        Inl (p, a, b) \<Rightarrow> 2 * size b
      | Inr (Inl (ps, as, bs)) \<Rightarrow> 2 * size_list size bs
      | Inr (Inr (prev, dp, dc)) \<Rightarrow> 2 * size_list (size_prod (\<lambda>_. 0) size) dc + 1)", goal_cases)
  case (6 prev dp dc kv k p a b)
  then show ?case using json_size_lookup[of dc k b] by simp
qed auto

declare patch_map.simps [simp del]

lemma map_of_concat_map:
  assumes "\<And>k v. f (k, v) = [] \<or> (\<exists>w. f (k, v) = [(k, w)])"
  shows "dict_ok m \<Longrightarrow> map_of (concat (map f m)) k =
    (case map_of m k of None \<Rightarrow> None | Some v \<Rightarrow> (case f (k, v) of [] \<Rightarrow> None | (_, w) # _ \<Rightarrow> Some w))"
proof (induction m)
  case Nil
  then show ?case by simp
next
  case (Cons kv m)
  obtain j v where kv: "kv = (j, v)" by fastforce
  have IH: "map_of (concat (map f m)) k =
    (case map_of m k of None \<Rightarrow> None | Some v \<Rightarrow> (case f (k, v) of [] \<Rightarrow> None | (_, w) # _ \<Rightarrow> Some w))"
    using Cons by (simp add: dict_ok_def)
  have "map_of m j = None" using Cons.prems kv by (simp add: dict_ok_def map_of_eq_None_iff)
  then show ?case
    using IH kv assms[of j v] by (cases "k = j") auto
qed

lemma map_of_patch_map:
  assumes "dict_ok prev"
  shows "map_of (patch_map prev dp dc) k = (case map_of prev k of
      None \<Rightarrow> map_of dc k
    | Some p \<Rightarrow> (case map_of dp k of
          None \<Rightarrow> Some p
        | Some a \<Rightarrow> map_option (patch_value p a) (map_of dc k)))"
proof -
  let ?f = "\<lambda>(k, p). case map_of dp k of
         None \<Rightarrow> [(k, p)]
       | Some a \<Rightarrow> (case map_of dc k of None \<Rightarrow> [] | Some b \<Rightarrow> [(k, patch_value p a b)])"
  have f: "?f (k, v) = [] \<or> (\<exists>w. ?f (k, v) = [(k, w)])" for k v
    by (auto split: option.splits)
  have flt: "map_of (filter (\<lambda>(k, b). map_of prev k = None) dc) k =
      (if map_of prev k = None then map_of dc k else None)"
    by (induction dc) auto
  show ?thesis
    unfolding patch_map.simps map_of_append map_add_def map_of_concat_map[of ?f, OF f assms] flt
    by (auto split: option.splits)
qed

text \<open>No list element of the value is the literal that marks an unchanged element.\<close>

fun no_skip :: "json \<Rightarrow> bool" where
  "no_skip (JList xs) = (\<forall>x\<in>set xs. x \<noteq> jskip \<and> no_skip x)"
| "no_skip (JObj m) = (\<forall>(k, v)\<in>set m. no_skip v)"
| "no_skip j = True"

lemma patch_list_nth:
  "length ps = length as \<Longrightarrow> length (patch_list ps as bs) = length bs \<and>
   (\<forall>i < length bs. patch_list ps as bs ! i =
     (if i < length ps then if bs ! i = jskip then ps ! i else patch_value (ps ! i) (as ! i) (bs ! i)
      else bs ! i))"
proof (induction ps arbitrary: as bs)
  case Nil
  then show ?case by simp
next
  case (Cons p ps)
  then obtain a as' where as: "as = a # as'" by (cases as) auto
  show ?case
  proof (cases bs)
    case Nil
    then show ?thesis using as by simp
  next
    case bs: (Cons b bs')
    have "length ps = length as'" using Cons.prems as by simp
    from Cons.IH[OF this, of bs'] show ?thesis
      using as bs by (auto simp: nth_Cons split: nat.splits)
  qed
qed

lemma dict_ok_concat_map:
  assumes "\<And>k v. f (k, v) = [] \<or> (\<exists>w. f (k, v) = [(k, w)])"
  shows "dict_ok m \<Longrightarrow> dict_ok (concat (map f m)) \<and> fst ` set (concat (map f m)) \<subseteq> fst ` set m"
proof (induction m)
  case Nil
  then show ?case by simp
next
  case (Cons kv m)
  obtain j v where kv: "kv = (j, v)" by fastforce
  have IH: "dict_ok (concat (map f m)) \<and> fst ` set (concat (map f m)) \<subseteq> fst ` set m"
    and j: "j \<notin> fst ` set m" using Cons kv by (auto simp: dict_ok_def)
  from assms[of j v] show ?case
  proof
    assume "f (j, v) = []"
    with IH kv show ?thesis by (simp add: subset_insertI2)
  next
    assume "\<exists>w. f (j, v) = [(j, w)]"
    then obtain w where w: "f (j, v) = [(j, w)]" by blast
    have "concat (map f (kv # m)) = (j, w) # concat (map f m)" using w kv by simp
    moreover have "j \<notin> fst ` set (concat (map f m))" using IH j by blast
    ultimately show ?thesis using IH kv by (simp add: dict_ok_def subset_insertI2)
  qed
qed

lemma keys_filter_absent:
  "fst ` set b \<inter> fst ` set (filter (\<lambda>(k, v). map_of b k = None) a) = {}"
  by (force simp: map_of_eq_None_iff)

lemma dict_ok_patch_map: "dict_ok prev \<Longrightarrow> dict_ok dc \<Longrightarrow> dict_ok (patch_map prev dp dc)"
proof -
  assume ok: "dict_ok prev" "dict_ok dc"
  let ?f = "\<lambda>(k, p). case map_of dp k of
         None \<Rightarrow> [(k, p)]
       | Some a \<Rightarrow> (case map_of dc k of None \<Rightarrow> [] | Some b \<Rightarrow> [(k, patch_value p a b)])"
  have f: "?f (k, v) = [] \<or> (\<exists>w. ?f (k, v) = [(k, w)])" for k v
    by (auto split: option.splits)
  have "distinct (map fst (filter (\<lambda>(k, b). map_of prev k = None) dc))"
    using ok(2) by (simp add: dict_ok_def distinct_map_filter)
  moreover have "fst ` set (concat (map ?f prev)) \<inter>
      fst ` set (filter (\<lambda>(k, b). map_of prev k = None) dc) = {}"
    using dict_ok_concat_map[of ?f, OF f ok(1)] keys_filter_absent[of prev dc] by blast
  ultimately show ?thesis
    using dict_ok_concat_map[of ?f, OF f ok(1)]
    unfolding patch_map.simps dict_ok_def by simp
qed

lemma map_of_diff_entries:
  assumes "dict_ok c"
  shows "map_of (map (\<lambda>(k, a, b). (k, f a b)) (diff_entries p c)) k =
    (case (map_of p k, map_of c k) of
       (Some w, Some v) \<Rightarrow> map_option (\<lambda>(a, b). f a b) (diff_value w v)
     | _ \<Rightarrow> None)"
  using assms
proof (induction c)
  case Nil
  then show ?case by (simp split: option.splits)
next
  case (Cons kv c)
  obtain j v where kv: "kv = (j, v)" by fastforce
  have "map_of c j = None" using Cons.prems kv by (simp add: dict_ok_def map_of_eq_None_iff)
  moreover have "dict_ok c" using Cons.prems by (simp add: dict_ok_def)
  ultimately show ?case
    using Cons.IH kv by (auto split: option.splits)
qed

lemma map_of_filter_absent:
  "map_of (filter (\<lambda>(k, v). map_of b k = None) a) k = (if map_of b k = None then map_of a k else None)"
  by (induction a) auto

lemma diff_map_lookup:
  assumes "diff_event_as_map p c = Some (dp, dc)" "dict_ok c"
  shows "map_of dp k = (case map_of p k of
      None \<Rightarrow> None
    | Some w \<Rightarrow> (case map_of c k of None \<Rightarrow> Some w | Some v \<Rightarrow> map_option fst (diff_value w v)))"
    and "map_of dc k = (case map_of c k of
      None \<Rightarrow> None
    | Some v \<Rightarrow> (case map_of p k of None \<Rightarrow> Some v | Some w \<Rightarrow> map_option snd (diff_value w v)))"
  unfolding diff_event_as_map_Some[OF assms(1)] map_of_append map_add_def map_of_filter_absent
    map_of_diff_entries[OF assms(2), of "\<lambda>a b. a"] map_of_diff_entries[OF assms(2), of "\<lambda>a b. b"]
  by (auto simp: case_prod_unfold fst_def[symmetric] split: option.splits)

lemma dict_ok_diff:
  assumes "diff_event_as_map p c = Some (dp, dc)" "dict_ok p" "dict_ok c"
  shows "dict_ok dp" "dict_ok dc"
proof -
  have "distinct (map fst (diff_entries p c)) \<and> fst ` set (diff_entries p c) \<subseteq> fst ` set p \<inter> fst ` set c"
    using assms(3)
  proof (induction c)
    case Nil
    then show ?case by simp
  next
    case (Cons kv c)
    obtain j v where kv: "kv = (j, v)" by fastforce
    have j: "j \<notin> fst ` set c" and ok: "dict_ok c"
      using Cons.prems kv by (simp_all add: dict_ok_def)
    have IH: "distinct (map fst (diff_entries p c))"
      "fst ` set (diff_entries p c) \<subseteq> fst ` set p \<inter> fst ` set c"
      using Cons.IH[OF ok] by simp_all
    then have j': "j \<notin> fst ` set (diff_entries p c)" using j by blast
    have "map_of p j = None \<or> j \<in> fst ` set p" by (simp add: map_of_eq_None_iff)
    then consider "diff_entries p (kv # c) = diff_entries p c"
      | a b where "diff_entries p (kv # c) = (j, a, b) # diff_entries p c" "j \<in> fst ` set p"
      using kv by (cases "map_of p j"; cases "diff_value (the (map_of p j)) v") auto
    then show ?case
    proof cases
      case 1
      with IH show ?thesis by auto
    next
      case 2
      with IH j' kv show ?thesis by auto
    qed
  qed
  then have d: "distinct (map fst (diff_entries p c))"
    and sub: "fst ` set (diff_entries p c) \<subseteq> fst ` set c" "fst ` set (diff_entries p c) \<subseteq> fst ` set p"
    by auto
  have app: "dict_ok (xs @ filter (\<lambda>(k, v). map_of b k = None) a)"
    if "map fst xs = map fst (diff_entries p c)" "dict_ok a"
      "fst ` set (diff_entries p c) \<subseteq> fst ` set b" for xs a b :: jdict
  proof -
    have "fst ` set (diff_entries p c) \<inter> fst ` set (filter (\<lambda>(k, v). map_of b k = None) a) = {}"
      using keys_filter_absent[of b a] that(3) by blast
    with that(1,2) d show ?thesis by (simp add: dict_ok_def distinct_map_filter)
  qed
  show "dict_ok dp"
    unfolding diff_event_as_map_Some(1)[OF assms(1)]
    using assms(2) sub(1) by (intro app) auto
  show "dict_ok dc"
    unfolding diff_event_as_map_Some(2)[OF assms(1)]
    using assms(3) sub(2) by (intro app) auto
qed

lemma diff_halves_differ:
  "wf_json p \<Longrightarrow> wf_json c \<Longrightarrow> diff_value p c = Some (a, b) \<Longrightarrow> \<not> json_eq a b"
proof (induction c arbitrary: p a b rule: json_induct)
  case (JList cs)
  show ?case
  proof (cases "is_list p")
    case True
    then obtain ps where p: "p = JList ps" by (auto simp: is_list_iff)
    with JList.prems obtain dp dc where d: "diff_event_as_list ps cs = Some (dp, dc)"
      and ab: "a = JList dp" "b = JList dc" by auto
    show ?thesis
    proof (cases "length cs = length ps")
      case True
      have "\<not> (\<forall>(x, y)\<in>set (zip ps cs). diff_value x y = None)"
        using d True diff_event_as_list_None[of ps cs] diff_items_skip_iff[of ps cs] by simp
      then obtain i u where i: "i < length ps" "diff_value (ps ! i) (cs ! i) = Some u"
        using True by (auto simp: set_zip)
      then have "(dp ! i, dc ! i) = u" using diff_list_nth(3)[OF d, of i] True by simp
      moreover have "wf_json (ps ! i)" "wf_json (cs ! i)" using JList.prems p i(1) True by auto
      ultimately have "\<not> json_eq (dp ! i) (dc ! i)"
        using JList.IH[of "cs ! i"] i True by (metis nth_mem)
      then show ?thesis using i(1) True diff_list_nth(1,2)[OF d]
        by (auto simp: ab json_list_eq_iff list_all2_conv_all_nth)
    next
      case False
      then show ?thesis using diff_list_nth(1,2)[OF d]
        by (auto simp: ab json_list_eq_iff list_all2_lengthD)
    qed
  next
    case False
    then show ?thesis using JList.prems by (cases p) auto
  qed
next
  case (JObj cs)
  show ?case
  proof (cases "is_dict p")
    case True
    then obtain ps where p: "p = JObj ps" by (auto simp: is_dict_iff)
    with JObj.prems obtain dp dc where d: "diff_event_as_map ps cs = Some (dp, dc)"
      and ab: "a = JObj dp" "b = JObj dc" by auto
    have ok: "dict_ok ps" "dict_ok cs" using JObj.prems p by auto
    note look = diff_map_lookup[OF d ok(2)]
    have "\<not> json_eq (JObj ps) (JObj cs)"
      using d diff_event_as_map_None_iff[of ps cs] JObj.prems p by auto
    then obtain k where k: "\<not> rel_option json_eq (map_of ps k) (map_of cs k)"
      using json_eq_JObj[OF ok] by blast
    have "\<not> rel_option json_eq (map_of dp k) (map_of dc k)"
    proof (cases "map_of ps k"; cases "map_of cs k")
      fix w v assume wv: "map_of ps k = Some w" "map_of cs k = Some v"
      have wf: "wf_json w" "wf_json v" using JObj.prems p wv by (auto dest!: map_of_SomeD)
      have "diff_value w v \<noteq> None" using k wv diff_value_None[OF wf] by simp
      then obtain x y where xy: "diff_value w v = Some (x, y)" by auto
      have "(k, v) \<in> set cs" using wv(2) by (rule map_of_SomeD)
      from JObj.IH[OF this wf xy] show ?thesis by (simp add: look wv xy)
    qed (use k in \<open>simp_all add: look\<close>)
    then show ?thesis using json_eq_JObj[OF dict_ok_diff[OF d ok]] by (auto simp: ab)
  next
    case False
    then show ?thesis using JObj.prems by (cases p) auto
  qed
qed (auto split: if_splits)

lemma diff_value_skip: "diff_value p c = Some (a, jskip) \<Longrightarrow> c = jskip"
  by (cases "(p, c)" rule: diff_value.cases) (auto split: json.splits if_splits)

lemma patch_diff_value:
  "wf_json p \<Longrightarrow> wf_json c \<Longrightarrow> no_skip c \<Longrightarrow> diff_value p c = Some (a, b) \<Longrightarrow>
   json_eq (patch_value p a b) c"
proof (induction c arbitrary: p a b rule: json_induct)
  case (JList cs)
  show ?case
  proof (cases "is_list p")
    case True
    then obtain ps where p: "p = JList ps" by (auto simp: is_list_iff)
    with JList.prems obtain dp dc where d: "diff_event_as_list ps cs = Some (dp, dc)"
      and ab: "a = JList dp" "b = JList dc" by auto
    note len = diff_list_nth(1,2)[OF d]
    note nth = patch_list_nth[OF len(1)[symmetric], of dc]
    have wf: "wf_json (ps ! i)" if "i < length ps" for i using that JList.prems p by simp
    have wfc: "wf_json (cs ! i)" "no_skip (cs ! i)" "cs ! i \<noteq> jskip" if "i < length cs" for i
      using that JList.prems by auto
    have "json_eq (patch_list ps dp dc ! i) (cs ! i)" if i: "i < length cs" for i
    proof (cases "i < length ps")
      case False
      then show ?thesis
        using nth i len diff_list_nth(5)[OF d, of i] wfc[OF i] by (simp add: json_eq_refl)
    next
      case ips: True
      show ?thesis
      proof (cases "diff_value (ps ! i) (cs ! i)")
        case None
        then have "json_eq (ps ! i) (cs ! i)" using diff_value_None wf[OF ips] wfc[OF i] by simp
        with None nth i ips len diff_list_nth(3)[OF d ips i] show ?thesis by simp
      next
        case (Some xy)
        then have s: "diff_value (ps ! i) (cs ! i) = Some (dp ! i, dc ! i)"
          using diff_list_nth(3)[OF d ips i] by simp
        then have "dc ! i \<noteq> jskip" using diff_value_skip wfc(3)[OF i] by metis
        moreover have "json_eq (patch_value (ps ! i) (dp ! i) (dc ! i)) (cs ! i)"
          using JList.IH[OF nth_mem[OF i]] wf[OF ips] wfc[OF i] s by blast
        ultimately show ?thesis using nth i ips len by simp
      qed
    qed
    then show ?thesis
      using p ab nth len by (simp add: json_list_eq_iff list_all2_conv_all_nth)
  next
    case False
    then have "a = p \<and> b = JList cs" using JList.prems by (cases p) auto
    with False JList.prems json_eq_refl[of "JList cs"] show ?thesis by (cases p) auto
  qed
next
  case (JObj cs)
  show ?case
  proof (cases "is_dict p")
    case True
    then obtain ps where p: "p = JObj ps" by (auto simp: is_dict_iff)
    with JObj.prems obtain dp dc where d: "diff_event_as_map ps cs = Some (dp, dc)"
      and ab: "a = JObj dp" "b = JObj dc" by auto
    have ok: "dict_ok ps" "dict_ok cs" using JObj.prems p by auto
    have okp: "dict_ok (patch_map ps dp dc)"
      using dict_ok_patch_map[OF ok(1) dict_ok_diff(2)[OF d ok]] .
    have "rel_option json_eq (map_of (patch_map ps dp dc) k) (map_of cs k)" for k
    proof (cases "map_of cs k")
      case None
      then show ?thesis
        using diff_map_lookup[OF d ok(2), of k]
        by (simp add: map_of_patch_map[OF ok(1)] split: option.splits)
    next
      case (Some v)
      have v: "wf_json v" "no_skip v" "(k, v) \<in> set cs"
        using Some JObj.prems by (auto dest: map_of_SomeD)
      show ?thesis
      proof (cases "map_of ps k")
        case None
        with Some show ?thesis
          using diff_map_lookup[OF d ok(2), of k] v
          by (simp add: map_of_patch_map[OF ok(1)] json_eq_refl)
      next
        case w: (Some w)
        have ww: "wf_json w" using w JObj.prems p by (auto dest: map_of_SomeD)
        show ?thesis
        proof (cases "diff_value w v")
          case None
          then have "json_eq w v" using diff_value_None ww v by simp
          with None Some w show ?thesis
            using diff_map_lookup[OF d ok(2), of k] by (simp add: map_of_patch_map[OF ok(1)])
        next
          case (Some xy)
          obtain x y where "xy = (x, y)" by fastforce
          with Some have "diff_value w v = Some (x, y)" by simp
          then have "json_eq (patch_value w x y) v" using JObj.IH[OF v(3)] ww v by blast
          with \<open>diff_value w v = Some (x, y)\<close> \<open>map_of cs k = Some v\<close> w show ?thesis
            using diff_map_lookup[OF d ok(2), of k] by (simp add: map_of_patch_map[OF ok(1)])
        qed
      qed
    qed
    then have "json_eq (JObj (patch_map ps dp dc)) (JObj cs)"
      using json_eq_JObj[OF okp ok(2)] by blast
    with p ab show ?thesis by simp
  next
    case False
    then have "a = p \<and> b = JObj cs" using JObj.prems by (cases p) auto
    with False JObj.prems json_eq_refl[of "JObj cs"] show ?thesis by (cases p) auto
  qed
qed (auto split: if_splits)

section \<open>Masking is a projection\<close>

lemma keys_canonicalize [simp]:
  "map fst (canonicalize_event_as_map m path ks ps) = map fst m"
  by (induction m) auto

lemma set_keys_canonicalize [simp]:
  "fst ` set (canonicalize_event_as_map m path ks ps) = fst ` set m"
  using keys_canonicalize[of m path ks ps] by (metis list.set_map)

lemma dict_ok_canonicalize [simp]:
  "dict_ok (canonicalize_event_as_map m path ks ps) \<longleftrightarrow> dict_ok m"
  by (simp add: dict_ok_def)

lemma length_canonicalize_list [simp]:
  "length (canonicalize_event_as_list xs path ks ps) = length xs"
  by (induction xs) auto

lemma canonicalize_value_idem: "canonicalize_value (canonicalize_value s) = canonicalize_value s"
  using mask_head[of SIEVE_VALUE_MASK]
  by (auto simp: canonicalize_value_def SIEVE_VALUE_MASK_def is_digit_def)

lemma canonicalize_value_mask [simp]: "canonicalize_value SIEVE_VALUE_MASK = SIEVE_VALUE_MASK"
  using mask_head[of SIEVE_VALUE_MASK]
  by (auto simp: canonicalize_value_def SIEVE_VALUE_MASK_def is_digit_def)

lemmas canonicalize_induct =
  canonicalize_field_canonicalize_event_as_list_canonicalize_event_as_map.induct

lemma canonicalize_idem:
  "canonicalize_field (canonicalize_field j path ks ps) path ks ps = canonicalize_field j path ks ps"
  "canonicalize_event_as_list (canonicalize_event_as_list xs path ks ps) path ks ps =
     canonicalize_event_as_list xs path ks ps"
  "canonicalize_event_as_map (canonicalize_event_as_map m path ks ps) path ks ps =
     canonicalize_event_as_map m path ks ps"
  by (induction j path ks ps and xs path ks ps and m path ks ps rule: canonicalize_induct)
     (auto simp: Let_def canonicalize_value_idem)

lemma wf_canonicalize:
  "wf_json j \<Longrightarrow> wf_json (canonicalize_field j path ks ps)"
  "\<forall>x\<in>set xs. wf_json x \<Longrightarrow> \<forall>x\<in>set (canonicalize_event_as_list xs path ks ps). wf_json x"
  "\<forall>(k, v)\<in>set m. wf_json v \<Longrightarrow>
     \<forall>(k, v)\<in>set (canonicalize_event_as_map m path ks ps). wf_json v"
  by (induction j path ks ps and xs path ks ps and m path ks ps rule: canonicalize_induct)
     (auto simp: Let_def)

lemma map_of_canonicalize:
  "map_of (canonicalize_event_as_map m path ks ps) k =
     map_option (\<lambda>v. if k \<in> ks \<or> path_join path k \<in> ps then JStr SIEVE_VALUE_MASK
                     else canonicalize_field v (path_join path k) ks ps) (map_of m k)"
  by (induction m) (auto simp: Let_def)

lemma wf_delete: "wf_json (JObj m) \<Longrightarrow> wf_json (JObj (AList.delete k m))"
  by (auto simp: dict_ok_def AList.distinct_delete AList.delete_eq distinct_map_filter)

text \<open>The object a difference is taken of: trimmed and masked as the arguments say.\<close>

definition diff_view :: "bool \<Rightarrow> bool \<Rightarrow> string set \<Rightarrow> string set \<Rightarrow> jdict \<Rightarrow> jdict" where
  "diff_view trim_ka can ks ps e =
     (let e1 = (if trim_ka then trim_kind_apiversion e else e)
      in if can then canonicalize_event e1 ks ps else e1)"

lemma diff_event_view:
  "diff_event p c ks ps trim_ka can =
     diff_event_as_map (diff_view trim_ka can ks ps p) (diff_view trim_ka can ks ps c)"
  by (simp add: diff_event_def diff_view_def Let_def)

lemma wf_trim: "wf_json (JObj e) \<Longrightarrow> wf_json (JObj (trim_kind_apiversion e))"
  unfolding trim_kind_apiversion_def by (intro wf_delete)

lemma wf_canonicalize_event:
  "wf_json (JObj e) \<Longrightarrow> wf_json (JObj (canonicalize_event e ks ps))"
  using wf_canonicalize(1)[of "JObj e"] by (simp add: canonicalize_event_def)

lemma wf_diff_view: "wf_json (JObj e) \<Longrightarrow> wf_json (JObj (diff_view trim_ka can ks ps e))"
  unfolding diff_view_def Let_def by (simp only: wf_trim wf_canonicalize_event split: if_split) simp

lemma canonicalize_field_skip [simp]: "canonicalize_field x path ks ps = jskip \<longleftrightarrow> x = jskip"
  using mask_head[of SIEVE_IDX_SKIP]
  by (cases x) (auto simp: is_digit_def canonicalize_value_def SIEVE_VALUE_MASK_def SIEVE_IDX_SKIP_def split: if_splits)

lemma mask_not_skip [simp]: "SIEVE_VALUE_MASK \<noteq> SIEVE_IDX_SKIP"
  by (simp add: SIEVE_VALUE_MASK_def SIEVE_IDX_SKIP_def)

lemma canonicalize_list_map:
  "canonicalize_event_as_list xs path ks ps =
     map (\<lambda>x. if path_join path ''*'' \<in> ps then JStr SIEVE_VALUE_MASK
              else canonicalize_field x (path_join path ''*'') ks ps) xs"
  by (induction xs) (simp_all add: Let_def)

lemma canonicalize_map_map:
  "canonicalize_event_as_map m path ks ps =
     map (\<lambda>(k, v). (k, if k \<in> ks \<or> path_join path k \<in> ps then JStr SIEVE_VALUE_MASK
                       else canonicalize_field v (path_join path k) ks ps)) m"
  by (induction m) (auto simp: Let_def)

lemma no_skip_canonicalize: "no_skip j \<Longrightarrow> no_skip (canonicalize_field j path ks ps)"
proof (induction j arbitrary: path rule: json_induct)
  case (JList xs)
  then show ?case by (simp add: canonicalize_list_map)
next
  case (JObj m)
  then show ?case by (force simp: canonicalize_map_map)
qed simp_all

lemma no_skip_trim: "no_skip (JObj e) \<Longrightarrow> no_skip (JObj (trim_kind_apiversion e))"
  by (auto simp: trim_kind_apiversion_def AList.delete_eq)

lemma no_skip_canonicalize_event:
  "no_skip (JObj e) \<Longrightarrow> no_skip (JObj (canonicalize_event e ks ps))"
  using no_skip_canonicalize[of "JObj e"] by (simp add: canonicalize_event_def)

lemma no_skip_diff_view: "no_skip (JObj e) \<Longrightarrow> no_skip (JObj (diff_view trim_ka can ks ps e))"
  unfolding diff_view_def Let_def
  by (simp only: no_skip_trim no_skip_canonicalize_event split: if_split) simp

lemma diff_event_as_map_parts:
  assumes "wf_json (JObj p)" "wf_json (JObj c)" "diff_event_as_map p c = Some (a, b)"
  shows "part_of_event_as_map a p" "part_of_event_as_map b c"
  using diff_value_part_of[OF assms(1,2), of "JObj a" "JObj b"] assms(3) by simp_all

lemma part_of_map_lookups:
  assumes "part_of_event_as_map a b" "\<And>k v. map_of b k = Some v \<Longrightarrow> map_of c k = Some v"
  shows "part_of_event_as_map a c"
  using assms unfolding part_of_map_iff by blast

lemma view_lookup:
  "map_of (diff_view trim_ka True ks ps e) k = Some v \<Longrightarrow>
   map_of (canonicalize_event e ks ps) k = Some v"
  by (cases "k = ''kind'' \<or> k = ''apiVersion''")
     (auto simp: diff_view_def canonicalize_event_def trim_kind_apiversion_def
        map_of_canonicalize AList.delete_conv' Let_def split: if_splits)

section \<open>No masked value survives in a difference\<close>

text \<open>Every entry whose key is masked, at any depth, carries the placeholder.\<close>

fun masked_only :: "string set \<Rightarrow> json \<Rightarrow> bool" where
  "masked_only ks (JList xs) = (\<forall>x\<in>set xs. masked_only ks x)"
| "masked_only ks (JObj m) =
     (\<forall>(k, v)\<in>set m. (k \<in> ks \<longrightarrow> v = JStr SIEVE_VALUE_MASK) \<and> masked_only ks v)"
| "masked_only ks j = True"

lemma masked_only_canonicalize:
  "masked_only ks (canonicalize_field j path ks ps)"
  "\<forall>x\<in>set (canonicalize_event_as_list xs path ks ps). masked_only ks x"
  "\<forall>(k, v)\<in>set (canonicalize_event_as_map m path ks ps).
     (k \<in> ks \<longrightarrow> v = JStr SIEVE_VALUE_MASK) \<and> masked_only ks v"
  by (induction j path ks ps and xs path ks ps and m path ks ps rule: canonicalize_induct)
     (auto simp: Let_def)

lemma diff_value_mask:
  "diff_value (JStr s) (JStr s) = None"
  by simp

lemma diff_entries_sound:
  "(k, a, b) \<in> set (diff_entries p c) \<Longrightarrow>
   \<exists>w v. map_of p k = Some w \<and> (k, v) \<in> set c \<and> diff_value w v = Some (a, b)"
proof (induction c)
  case (Cons kv c)
  then show ?case
    by (cases kv; cases "map_of p (fst kv)"; cases "diff_value (the (map_of p (fst kv))) (snd kv)")
       auto
qed simp

lemma diff_items_sound:
  "(a, b) \<in> set (diff_items p c) \<Longrightarrow>
   (a, b) = (jskip, jskip) \<or> (\<exists>w\<in>set p. \<exists>v\<in>set c. diff_value w v = Some (a, b))"
proof (induction p arbitrary: c)
  case (Cons w p)
  then show ?case
    by (cases c; cases "diff_value w (hd c)") force+
qed simp

lemma masked_only_diff:
  "masked_only ks p \<Longrightarrow> masked_only ks c \<Longrightarrow> diff_value p c = Some (a, b) \<Longrightarrow>
   masked_only ks a \<and> masked_only ks b"
proof (induction c arbitrary: p a b rule: json_induct)
  case (JList cs)
  show ?case
  proof (cases "is_list p")
    case True
    then obtain ps where p: "p = JList ps" by (auto simp: is_list_iff)
    with JList.prems obtain dp dc where d: "diff_event_as_list ps cs = Some (dp, dc)"
      and ab: "a = JList dp" "b = JList dc" by auto
    have item: "masked_only ks x \<and> masked_only ks y" if xy: "(x, y) \<in> set (diff_items ps cs)" for x y
      using diff_items_sound[OF xy]
    proof
      assume "\<exists>w\<in>set ps. \<exists>v\<in>set cs. diff_value w v = Some (x, y)"
      then obtain w v where wv: "w \<in> set ps" "v \<in> set cs" "diff_value w v = Some (x, y)" by blast
      then have "masked_only ks w" "masked_only ks v" using JList.prems p by simp_all
      then show ?thesis using JList.IH[OF wv(2) _ _ wv(3)] by blast
    qed simp
    have dp: "dp = map fst (diff_items ps cs) @ drop (length (diff_items ps cs)) ps"
      and dc: "dc = map snd (diff_items ps cs) @ drop (length (diff_items ps cs)) cs"
      using d by (auto simp: diff_event_as_list.simps Let_def split: if_splits)
    show ?thesis
      unfolding ab dp dc using item JList.prems p by (fastforce dest: in_set_dropD)
  next
    case False
    then show ?thesis using JList.prems by (cases p) auto
  qed
next
  case (JObj cs)
  show ?case
  proof (cases "is_dict p")
    case True
    then obtain ps where p: "p = JObj ps" by (auto simp: is_dict_iff)
    with JObj.prems obtain dp dc where d: "diff_event_as_map ps cs = Some (dp, dc)"
      and ab: "a = JObj dp" "b = JObj dc" by auto
    have item: "masked_only ks x \<and> masked_only ks y \<and> k \<notin> ks"
      if xy: "(k, x, y) \<in> set (diff_entries ps cs)" for k x y
    proof -
      obtain w v where wv: "map_of ps k = Some w" "(k, v) \<in> set cs" "diff_value w v = Some (x, y)"
        using diff_entries_sound[OF xy] by blast
      have "masked_only ks w" "k \<in> ks \<longrightarrow> w = JStr SIEVE_VALUE_MASK"
        using wv(1) JObj.prems(1) p by (auto dest!: map_of_SomeD)
      moreover have "masked_only ks v" "k \<in> ks \<longrightarrow> v = JStr SIEVE_VALUE_MASK"
        using wv(2) JObj.prems(2) by auto
      ultimately show ?thesis
        using wv(3) JObj.IH[OF wv(2) _ _ wv(3)] diff_value_mask[of SIEVE_VALUE_MASK]
        by (metis option.distinct(1))
    qed
    then show ?thesis
      unfolding ab diff_event_as_map_Some[OF d] using JObj.prems p by fastforce
  next
    case False
    then show ?thesis using JObj.prems by (cases p) auto
  qed
qed (auto split: if_splits)

section \<open>Properties\<close>

text \<open>
  C30: \<open>diff_event\<close> reports no difference exactly when the two objects are equal once the masked
  fields (and, on request, \<open>kind\<close> and \<open>apiVersion\<close>) are left out, and then it returns
  \<open>None\<close> for both halves.
\<close>

theorem diff_event_none_iff:
  assumes "wf_json (JObj prev)" "wf_json (JObj cur)"
  shows "diff_event prev cur ks ps trim_ka can = None \<longleftrightarrow>
    json_eq (JObj (diff_view trim_ka can ks ps prev)) (JObj (diff_view trim_ka can ks ps cur))"
  unfolding diff_event_view using assms by (intro diff_event_as_map_None_iff wf_diff_view)

theorem diff_event_none_iff_witness:
  "diff_event [(''kind'', JStr ''Pod''), (''uid'', JStr ''a'')]
     [(''uid'', JStr ''b''), (''kind'', JStr ''Pod'')] {''uid''} {} False True = None"
  using diff_event_none_iff[of "[(''kind'', JStr ''Pod''), (''uid'', JStr ''a'')]"
      "[(''uid'', JStr ''b''), (''kind'', JStr ''Pod'')]" "{''uid''}" "{}" False True]
  by (simp add: dict_ok_def diff_view_def canonicalize_event_def canonicalize_value_def Let_def
      TIME_REG_def IP_REG_def MASK_REGS_def match_mask_regex_def)



text \<open>
  An event never conflicts with the object its own difference was taken from: the current half
  of a masked difference is a part of the masked current object, so the test that decides whether
  a later event cancels an earlier one is reflexive.
\<close>

theorem diff_event_no_self_conflict:
  assumes "wf_json (JObj prev)" "wf_json (JObj cur)"
    and "diff_event prev cur ks ps trim_ka True = Some (dprev, dcur)"
  shows "\<not> conflicting_event_payload (Some dcur) cur ks ps \<and>
    \<not> conflicting_event_payload (Some dprev) prev ks ps"
proof -
  note d = assms(3)[unfolded diff_event_view]
  note parts = diff_event_as_map_parts[OF wf_diff_view[OF assms(1)] wf_diff_view[OF assms(2)] d]
  show ?thesis
    using part_of_map_lookups[OF parts(2) view_lookup] part_of_map_lookups[OF parts(1) view_lookup]
    by (simp add: conflicting_event_payload_def)
qed

theorem diff_event_no_self_conflict_witness:
  "\<not> conflicting_event_payload (Some [(''a'', JInt 2)]) [(''a'', JInt 2), (''u'', JNull)] {''u''} {}"
  using diff_event_no_self_conflict[of "[(''a'', JInt 1), (''u'', JInt 5)]"
      "[(''a'', JInt 2), (''u'', JNull)]" "{''u''}" "{}" False "[(''a'', JInt 1)]" "[(''a'', JInt 2)]"]
  by (simp add: diff_event_def canonicalize_event_def diff_event_as_map.simps dict_ok_def Let_def
      path_join_def)

text \<open>
  Masking is idempotent and keeps the shape of the object: masking a masked event changes
  nothing, the keys and their order stay, and a well-formed object stays well-formed.
\<close>

theorem canonicalize_event_idempotent:
  "canonicalize_event (canonicalize_event e ks ps) ks ps = canonicalize_event e ks ps \<and>
   map fst (canonicalize_event e ks ps) = map fst e \<and>
   dict_ok (canonicalize_event e ks ps) = dict_ok e"
  by (simp add: canonicalize_event_def canonicalize_idem(3))

text \<open>
  C38: no value under a masked key survives in a difference that \<open>diff_event\<close> makes with canonicalization (the last argument
  \<open>can\<close> is \<open>True\<close>, its default and its value in both calls of the event graph): wherever a masked key appears in one of
  the two halves, at any depth, it carries the placeholder \<open>SIEVE-NON-NIL\<close>.
\<close>

theorem diff_event_hides_masked:
  assumes "diff_event prev cur ks ps trim_ka True = Some (dprev, dcur)"
  shows "masked_only ks (JObj dprev) \<and> masked_only ks (JObj dcur)"
proof -
  have m: "masked_only ks (JObj (diff_view trim_ka True ks ps e))" for e
    using masked_only_canonicalize(1)[of ks "JObj (if trim_ka then trim_kind_apiversion e else e)" "[]" ps]
    by (simp add: diff_view_def canonicalize_event_def Let_def)
  show ?thesis
    using masked_only_diff[OF m m, of prev cur "JObj dprev" "JObj dcur"] assms
    by (simp add: diff_event_view)
qed

text \<open>A token appears under a masked key, two levels down, together with a change that is not masked.\<close>

theorem diff_event_hides_masked_witness:
  "\<exists>dprev dcur.
     diff_event [(''spec'', JObj [(''a'', JInt 1)])]
       [(''spec'', JObj [(''a'', JInt 2), (''u'', JStr ''secret'')])] {''u''} {} False True = Some (dprev, dcur) \<and>
     dcur = [(''spec'', JObj [(''a'', JInt 2), (''u'', JStr SIEVE_VALUE_MASK)])] \<and>
     masked_only {''u''} (JObj dprev) \<and> masked_only {''u''} (JObj dcur)"
proof -
  have "\<exists>dprev. diff_event [(''spec'', JObj [(''a'', JInt 1)])]
       [(''spec'', JObj [(''a'', JInt 2), (''u'', JStr ''secret'')])] {''u''} {} False True =
     Some (dprev, [(''spec'', JObj [(''a'', JInt 2), (''u'', JStr SIEVE_VALUE_MASK)])])"
    by (simp add: diff_event_def canonicalize_event_def diff_event_as_map.simps)
  then show ?thesis using diff_event_hides_masked by blast
qed

end
