(* ===== verification/K8s_Event.thy ===== *)
theory K8s_Event
  imports Event_Delta Json_Text
begin

text \<open>
  Model of \<^verbatim>\<open>sieve_common/k8s_event.py\<close>: the marks and event types of the Sieve log, the classes of
  events with their constructors, the parsers of log lines, resource keys, masks by resource key,
  the conflict test between two hears and the signature of an event. An attribute of a Python
  object is a field of a record, a setter is a field update. A reconcile id is a string of the
  log once it is known and the integer \<open>-1\<close> before; the model writes \<open>None\<close> for \<open>-1\<close>.
\<close>

section \<open>Marks and types\<close>

definition SIEVE_BEFORE_HEAR_MARK :: string where
  "SIEVE_BEFORE_HEAR_MARK = ''[SIEVE-BEFORE-HEAR]''"
definition SIEVE_AFTER_HEAR_MARK :: string where
  "SIEVE_AFTER_HEAR_MARK = ''[SIEVE-AFTER-HEAR]''"
definition SIEVE_BEFORE_REST_WRITE_MARK :: string where
  "SIEVE_BEFORE_REST_WRITE_MARK = ''[SIEVE-BEFORE-REST-WRITE]''"
definition SIEVE_AFTER_REST_WRITE_MARK :: string where
  "SIEVE_AFTER_REST_WRITE_MARK = ''[SIEVE-AFTER-REST-WRITE]''"
definition SIEVE_AFTER_REST_READ_MARK :: string where
  "SIEVE_AFTER_REST_READ_MARK = ''[SIEVE-AFTER-REST-READ]''"
definition SIEVE_AFTER_CACHE_READ_MARK :: string where
  "SIEVE_AFTER_CACHE_READ_MARK = ''[SIEVE-AFTER-CACHE-READ]''"
definition SIEVE_BEFORE_RECONCILE_MARK :: string where
  "SIEVE_BEFORE_RECONCILE_MARK = ''[SIEVE-BEFORE-RECONCILE]''"
definition SIEVE_AFTER_RECONCILE_MARK :: string where
  "SIEVE_AFTER_RECONCILE_MARK = ''[SIEVE-AFTER-RECONCILE]''"
definition SIEVE_BEFORE_ANNOTATED_API_INVOCATION_MARK :: string where
  "SIEVE_BEFORE_ANNOTATED_API_INVOCATION_MARK = ''[SIEVE-BEFORE-ANNOTATED-API-INVOCATION]''"
definition SIEVE_AFTER_ANNOTATED_API_INVOCATION_MARK :: string where
  "SIEVE_AFTER_ANNOTATED_API_INVOCATION_MARK = ''[SIEVE-AFTER-ANNOTATED-API-INVOCATION]''"
definition SIEVE_API_EVENT_MARK :: string where
  "SIEVE_API_EVENT_MARK = ''[SIEVE-API-EVENT]''"

definition HEAR_READ_FILTER_FLAG :: bool where "HEAR_READ_FILTER_FLAG = True"
definition ALLOWED_ERROR_TYPE :: "string list" where "ALLOWED_ERROR_TYPE = [''NoError'']"
definition EVENT_NONE_TYPE :: string where "EVENT_NONE_TYPE = ''NONE_TYPE''"
definition NON_K8S_WRITE :: string where "NON_K8S_WRITE = ''NON_K8S_WRITE''"
definition DEFAULT_NS :: string where "DEFAULT_NS = ''default''"
definition UNKNOWN_RECONCILE_FUN :: string where "UNKNOWN_RECONCILE_FUN = ''unknown''"

abbreviation API_ADDED :: string where "API_ADDED \<equiv> ''ADDED''"
abbreviation API_MODIFIED :: string where "API_MODIFIED \<equiv> ''MODIFIED''"
abbreviation API_DELETED :: string where "API_DELETED \<equiv> ''DELETED''"
abbreviation HEAR_ADDED :: string where "HEAR_ADDED \<equiv> ''Added''"
abbreviation HEAR_UPDATED :: string where "HEAR_UPDATED \<equiv> ''Updated''"
abbreviation HEAR_DELETED :: string where "HEAR_DELETED \<equiv> ''Deleted''"
abbreviation HEAR_REPLACED :: string where "HEAR_REPLACED \<equiv> ''Replaced''"
abbreviation HEAR_SYNC :: string where "HEAR_SYNC \<equiv> ''Sync''"
abbreviation WRITE_CREATE :: string where "WRITE_CREATE \<equiv> ''Create''"
abbreviation WRITE_UPDATE :: string where "WRITE_UPDATE \<equiv> ''Update''"
abbreviation WRITE_DELETE :: string where "WRITE_DELETE \<equiv> ''Delete''"
abbreviation WRITE_DELETEALLOF :: string where "WRITE_DELETEALLOF \<equiv> ''DeleteAllOf''"
abbreviation WRITE_PATCH :: string where "WRITE_PATCH \<equiv> ''Patch''"
abbreviation WRITE_STATUS_UPDATE :: string where "WRITE_STATUS_UPDATE \<equiv> ''StatusUpdate''"
abbreviation WRITE_STATUS_PATCH :: string where "WRITE_STATUS_PATCH \<equiv> ''StatusPatch''"

definition detectable_controller_hear_types :: "string list" where
  "detectable_controller_hear_types = [HEAR_ADDED, HEAR_UPDATED, HEAR_DELETED]"

definition detectable_controller_write_types :: "string list" where
  "detectable_controller_write_types =
     [WRITE_CREATE, WRITE_UPDATE, WRITE_DELETE, WRITE_PATCH, WRITE_STATUS_UPDATE, WRITE_STATUS_PATCH]"

definition consistent_event_type :: "string \<Rightarrow> string \<Rightarrow> bool" where
  "consistent_event_type hear_type write_type \<longleftrightarrow>
     (let both_create = (hear_type = HEAR_ADDED \<and> write_type = WRITE_CREATE);
          both_update = (hear_type = HEAR_UPDATED \<and>
            (write_type = WRITE_UPDATE \<or> write_type = WRITE_PATCH \<or>
             write_type = WRITE_STATUS_UPDATE \<or> write_type = WRITE_STATUS_PATCH));
          both_delete = (hear_type = HEAR_DELETED \<and> write_type = WRITE_DELETE)
      in both_create \<or> both_update \<or> both_delete)"

definition conflicting_event_type :: "string \<Rightarrow> string \<Rightarrow> bool" where
  "conflicting_event_type prev_type cur_type \<longleftrightarrow>
     (let other_then_delete = (prev_type \<noteq> HEAR_DELETED \<and> cur_type = HEAR_DELETED);
          delete_then_other = (prev_type = HEAR_DELETED \<and> cur_type \<noteq> HEAR_DELETED)
      in other_then_delete \<or> delete_then_other)"

definition is_creation_or_deletion :: "string \<Rightarrow> bool" where
  "is_creation_or_deletion etype \<longleftrightarrow>
     (etype = HEAR_ADDED \<or> etype = HEAR_DELETED) \<or> (etype = WRITE_CREATE \<or> etype = WRITE_DELETE)"

section \<open>Fields of an object\<close>

definition get_metadata :: "json \<Rightarrow> json res" where
  "get_metadata obj = res_bind (py_in ''metadata'' obj) (\<lambda>b.
     res_bind (py_assert b) (\<lambda>_. py_getitem obj ''metadata''))"

text \<open>\<open>d[k] if k in d else x\<close>.\<close>

definition get_or :: "json \<Rightarrow> string \<Rightarrow> json \<Rightarrow> json res" where
  "get_or d k x = res_bind (py_in k d) (\<lambda>b. if b then py_getitem d k else Inr x)"

definition extract_uid :: "json \<Rightarrow> json res" where
  "extract_uid obj = res_bind (get_metadata obj) (\<lambda>m. get_or m ''uid'' JNull)"

definition extract_namespace_name :: "json \<Rightarrow> (json \<times> json) res" where
  "extract_namespace_name obj = res_bind (get_metadata obj) (\<lambda>m.
     res_bind (py_getitem m ''name'') (\<lambda>obj_name.
     res_bind (get_or m ''namespace'' (JStr ''default'')) (\<lambda>obj_namespace.
       Inr (obj_namespace, obj_name))))"

definition extract_name :: "json \<Rightarrow> json res" where
  "extract_name obj = res_bind (get_metadata obj) (\<lambda>m. py_getitem m ''name'')"

definition extract_generate_name :: "json \<Rightarrow> json res" where
  "extract_generate_name obj = res_bind (py_in ''metadata'' obj) (\<lambda>b.
     if b then res_bind (py_getitem obj ''metadata'') (\<lambda>m. get_or m ''generateName'' JNull)
     else get_or obj ''generateName'' JNull)"

definition is_generated_random_name :: "string \<Rightarrow> string \<Rightarrow> bool" where
  "is_generated_random_name name generate_name \<longleftrightarrow>
     py_startswith name generate_name \<and> length name = length generate_name + 5"

section \<open>Resource keys\<close>

definition generate_key :: "string \<Rightarrow> string \<Rightarrow> string \<Rightarrow> string" where
  "generate_key resource_type namespace name = py_join ''/'' [resource_type, namespace, name]"

definition parse_key :: "string \<Rightarrow> (string \<times> string \<times> string) res" where
  "parse_key key = (case py_split CHR ''/'' key of
       [a, b, c] \<Rightarrow> Inr (a, b, c)
     | _ \<Rightarrow> Inl AssertionError)"

text \<open>A name read from an object may be any JSON value; \<open>str.join\<close> rejects what is no string.\<close>

definition as_str :: "json \<Rightarrow> string res" where
  "as_str j = (case j of JStr s \<Rightarrow> Inr s | _ \<Rightarrow> Inl TypeError)"

text \<open>A mask map: for a pattern of resource keys, the paths (lists of keys) to mask.\<close>

type_synonym mask_map = "(string, string list list) dict"

definition mask_of_path :: "string list \<Rightarrow> string res" where
  "mask_of_path field_path_list =
     (if field_path_list = [] then Inl AssertionError
      else if length field_path_list = 1 then Inr (hd field_path_list)
      else Inr (py_join ''/'' field_path_list))"

definition get_mask_by_resource_key :: "mask_map \<Rightarrow> string \<Rightarrow> string list res" where
  "get_mask_by_resource_key key_mask_map resource_key =
     res_fold (\<lambda>masked_keys (key, paths).
         if key = resource_key \<or> path_match resource_key key
         then res_bind (res_map mask_of_path paths) (\<lambda>ms. Inr (masked_keys @ ms))
         else Inr masked_keys)
       [] key_mask_map"

section \<open>Events\<close>

record api_event =
  ae_etype :: string
  ae_original_key :: string
  ae_key :: string
  ae_rtype :: string
  ae_namespace :: string
  ae_name :: string
  ae_obj_str :: string
  ae_obj_map :: json

definition APIEvent :: "string \<Rightarrow> string \<Rightarrow> string \<Rightarrow> string \<Rightarrow> string \<Rightarrow> string \<Rightarrow> api_event res" where
  "APIEvent etype original_key rtype namespace name obj_str =
     res_bind (loads obj_str) (\<lambda>obj_map.
       Inr \<lparr> ae_etype = etype, ae_original_key = original_key,
             ae_key = generate_key rtype namespace name, ae_rtype = rtype,
             ae_namespace = namespace, ae_name = name, ae_obj_str = obj_str, ae_obj_map = obj_map \<rparr>)"

definition get_metadata_value :: "api_event \<Rightarrow> string \<Rightarrow> json res" where
  "get_metadata_value e mkey =
     res_bind (py_in mkey (ae_obj_map e)) (\<lambda>b.
       if b then py_getitem (ae_obj_map e) mkey
       else res_bind (py_in ''metadata'' (ae_obj_map e)) (\<lambda>m.
         if \<not> m then Inr JNull
         else res_bind (py_getitem (ae_obj_map e) ''metadata'') (\<lambda>d. get_or d mkey JNull)))"

record controller_hear =
  ch_id :: int
  ch_etype :: string
  ch_rtype :: string
  ch_obj_str :: string
  ch_obj_map :: json
  ch_namespace :: string
  ch_name :: string
  ch_start_timestamp :: int
  ch_end_timestamp :: int
  ch_key :: string
  ch_slim_prev_obj_map :: "jdict option"
  ch_slim_cur_obj_map :: "jdict option"
  ch_prev_etype :: string
  ch_cancelled_by :: "int list"
  ch_signature_counter :: nat

definition ControllerHear :: "string \<Rightarrow> string \<Rightarrow> string \<Rightarrow> string \<Rightarrow> controller_hear res" where
  "ControllerHear id_str etype rtype obj_str =
     res_bind (py_int id_str) (\<lambda>i.
     res_bind (loads obj_str) (\<lambda>obj_map.
     res_bind (extract_namespace_name obj_map) (\<lambda>(ns, nm).
     res_bind (as_str ns) (\<lambda>namespace.
     res_bind (as_str nm) (\<lambda>name.
       Inr \<lparr> ch_id = i, ch_etype = etype, ch_rtype = rtype, ch_obj_str = obj_str,
             ch_obj_map = obj_map, ch_namespace = namespace, ch_name = name,
             ch_start_timestamp = -1, ch_end_timestamp = -1,
             ch_key = generate_key rtype namespace name,
             ch_slim_prev_obj_map = None, ch_slim_cur_obj_map = None,
             ch_prev_etype = EVENT_NONE_TYPE, ch_cancelled_by = [],
             ch_signature_counter = 1 \<rparr>)))))"

record controller_nk_write =
  cn_id :: int
  cn_module :: string
  cn_file_path :: string
  cn_recv_type :: string
  cn_fun_name :: string
  cn_reconcile_fun :: string
  cn_reconcile_id :: "string option"
  cn_start_timestamp :: int
  cn_end_timestamp :: int
  cn_range_start_timestamp :: int
  cn_range_end_timestamp :: int
  cn_signature_counter :: nat

definition ControllerNonK8sWrite ::
  "string \<Rightarrow> string \<Rightarrow> string \<Rightarrow> string \<Rightarrow> string \<Rightarrow> string \<Rightarrow> controller_nk_write res" where
  "ControllerNonK8sWrite id_str module file_path recv_type fun_name reconcile_fun =
     res_bind (py_int id_str) (\<lambda>i.
       Inr \<lparr> cn_id = i, cn_module = module, cn_file_path = file_path, cn_recv_type = recv_type,
             cn_fun_name = fun_name, cn_reconcile_fun = reconcile_fun, cn_reconcile_id = None,
             cn_start_timestamp = -1, cn_end_timestamp = -1,
             cn_range_start_timestamp = -1, cn_range_end_timestamp = -1,
             cn_signature_counter = 1 \<rparr>)"

record controller_write =
  cw_id :: int
  cw_etype :: string
  cw_rtype :: string
  cw_reconcile_fun :: string
  cw_reconcile_id :: "string option"
  cw_error :: string
  cw_obj_str :: string
  cw_obj_map :: json
  cw_namespace :: string
  cw_name :: string
  cw_start_timestamp :: int
  cw_end_timestamp :: int
  cw_range_start_timestamp :: int
  cw_range_end_timestamp :: int
  cw_read_types :: "string list"
  cw_read_keys :: "string list"
  cw_key :: string
  cw_prev_obj_map :: "json option"
  cw_slim_prev_obj_map :: "jdict option"
  cw_slim_cur_obj_map :: "jdict option"
  cw_prev_etype :: string
  cw_signature_counter :: nat

definition ControllerWrite ::
  "string \<Rightarrow> string \<Rightarrow> string \<Rightarrow> string \<Rightarrow> string \<Rightarrow> string \<Rightarrow> string \<Rightarrow> string \<Rightarrow> controller_write res" where
  "ControllerWrite id_str etype reconcile_fun error rtype namespace name obj_str =
     res_bind (py_int id_str) (\<lambda>i.
     res_bind (py_assert (etype \<noteq> WRITE_DELETEALLOF)) (\<lambda>_.
     res_bind (loads obj_str) (\<lambda>obj_map.
     res_bind (if name \<noteq> [] then Inr (JStr name) else extract_name obj_map) (\<lambda>nm.
     res_bind (as_str nm) (\<lambda>name'.
       Inr \<lparr> cw_id = i, cw_etype = etype, cw_rtype = rtype, cw_reconcile_fun = reconcile_fun,
             cw_reconcile_id = None, cw_error = error, cw_obj_str = obj_str, cw_obj_map = obj_map,
             cw_namespace = namespace, cw_name = name',
             cw_start_timestamp = -1, cw_end_timestamp = -1,
             cw_range_start_timestamp = -1, cw_range_end_timestamp = -1,
             cw_read_types = [], cw_read_keys = [],
             cw_key = generate_key rtype namespace name',
             cw_prev_obj_map = None, cw_slim_prev_obj_map = None, cw_slim_cur_obj_map = None,
             cw_prev_etype = EVENT_NONE_TYPE, cw_signature_counter = 1 \<rparr>)))))"

definition set_range :: "controller_write \<Rightarrow> int \<Rightarrow> int \<Rightarrow> controller_write res" where
  "set_range w start_timestamp end_timestamp =
     res_bind (py_assert (start_timestamp < end_timestamp)) (\<lambda>_.
       Inr (w\<lparr> cw_range_start_timestamp := start_timestamp,
               cw_range_end_timestamp := end_timestamp \<rparr>))"

text \<open>
  \<open>key_set\<close> and the keys of \<open>key_to_obj\<close> are filled together; the set keeps the insertion
  order of the dict. \<open>from_cache\<close> is compared with the string \<open>"true"\<close>, as the source does, while
  both callers pass a bool.
\<close>

record controller_read =
  cr_etype :: string
  cr_from_cache :: bool
  cr_rtype :: string
  cr_reconcile_fun :: string
  cr_reconcile_id :: "string option"
  cr_error :: string
  cr_key_to_obj :: jdict
  cr_key_set :: "string list"
  cr_end_timestamp :: int

text \<open>\<open>for x in j\<close>.\<close>

definition py_iter :: "json \<Rightarrow> json list res" where
  "py_iter j = (case j of
       JList xs \<Rightarrow> Inr xs
     | JObj m \<Rightarrow> Inr (map (\<lambda>(k, v). JStr k) m)
     | JStr s \<Rightarrow> Inr (map (\<lambda>c. JStr [c]) s)
     | _ \<Rightarrow> Inl TypeError)"

definition add_listed :: "string \<Rightarrow> string list \<times> jdict \<Rightarrow> json \<Rightarrow> (string list \<times> jdict) res" where
  "add_listed rtype st obj = (case st of (key_set, key_to_obj) \<Rightarrow>
     res_bind (py_getitem obj ''metadata'') (\<lambda>m.
     res_bind (get_or m ''namespace'' (JStr DEFAULT_NS)) (\<lambda>ns.
     res_bind (py_getitem m ''name'') (\<lambda>nm.
     res_bind (as_str ns) (\<lambda>namespace.
     res_bind (as_str nm) (\<lambda>name.
       let key = generate_key rtype namespace name in
       res_bind (py_assert (key \<notin> set key_set)) (\<lambda>_.
       res_bind (py_assert (map_of key_to_obj key = None)) (\<lambda>_.
         Inr (key_set @ [key], AList.update key obj key_to_obj)))))))))"

definition ControllerRead ::
  "string \<Rightarrow> json \<Rightarrow> string \<Rightarrow> string \<Rightarrow> string \<Rightarrow> string \<Rightarrow> string \<Rightarrow> string \<Rightarrow> controller_read res" where
  "ControllerRead etype from_cache rtype namespace name reconcile_fun error obj_str =
     res_bind (loads obj_str) (\<lambda>objs.
     res_bind (if etype = ''Get''
               then (let key = generate_key rtype namespace name in Inr ([key], [(key, objs)]))
               else if objs = JNull then Inr ([], [])
               else res_bind (py_iter objs) (res_fold (add_listed rtype) ([], [])))
       (\<lambda>(key_set, key_to_obj).
       Inr \<lparr> cr_etype = etype, cr_from_cache = json_eq from_cache (JStr ''true''),
             cr_rtype = rtype, cr_reconcile_fun = reconcile_fun, cr_reconcile_id = None,
             cr_error = error, cr_key_to_obj = key_to_obj, cr_key_set = key_set,
             cr_end_timestamp = -1 \<rparr>))"

record reconcile_mark =
  rc_reconcile_fun :: string
  rc_reconcile_id :: string
  rc_end_timestamp :: int

definition Reconcile :: "string \<Rightarrow> string \<Rightarrow> reconcile_mark" where
  "Reconcile reconcile_fun reconcile_id =
     \<lparr> rc_reconcile_fun = reconcile_fun, rc_reconcile_id = reconcile_id, rc_end_timestamp = -1 \<rparr>"

datatype event =
    Hear controller_hear
  | Write controller_write
  | NonK8sWrite controller_nk_write
  | Read controller_read
  | ReconcileBegin reconcile_mark
  | ReconcileEnd reconcile_mark

section \<open>Parsing log lines\<close>

definition mark_tokens :: "string \<Rightarrow> string \<Rightarrow> string list" where
  "mark_tokens mark line = py_split CHR 0x09 (strip_newline (from_mark mark line))"

definition tok :: "string list \<Rightarrow> nat \<Rightarrow> string res" where
  "tok tokens i = (if i < length tokens then Inr (tokens ! i) else Inl IndexError)"

definition toks :: "string list \<Rightarrow> nat list \<Rightarrow> string list res" where
  "toks tokens is = res_map (tok tokens) is"

definition parse_controller_hear :: "string \<Rightarrow> controller_hear res" where
  "parse_controller_hear line =
     res_bind (py_assert (py_contains SIEVE_BEFORE_HEAR_MARK line)) (\<lambda>_.
       let tokens = mark_tokens SIEVE_BEFORE_HEAR_MARK line in
       res_bind (tok tokens 1) (\<lambda>t1. res_bind (tok tokens 2) (\<lambda>t2.
       res_bind (tok tokens 3) (\<lambda>t3. res_bind (tok tokens 4) (\<lambda>t4.
         ControllerHear t1 t2 t3 t4)))))"

definition parse_controller_write :: "string \<Rightarrow> controller_write res" where
  "parse_controller_write line =
     res_bind (py_assert (py_contains SIEVE_AFTER_REST_WRITE_MARK line)) (\<lambda>_.
       let tokens = mark_tokens SIEVE_AFTER_REST_WRITE_MARK line in
       res_bind (tok tokens 1) (\<lambda>t1. res_bind (tok tokens 2) (\<lambda>t2.
       res_bind (tok tokens 3) (\<lambda>t3. res_bind (tok tokens 4) (\<lambda>t4.
       res_bind (tok tokens 5) (\<lambda>t5. res_bind (tok tokens 6) (\<lambda>t6.
       res_bind (tok tokens 7) (\<lambda>t7. res_bind (tok tokens 8) (\<lambda>t8.
         ControllerWrite t1 t2 t3 t4 t5 t6 t7 t8)))))))))"

definition parse_controller_read :: "string \<Rightarrow> controller_read res" where
  "parse_controller_read line =
     res_bind (py_assert (py_contains SIEVE_AFTER_REST_READ_MARK line)) (\<lambda>_.
       let tokens = drop 1 (mark_tokens SIEVE_AFTER_REST_READ_MARK line) in
       res_bind (tok tokens 1) (\<lambda>t1.
         if t1 = ''Get'' then
           res_bind (tok tokens 4) (\<lambda>t4. res_bind (tok tokens 5) (\<lambda>t5.
           res_bind (tok tokens 6) (\<lambda>t6. res_bind (tok tokens 2) (\<lambda>t2.
           res_bind (tok tokens 3) (\<lambda>t3. res_bind (tok tokens 7) (\<lambda>t7.
             ControllerRead t1 (JBool False) t4 t5 t6 t2 t3 t7))))))
         else if t1 = ''List'' then
           res_bind (tok tokens 4) (\<lambda>t4. res_bind (tok tokens 2) (\<lambda>t2.
           res_bind (tok tokens 3) (\<lambda>t3. res_bind (tok tokens 7) (\<lambda>t7.
             ControllerRead t1 (JBool False) t4 [] [] t2 t3 t7))))
         else Inl AssertionError))"

definition parse_controller_non_k8s_write :: "string \<Rightarrow> controller_nk_write res" where
  "parse_controller_non_k8s_write line =
     res_bind (py_assert (py_contains SIEVE_AFTER_ANNOTATED_API_INVOCATION_MARK line)) (\<lambda>_.
       let tokens = mark_tokens SIEVE_AFTER_ANNOTATED_API_INVOCATION_MARK line in
       res_bind (tok tokens 1) (\<lambda>t1. res_bind (tok tokens 2) (\<lambda>t2.
       res_bind (tok tokens 3) (\<lambda>t3. res_bind (tok tokens 4) (\<lambda>t4.
       res_bind (tok tokens 5) (\<lambda>t5. res_bind (tok tokens 6) (\<lambda>t6.
         ControllerNonK8sWrite t1 t2 t3 t4 t5 t6)))))))"

definition parse_controller_cache_read :: "string \<Rightarrow> controller_read res" where
  "parse_controller_cache_read line =
     res_bind (py_assert (py_contains SIEVE_AFTER_CACHE_READ_MARK line)) (\<lambda>_.
       let tokens = mark_tokens SIEVE_AFTER_CACHE_READ_MARK line in
       res_bind (tok tokens 1) (\<lambda>t1.
         if t1 = ''Get'' then
           res_bind (tok tokens 2) (\<lambda>t2. res_bind (tok tokens 3) (\<lambda>t3.
           res_bind (tok tokens 4) (\<lambda>t4. res_bind (tok tokens 5) (\<lambda>t5.
           res_bind (tok tokens 6) (\<lambda>t6. res_bind (tok tokens 7) (\<lambda>t7.
             ControllerRead t1 (JBool True) t2 t3 t4 t5 t6 t7))))))
         else if t1 = ''List'' then
           res_bind (tok tokens 2) (\<lambda>t2. res_bind (tok tokens 3) (\<lambda>t3.
           res_bind (tok tokens 4) (\<lambda>t4. res_bind (tok tokens 5) (\<lambda>t5.
             ControllerRead t1 (JBool True) t2 [] [] t3 t4 t5))))
         else Inl AssertionError))"

text \<open>The classes \<open>...IDOnly\<close> hold nothing but the integer id.\<close>

definition parse_id :: "string \<Rightarrow> string \<Rightarrow> int res" where
  "parse_id mark line = res_bind (tok (mark_tokens mark line) 1) py_int"

definition parse_controller_hear_id_only :: "string \<Rightarrow> int res" where
  "parse_controller_hear_id_only line =
     res_bind (py_assert (py_contains SIEVE_AFTER_HEAR_MARK line \<or>
       py_contains SIEVE_BEFORE_HEAR_MARK line)) (\<lambda>_.
       if py_contains SIEVE_AFTER_HEAR_MARK line then parse_id SIEVE_AFTER_HEAR_MARK line
       else parse_id SIEVE_BEFORE_HEAR_MARK line)"

definition parse_controller_write_id_only :: "string \<Rightarrow> int res" where
  "parse_controller_write_id_only line =
     res_bind (py_assert (py_contains SIEVE_AFTER_REST_WRITE_MARK line \<or>
       py_contains SIEVE_BEFORE_REST_WRITE_MARK line)) (\<lambda>_.
       if py_contains SIEVE_AFTER_REST_WRITE_MARK line
       then parse_id SIEVE_AFTER_REST_WRITE_MARK line
       else parse_id SIEVE_BEFORE_REST_WRITE_MARK line)"

definition parse_controller_non_k8s_write_id_only :: "string \<Rightarrow> int res" where
  "parse_controller_non_k8s_write_id_only line =
     res_bind (py_assert (py_contains SIEVE_AFTER_ANNOTATED_API_INVOCATION_MARK line \<or>
       py_contains SIEVE_BEFORE_ANNOTATED_API_INVOCATION_MARK line)) (\<lambda>_.
       if py_contains SIEVE_AFTER_ANNOTATED_API_INVOCATION_MARK line
       then parse_id SIEVE_AFTER_ANNOTATED_API_INVOCATION_MARK line
       else parse_id SIEVE_BEFORE_ANNOTATED_API_INVOCATION_MARK line)"

text \<open>The result is tagged \<open>True\<close> for a \<open>ReconcileBegin\<close>, \<open>False\<close> for a \<open>ReconcileEnd\<close>.\<close>

definition parse_reconcile :: "string \<Rightarrow> (bool \<times> reconcile_mark) res" where
  "parse_reconcile line =
     res_bind (py_assert (py_contains SIEVE_BEFORE_RECONCILE_MARK line \<or>
       py_contains SIEVE_AFTER_RECONCILE_MARK line)) (\<lambda>_.
       let is_begin = py_contains SIEVE_BEFORE_RECONCILE_MARK line;
           tokens = mark_tokens (if is_begin then SIEVE_BEFORE_RECONCILE_MARK
                                 else SIEVE_AFTER_RECONCILE_MARK) line in
       res_bind (tok tokens 1) (\<lambda>t1. res_bind (tok tokens 2) (\<lambda>t2.
         Inr (is_begin, Reconcile t1 t2))))"

definition parse_api_event :: "string \<Rightarrow> api_event res" where
  "parse_api_event line =
     res_bind (py_assert (py_contains SIEVE_API_EVENT_MARK line)) (\<lambda>_.
       let tokens = mark_tokens SIEVE_API_EVENT_MARK line in
       res_bind (tok tokens 1) (\<lambda>t1. res_bind (tok tokens 2) (\<lambda>t2.
       res_bind (tok tokens 3) (\<lambda>t3. res_bind (tok tokens 4) (\<lambda>t4.
       res_bind (tok tokens 5) (\<lambda>t5. res_bind (tok tokens 6) (\<lambda>t6.
         APIEvent t1 t2 t3 t4 t5 t6)))))))"

section \<open>Conflicts and signatures\<close>

text \<open>
  \<open>diff_event\<close> takes dicts. The object of a hear is one (\<open>ControllerHear_dict\<close> below); that of a
  write need not be, and then the first operation on it, \<open>event.pop("kind", None)\<close>, raises:
  \<open>TypeError\<close> on a list, whose \<open>pop\<close> takes one argument, \<open>AttributeError\<close> on a scalar.
\<close>

definition as_dict :: "json \<Rightarrow> jdict res" where
  "as_dict j = (case j of JObj m \<Rightarrow> Inr m | JList xs \<Rightarrow> Inl TypeError | _ \<Rightarrow> Inl AttributeError)"

definition conflicting_event ::
  "controller_hear \<Rightarrow> controller_hear \<Rightarrow> string set \<Rightarrow> string set \<Rightarrow> bool res" where
  "conflicting_event prev cur masked_keys masked_paths =
     (if conflicting_event_type (ch_etype prev) (ch_etype cur) then Inr True
      else if ch_etype prev \<noteq> HEAR_DELETED \<and> ch_etype cur \<noteq> HEAR_DELETED
      then (case ch_slim_cur_obj_map prev of
              None \<Rightarrow> Inr False
            | Some small \<Rightarrow> res_bind (as_dict (ch_obj_map cur)) (\<lambda>large.
                Inr (conflicting_event_payload (Some small) large masked_keys masked_paths)))
      else Inr False)"

definition slim_json :: "jdict option \<Rightarrow> json" where
  "slim_json m = (case m of None \<Rightarrow> JNull | Some d \<Rightarrow> JObj d)"

definition signature_of :: "string \<Rightarrow> jdict option \<Rightarrow> jdict option \<Rightarrow> string" where
  "signature_of etype slim_prev slim_cur =
     (if is_creation_or_deletion etype then etype
      else py_join [CHR 0x09] [etype, dumps (slim_json slim_prev), dumps (slim_json slim_cur)])"

definition get_event_signature :: "event \<Rightarrow> string res" where
  "get_event_signature e = (case e of
       Hear h \<Rightarrow> Inr (signature_of (ch_etype h) (ch_slim_prev_obj_map h) (ch_slim_cur_obj_map h))
     | Write w \<Rightarrow> Inr (signature_of (cw_etype w) (cw_slim_prev_obj_map w) (cw_slim_cur_obj_map w))
     | _ \<Rightarrow> Inl AssertionError)"

section \<open>Objects and keys\<close>

lemma py_getitem_eq_Inr [res_simps]:
  "py_getitem j k = Inr v \<longleftrightarrow> (\<exists>m. j = JObj m \<and> map_of m k = Some v)"
  by (auto simp: py_getitem_def res_simps split: json.splits)

lemma as_str_eq_Inr [res_simps]: "as_str j = Inr s \<longleftrightarrow> j = JStr s"
  by (auto simp: as_str_def split: json.splits)

lemma ControllerHear_dict:
  "ControllerHear i e r s = Inr h \<Longrightarrow>
   \<exists>m. ch_obj_map h = JObj m \<and> loads s = Inr (JObj m)"
  by (auto simp: ControllerHear_def extract_namespace_name_def get_metadata_def res_simps)

lemma generate_key_eq: "generate_key t ns n = t @ ''/'' @ ns @ ''/'' @ n"
  by (simp add: generate_key_def)

lemma parse_key_eq_Inr:
  "parse_key k = Inr (a, b, c) \<longleftrightarrow> py_split CHR ''/'' k = [a, b, c]"
  by (auto simp: parse_key_def split: list.splits)

text \<open>
  A resource key and its three components determine each other: \<open>parse_key\<close> returns exactly
  the components \<open>generate_key\<close> joined if none of them contains a slash, and whatever it
  returns joins back to the key.
\<close>

theorem key_roundtrip:
  "(parse_key (generate_key rtype ns nm) = Inr (rtype, ns, nm) \<longleftrightarrow>
      CHR ''/'' \<notin> set rtype \<union> set ns \<union> set nm) \<and>
   (parse_key k = Inr (a, b, c) \<longrightarrow> generate_key a b c = k)"
proof
  show "parse_key (generate_key rtype ns nm) = Inr (rtype, ns, nm) \<longleftrightarrow>
      CHR ''/'' \<notin> set rtype \<union> set ns \<union> set nm"
  proof
    assume "parse_key (generate_key rtype ns nm) = Inr (rtype, ns, nm)"
    then have "py_split CHR ''/'' (generate_key rtype ns nm) = [rtype, ns, nm]"
      by (simp add: parse_key_eq_Inr)
    then have "CHR ''/'' \<notin> set w" if "w \<in> {rtype, ns, nm}" for w
      using that py_split_parts[of w "CHR ''/''" "generate_key rtype ns nm"] by auto
    then show "CHR ''/'' \<notin> set rtype \<union> set ns \<union> set nm" by blast
  next
    assume "CHR ''/'' \<notin> set rtype \<union> set ns \<union> set nm"
    then show "parse_key (generate_key rtype ns nm) = Inr (rtype, ns, nm)"
      using py_split_py_join[of "[rtype, ns, nm]" "CHR ''/''"]
      by (auto simp: parse_key_eq_Inr generate_key_def)
  qed
  show "parse_key k = Inr (a, b, c) \<longrightarrow> generate_key a b c = k"
    unfolding parse_key_eq_Inr generate_key_def by (metis py_join_py_split)
qed

theorem key_roundtrip_witness:
  "parse_key ''pod/default/web-0'' = Inr (''pod'', ''default'', ''web-0'') \<and>
   generate_key ''pod'' ''default'' ''web-0'' = ''pod/default/web-0''"
  using key_roundtrip[of "''pod''" "''default''" "''web-0''" "''pod/default/web-0''"
      "''pod''" "''default''" "''web-0''"]
  by (simp add: parse_key_def)

section \<open>Tokens of a line\<close>

lemma py_find_after_prefix:
  "m \<noteq> [] \<Longrightarrow> hd m \<notin> set pre \<Longrightarrow> py_find m (pre @ m @ t) = Some (length pre)"
proof (induction pre)
  case Nil
  have "py_startswith (m @ t) m" by (auto simp: py_startswith_iff)
  with Nil show ?case by (cases m) auto
next
  case (Cons x pre)
  then have "\<not> py_startswith (x # pre @ m @ t) m"
    by (cases m) (auto simp: py_startswith_def)
  with Cons show ?case by simp
qed

lemma strip_trailing_newline:
  assumes "s \<noteq> []" "hd s \<noteq> CHR 0x0A" "last s \<noteq> CHR 0x0A"
  shows "strip_newline (s @ [CHR 0x0A]) = s"
proof -
  have "dropWhile (\<lambda>c. c = CHR 0x0A) (s @ [CHR 0x0A]) = s @ [CHR 0x0A]"
    using assms by (cases s) auto
  moreover have "dropWhile (\<lambda>c. c = CHR 0x0A) (rev s) = rev s"
    using assms by (cases "rev s") (auto simp: last_rev[symmetric])
  ultimately show ?thesis by (simp add: strip_while_def)
qed

text \<open>The lines the Sieve server writes: anything before the mark, then tab-separated fields.\<close>

definition log_line :: "string \<Rightarrow> string \<Rightarrow> string list \<Rightarrow> string" where
  "log_line pre mark fs = pre @ py_join [CHR 0x09] (mark # fs) @ [CHR 0x0A]"

definition field_ok :: "string \<Rightarrow> bool" where
  "field_ok s \<longleftrightarrow> CHR 0x09 \<notin> set s \<and> CHR 0x0A \<notin> set s"

lemma py_join_no_newline:
  "CHR 0x0A \<in> set (py_join [CHR 0x09] ws) \<Longrightarrow> \<exists>w\<in>set ws. CHR 0x0A \<in> set w"
  by (induction "[CHR 0x09]" ws rule: py_join.induct) auto

lemma mark_tokens_log_line:
  assumes "mark \<noteq> []" "hd mark \<notin> set pre" "\<forall>w\<in>set (mark # fs). field_ok w"
  shows "py_contains mark (log_line pre mark fs)"
    and "mark_tokens mark (log_line pre mark fs) = mark # fs"
proof -
  let ?body = "py_join [CHR 0x09] (mark # fs)"
  have body: "\<exists>t. ?body = mark @ t"
    by (cases fs) auto
  then obtain t where t: "?body = mark @ t" by blast
  have find: "py_find mark (log_line pre mark fs) = Some (length pre)"
    using py_find_after_prefix[OF assms(1,2), of "t @ [CHR 0x0A]"] t by (simp add: log_line_def)
  then show "py_contains mark (log_line pre mark fs)" by (simp add: py_contains_def)
  have "CHR 0x0A \<notin> set ?body"
    using py_join_no_newline assms(3) by (fastforce simp: field_ok_def)
  moreover have "?body \<noteq> []" using t assms(1) by simp
  ultimately have "strip_newline (?body @ [CHR 0x0A]) = ?body"
    by (intro strip_trailing_newline) (auto dest: hd_in_set last_in_set)
  moreover have "from_mark mark (log_line pre mark fs) = ?body @ [CHR 0x0A]"
    using find by (simp add: from_mark_def log_line_def)
  moreover have "py_split CHR 0x09 ?body = mark # fs"
    using assms(3) by (intro py_split_py_join) (auto simp: field_ok_def)
  ultimately show "mark_tokens mark (log_line pre mark fs) = mark # fs"
    by (simp add: mark_tokens_def)
qed

lemmas mark_defs =
  SIEVE_BEFORE_HEAR_MARK_def SIEVE_AFTER_HEAR_MARK_def SIEVE_BEFORE_REST_WRITE_MARK_def
  SIEVE_AFTER_REST_WRITE_MARK_def SIEVE_AFTER_REST_READ_MARK_def SIEVE_AFTER_CACHE_READ_MARK_def
  SIEVE_BEFORE_RECONCILE_MARK_def SIEVE_AFTER_RECONCILE_MARK_def
  SIEVE_BEFORE_ANNOTATED_API_INVOCATION_MARK_def SIEVE_AFTER_ANNOTATED_API_INVOCATION_MARK_def
  SIEVE_API_EVENT_MARK_def

lemma tok_nth [simp]: "i < length ts \<Longrightarrow> tok ts i = Inr (ts ! i)"
  by (simp add: tok_def)

text \<open>
  C39: the parsers recover the fields of a line: from a line with the mark and tab-separated fields
  that hold no tab or newline (and no opening bracket before the mark) each parser calls its
  constructor on exactly the logged fields, in the order of the log.
\<close>

theorem parse_log_line:
  assumes "CHR ''['' \<notin> set pre"
    and "\<forall>w\<in>{i, etype, fun, err, rtype, ns, nm, obj}. field_ok w"
  shows "parse_controller_hear (log_line pre SIEVE_BEFORE_HEAR_MARK [i, etype, rtype, obj]) =
      ControllerHear i etype rtype obj \<and>
    parse_controller_write
      (log_line pre SIEVE_AFTER_REST_WRITE_MARK [i, etype, fun, err, rtype, ns, nm, obj]) =
      ControllerWrite i etype fun err rtype ns nm obj \<and>
    parse_controller_cache_read
      (log_line pre SIEVE_AFTER_CACHE_READ_MARK [''Get'', rtype, ns, nm, fun, err, obj]) =
      ControllerRead ''Get'' (JBool True) rtype ns nm fun err obj \<and>
    parse_controller_cache_read
      (log_line pre SIEVE_AFTER_CACHE_READ_MARK [''List'', rtype, fun, err, obj]) =
      ControllerRead ''List'' (JBool True) rtype [] [] fun err obj"
proof -
  have ok: "field_ok w" if "w \<in> {i, etype, fun, err, rtype, ns, nm, obj, ''Get'', ''List'',
      SIEVE_BEFORE_HEAR_MARK, SIEVE_AFTER_REST_WRITE_MARK, SIEVE_AFTER_CACHE_READ_MARK}" for w
    using that assms(2) by (auto simp: field_ok_def mark_defs)
  have tk: "mark_tokens m (log_line pre m fs) = m # fs" "py_contains m (log_line pre m fs)"
    if "m \<in> {SIEVE_BEFORE_HEAR_MARK, SIEVE_AFTER_REST_WRITE_MARK, SIEVE_AFTER_CACHE_READ_MARK}"
      "\<forall>w\<in>set fs. field_ok w" for m fs
  proof -
    have "m \<noteq> []" "hd m = CHR ''[''" using that(1) by (auto simp: mark_defs)
    moreover have "field_ok m" using that(1) ok by blast
    ultimately show "mark_tokens m (log_line pre m fs) = m # fs" "py_contains m (log_line pre m fs)"
      using mark_tokens_log_line[of m pre fs] assms(1) that(2) by simp_all
  qed
  have 1: "parse_controller_hear (log_line pre SIEVE_BEFORE_HEAR_MARK [i, etype, rtype, obj]) =
      ControllerHear i etype rtype obj"
    using tk[of _ "[i, etype, rtype, obj]"] ok by (simp add: parse_controller_hear_def)
  have 2: "parse_controller_write
      (log_line pre SIEVE_AFTER_REST_WRITE_MARK [i, etype, fun, err, rtype, ns, nm, obj]) =
      ControllerWrite i etype fun err rtype ns nm obj"
    using tk[of _ "[i, etype, fun, err, rtype, ns, nm, obj]"] ok
    by (simp add: parse_controller_write_def)
  have 3: "parse_controller_cache_read
      (log_line pre SIEVE_AFTER_CACHE_READ_MARK [''Get'', rtype, ns, nm, fun, err, obj]) =
      ControllerRead ''Get'' (JBool True) rtype ns nm fun err obj"
    using tk[of _ "[''Get'', rtype, ns, nm, fun, err, obj]"] ok
    by (simp add: parse_controller_cache_read_def)
  have 4: "parse_controller_cache_read
      (log_line pre SIEVE_AFTER_CACHE_READ_MARK [''List'', rtype, fun, err, obj]) =
      ControllerRead ''List'' (JBool True) rtype [] [] fun err obj"
    using tk[of _ "[''List'', rtype, fun, err, obj]"] ok
    by (simp add: parse_controller_cache_read_def)
  show ?thesis using 1 2 3 4 by blast
qed

theorem parse_log_line_witness:
  "parse_controller_hear (log_line ''2024 '' SIEVE_BEFORE_HEAR_MARK [''7'', ''Added'', ''pod'', ''{}'']) =
     ControllerHear ''7'' ''Added'' ''pod'' ''{}''"
  using parse_log_line[of "''2024 ''" "''7''" "''Added''" "[]" "[]" "''pod''" "[]" "[]" "''{}''"]
  by (simp add: field_ok_def)

section \<open>Reads\<close>

lemma add_listed_inv:
  assumes "add_listed rtype (ks, m) obj = Inr (ks', m')" "ks = map fst m" "distinct ks"
  shows "ks' = map fst m' \<and> distinct ks'"
  using assms by (auto simp: add_listed_def res_simps Let_def map_fst_update map_of_eq_None_iff)

lemma listed_keys:
  assumes "res_fold (add_listed rtype) ([], []) xs = Inr (ks, m)"
  shows "ks = map fst m \<and> distinct ks"
proof -
  have "(\<lambda>(ks, m). ks = map fst m \<and> distinct ks) (ks, m)"
  proof (rule res_fold_invariant[OF assms])
    fix s x s'
    assume inv: "case s of (ks, m) \<Rightarrow> ks = map fst m \<and> distinct ks" and "add_listed rtype s x = Inr s'"
    then have "add_listed rtype (fst s, snd s) x = Inr (fst s', snd s')" by simp
    from add_listed_inv[OF this] inv show "case s' of (ks, m) \<Rightarrow> ks = map fst m \<and> distinct ks"
      by (metis (mono_tags, lifting) case_prod_unfold)
  qed simp
  then show ?thesis by auto
qed

lemma ControllerRead_fields:
  assumes "ControllerRead etype fc rtype ns nm fun err obj = Inr r"
  shows "cr_key_set r = map fst (cr_key_to_obj r)" "dict_ok (cr_key_to_obj r)"
    "cr_from_cache r = json_eq fc (JStr ''true'')" "cr_etype r = etype"
    "etype = ''Get'' \<Longrightarrow> cr_key_set r = [generate_key rtype ns nm]"
  using assms listed_keys
  by (force simp: ControllerRead_def res_simps dict_ok_def Let_def split: if_splits)+

text \<open>
  A parsed cache read is well formed: its key set is the key list of the objects it read, no
  key occurs twice, and a \<open>Get\<close> holds the one key built from its fields. The read is never
  marked as served from the cache: the constructor compares the flag \<open>True\<close> it is given with
  the string \<open>"true"\<close>.
\<close>

theorem cache_read_well_formed:
  assumes "parse_controller_cache_read line = Inr r"
  shows "cr_key_set r = map fst (cr_key_to_obj r) \<and> distinct (cr_key_set r) \<and>
    (cr_etype r = ''Get'' \<longrightarrow> length (cr_key_set r) = 1) \<and> \<not> cr_from_cache r"
proof -
  obtain etype rtype ns nm fn err obj where
    r: "ControllerRead etype (JBool True) rtype ns nm fn err obj = Inr r"
    using assms by (auto simp: parse_controller_cache_read_def Let_def res_simps split: if_splits)
  note f = ControllerRead_fields[OF r]
  have "cr_etype r = ''Get'' \<Longrightarrow> length (cr_key_set r) = 1" using f(4,5) by simp
  with f(1-3) show ?thesis by (simp add: dict_ok_def)
qed

text \<open>A cache read of one pod, used by the witnesses.\<close>

definition sample_read :: string where
  "sample_read = log_line [] SIEVE_AFTER_CACHE_READ_MARK
     [''Get'', ''pod'', ''default'', ''a'', ''rec'', ''NoError'', ''{}'']"

definition sample_read_value :: controller_read where
  "sample_read_value = \<lparr> cr_etype = ''Get'', cr_from_cache = False, cr_rtype = ''pod'',
     cr_reconcile_fun = ''rec'', cr_reconcile_id = None, cr_error = ''NoError'',
     cr_key_to_obj = [(''pod/default/a'', JObj [])], cr_key_set = [''pod/default/a''],
     cr_end_timestamp = -1 \<rparr>"

lemma loads_empty_dict: "loads ''{}'' = Inr (JObj [])"
  by code_simp

lemma sample_read_parsed: "parse_controller_cache_read sample_read = Inr sample_read_value"
proof -
  let ?fs = "[''Get'', ''pod'', ''default'', ''a'', ''rec'', ''NoError'', ''{}'']"
  have t: "py_contains SIEVE_AFTER_CACHE_READ_MARK sample_read"
    "mark_tokens SIEVE_AFTER_CACHE_READ_MARK sample_read = SIEVE_AFTER_CACHE_READ_MARK # ?fs"
    unfolding sample_read_def
    using mark_tokens_log_line[of SIEVE_AFTER_CACHE_READ_MARK "[]" ?fs]
    by (simp_all add: field_ok_def SIEVE_AFTER_CACHE_READ_MARK_def)
  show ?thesis
    by (simp add: parse_controller_cache_read_def t ControllerRead_def loads_empty_dict Let_def
        sample_read_value_def generate_key_def)
qed

theorem cache_read_well_formed_witness:
  "distinct (cr_key_set sample_read_value) \<and> \<not> cr_from_cache sample_read_value"
  using cache_read_well_formed[OF sample_read_parsed] by blast

section \<open>Signatures\<close>

text \<open>A printed value holds no tab, so the parts of a signature cannot run into each other.\<close>

abbreviation tab :: char where "tab \<equiv> CHR 0x09"

lemma hex_char_not_tab: "d < 16 \<Longrightarrow> hex_char d \<noteq> tab"
  using hex_val_hex_char[of d] by (auto simp: hex_val_def is_digit_def)

lemma esc_char_no_tab: "tab \<notin> set (esc_char c)"
proof -
  have "(of_char c :: nat) < 256" by (rule nat_of_char_less_256)
  then have "(of_char c :: nat) div 16 < 16" by linarith
  then have "hex_char (of_char c div 16) \<noteq> tab" "hex_char (of_char c mod 16) \<noteq> tab"
    by (intro hex_char_not_tab; simp)+
  then show ?thesis by (auto simp: esc_char_def)
qed

lemma dump_str_no_tab: "tab \<notin> set (dump_str s)"
  using esc_char_no_tab by (auto simp: dump_str_def)

lemma int_str_no_tab: "tab \<notin> set (int_str i)"
proof -
  have "\<not> is_digit tab" by (simp add: is_digit_def)
  then have "tab \<notin> set (nat_str n)" for n using nat_str_digits by blast
  then show ?thesis by (simp add: int_str_def)
qed

lemma py_join_chars:
  "c \<in> set (py_join sep ws) \<Longrightarrow> c \<in> set sep \<or> (\<exists>w\<in>set ws. c \<in> set w)"
  by (induction sep ws rule: py_join.induct) auto

lemma emit_no_tab: "tab \<notin> set (emit j)"
proof (induction j rule: json_induct)
  case (JList xs)
  then show ?case by (auto dest!: py_join_chars)
next
  case (JObj m)
  then show ?case using dump_str_no_tab by (force dest!: py_join_chars)
qed (auto simp: int_str_no_tab dump_str_no_tab)

lemma dumps_no_tab: "tab \<notin> set (dumps j)"
  by (simp add: dumps_def emit_no_tab)

lemma tab_split_unique:
  assumes "a @ tab # b = a' @ tab # b'" "tab \<notin> set a" "tab \<notin> set a'"
  shows "a = a' \<and> b = b'"
proof -
  have "py_split tab (a @ tab # b) = a # py_split tab b"
    "py_split tab (a' @ tab # b') = a' # py_split tab b'"
    using assms(2,3) by (simp_all add: py_split_append)
  with assms(1) show ?thesis by simp
qed

definition same_slim :: "jdict option \<Rightarrow> jdict option \<Rightarrow> bool" where
  "same_slim a b \<longleftrightarrow> sort_keys (slim_json a) = sort_keys (slim_json b)"

definition wf_slim :: "jdict option \<Rightarrow> bool" where
  "wf_slim a \<longleftrightarrow> wf_json (slim_json a)"

lemma signature_no_tab: "tab \<in> set (signature_of e p c) \<or> is_creation_or_deletion e"
  by (simp add: signature_of_def)

text \<open>
  Signatures identify events. Two events whose types hold no tab have the same signature
  exactly when the types agree and, for other types than creations and deletions, both halves of
  the difference agree up to the order of keys; so counting signatures counts repetitions of the
  same change.
\<close>

theorem signature_identifies_event:
  assumes "tab \<notin> set e" "tab \<notin> set e'" "wf_slim p" "wf_slim c" "wf_slim p'" "wf_slim c'"
  shows "signature_of e p c = signature_of e' p' c' \<longleftrightarrow>
    e = e' \<and> (is_creation_or_deletion e \<or> same_slim p p' \<and> same_slim c c')"
proof (cases "is_creation_or_deletion e \<or> is_creation_or_deletion e'")
  case True
  then show ?thesis
    using signature_no_tab[of e p c] signature_no_tab[of e' p' c'] assms(1,2)
    by (auto simp: signature_of_def)
next
  case False
  have "signature_of e p c = signature_of e' p' c' \<longleftrightarrow>
      e @ tab # dumps (slim_json p) @ tab # dumps (slim_json c) =
      e' @ tab # dumps (slim_json p') @ tab # dumps (slim_json c')"
    using False by (simp add: signature_of_def)
  also have "\<dots> \<longleftrightarrow> e = e' \<and> dumps (slim_json p) = dumps (slim_json p') \<and>
      dumps (slim_json c) = dumps (slim_json c')"
    using assms(1,2) dumps_no_tab tab_split_unique by metis
  also have "\<dots> \<longleftrightarrow> e = e' \<and> same_slim p p' \<and> same_slim c c'"
    using assms(3-6) dumps_eq_iff by (simp add: wf_slim_def same_slim_def)
  finally show ?thesis using False by blast
qed

theorem signature_identifies_event_witness:
  "signature_of ''Updated'' None (Some [(''a'', JInt 1), (''b'', JInt 2)]) =
   signature_of ''Updated'' None (Some [(''b'', JInt 2), (''a'', JInt 1)])"
  using signature_identifies_event[of "''Updated''" "''Updated''" None
      "Some [(''a'', JInt 1), (''b'', JInt 2)]" None "Some [(''b'', JInt 2), (''a'', JInt 1)]"]
  by (simp add: wf_slim_def slim_json_def dict_ok_def same_slim_def insort_key_def)

end
