(* ===== verification/Sieve_Log.thy ===== *)
theory Sieve_Log
  imports K8s_Event
begin

text \<open>
  Model of the log readers of \<^verbatim>\<open>sieve_analyzer/analyze.py\<close>: \<open>sanity_check_sieve_server_log\<close>,
  \<open>parse_receiver_events\<close> and \<open>parse_reconciler_events\<close>. The lines of the file are the argument;
  the time of an event is the index of its line. A loop over the lines is a fold of its body over
  the numbered lines, the local variables that live across iterations are a record.
\<close>

section \<open>Sanity check of the log\<close>

record log_status =
  ls_write :: "(int, nat) dict"
  ls_hear :: "(int, nat) dict"
  ls_reconcile :: "(string, int) dict"
  ls_fun :: "string option"

definition init_status :: log_status where
  "init_status = \<lparr> ls_write = [], ls_hear = [], ls_reconcile = [], ls_fun = None \<rparr>"

definition sanity_step :: "log_status \<Rightarrow> string \<Rightarrow> log_status res" where
  "sanity_step st line =
     (if py_contains SIEVE_BEFORE_REST_WRITE_MARK line then
        res_bind (parse_controller_write_id_only line) (\<lambda>i.
        res_bind (py_assert (map_of (ls_write st) i = None)) (\<lambda>_.
          Inr (st\<lparr> ls_write := AList.update i 1 (ls_write st) \<rparr>)))
      else if py_contains SIEVE_AFTER_REST_WRITE_MARK line then
        res_bind (parse_controller_write_id_only line) (\<lambda>i.
        res_bind (py_assert (map_of (ls_write st) i \<noteq> None)) (\<lambda>_.
          Inr (st\<lparr> ls_write := dict_bump i (ls_write st) \<rparr>)))
      else if py_contains SIEVE_BEFORE_HEAR_MARK line then
        res_bind (parse_controller_hear_id_only line) (\<lambda>i.
        res_bind (py_assert (map_of (ls_hear st) i = None)) (\<lambda>_.
          Inr (st\<lparr> ls_hear := AList.update i 1 (ls_hear st) \<rparr>)))
      else if py_contains SIEVE_AFTER_HEAR_MARK line then
        res_bind (parse_controller_hear_id_only line) (\<lambda>i.
        res_bind (py_assert (map_of (ls_hear st) i \<noteq> None)) (\<lambda>_.
          Inr (st\<lparr> ls_hear := dict_bump i (ls_hear st) \<rparr>)))
      else if py_contains SIEVE_BEFORE_RECONCILE_MARK line then
        res_bind (parse_reconcile line) (\<lambda>(_, rc).
          let f = rc_reconcile_fun rc;
              n = (case map_of (ls_reconcile st) f of None \<Rightarrow> 0 | Some n \<Rightarrow> n) + 1
          in res_bind (py_assert (n = 1)) (\<lambda>_.
               Inr (st\<lparr> ls_reconcile := AList.update f n (ls_reconcile st), ls_fun := Some f \<rparr>)))
      else if py_contains SIEVE_AFTER_RECONCILE_MARK line then
        res_bind (parse_reconcile line) (\<lambda>(_, rc).
          let f = rc_reconcile_fun rc
          in res_bind (from_option AssertionError (map_of (ls_reconcile st) f)) (\<lambda>n.
             res_bind (py_assert (n - 1 = 0)) (\<lambda>_.
               Inr (st\<lparr> ls_reconcile := AList.update f (n - 1) (ls_reconcile st),
                        ls_fun := Some f \<rparr>))))
      else Inr st)"

text \<open>
  The closing loops. The last one runs over the keys of \<open>reconcile_status\<close> but reads the entry of
  \<open>reconcile_fun\<close>, the variable of the loop above.
\<close>

definition sanity_check_sieve_server_log :: "string list \<Rightarrow> unit res" where
  "sanity_check_sieve_server_log lines =
     res_bind (res_fold sanity_step init_status lines) (\<lambda>st.
     res_bind (res_fold (\<lambda>_ (k, n). py_assert (n = 1 \<or> n = 2)) () (ls_write st)) (\<lambda>_.
     res_bind (res_fold (\<lambda>_ (k, n). py_assert (n = 1 \<or> n = 2)) () (ls_hear st)) (\<lambda>_.
       res_fold (\<lambda>_ key.
           res_bind (from_option UnboundLocalError (ls_fun st)) (\<lambda>f.
           res_bind (dict_item (ls_reconcile st) f) (\<lambda>n. py_assert (n = 0 \<or> n = 1))))
         () (ls_reconcile st))))"

section \<open>Receiver events\<close>

definition receiver_step ::
  "int \<Rightarrow> (int, controller_hear) dict \<Rightarrow> nat \<times> string \<Rightarrow> (int, controller_hear) dict res" where
  "receiver_step largest_timestamp hears il = (case il of (i, line) \<Rightarrow>
     if py_contains SIEVE_BEFORE_HEAR_MARK line then
       res_bind (parse_controller_hear line) (\<lambda>h.
         Inr (AList.update (ch_id h)
           (h\<lparr> ch_start_timestamp := int i, ch_end_timestamp := largest_timestamp \<rparr>) hears))
     else if py_contains SIEVE_AFTER_HEAR_MARK line then
       res_bind (parse_controller_hear_id_only line) (\<lambda>j.
       res_bind (dict_item hears j) (\<lambda>h.
         Inr (AList.update j (h\<lparr> ch_end_timestamp := int i \<rparr>) hears)))
     else Inr hears)"

definition receiver_pick ::
  "(int, controller_hear) dict \<Rightarrow> controller_hear list \<Rightarrow> string \<Rightarrow> controller_hear list res" where
  "receiver_pick hears controller_hear_list line =
     (if py_contains SIEVE_BEFORE_HEAR_MARK line then
        res_bind (parse_controller_hear line) (\<lambda>h.
        res_bind (dict_item hears (ch_id h)) (\<lambda>h'. Inr (controller_hear_list @ [h'])))
      else Inr controller_hear_list)"

definition parse_receiver_events :: "string list \<Rightarrow> controller_hear list res" where
  "parse_receiver_events lines =
     res_bind (res_fold (receiver_step (int (length lines))) [] (enumerate 0 lines)) (\<lambda>hears.
       res_fold (receiver_pick hears) [] lines)"

section \<open>Reconciler events\<close>

record reconciler_state =
  rs_write_start :: "(int, int) dict"
  rs_nk_write_start :: "(int, int) dict"
  rs_read_types :: "string list"
  rs_read_keys :: "string list"
  rs_prev_reconcile :: "(string, reconcile_mark option) dict"
  rs_cur_reconcile :: "(string, reconcile_mark) dict"
  rs_is_trivial :: "(string, bool) dict"
  rs_events :: "(int, event) dict"
  rs_ongoing :: "(string, int) dict"

definition init_reconciler :: reconciler_state where
  "init_reconciler = \<lparr> rs_write_start = [], rs_nk_write_start = [], rs_read_types = [],
     rs_read_keys = [], rs_prev_reconcile = [], rs_cur_reconcile = [], rs_is_trivial = [],
     rs_events = [], rs_ongoing = [] \<rparr>"

definition mark_nontrivial :: "reconciler_state \<Rightarrow> reconciler_state" where
  "mark_nontrivial st = st\<lparr> rs_is_trivial := map (\<lambda>(k, _). (k, False)) (rs_is_trivial st) \<rparr>"

text \<open>\<open>earliest_timestamp\<close> of a write: where the previous reconcile began, \<open>-1\<close> for the first.\<close>

definition earliest_of :: "reconcile_mark option \<Rightarrow> int" where
  "earliest_of prev = (case prev of None \<Rightarrow> -1 | Some rc \<Rightarrow> rc_end_timestamp rc)"

definition on_after_write :: "bool \<Rightarrow> nat \<Rightarrow> string \<Rightarrow> reconciler_state \<Rightarrow> reconciler_state res" where
  "on_after_write loosen i line st0 =
     (let st = mark_nontrivial st0 in
      res_bind (parse_controller_write line) (\<lambda>w0.
        let f = cw_reconcile_fun w0 in
        if map_of (rs_cur_reconcile st) f = None \<and> \<not> loosen then Inr st
        else res_bind (dict_item (rs_write_start st) (cw_id w0)) (\<lambda>start.
          let w1 = w0\<lparr> cw_read_keys := rs_read_keys st, cw_read_types := rs_read_types st,
                       cw_start_timestamp := start, cw_end_timestamp := int i \<rparr> in
          res_bind (case map_of (rs_cur_reconcile st) f of
                None \<Rightarrow> Inr w1
              | Some cur \<Rightarrow>
                  res_bind (dict_item (rs_prev_reconcile st) f) (\<lambda>prev.
                  res_bind (set_range w1 (earliest_of prev) (int i)) (\<lambda>w2.
                    Inr (w2\<lparr> cw_reconcile_id := Some (rc_reconcile_id cur) \<rparr>)))) (\<lambda>w.
            Inr (st\<lparr> rs_events :=
              AList.update (cw_start_timestamp w) (Write w) (rs_events st) \<rparr>)))))"

text \<open>
  \<open>ControllerNonK8sWrite\<close> has no method \<open>set_range\<close>: the call on it raises \<open>AttributeError\<close>.
\<close>

definition on_after_nk_write :: "bool \<Rightarrow> nat \<Rightarrow> string \<Rightarrow> reconciler_state \<Rightarrow> reconciler_state res" where
  "on_after_nk_write loosen i line st0 =
     (let st = mark_nontrivial st0 in
      res_bind (parse_controller_non_k8s_write line) (\<lambda>w0.
        let f = cn_reconcile_fun w0 in
        if map_of (rs_cur_reconcile st) f = None \<and> \<not> loosen then Inr st
        else res_bind (dict_item (rs_nk_write_start st) (cn_id w0)) (\<lambda>start.
          let w = w0\<lparr> cn_start_timestamp := start, cn_end_timestamp := int i \<rparr> in
          case map_of (rs_cur_reconcile st) f of
            None \<Rightarrow> Inr (st\<lparr> rs_events := AList.update start (NonK8sWrite w) (rs_events st) \<rparr>)
          | Some cur \<Rightarrow>
              res_bind (dict_item (rs_prev_reconcile st) f) (\<lambda>prev. Inl AttributeError))))"

definition on_read :: "bool \<Rightarrow> nat \<Rightarrow> controller_read \<Rightarrow> reconciler_state \<Rightarrow> reconciler_state" where
  "on_read is_cache i r0 st =
     (case map_of (rs_cur_reconcile st) (cr_reconcile_fun r0) of
        None \<Rightarrow> st
      | Some cur \<Rightarrow>
          let r = r0\<lparr> cr_end_timestamp := int i, cr_reconcile_id := Some (rc_reconcile_id cur) \<rparr>;
              st1 = st\<lparr> rs_events := AList.update (int i) (Read r) (rs_events st) \<rparr>
          in if \<not> is_cache then st1
             else if cr_etype r = ''Get''
             then st1\<lparr> rs_read_keys := List.union (cr_key_set r) (rs_read_keys st1) \<rparr>
             else st1\<lparr> rs_read_types := List.insert (cr_rtype r) (rs_read_types st1) \<rparr>)"

definition rec_event :: "bool \<times> reconcile_mark \<Rightarrow> event" where
  "rec_event p = (if fst p then ReconcileBegin (snd p) else ReconcileEnd (snd p))"

definition on_before_reconcile :: "bool \<Rightarrow> nat \<Rightarrow> string \<Rightarrow> reconciler_state \<Rightarrow> reconciler_state res" where
  "on_before_reconcile compress i line st =
     res_bind (parse_reconcile line) (\<lambda>(b, rc0).
       let rc = rc0\<lparr> rc_end_timestamp := int i \<rparr>;
           f = rc_reconcile_fun rc;
           n = (case map_of (rs_ongoing st) f of None \<Rightarrow> 1 | Some n \<Rightarrow> n + 1)
       in res_bind (py_assert (n = 1)) (\<lambda>_.
          let st1 = st\<lparr> rs_events := AList.update (int i) (rec_event (b, rc)) (rs_events st),
                        rs_ongoing := AList.update f n (rs_ongoing st) \<rparr> in
          res_bind (case map_of (rs_cur_reconcile st1) f of
              None \<Rightarrow> Inr (st1\<lparr> rs_prev_reconcile := AList.update f None (rs_prev_reconcile st1),
                                rs_cur_reconcile := AList.update f rc (rs_cur_reconcile st1) \<rparr>)
            | Some cur \<Rightarrow>
                let shifted = st1\<lparr>
                  rs_prev_reconcile := AList.update f (Some cur) (rs_prev_reconcile st1),
                  rs_cur_reconcile := AList.update f rc (rs_cur_reconcile st1) \<rparr> in
                if \<not> compress then Inr shifted
                else res_bind (dict_item (rs_is_trivial st1) f) (\<lambda>trivial.
                  Inr (if \<not> trivial then shifted else st1))) (\<lambda>st2.
            Inr (st2\<lparr> rs_is_trivial := AList.update f True (rs_is_trivial st2) \<rparr>))))"

definition on_after_reconcile :: "nat \<Rightarrow> string \<Rightarrow> reconciler_state \<Rightarrow> reconciler_state res" where
  "on_after_reconcile i line st =
     res_bind (parse_reconcile line) (\<lambda>(b, rc0).
       let rc = rc0\<lparr> rc_end_timestamp := int i \<rparr>;
           f = rc_reconcile_fun rc
       in res_bind (dict_item (rs_ongoing st) f) (\<lambda>n.
          let ongoing = (if n - 1 = 0 then AList.delete f (rs_ongoing st)
                         else AList.update f (n - 1) (rs_ongoing st));
              st1 = st\<lparr> rs_events := AList.update (int i) (rec_event (b, rc)) (rs_events st),
                        rs_ongoing := ongoing \<rparr>
          in Inr (if ongoing = [] then st1\<lparr> rs_read_keys := [], rs_read_types := [] \<rparr> else st1)))"

definition reconciler_step ::
  "bool \<Rightarrow> bool \<Rightarrow> reconciler_state \<Rightarrow> nat \<times> string \<Rightarrow> reconciler_state res" where
  "reconciler_step loosen compress st il = (case il of (i, line) \<Rightarrow>
     if py_contains SIEVE_BEFORE_REST_WRITE_MARK line then
       res_bind (parse_controller_write_id_only line) (\<lambda>j.
         Inr (st\<lparr> rs_write_start := AList.update j (int i) (rs_write_start st) \<rparr>))
     else if py_contains SIEVE_AFTER_REST_WRITE_MARK line then on_after_write loosen i line st
     else if py_contains SIEVE_BEFORE_ANNOTATED_API_INVOCATION_MARK line then
       res_bind (parse_controller_non_k8s_write_id_only line) (\<lambda>j.
         Inr (st\<lparr> rs_nk_write_start := AList.update j (int i) (rs_nk_write_start st) \<rparr>))
     else if py_contains SIEVE_AFTER_ANNOTATED_API_INVOCATION_MARK line then
       on_after_nk_write loosen i line st
     else if py_contains SIEVE_AFTER_REST_READ_MARK line then
       res_bind (parse_controller_read line) (\<lambda>r. Inr (on_read False i r st))
     else if py_contains SIEVE_AFTER_CACHE_READ_MARK line then
       res_bind (parse_controller_cache_read line) (\<lambda>r. Inr (on_read True i r st))
     else if py_contains SIEVE_BEFORE_RECONCILE_MARK line then on_before_reconcile compress i line st
     else if py_contains SIEVE_AFTER_RECONCILE_MARK line then on_after_reconcile i line st
     else Inr st)"

definition parse_reconciler_events :: "bool \<Rightarrow> bool \<Rightarrow> string list \<Rightarrow> event list res" where
  "parse_reconciler_events loosen compress lines =
     res_bind (res_fold (reconciler_step loosen compress) init_reconciler (enumerate 0 lines)) (\<lambda>st.
       Inr (map snd (sort_key fst (rs_events st))))"

section \<open>What a log that passes the sanity check looks like\<close>

text \<open>
  The specification: the entries of a log, and a log is sane when each write and each hear begins
  at most once and ends at most once, after its begin, and the begins and ends of each reconcile
  function alternate.
\<close>

datatype log_entry =
    WriteBegin int | WriteEnd int | HearBegin int | HearEnd int
  | RecBegin string | RecEnd string | NoEntry

definition classify :: "string \<Rightarrow> log_entry res" where
  "classify line =
     (if py_contains SIEVE_BEFORE_REST_WRITE_MARK line then
        res_bind (parse_controller_write_id_only line) (\<lambda>i. Inr (WriteBegin i))
      else if py_contains SIEVE_AFTER_REST_WRITE_MARK line then
        res_bind (parse_controller_write_id_only line) (\<lambda>i. Inr (WriteEnd i))
      else if py_contains SIEVE_BEFORE_HEAR_MARK line then
        res_bind (parse_controller_hear_id_only line) (\<lambda>i. Inr (HearBegin i))
      else if py_contains SIEVE_AFTER_HEAR_MARK line then
        res_bind (parse_controller_hear_id_only line) (\<lambda>i. Inr (HearEnd i))
      else if py_contains SIEVE_BEFORE_RECONCILE_MARK line then
        res_bind (parse_reconcile line) (\<lambda>(_, rc). Inr (RecBegin (rc_reconcile_fun rc)))
      else if py_contains SIEVE_AFTER_RECONCILE_MARK line then
        res_bind (parse_reconcile line) (\<lambda>(_, rc). Inr (RecEnd (rc_reconcile_fun rc)))
      else Inr NoEntry)"

definition prefix_sane :: "log_entry list \<Rightarrow> bool" where
  "prefix_sane es \<longleftrightarrow>
     (\<forall>i. count_list es (WriteBegin i) \<le> 1) \<and>
     (\<forall>i. WriteEnd i \<in> set es \<longrightarrow> WriteBegin i \<in> set es) \<and>
     (\<forall>i. count_list es (HearBegin i) \<le> 1) \<and>
     (\<forall>i. HearEnd i \<in> set es \<longrightarrow> HearBegin i \<in> set es) \<and>
     (\<forall>f. count_list es (RecEnd f) \<le> count_list es (RecBegin f) \<and>
          count_list es (RecBegin f) \<le> count_list es (RecEnd f) + 1)"

definition log_sane :: "log_entry list \<Rightarrow> bool" where
  "log_sane es \<longleftrightarrow> (\<forall>n \<le> length es. prefix_sane (take n es)) \<and>
     (\<forall>i. count_list es (WriteEnd i) \<le> 1 \<and> count_list es (HearEnd i) \<le> 1)"

fun apply_entry :: "log_status \<Rightarrow> log_entry \<Rightarrow> log_status res" where
  "apply_entry st (WriteBegin i) = res_bind (py_assert (map_of (ls_write st) i = None)) (\<lambda>_.
     Inr (st\<lparr> ls_write := AList.update i 1 (ls_write st) \<rparr>))"
| "apply_entry st (WriteEnd i) = res_bind (py_assert (map_of (ls_write st) i \<noteq> None)) (\<lambda>_.
     Inr (st\<lparr> ls_write := dict_bump i (ls_write st) \<rparr>))"
| "apply_entry st (HearBegin i) = res_bind (py_assert (map_of (ls_hear st) i = None)) (\<lambda>_.
     Inr (st\<lparr> ls_hear := AList.update i 1 (ls_hear st) \<rparr>))"
| "apply_entry st (HearEnd i) = res_bind (py_assert (map_of (ls_hear st) i \<noteq> None)) (\<lambda>_.
     Inr (st\<lparr> ls_hear := dict_bump i (ls_hear st) \<rparr>))"
| "apply_entry st (RecBegin f) =
     (let n = (case map_of (ls_reconcile st) f of None \<Rightarrow> 0 | Some n \<Rightarrow> n) + 1
      in res_bind (py_assert (n = 1)) (\<lambda>_.
           Inr (st\<lparr> ls_reconcile := AList.update f n (ls_reconcile st), ls_fun := Some f \<rparr>)))"
| "apply_entry st (RecEnd f) =
     res_bind (from_option AssertionError (map_of (ls_reconcile st) f)) (\<lambda>n.
     res_bind (py_assert (n - 1 = 0)) (\<lambda>_.
       Inr (st\<lparr> ls_reconcile := AList.update f (n - 1) (ls_reconcile st), ls_fun := Some f \<rparr>)))"
| "apply_entry st NoEntry = Inr st"

lemma sanity_step_classify: "sanity_step st line = res_bind (classify line) (apply_entry st)"
  unfolding sanity_step_def classify_def by (simp add: case_prod_unfold Let_def res_bind_assoc)

lemma fold_classified:
  "res_fold sanity_step st lines = Inr st' \<longleftrightarrow>
   (\<exists>es. res_map classify lines = Inr es \<and> res_fold apply_entry st es = Inr st')"
  by (induction lines arbitrary: st) (fastforce simp: sanity_step_classify res_simps)+

text \<open>The status dicts hold the counts of the entries read so far.\<close>

definition status_of :: "log_entry list \<Rightarrow> log_status \<Rightarrow> bool" where
  "status_of es st \<longleftrightarrow> dict_ok (ls_write st) \<and> dict_ok (ls_hear st) \<and> dict_ok (ls_reconcile st) \<and>
     (\<forall>i. map_of (ls_write st) i = (if WriteBegin i \<in> set es
        then Some (count_list es (WriteBegin i) + count_list es (WriteEnd i)) else None)) \<and>
     (\<forall>i. map_of (ls_hear st) i = (if HearBegin i \<in> set es
        then Some (count_list es (HearBegin i) + count_list es (HearEnd i)) else None)) \<and>
     (\<forall>f. map_of (ls_reconcile st) f = (if RecBegin f \<in> set es
        then Some (int (count_list es (RecBegin f)) - int (count_list es (RecEnd f))) else None)) \<and>
     (case ls_fun st of None \<Rightarrow> \<forall>f. RecBegin f \<notin> set es | Some f \<Rightarrow> RecBegin f \<in> set es)"

lemma count_list_snoc [simp]:
  "count_list (es @ [e]) x = (if e = x then Suc (count_list es x) else count_list es x)"
  by (induction es) auto

lemma count_zero: "x \<notin> set es \<Longrightarrow> count_list es x = 0"
  by (simp add: count_list_0_iff)

lemma prefix_saneD:
  assumes "prefix_sane es"
  shows "WriteBegin i \<notin> set es \<Longrightarrow> count_list es (WriteEnd i) = 0"
    "HearBegin i \<notin> set es \<Longrightarrow> count_list es (HearEnd i) = 0"
    "RecBegin f \<notin> set es \<Longrightarrow> count_list es (RecEnd f) = 0"
    "count_list es (RecEnd f) \<le> count_list es (RecBegin f)"
    "count_list es (RecBegin f) \<le> Suc (count_list es (RecEnd f))"
  using assms by (auto simp: prefix_sane_def intro: count_zero) (metis count_zero le_zero_eq)

lemma apply_entry_status:
  assumes "status_of es st" "prefix_sane es" "apply_entry st e = Inr st'"
  shows "status_of (es @ [e]) st'"
  using assms(1,3) prefix_saneD[OF assms(2)]
  by (cases e)
     (auto simp: status_of_def res_simps dict_bump_def count_zero Let_def split: if_splits option.splits)

lemma apply_entry_ok:
  assumes "status_of es st" "prefix_sane es"
  shows "(\<exists>st'. apply_entry st e = Inr st') \<longleftrightarrow> prefix_sane (es @ [e])"
proof (cases e)
  case (RecBegin f)
  have "(\<exists>st'. apply_entry st e = Inr st') \<longleftrightarrow> count_list es (RecBegin f) = count_list es (RecEnd f)"
    using assms(1) prefix_saneD(3)[OF assms(2), of f] RecBegin
    by (auto simp: status_of_def res_simps Let_def count_zero split: if_splits option.splits)
  also have "\<dots> \<longleftrightarrow> prefix_sane (es @ [e])"
    using assms(2) RecBegin by (auto simp: prefix_sane_def split: if_splits intro: order_antisym)
  finally show ?thesis .
next
  case (RecEnd f)
  have "(\<exists>st'. apply_entry st e = Inr st') \<longleftrightarrow>
      count_list es (RecBegin f) = Suc (count_list es (RecEnd f))"
    using assms(1) prefix_saneD(3)[OF assms(2), of f] RecEnd
    by (auto simp: status_of_def res_simps count_zero split: if_splits)
  also have "\<dots> \<longleftrightarrow> prefix_sane (es @ [e])"
    using assms(2) RecEnd by (auto simp: prefix_sane_def split: if_splits intro: order_antisym)
  finally show ?thesis .
next
  case (WriteBegin i)
  have "(\<exists>st'. apply_entry st e = Inr st') \<longleftrightarrow> WriteBegin i \<notin> set es"
    using assms(1) WriteBegin by (auto simp: status_of_def res_simps)
  also have "\<dots> \<longleftrightarrow> prefix_sane (es @ [e])"
    using assms(2) WriteBegin
    by (auto simp: prefix_sane_def count_list_0_iff count_zero split: if_splits)
  finally show ?thesis .
next
  case (HearBegin i)
  have "(\<exists>st'. apply_entry st e = Inr st') \<longleftrightarrow> HearBegin i \<notin> set es"
    using assms(1) HearBegin by (auto simp: status_of_def res_simps)
  also have "\<dots> \<longleftrightarrow> prefix_sane (es @ [e])"
    using assms(2) HearBegin
    by (auto simp: prefix_sane_def count_list_0_iff count_zero split: if_splits)
  finally show ?thesis .
next
  case (WriteEnd i)
  then show ?thesis using assms by (auto simp: status_of_def prefix_sane_def res_simps)
next
  case (HearEnd i)
  then show ?thesis using assms by (auto simp: status_of_def prefix_sane_def res_simps)
next
  case NoEntry
  then show ?thesis using assms(2) by (simp add: prefix_sane_def)
qed

lemma init_status_of: "status_of [] init_status" "prefix_sane []"
  by (simp_all add: status_of_def init_status_def prefix_sane_def)

lemma fold_entries:
  "(\<exists>st. res_fold apply_entry init_status es = Inr st) \<longleftrightarrow> (\<forall>n \<le> length es. prefix_sane (take n es))"
  "res_fold apply_entry init_status es = Inr st \<Longrightarrow> status_of es st"
proof (induction es arbitrary: st rule: rev_induct)
  case Nil
  {
    case 1
    then show ?case by (simp add: init_status_of)
  next
    case 2
    then show ?case using init_status_of by simp
  }
next
  case (snoc e es)
  have split: "(\<forall>n \<le> length (es @ [e]). prefix_sane (take n (es @ [e]))) \<longleftrightarrow>
      (\<forall>n \<le> length es. prefix_sane (take n es)) \<and> prefix_sane (es @ [e])"
    by (auto simp: le_Suc_eq)
  have sane: "prefix_sane es" if "res_fold apply_entry init_status es = Inr st1" for st1
    using snoc.IH(1) that by (metis order_refl take_all)
  {
    case 1
    show ?case
    proof
      assume "\<exists>st. res_fold apply_entry init_status (es @ [e]) = Inr st"
      then obtain st1 st2 where st1: "res_fold apply_entry init_status es = Inr st1"
        and "apply_entry st1 e = Inr st2"
        by (auto simp: res_fold_append res_simps)
      then show "\<forall>n \<le> length (es @ [e]). prefix_sane (take n (es @ [e]))"
        unfolding split using snoc.IH(1) apply_entry_ok[OF snoc.IH(2)[OF st1] sane[OF st1]] by blast
    next
      assume a: "\<forall>n \<le> length (es @ [e]). prefix_sane (take n (es @ [e]))"
      then obtain st1 where st1: "res_fold apply_entry init_status es = Inr st1"
        unfolding split using snoc.IH(1) by blast
      then show "\<exists>st. res_fold apply_entry init_status (es @ [e]) = Inr st"
        using a apply_entry_ok[OF snoc.IH(2)[OF st1] sane[OF st1]]
        unfolding split by (simp add: res_fold_append) (metis res_bind_Inr)
    qed
  next
    case 2
    then obtain st1 where st1: "res_fold apply_entry init_status es = Inr st1"
      and "apply_entry st1 e = Inr st"
      by (auto simp: res_fold_append res_simps)
    then show ?case using apply_entry_status snoc.IH(2)[OF st1] sane[OF st1] by blast
  }
qed

lemma res_fold_assert:
  "res_fold (\<lambda>_ x. py_assert (P x)) () xs = Inr u \<longleftrightarrow> (\<forall>x\<in>set xs. P x)"
  by (induction xs) (auto simp: res_simps)

lemma res_fold_unit: "(\<And>x. f () x = Inr ()) \<Longrightarrow> res_fold f () xs = Inr ()"
  by (induction xs) simp_all

lemma closing_loop:
  assumes "status_of es st" "prefix_sane es"
  shows "res_fold (\<lambda>_ key.
      res_bind (from_option UnboundLocalError (ls_fun st)) (\<lambda>f.
      res_bind (dict_item (ls_reconcile st) f) (\<lambda>n. py_assert (n = 0 \<or> n = 1))))
    () (ls_reconcile st) = Inr ()"
proof (cases "ls_fun st")
  case None
  then have "map_of (ls_reconcile st) f = None" for f using assms(1) by (simp add: status_of_def)
  then have "ls_reconcile st = []" by (metis map_of_eq_None_iff image_is_empty set_empty2 equals0I)
  then show ?thesis by simp
next
  case (Some f)
  then have "map_of (ls_reconcile st) f =
      Some (int (count_list es (RecBegin f)) - int (count_list es (RecEnd f)))"
    using assms(1) by (auto simp: status_of_def)
  moreover have "int (count_list es (RecBegin f)) - int (count_list es (RecEnd f)) = 0 \<or>
      int (count_list es (RecBegin f)) - int (count_list es (RecEnd f)) = 1"
    using prefix_saneD(4,5)[OF assms(2), of f] by linarith
  ultimately have "res_bind (from_option UnboundLocalError (ls_fun st)) (\<lambda>f.
      res_bind (dict_item (ls_reconcile st) f) (\<lambda>n. py_assert (n = 0 \<or> n = 1))) = Inr ()"
    using Some by (auto simp: dict_item_def)
  then show ?thesis by (intro res_fold_unit)
qed

lemma status_bounds:
  fixes d :: "('k, nat) dict"
  assumes "dict_ok d" "\<And>k. map_of d k = (if B k then Some (c1 k + c2 k) else None)"
    and "\<And>k. B k \<Longrightarrow> c1 k = 1" "\<And>k. \<not> B k \<Longrightarrow> c2 k = 0"
  shows "(\<forall>(k, n)\<in>set d. n = 1 \<or> n = 2) \<longleftrightarrow> (\<forall>k. c2 k \<le> 1)"
proof -
  have "(\<forall>(k, n)\<in>set d. n = 1 \<or> n = 2) \<longleftrightarrow> (\<forall>k n. map_of d k = Some n \<longrightarrow> n = 1 \<or> n = 2)"
    using dict_ok_map_of[OF assms(1)] by fast
  also have "\<dots> \<longleftrightarrow> (\<forall>k. B k \<longrightarrow> c2 k \<le> 1)"
    using assms(2,3) by (auto simp: le_Suc_eq split: if_splits)
  also have "\<dots> \<longleftrightarrow> (\<forall>k. c2 k \<le> 1)" using assms(4) by (metis zero_le_one)
  finally show ?thesis .
qed

lemma status_counts:
  assumes "status_of es st" "prefix_sane es"
  shows "(\<forall>(k, n)\<in>set (ls_write st). n = 1 \<or> n = 2) \<longleftrightarrow> (\<forall>i. count_list es (WriteEnd i) \<le> 1)"
    and "(\<forall>(k, n)\<in>set (ls_hear st). n = 1 \<or> n = 2) \<longleftrightarrow> (\<forall>i. count_list es (HearEnd i) \<le> 1)"
proof -
  have one: "count_list es e = 1" if "e \<in> set es" "count_list es e \<le> 1" for e
    using that count_list_0_iff[of es e] by (metis One_nat_def le_Suc_eq le_zero_eq)
  show "(\<forall>(k, n)\<in>set (ls_write st). n = 1 \<or> n = 2) \<longleftrightarrow> (\<forall>i. count_list es (WriteEnd i) \<le> 1)"
    using assms one prefix_saneD(1)[OF assms(2)]
    by (intro status_bounds[where B = "\<lambda>i. WriteBegin i \<in> set es"
        and ?c1.0 = "\<lambda>i. count_list es (WriteBegin i)"])
       (auto simp: status_of_def prefix_sane_def)
  show "(\<forall>(k, n)\<in>set (ls_hear st). n = 1 \<or> n = 2) \<longleftrightarrow> (\<forall>i. count_list es (HearEnd i) \<le> 1)"
    using assms one prefix_saneD(2)[OF assms(2)]
    by (intro status_bounds[where B = "\<lambda>i. HearBegin i \<in> set es"
        and ?c1.0 = "\<lambda>i. count_list es (HearBegin i)"])
       (auto simp: status_of_def prefix_sane_def)
qed

lemma fold_assert_pairs:
  "res_fold (\<lambda>_ (k, n). py_assert (P n)) () xs = Inr u \<longleftrightarrow> (\<forall>(k, n)\<in>set xs. P n)"
  using res_fold_assert[of "\<lambda>(k, n). P n" xs u] by (simp add: case_prod_unfold)

text \<open>
  C35: the sanity check of the Sieve log accepts a log exactly when every line that carries a mark
  parses and the entries are sane: each write and each hear has one begin and at most one end,
  which follows the begin, and in every prefix of the log the begins of a reconcile function
  exceed its ends by zero or one.
\<close>

theorem sanity_check_iff:
  "sanity_check_sieve_server_log lines = Inr () \<longleftrightarrow>
     (\<exists>es. res_map classify lines = Inr es \<and> log_sane es)"
proof -
  have "sanity_check_sieve_server_log lines = Inr () \<longleftrightarrow>
      (\<exists>es st. res_map classify lines = Inr es \<and> res_fold apply_entry init_status es = Inr st \<and>
        (\<forall>i. count_list es (WriteEnd i) \<le> 1) \<and> (\<forall>i. count_list es (HearEnd i) \<le> 1))"
  proof -
    have key: "prefix_sane es" "status_of es st" if "res_fold apply_entry init_status es = Inr st" for es st
      using that fold_entries(1)[of es] fold_entries(2)[OF that] by (metis order_refl take_all)+
    show ?thesis
      unfolding sanity_check_sieve_server_log_def res_bind_eq_Inr fold_classified fold_assert_pairs
    proof (intro iffI; elim exE conjE)
      fix st es u v
      assume es: "res_map classify lines = Inr es" "res_fold apply_entry init_status es = Inr st"
        and "\<forall>(k, n)\<in>set (ls_write st). n = 1 \<or> n = 2" "\<forall>(k, n)\<in>set (ls_hear st). n = 1 \<or> n = 2"
      with status_counts[OF key(2,1)[OF es(2)]]
      show "\<exists>es st. res_map classify lines = Inr es \<and> res_fold apply_entry init_status es = Inr st \<and>
        (\<forall>i. count_list es (WriteEnd i) \<le> 1) \<and> (\<forall>i. count_list es (HearEnd i) \<le> 1)" by blast
    next
      fix es st
      assume es: "res_map classify lines = Inr es" "res_fold apply_entry init_status es = Inr st"
        and c: "\<forall>i. count_list es (WriteEnd i) \<le> 1" "\<forall>i. count_list es (HearEnd i) \<le> 1"
      note c' = status_counts[OF key(2,1)[OF es(2)]]
      show "\<exists>x. (\<exists>es. res_map classify lines = Inr es \<and> res_fold apply_entry init_status es = Inr x) \<and>
        (\<exists>xa. (\<forall>(k, n)\<in>set (ls_write x). n = 1 \<or> n = 2) \<and>
          (\<exists>xa. (\<forall>(k, n)\<in>set (ls_hear x). n = 1 \<or> n = 2) \<and>
            res_fold (\<lambda>_ key. res_bind (from_option UnboundLocalError (ls_fun x))
                (\<lambda>f. res_bind (dict_item (ls_reconcile x) f) (\<lambda>n. py_assert (n = 0 \<or> n = 1))))
              () (ls_reconcile x) = Inr ()))"
        using es c c' closing_loop[OF key(2,1)[OF es(2)]] by blast
    qed
  qed
  also have "\<dots> \<longleftrightarrow> (\<exists>es. res_map classify lines = Inr es \<and> log_sane es)"
    unfolding log_sane_def using fold_entries(1) by blast
  finally show ?thesis .
qed

end
