(* ===== verification/Log_Events.thy ===== *)
theory Log_Events
  imports Sieve_Log
begin

text \<open>
  What the log readers of \<open>Sieve_Log\<close> return: the hears of \<open>parse_receiver_events\<close> and the events
  of \<open>parse_reconciler_events\<close> come in the order of the log and meet the assertions the event
  graph makes about them. The invariants are kept by one lemma per branch of the loop bodies.
\<close>

text \<open>The time an event is filed under.\<close>

fun event_time :: "event \<Rightarrow> int" where
  "event_time (Hear h) = ch_start_timestamp h"
| "event_time (Write w) = cw_start_timestamp w"
| "event_time (NonK8sWrite w) = cn_start_timestamp w"
| "event_time (Read r) = cr_end_timestamp r"
| "event_time (ReconcileBegin rc) = rc_end_timestamp rc"
| "event_time (ReconcileEnd rc) = rc_end_timestamp rc"

section \<open>A sample log\<close>

text \<open>One reconcile that hears of a pod, reads it from the cache and updates it.\<close>

definition sample_obj :: string where
  "sample_obj = dumps (JObj [(''metadata'', JObj [(''name'', JStr ''a'')])])"

definition sample_log :: "string list" where
  "sample_log =
    [log_line [] SIEVE_BEFORE_RECONCILE_MARK [''rec'', ''1''],
     log_line [] SIEVE_BEFORE_HEAR_MARK [''1'', ''Added'', ''pod'', sample_obj],
     log_line [] SIEVE_AFTER_HEAR_MARK [''1''],
     log_line [] SIEVE_AFTER_CACHE_READ_MARK
       [''Get'', ''pod'', ''default'', ''a'', ''rec'', ''NoError'', sample_obj],
     log_line [] SIEVE_BEFORE_REST_WRITE_MARK [''7''],
     log_line [] SIEVE_AFTER_REST_WRITE_MARK
       [''7'', ''Update'', ''rec'', ''NoError'', ''pod'', ''default'', ''a'', sample_obj]]"

lemma map_sum_Inr: "map_sum id f x = Inr y \<Longrightarrow> \<exists>z. x = Inr z \<and> f z = y"
  by (cases x) auto

lemma sample_hears: "\<exists>hs. parse_receiver_events sample_log = Inr hs \<and> map ch_id hs = [1]"
proof (rule map_sum_Inr)
  show "map_sum id (map ch_id) (parse_receiver_events sample_log) = Inr [1]" by code_simp
qed

lemma sample_events:
  "\<exists>evs. parse_reconciler_events False False sample_log = Inr evs \<and> map event_time evs = [0, 3, 4]"
proof (rule map_sum_Inr)
  show "map_sum id (map event_time) (parse_reconciler_events False False sample_log) = Inr [0, 3, 4]"
    by code_simp
qed

section \<open>Hears are returned in log order\<close>

lemma res_fold_enumerate_invariant:
  assumes "res_fold f s (enumerate 0 xs) = Inr s'" "I 0 s"
    and "\<And>n s s'. n < length xs \<Longrightarrow> I n s \<Longrightarrow> f s (n, xs ! n) = Inr s' \<Longrightarrow> I (Suc n) s'"
  shows "I (length xs) s'"
proof -
  have "res_fold f s (enumerate 0 (take n xs)) = Inr t \<Longrightarrow> I n t" if "n \<le> length xs" for n t
    using that
  proof (induction n arbitrary: t)
    case 0
    then show ?case using assms(2) by simp
  next
    case (Suc n)
    then have "enumerate 0 (take (Suc n) xs) = enumerate 0 (take n xs) @ [(n, xs ! n)]"
      by (simp add: take_Suc_conv_app_nth enumerate_append_eq)
    with Suc.prems obtain u where "res_fold f s (enumerate 0 (take n xs)) = Inr u"
      and "f u (n, xs ! n) = Inr t"
      by (auto simp: res_fold_append res_simps)
    with Suc assms(3) show ?case by (meson Suc_le_lessD less_imp_le)
  qed
  from this[of "length xs" s'] assms(1) show ?thesis by simp
qed

text \<open>What the map of the first loop holds after \<open>n\<close> lines.\<close>

definition hear_of :: "string list \<Rightarrow> nat \<Rightarrow> int \<Rightarrow> controller_hear \<Rightarrow> bool" where
  "hear_of lines n j h \<longleftrightarrow> (\<exists>i h0 e. i < n \<and> i < length lines \<and>
     py_contains SIEVE_BEFORE_HEAR_MARK (lines ! i) \<and>
     parse_controller_hear (lines ! i) = Inr h0 \<and> ch_id h0 = j \<and>
     h = h0\<lparr> ch_start_timestamp := int i, ch_end_timestamp := e \<rparr> \<and>
     int i < e \<and> e \<le> int (length lines))"

lemma hear_of_id: "hear_of lines n j h \<Longrightarrow> ch_id h = j"
  by (auto simp: hear_of_def)

lemma receiver_step_inv:
  assumes "n < length lines" "receiver_step (int (length lines)) d (n, lines ! n) = Inr d'"
    and "\<forall>j h. map_of d j = Some h \<longrightarrow> hear_of lines n j h"
  shows "\<forall>j h. map_of d' j = Some h \<longrightarrow> hear_of lines (Suc n) j h"
proof (intro allI impI)
  fix j h
  assume j: "map_of d' j = Some h"
  have old: "hear_of lines (Suc n) j h" if "map_of d j = Some h" for j h
    using assms(3) that unfolding hear_of_def by (meson less_SucI)
  show "hear_of lines (Suc n) j h"
  proof (cases "py_contains SIEVE_BEFORE_HEAR_MARK (lines ! n)")
    case True
    then obtain h0 where h0: "parse_controller_hear (lines ! n) = Inr h0"
      and d': "d' = AList.update (ch_id h0) (h0\<lparr> ch_start_timestamp := int n,
        ch_end_timestamp := int (length lines) \<rparr>) d"
      using assms(2) by (auto simp: receiver_step_def res_simps)
    show ?thesis
    proof (cases "j = ch_id h0")
      case j0: True
      then have "h = h0\<lparr> ch_start_timestamp := int n, ch_end_timestamp := int (length lines) \<rparr>"
        using j d' by simp
      then show ?thesis
        unfolding hear_of_def using True h0 j0 assms(1)
        by (intro exI[of _ n] exI[of _ h0] exI[of _ "int (length lines)"]) simp
    next
      case False
      then show ?thesis using j d' old by simp
    qed
  next
    case False
    show ?thesis
    proof (cases "py_contains SIEVE_AFTER_HEAR_MARK (lines ! n)")
      case True
      with False obtain k h0 where k: "map_of d k = Some h0"
        and d': "d' = AList.update k (h0\<lparr> ch_end_timestamp := int n \<rparr>) d"
        using assms(2) by (auto simp: receiver_step_def dict_item_def res_simps)
      have "hear_of lines (Suc n) k (h0\<lparr> ch_end_timestamp := int n \<rparr>)"
      proof -
        obtain i g e where g: "i < n" "py_contains SIEVE_BEFORE_HEAR_MARK (lines ! i)"
          "parse_controller_hear (lines ! i) = Inr g" "ch_id g = k"
          "h0 = g\<lparr> ch_start_timestamp := int i, ch_end_timestamp := e \<rparr>"
          using assms(3) k unfolding hear_of_def by meson
        with assms(1) show ?thesis
          unfolding hear_of_def by (intro exI[of _ i] exI[of _ g] exI[of _ "int n"]) simp
      qed
      then show ?thesis using j d' old by (cases "j = k") auto
    next
      case after: False
      then show ?thesis using False assms(2) j old by (simp add: receiver_step_def)
    qed
  qed
qed

lemma receiver_map:
  assumes "res_fold (receiver_step (int (length lines))) [] (enumerate 0 lines) = Inr d"
    and "map_of d j = Some h"
  shows "hear_of lines (length lines) j h"
proof -
  have "\<forall>j h. map_of d j = Some h \<longrightarrow> hear_of lines (length lines) j h"
    by (rule res_fold_enumerate_invariant[OF assms(1)]) (use receiver_step_inv in auto)
  with assms(2) show ?thesis by blast
qed

definition hear_lines :: "string list \<Rightarrow> nat list" where
  "hear_lines lines = filter (\<lambda>i. py_contains SIEVE_BEFORE_HEAR_MARK (lines ! i)) [0..<length lines]"

lemma receiver_pick_all:
  assumes "res_fold (receiver_pick d) [] lines = Inr hs"
  shows "list_all2 (\<lambda>i h. \<exists>h0. parse_controller_hear (lines ! i) = Inr h0 \<and>
    map_of d (ch_id h0) = Some h) (hear_lines lines) hs"
  using assms
proof (induction lines arbitrary: hs rule: rev_induct)
  case Nil
  then show ?case by (simp add: hear_lines_def)
next
  case (snoc l ls)
  then obtain hs1 where hs1: "res_fold (receiver_pick d) [] ls = Inr hs1"
    and l: "receiver_pick d hs1 l = Inr hs"
    by (auto simp: res_fold_append res_simps)
  have same: "hear_lines (ls @ [l]) = hear_lines ls @
      (if py_contains SIEVE_BEFORE_HEAR_MARK l then [length ls] else [])"
    by (auto simp: hear_lines_def nth_append intro!: filter_cong)
  have IH: "list_all2 (\<lambda>i h. \<exists>h0. parse_controller_hear ((ls @ [l]) ! i) = Inr h0 \<and>
      map_of d (ch_id h0) = Some h) (hear_lines ls) hs1"
  proof -
    have "hear_lines ls ! k < length ls" if "k < length (hear_lines ls)" for k
      using nth_mem[OF that] by (simp add: hear_lines_def)
    then show ?thesis using snoc.IH[OF hs1] by (simp add: list_all2_conv_all_nth nth_append)
  qed
  show ?case
  proof (cases "py_contains SIEVE_BEFORE_HEAR_MARK l")
    case True
    then obtain h0 h where "parse_controller_hear l = Inr h0" "map_of d (ch_id h0) = Some h"
      and "hs = hs1 @ [h]"
      using l by (auto simp: receiver_pick_def dict_item_def res_simps)
    with True IH same show ?thesis by (auto intro!: list_all2_appendI)
  next
    case False
    with l IH same show ?thesis by (simp add: receiver_pick_def)
  qed
qed

lemma receiver_events:
  assumes "parse_receiver_events lines = Inr hs" "distinct (map ch_id hs)"
  shows "map ch_start_timestamp hs = map int (hear_lines lines)"
    and "\<forall>h\<in>set hs. hear_of lines (length lines) (ch_id h) h"
proof -
  obtain d where d: "res_fold (receiver_step (int (length lines))) [] (enumerate 0 lines) = Inr d"
    and pick: "res_fold (receiver_pick d) [] lines = Inr hs"
    using assms(1) by (auto simp: parse_receiver_events_def res_simps)
  note picked = receiver_pick_all[OF pick]
  let ?B = "hear_lines lines"
  have len: "length ?B = length hs" using picked by (rule list_all2_lengthD)
  have at: "\<exists>h0. parse_controller_hear (lines ! (?B ! k)) = Inr h0 \<and>
      map_of d (ch_id h0) = Some (hs ! k) \<and> ch_id h0 = ch_id (hs ! k)" if "k < length hs" for k
    using list_all2_nthD2[OF picked that] receiver_map[OF d] hear_of_id by metis
  show h: "\<forall>h\<in>set hs. hear_of lines (length lines) (ch_id h) h"
    using at receiver_map[OF d] by (metis in_set_conv_nth)
  have "ch_start_timestamp (hs ! k) = int (?B ! k)" if k: "k < length hs" for k
  proof -
    obtain i h0 where i: "i < length lines" "ch_start_timestamp (hs ! k) = int i"
      "py_contains SIEVE_BEFORE_HEAR_MARK (lines ! i)"
      "parse_controller_hear (lines ! i) = Inr h0" "ch_id h0 = ch_id (hs ! k)"
    proof -
      have "hear_of lines (length lines) (ch_id (hs ! k)) (hs ! k)" using h k by simp
      then obtain i h0 e where "i < length lines" "py_contains SIEVE_BEFORE_HEAR_MARK (lines ! i)"
        "parse_controller_hear (lines ! i) = Inr h0" "ch_id h0 = ch_id (hs ! k)"
        and "hs ! k = h0\<lparr> ch_start_timestamp := int i, ch_end_timestamp := e \<rparr>"
        unfolding hear_of_def by meson
      then show ?thesis using that[of i h0] by simp
    qed
    then have "i \<in> set ?B" by (simp add: hear_lines_def)
    then obtain m where m: "m < length hs" "?B ! m = i" using len by (metis in_set_conv_nth)
    then have "ch_id (hs ! m) = ch_id (hs ! k)" using at[OF m(1)] i by auto
    then have "m = k" using assms(2) m(1) k by (simp add: distinct_conv_nth) metis
    with m i show ?thesis by simp
  qed
  with len show "map ch_start_timestamp hs = map int ?B" by (intro nth_equalityI) auto
qed

lemma hear_lines_sorted: "sorted_wrt (<) (hear_lines lines)"
  unfolding hear_lines_def by (intro sorted_wrt_filter) simp

text \<open>
  \<open>parse_receiver_events\<close> returns one hear per line with the mark, in the order of the log: with
  distinct ids the start times are exactly the indices of those lines, strictly increasing, and
  every hear starts before it ends, at the latest after the last line.
\<close>

theorem receiver_events_ordered:
  assumes "parse_receiver_events lines = Inr hs" "distinct (map ch_id hs)"
  shows "map ch_start_timestamp hs = map int (hear_lines lines) \<and>
    sorted_wrt (<) (map ch_start_timestamp hs) \<and>
    (\<forall>h\<in>set hs. 0 \<le> ch_start_timestamp h \<and> ch_start_timestamp h < ch_end_timestamp h \<and>
       ch_end_timestamp h \<le> int (length lines))"
proof -
  have "sorted_wrt (<) (map int (hear_lines lines))"
    using hear_lines_sorted[of lines] by (simp add: sorted_wrt_map)
  moreover have "\<forall>h\<in>set hs. 0 \<le> ch_start_timestamp h \<and> ch_start_timestamp h < ch_end_timestamp h \<and>
       ch_end_timestamp h \<le> int (length lines)"
    using receiver_events(2)[OF assms] unfolding hear_of_def by fastforce
  ultimately show ?thesis using receiver_events(1)[OF assms] by simp
qed

theorem receiver_events_ordered_witness:
  "\<exists>hs. parse_receiver_events sample_log = Inr hs \<and> map ch_id hs = [1] \<and>
     map ch_start_timestamp hs = map int (hear_lines sample_log)"
proof -
  obtain hs where hs: "parse_receiver_events sample_log = Inr hs" "map ch_id hs = [1]"
    using sample_hears that by (elim exE conjE)
  then have d: "distinct (map ch_id hs)" by simp
  show ?thesis
    by (rule exI[of _ hs]) (use hs receiver_events_ordered[OF hs(1) d] in \<open>intro conjI; simp only:\<close>)
qed

section \<open>Reconciler events\<close>

text \<open>
  What the event graph later asserts of a write, and what the readers guarantee of the other
  events. A write outside of any reconcile (reconcile id \<open>-1\<close>) has no range. The key of a write
  is made of its type, namespace and name.
\<close>

fun event_ok :: "event \<Rightarrow> bool" where
  "event_ok (Hear h) = False"
| "event_ok (Write w) = (0 \<le> cw_start_timestamp w \<and> cw_start_timestamp w < cw_end_timestamp w \<and>
     (cw_reconcile_id w \<noteq> None \<longrightarrow> cw_range_start_timestamp w < cw_range_end_timestamp w \<and>
        cw_range_end_timestamp w = cw_end_timestamp w) \<and>
     cw_key w = generate_key (cw_rtype w) (cw_namespace w) (cw_name w))"
| "event_ok (NonK8sWrite w) = (cn_reconcile_id w = None \<and> cn_start_timestamp w < cn_end_timestamp w)"
| "event_ok (Read r) = (cr_reconcile_id r \<noteq> None \<and> cr_key_set r = map fst (cr_key_to_obj r) \<and>
     dict_ok (cr_key_to_obj r))"
| "event_ok (ReconcileBegin rc) = True"
| "event_ok (ReconcileEnd rc) = True"

text \<open>The invariant of the loop after \<open>n\<close> lines.\<close>

definition rs_inv :: "nat \<Rightarrow> reconciler_state \<Rightarrow> bool" where
  "rs_inv n st \<longleftrightarrow>
     (\<forall>j t. map_of (rs_write_start st) j = Some t \<longrightarrow> 0 \<le> t \<and> t < int n) \<and>
     (\<forall>j t. map_of (rs_nk_write_start st) j = Some t \<longrightarrow> 0 \<le> t \<and> t < int n) \<and>
     (\<forall>f rc. map_of (rs_prev_reconcile st) f = Some (Some rc) \<longrightarrow> rc_end_timestamp rc < int n) \<and>
     (\<forall>f rc. map_of (rs_cur_reconcile st) f = Some rc \<longrightarrow> rc_end_timestamp rc < int n) \<and>
     dict_ok (rs_events st) \<and>
     (\<forall>t e. map_of (rs_events st) t = Some e \<longrightarrow> t = event_time e \<and> event_ok e)"

lemma rs_inv_mono: "rs_inv n st \<Longrightarrow> rs_inv (Suc n) st"
  unfolding rs_inv_def by fastforce

lemma rs_inv_add_event:
  assumes "rs_inv n st" "event_ok e" "event_time e = t"
  shows "rs_inv n (st\<lparr> rs_events := AList.update t e (rs_events st) \<rparr>)"
  using assms unfolding rs_inv_def by auto

lemma rs_inv_mark: "rs_inv n (mark_nontrivial st) \<longleftrightarrow> rs_inv n st"
  by (simp add: rs_inv_def mark_nontrivial_def)

lemma parse_write_fresh:
  "parse_controller_write line = Inr w \<Longrightarrow> cw_reconcile_id w = None \<and>
     cw_key w = generate_key (cw_rtype w) (cw_namespace w) (cw_name w)"
  by (auto simp: parse_controller_write_def ControllerWrite_def Let_def res_simps)

lemma parse_nk_write_fresh:
  "parse_controller_non_k8s_write line = Inr w \<Longrightarrow> cn_reconcile_id w = None"
  by (auto simp: parse_controller_non_k8s_write_def ControllerNonK8sWrite_def Let_def res_simps)

lemma parse_read_keys:
  assumes "parse_controller_read line = Inr r \<or> parse_controller_cache_read line = Inr r"
  shows "cr_key_set r = map fst (cr_key_to_obj r) \<and> dict_ok (cr_key_to_obj r)"
proof -
  obtain etype fc rtype ns nm fn err obj where "ControllerRead etype fc rtype ns nm fn err obj = Inr r"
    using assms by (auto simp: parse_controller_read_def parse_controller_cache_read_def Let_def
        res_simps split: if_splits)
  then show ?thesis using ControllerRead_fields(1,2) by blast
qed

lemma on_after_write_inv:
  assumes "rs_inv n st0" "on_after_write loosen n line st0 = Inr st'"
  shows "rs_inv (Suc n) st'"
proof -
  define st where "st = mark_nontrivial st0"
  have inv: "rs_inv n st" using assms(1) by (simp add: st_def rs_inv_mark)
  obtain w0 where w0: "parse_controller_write line = Inr w0"
    using assms(2) by (auto simp: on_after_write_def Let_def res_simps)
  let ?f = "cw_reconcile_fun w0"
  show ?thesis
  proof (cases "map_of (rs_cur_reconcile st) ?f = None \<and> \<not> loosen")
    case True
    then have "st' = st" using assms(2) w0 by (simp add: on_after_write_def st_def Let_def)
    then show ?thesis using inv rs_inv_mono by simp
  next
    case False
    let ?w1 = "\<lambda>start. w0\<lparr> cw_read_keys := rs_read_keys st, cw_read_types := rs_read_types st,
      cw_start_timestamp := start, cw_end_timestamp := int n \<rparr>"
    from False obtain start w where start: "map_of (rs_write_start st) (cw_id w0) = Some start"
      and w: "(case map_of (rs_cur_reconcile st) ?f of
                None \<Rightarrow> Inr (?w1 start)
              | Some cur \<Rightarrow>
                  res_bind (dict_item (rs_prev_reconcile st) ?f) (\<lambda>prev.
                  res_bind (set_range (?w1 start) (earliest_of prev) (int n)) (\<lambda>w2.
                    Inr (w2\<lparr> cw_reconcile_id := Some (rc_reconcile_id cur) \<rparr>)))) = Inr w"
      and st': "st' = st\<lparr> rs_events := AList.update (cw_start_timestamp w) (Write w) (rs_events st) \<rparr>"
      using assms(2) w0 unfolding on_after_write_def st_def[symmetric] Let_def
      by (simp only: res_simps dict_item_def if_False res_bind_Inr) blast
    have "0 \<le> start \<and> start < int n" using inv start unfolding rs_inv_def by blast
    then have "event_ok (Write w)"
      using w parse_write_fresh[OF w0]
      by (cases "map_of (rs_cur_reconcile st) ?f") (auto simp: res_simps set_range_def)
    then show ?thesis unfolding st' using inv by (intro rs_inv_mono rs_inv_add_event) auto
  qed
qed

lemma on_after_nk_write_inv:
  assumes "rs_inv n st0" "on_after_nk_write loosen n line st0 = Inr st'"
  shows "rs_inv (Suc n) st'"
proof -
  define st where "st = mark_nontrivial st0"
  have inv: "rs_inv n st" using assms(1) by (simp add: st_def rs_inv_mark)
  obtain w0 where w0: "parse_controller_non_k8s_write line = Inr w0"
    using assms(2) by (auto simp: on_after_nk_write_def Let_def res_simps)
  have "st' = st \<or> (\<exists>start. map_of (rs_nk_write_start st) (cn_id w0) = Some start \<and>
      st' = st\<lparr> rs_events := AList.update start (NonK8sWrite (w0\<lparr> cn_start_timestamp := start,
        cn_end_timestamp := int n \<rparr>)) (rs_events st) \<rparr>)"
    using assms(2) w0 unfolding on_after_nk_write_def st_def[symmetric]
    by (auto simp: Let_def res_simps dict_item_def split: option.splits if_splits)
  then show ?thesis
  proof
    assume "st' = st"
    then show ?thesis using inv rs_inv_mono by simp
  next
    assume "\<exists>start. map_of (rs_nk_write_start st) (cn_id w0) = Some start \<and>
      st' = st\<lparr> rs_events := AList.update start (NonK8sWrite (w0\<lparr> cn_start_timestamp := start,
        cn_end_timestamp := int n \<rparr>)) (rs_events st) \<rparr>"
    then obtain start where start: "map_of (rs_nk_write_start st) (cn_id w0) = Some start"
      and st': "st' = st\<lparr> rs_events := AList.update start (NonK8sWrite (w0\<lparr> cn_start_timestamp := start,
        cn_end_timestamp := int n \<rparr>)) (rs_events st) \<rparr>" by blast
    have "0 \<le> start \<and> start < int n" using inv start unfolding rs_inv_def by blast
    then show ?thesis
      unfolding st' using inv parse_nk_write_fresh[OF w0]
      by (intro rs_inv_mono rs_inv_add_event) auto
  qed
qed

lemma on_read_inv:
  assumes "rs_inv n st" "cr_key_set r = map fst (cr_key_to_obj r) \<and> dict_ok (cr_key_to_obj r)"
  shows "rs_inv (Suc n) (on_read b n r st)"
proof (cases "map_of (rs_cur_reconcile st) (cr_reconcile_fun r)")
  case None
  then show ?thesis using assms(1) rs_inv_mono by (simp add: on_read_def)
next
  case (Some cur)
  let ?r = "r\<lparr> cr_end_timestamp := int n, cr_reconcile_id := Some (rc_reconcile_id cur) \<rparr>"
  have "rs_inv (Suc n) (st\<lparr> rs_events := AList.update (int n) (Read ?r) (rs_events st) \<rparr>)"
    using assms by (intro rs_inv_mono rs_inv_add_event) auto
  then show ?thesis using Some by (simp add: on_read_def Let_def rs_inv_def)
qed

lemma rec_event_ok: "event_ok (rec_event p)" "event_time (rec_event p) = rc_end_timestamp (snd p)"
  by (simp_all add: rec_event_def)

lemma on_before_reconcile_inv:
  assumes "rs_inv n st" "on_before_reconcile compress n line st = Inr st'"
  shows "rs_inv (Suc n) st'"
proof -
  obtain b rc0 where p: "parse_reconcile line = Inr (b, rc0)"
    using assms(2) by (auto simp: on_before_reconcile_def res_simps)
  define rc where "rc = rc0\<lparr> rc_end_timestamp := int n \<rparr>"
  let ?f = "rc_reconcile_fun rc"
  define st1 where "st1 = st\<lparr> rs_events := AList.update (int n) (rec_event (b, rc)) (rs_events st) \<rparr>"
  have inv: "rs_inv (Suc n) st1"
    unfolding st1_def using assms(1)
    by (intro rs_inv_mono rs_inv_add_event) (simp_all add: rec_event_ok rc_def)
  have end_rc: "rc_end_timestamp rc = int n" by (simp add: rc_def)
  have "rs_prev_reconcile st' = rs_prev_reconcile st1 \<and> rs_cur_reconcile st' = rs_cur_reconcile st1 \<or>
     rs_cur_reconcile st' = AList.update ?f rc (rs_cur_reconcile st1) \<and>
     (rs_prev_reconcile st' = AList.update ?f None (rs_prev_reconcile st1) \<or>
      (\<exists>cur. map_of (rs_cur_reconcile st1) ?f = Some cur \<and>
         rs_prev_reconcile st' = AList.update ?f (Some cur) (rs_prev_reconcile st1)))"
    and "rs_write_start st' = rs_write_start st1" "rs_nk_write_start st' = rs_nk_write_start st1"
    "rs_events st' = rs_events st1"
    using assms(2) p unfolding on_before_reconcile_def st1_def
    by (auto simp: Let_def res_simps rc_def dict_item_def split: option.splits if_splits)
  then show ?thesis
    using inv end_rc unfolding rs_inv_def by (auto split: if_splits)
qed

lemma on_after_reconcile_inv:
  assumes "rs_inv n st" "on_after_reconcile n line st = Inr st'"
  shows "rs_inv (Suc n) st'"
proof -
  obtain b rc0 where p: "parse_reconcile line = Inr (b, rc0)"
    using assms(2) by (auto simp: on_after_reconcile_def res_simps)
  define st1 where "st1 = st\<lparr> rs_events :=
    AList.update (int n) (rec_event (b, rc0\<lparr> rc_end_timestamp := int n \<rparr>)) (rs_events st) \<rparr>"
  have "rs_inv (Suc n) st1"
    unfolding st1_def using assms(1)
    by (intro rs_inv_mono rs_inv_add_event) (simp_all add: rec_event_ok)
  moreover have "rs_write_start st' = rs_write_start st1" "rs_nk_write_start st' = rs_nk_write_start st1"
    "rs_events st' = rs_events st1" "rs_prev_reconcile st' = rs_prev_reconcile st1"
    "rs_cur_reconcile st' = rs_cur_reconcile st1"
    using assms(2) p unfolding on_after_reconcile_def st1_def
    by (auto simp: Let_def res_simps dict_item_def split: if_splits)
  ultimately show ?thesis unfolding rs_inv_def by simp
qed

lemma reconciler_step_inv:
  assumes "rs_inv n st" "reconciler_step loosen compress st (n, line) = Inr st'"
  shows "rs_inv (Suc n) st'"
proof -
  have start: "rs_inv (Suc n) (st\<lparr> rs_write_start := AList.update j (int n) (rs_write_start st) \<rparr>)"
    "rs_inv (Suc n) (st\<lparr> rs_nk_write_start := AList.update j (int n) (rs_nk_write_start st) \<rparr>)" for j
    using rs_inv_mono[OF assms(1)] unfolding rs_inv_def by auto
  have reads: "rs_inv (Suc n) (on_read b n r st)"
    if "parse_controller_read line = Inr r \<or> parse_controller_cache_read line = Inr r" for b r
    using on_read_inv[OF assms(1) parse_read_keys[OF that]] .
  show ?thesis
    using assms(2) rs_inv_mono[OF assms(1)] unfolding reconciler_step_def
    by (auto simp: res_simps start reads split: if_splits
        dest: on_after_write_inv[OF assms(1)] on_after_nk_write_inv[OF assms(1)]
          on_before_reconcile_inv[OF assms(1)] on_after_reconcile_inv[OF assms(1)])
qed

lemma sort_key_strict:
  assumes "dict_ok d"
  shows "sorted_wrt (<) (map fst (sort_key fst d))"
proof -
  have "distinct (map fst (sort_key fst d))"
    using assms by (metis dict_ok_def distinct_map distinct_sort set_sort)
  moreover have "sorted (map fst (sort_key fst d))" by simp
  ultimately show ?thesis by (simp add: strict_sorted_iff)
qed

lemma reconciler_events:
  assumes "parse_reconciler_events loosen compress lines = Inr evs"
  shows "sorted_wrt (<) (map event_time evs)" "\<forall>e\<in>set evs. event_ok e"
proof -
  obtain st where st: "res_fold (reconciler_step loosen compress) init_reconciler (enumerate 0 lines) = Inr st"
    and evs: "evs = map snd (sort_key fst (rs_events st))"
    using assms by (auto simp: parse_reconciler_events_def res_simps)
  have "rs_inv 0 init_reconciler" by (simp add: rs_inv_def init_reconciler_def)
  then have inv: "rs_inv (length lines) st"
    using res_fold_enumerate_invariant[OF st, of rs_inv] reconciler_step_inv by blast
  then have ok: "t = event_time e \<and> event_ok e" if "(t, e) \<in> set (rs_events st)" for t e
    using that unfolding rs_inv_def by (auto simp: dict_ok_map_of)
  show "\<forall>e\<in>set evs. event_ok e" using ok evs by auto
  have "map event_time evs = map fst (sort_key fst (rs_events st))"
    using ok by (auto simp: evs)
  then show "sorted_wrt (<) (map event_time evs)"
    using sort_key_strict[of "rs_events st"] inv unfolding rs_inv_def by argo
qed

text \<open>
  C36: \<open>parse_reconciler_events\<close> returns the events of the reconcilers in strictly increasing time,
  and every event meets what the event graph asserts later: a write starts before it ends, and one
  inside a reconcile has a non-empty range that ends where the write ends. The key of a write is
  the key of its type, namespace and name. A non-k8s write it
  returns belongs to no reconcile.
\<close>

theorem reconciler_events_well_formed:
  assumes "parse_reconciler_events loosen compress lines = Inr evs"
  shows "sorted_wrt (<) (map event_time evs) \<and> (\<forall>e\<in>set evs. event_ok e)"
  using reconciler_events[OF assms] by blast

theorem reconciler_events_well_formed_witness:
  "\<exists>evs. parse_reconciler_events False False sample_log = Inr evs \<and> length evs = 3 \<and>
     sorted_wrt (<) (map event_time evs) \<and> (\<forall>e\<in>set evs. event_ok e)"
proof -
  obtain evs where evs: "parse_reconciler_events False False sample_log = Inr evs"
    "map event_time evs = [0, 3, 4]" using sample_events that by (elim exE conjE)
  have "length evs = 3" using arg_cong[OF evs(2), of length] by simp
  with evs(1) reconciler_events_well_formed[OF evs(1)] show ?thesis by blast
qed

text \<open>
  An annotated API invocation inside a reconcile cannot be read: the branch that records it
  calls \<open>set_range\<close>, which \<open>ControllerNonK8sWrite\<close> does not define, and raises.
\<close>

theorem nk_write_in_reconcile_raises:
  assumes "parse_controller_non_k8s_write line = Inr w"
    and "map_of (rs_cur_reconcile st) (cn_reconcile_fun w) = Some cur"
    and "map_of (rs_prev_reconcile st) (cn_reconcile_fun w) = Some prev"
    and "map_of (rs_nk_write_start st) (cn_id w) = Some start"
  shows "on_after_nk_write loosen i line st = Inl AttributeError"
  using assms by (simp add: on_after_nk_write_def mark_nontrivial_def dict_item_def Let_def)

text \<open>An annotated API call in the middle of a reconcile.\<close>

definition sample_nk_line :: string where
  "sample_nk_line = log_line [] SIEVE_AFTER_ANNOTATED_API_INVOCATION_MARK
     [''5'', ''m'', ''f.go'', ''Client'', ''Do'', ''rec'']"

lemma sample_nk_parsed:
  "\<exists>w. parse_controller_non_k8s_write sample_nk_line = Inr w \<and> (cn_reconcile_fun w, cn_id w) = (''rec'', 5)"
proof (rule map_sum_Inr)
  show "map_sum id (\<lambda>w. (cn_reconcile_fun w, cn_id w)) (parse_controller_non_k8s_write sample_nk_line) =
    Inr (''rec'', 5)" by code_simp
qed

theorem nk_write_in_reconcile_raises_witness:
  "on_after_nk_write False 9 sample_nk_line
     (init_reconciler\<lparr> rs_cur_reconcile := [(''rec'', Reconcile ''rec'' ''1'')],
        rs_prev_reconcile := [(''rec'', None)], rs_nk_write_start := [(5, 8)] \<rparr>) = Inl AttributeError"
proof -
  obtain w where w: "parse_controller_non_k8s_write sample_nk_line = Inr w"
    "cn_reconcile_fun w = ''rec''" "cn_id w = 5" using sample_nk_parsed by auto
  show ?thesis by (rule nk_write_in_reconcile_raises[OF w(1)]) (simp_all add: w)
qed

end
