(* ===== verification/Event_Graph.thy ===== *)
theory Event_Graph
  imports Log_Events
begin

text \<open>
  Model of \<^verbatim>\<open>sieve_analyzer/event_graph.py\<close>. The vertices are Python objects that several lists and
  dicts refer to and that are updated in place, so the graph carries an explicit store: the vertex
  with gid \<open>n\<close> is entry \<open>n\<close> of \<open>eg_vertices\<close> (the source numbers vertices in the order it creates
  them; \<open>__vertex_cnt\<close> is the length of the store), and every list, dict and edge holds gids.
\<close>

section \<open>Vertices, edges and the graph\<close>

definition INTER_RECONCILER_EDGE :: string where "INTER_RECONCILER_EDGE = ''INTER-RECONCILER''"
definition INTRA_RECONCILER_EDGE :: string where "INTRA_RECONCILER_EDGE = ''INTRA-RECONCILER''"

record event_edge =
  ee_source :: nat
  ee_sink :: nat
  ee_type :: string

record event_vertex =
  ev_gid :: nat
  ev_content :: event
  ev_out_inter :: "event_edge list"
  ev_out_intra :: "event_edge list"

definition is_controller_hear :: "event_vertex \<Rightarrow> bool" where
  "is_controller_hear v = (case ev_content v of Hear _ \<Rightarrow> True | _ \<Rightarrow> False)"
definition is_controller_write :: "event_vertex \<Rightarrow> bool" where
  "is_controller_write v = (case ev_content v of Write _ \<Rightarrow> True | _ \<Rightarrow> False)"
definition is_controller_non_k8s_write :: "event_vertex \<Rightarrow> bool" where
  "is_controller_non_k8s_write v = (case ev_content v of NonK8sWrite _ \<Rightarrow> True | _ \<Rightarrow> False)"
definition is_controller_read :: "event_vertex \<Rightarrow> bool" where
  "is_controller_read v = (case ev_content v of Read _ \<Rightarrow> True | _ \<Rightarrow> False)"
definition is_reconcile_begin :: "event_vertex \<Rightarrow> bool" where
  "is_reconcile_begin v = (case ev_content v of ReconcileBegin _ \<Rightarrow> True | _ \<Rightarrow> False)"
definition is_reconcile_end :: "event_vertex \<Rightarrow> bool" where
  "is_reconcile_end v = (case ev_content v of ReconcileEnd _ \<Rightarrow> True | _ \<Rightarrow> False)"

lemmas vertex_kinds = is_controller_hear_def is_controller_write_def
  is_controller_non_k8s_write_def is_controller_read_def is_reconcile_begin_def is_reconcile_end_def

text \<open>Attributes of the content, raising where the class of the content has no such attribute.\<close>

definition start_timestamp :: "event \<Rightarrow> int res" where
  "start_timestamp e = (case e of
       Hear h \<Rightarrow> Inr (ch_start_timestamp h)
     | Write w \<Rightarrow> Inr (cw_start_timestamp w)
     | NonK8sWrite w \<Rightarrow> Inr (cn_start_timestamp w)
     | _ \<Rightarrow> Inl AttributeError)"

definition as_hear :: "event \<Rightarrow> controller_hear res" where
  "as_hear e = (case e of Hear h \<Rightarrow> Inr h | _ \<Rightarrow> Inl AttributeError)"
definition as_write :: "event \<Rightarrow> controller_write res" where
  "as_write e = (case e of Write w \<Rightarrow> Inr w | _ \<Rightarrow> Inl AttributeError)"
definition as_nk_write :: "event \<Rightarrow> controller_nk_write res" where
  "as_nk_write e = (case e of NonK8sWrite w \<Rightarrow> Inr w | _ \<Rightarrow> Inl AttributeError)"
definition as_read :: "event \<Rightarrow> controller_read res" where
  "as_read e = (case e of Read r \<Rightarrow> Inr r | _ \<Rightarrow> Inl AttributeError)"

record event_graph =
  eg_learned_masked_paths :: mask_map
  eg_configured_masked_keys :: mask_map
  eg_configured_masked_paths :: mask_map
  eg_vertices :: "event_vertex list"
  eg_hears :: "nat list"
  eg_writes :: "nat list"
  eg_nk_writes :: "nat list"
  eg_reads :: "nat list"
  eg_begins :: "nat list"
  eg_ends :: "nat list"
  eg_read_key :: "(string, nat list) dict"
  eg_write_key :: "(string, nat list) dict"
  eg_hear_key :: "(string, nat list) dict"
  eg_hear_id :: "(int, nat) dict"
  eg_hear_write_edges :: "event_edge list"
  eg_write_hear_edges :: "event_edge list"
  eg_intra_edges :: "event_edge list"

definition EventGraph :: "mask_map \<Rightarrow> mask_map \<Rightarrow> mask_map \<Rightarrow> event_graph" where
  "EventGraph learned_masked_paths configured_masked_keys configured_masked_paths =
     \<lparr> eg_learned_masked_paths = learned_masked_paths,
       eg_configured_masked_keys = configured_masked_keys,
       eg_configured_masked_paths = configured_masked_paths,
       eg_vertices = [], eg_hears = [], eg_writes = [], eg_nk_writes = [], eg_reads = [],
       eg_begins = [], eg_ends = [], eg_read_key = [], eg_write_key = [], eg_hear_key = [],
       eg_hear_id = [], eg_hear_write_edges = [], eg_write_hear_edges = [], eg_intra_edges = [] \<rparr>"

abbreviation vertex :: "event_graph \<Rightarrow> nat \<Rightarrow> event_vertex" where
  "vertex g v \<equiv> eg_vertices g ! v"

abbreviation content :: "event_graph \<Rightarrow> nat \<Rightarrow> event" where
  "content g v \<equiv> ev_content (eg_vertices g ! v)"

definition set_content :: "nat \<Rightarrow> event \<Rightarrow> event_graph \<Rightarrow> event_graph" where
  "set_content v e g =
     g\<lparr> eg_vertices := (eg_vertices g)[v := (vertex g v)\<lparr> ev_content := e \<rparr>] \<rparr>"

section \<open>Construction\<close>

definition new_vertex :: "event \<Rightarrow> event_graph \<Rightarrow> event_graph" where
  "new_vertex e g = g\<lparr> eg_vertices := eg_vertices g @
     [\<lparr> ev_gid = length (eg_vertices g), ev_content = e, ev_out_inter = [], ev_out_intra = [] \<rparr>] \<rparr>"

definition add_controller_hear :: "event_graph \<Rightarrow> controller_hear \<Rightarrow> event_graph res" where
  "add_controller_hear g h =
     (let v = length (eg_vertices g) in
      res_bind (py_assert (map_of (eg_hear_id g) (ch_id h) = None)) (\<lambda>_.
        Inr ((new_vertex (Hear h) g)\<lparr>
          eg_hears := eg_hears g @ [v],
          eg_hear_key := dict_append (ch_key h) v (eg_hear_key g),
          eg_hear_id := AList.update (ch_id h) v (eg_hear_id g) \<rparr>)))"

definition add_sorted_controller_hears ::
  "event_graph \<Rightarrow> controller_hear list \<Rightarrow> event_graph res" where
  "add_sorted_controller_hears g hears = res_fold add_controller_hear g hears"

definition add_reconciler_event :: "event_graph \<Rightarrow> event \<Rightarrow> event_graph res" where
  "add_reconciler_event g e =
     (let v = length (eg_vertices g); g' = new_vertex e g in
      case e of
        Write w \<Rightarrow> Inr (g'\<lparr> eg_writes := eg_writes g @ [v],
          eg_write_key := dict_append (cw_key w) v (eg_write_key g) \<rparr>)
      | NonK8sWrite w \<Rightarrow> Inr (g'\<lparr> eg_nk_writes := eg_nk_writes g @ [v] \<rparr>)
      | Read r \<Rightarrow> Inr (g'\<lparr> eg_reads := eg_reads g @ [v],
          eg_read_key := fold (\<lambda>key. dict_append key v) (cr_key_set r) (eg_read_key g) \<rparr>)
      | ReconcileBegin rc \<Rightarrow> Inr (g'\<lparr> eg_begins := eg_begins g @ [v] \<rparr>)
      | ReconcileEnd rc \<Rightarrow> Inr (g'\<lparr> eg_ends := eg_ends g @ [v] \<rparr>)
      | Hear h \<Rightarrow> Inl AssertionError)"

definition add_intra_edge :: "nat \<times> nat \<Rightarrow> event_graph \<Rightarrow> event_graph" where
  "add_intra_edge pc g = (case pc of (prev, cur) \<Rightarrow>
     let edge = \<lparr> ee_source = prev, ee_sink = cur, ee_type = INTRA_RECONCILER_EDGE \<rparr> in
     g\<lparr> eg_vertices := (eg_vertices g)[prev := (vertex g prev)\<lparr> ev_out_intra :=
          ev_out_intra (vertex g prev) @ [edge] \<rparr>],
        eg_intra_edges := eg_intra_edges g @ [edge] \<rparr>)"

definition add_sorted_reconciler_events :: "event_graph \<Rightarrow> event list \<Rightarrow> event_graph res" where
  "add_sorted_reconciler_events g evs =
     res_bind (res_fold add_reconciler_event g evs) (\<lambda>g'.
       let event_vertex_list = [length (eg_vertices g)..<length (eg_vertices g')]
       in Inr (fold add_intra_edge (zip event_vertex_list (tl event_vertex_list)) g'))"

definition add_inter_edge :: "nat \<Rightarrow> nat \<Rightarrow> event_graph \<Rightarrow> event_graph" where
  "add_inter_edge v u g = g\<lparr> eg_vertices := (eg_vertices g)[v := (vertex g v)\<lparr> ev_out_inter :=
     ev_out_inter (vertex g v) @
     [\<lparr> ee_source = v, ee_sink = u, ee_type = INTER_RECONCILER_EDGE \<rparr>] \<rparr>] \<rparr>"

definition connect_hear_to_write :: "event_graph \<Rightarrow> nat \<times> nat \<Rightarrow> event_graph res" where
  "connect_hear_to_write g hw = (case hw of (h, w) \<Rightarrow>
     res_bind (py_assert (is_controller_hear (vertex g h))) (\<lambda>_.
     res_bind (py_assert (is_controller_write (vertex g w) \<or>
       is_controller_non_k8s_write (vertex g w))) (\<lambda>_.
     res_bind (start_timestamp (content g h)) (\<lambda>th.
     res_bind (start_timestamp (content g w)) (\<lambda>tw.
     res_bind (py_assert (th < tw)) (\<lambda>_.
       Inr ((add_inter_edge h w g)\<lparr> eg_hear_write_edges := eg_hear_write_edges g @
         [\<lparr> ee_source = h, ee_sink = w, ee_type = INTER_RECONCILER_EDGE \<rparr>] \<rparr>)))))))"

definition connect_write_to_hear :: "event_graph \<Rightarrow> nat \<times> nat \<Rightarrow> event_graph res" where
  "connect_write_to_hear g wh = (case wh of (w, h) \<Rightarrow>
     res_bind (py_assert (is_controller_hear (vertex g h))) (\<lambda>_.
     res_bind (py_assert (is_controller_write (vertex g w))) (\<lambda>_.
     res_bind (start_timestamp (content g w)) (\<lambda>tw.
     res_bind (start_timestamp (content g h)) (\<lambda>th.
     res_bind (py_assert (tw < th)) (\<lambda>_.
       Inr ((add_inter_edge w h g)\<lparr> eg_write_hear_edges := eg_write_hear_edges g @
         [\<lparr> ee_source = w, ee_sink = h, ee_type = INTER_RECONCILER_EDGE \<rparr>] \<rparr>)))))))"

section \<open>Masks and lookups\<close>

definition retrieve_masked :: "event_graph \<Rightarrow> string \<Rightarrow> (string set \<times> string set) res" where
  "retrieve_masked g resource_key =
     res_bind (get_mask_by_resource_key (eg_configured_masked_keys g) resource_key) (\<lambda>ks.
     res_bind (get_mask_by_resource_key (eg_configured_masked_paths g) resource_key) (\<lambda>ps.
     res_bind (get_mask_by_resource_key (eg_learned_masked_paths g) resource_key) (\<lambda>ls.
       Inr (set ks, set ps \<union> set ls))))"

definition get_controller_hear_with_id :: "event_graph \<Rightarrow> int \<Rightarrow> nat option" where
  "get_controller_hear_with_id g hear_id = map_of (eg_hear_id g) hear_id"

text \<open>The loop over \<open>range(len(...))\<close>, with the entry before the current one at hand.\<close>

fun prev_hear_loop :: "event_graph \<Rightarrow> int \<Rightarrow> nat option \<Rightarrow> nat list \<Rightarrow> nat option res" where
  "prev_hear_loop g i before [] = Inr None"
| "prev_hear_loop g i before (v # vs) =
     res_bind (as_hear (content g v)) (\<lambda>h.
       if ch_id h = i then Inr before else prev_hear_loop g i (Some v) vs)"

definition get_prev_controller_hear_with_key ::
  "event_graph \<Rightarrow> string \<Rightarrow> int \<Rightarrow> nat option res" where
  "get_prev_controller_hear_with_key g key i =
     res_bind (dict_item (eg_hear_key g) key) (prev_hear_loop g i None)"

section \<open>Differences between events\<close>

text \<open>One hear: the body of the inner loop, from the object and type of the hear before it.\<close>

record hear_loop =
  hl_graph :: event_graph
  hl_counter :: "(string, nat) dict"
  hl_prev_obj :: json
  hl_prev_etype :: string

definition hear_diff_step :: "hear_loop \<Rightarrow> nat \<Rightarrow> hear_loop res" where
  "hear_diff_step st v =
     (let g = hl_graph st in
      res_bind (as_hear (content g v)) (\<lambda>h.
      res_bind (retrieve_masked g (ch_key h)) (\<lambda>(masked_keys, masked_paths).
      res_bind (as_dict (hl_prev_obj st)) (\<lambda>prev.
      res_bind (as_dict (ch_obj_map h)) (\<lambda>cur.
        let d = diff_event prev cur masked_keys masked_paths False True;
            h1 = h\<lparr> ch_slim_prev_obj_map := map_option fst d, ch_slim_cur_obj_map := map_option snd d,
                    ch_prev_etype := hl_prev_etype st \<rparr>
        in res_bind (get_event_signature (Hear h1)) (\<lambda>sig.
             let counter = dict_bump sig (hl_counter st);
                 h2 = h1\<lparr> ch_signature_counter := dict_count counter sig \<rparr>
             in Inr \<lparr> hl_graph = set_content v (Hear h2) g, hl_counter = counter,
                      hl_prev_obj = ch_obj_map h2, hl_prev_etype = ch_etype h2 \<rparr>))))))"

definition hear_diff_key :: "event_graph \<Rightarrow> nat list \<Rightarrow> event_graph res" where
  "hear_diff_key g vertices =
     res_bind (res_fold hear_diff_step \<lparr> hl_graph = g, hl_counter = [], hl_prev_obj = JObj [],
         hl_prev_etype = EVENT_NONE_TYPE \<rparr> vertices) (\<lambda>st. Inr (hl_graph st))"

text \<open>The last read of the written object before the write, in the same reconcile round.\<close>

fun last_read :: "event_graph \<Rightarrow> controller_write \<Rightarrow> json \<times> string \<Rightarrow> nat list \<Rightarrow> (json \<times> string) res" where
  "last_read g w acc [] = Inr acc"
| "last_read g w acc (v # vs) =
     res_bind (as_read (content g v)) (\<lambda>r.
       if cr_end_timestamp r > cw_start_timestamp w then Inr acc
       else res_bind (py_assert (cw_key w \<in> set (cr_key_set r))) (\<lambda>_.
         res_bind (py_assert (cr_end_timestamp r < cw_start_timestamp w)) (\<lambda>_.
           if cr_reconcile_fun r = cw_reconcile_fun w \<and> cr_reconcile_id r = cw_reconcile_id w
           then res_bind (dict_item (cr_key_to_obj r) (cw_key w)) (\<lambda>obj.
             last_read g w (obj, cr_etype r) vs)
           else last_read g w acc vs)))"

definition prev_read :: "event_graph \<Rightarrow> controller_write \<Rightarrow> (json \<times> string) res" where
  "prev_read g w = (case map_of (eg_read_key g) (cw_key w) of
       None \<Rightarrow> Inr (JObj [], EVENT_NONE_TYPE)
     | Some vs \<Rightarrow> last_read g w (JObj [], EVENT_NONE_TYPE) vs)"

definition write_diff_step ::
  "event_graph \<times> (string, nat) dict \<Rightarrow> nat \<Rightarrow> (event_graph \<times> (string, nat) dict) res" where
  "write_diff_step st v = (case st of (g, counter0) \<Rightarrow>
     res_bind (as_write (content g v)) (\<lambda>w.
     res_bind (prev_read g w) (\<lambda>(prev_obj, prev_etype).
     res_bind (retrieve_masked g (cw_key w)) (\<lambda>(masked_keys, masked_paths).
     res_bind (as_dict prev_obj) (\<lambda>prev.
     res_bind (as_dict (cw_obj_map w)) (\<lambda>cur.
       let d = diff_event prev cur masked_keys masked_paths True True;
           w1 = w\<lparr> cw_prev_obj_map := Some prev_obj, cw_slim_prev_obj_map := map_option fst d,
                   cw_slim_cur_obj_map := map_option snd d, cw_prev_etype := prev_etype \<rparr>
       in res_bind (get_event_signature (Write w1)) (\<lambda>sig.
            let counter = dict_bump sig counter0;
                w2 = w1\<lparr> cw_signature_counter := dict_count counter sig \<rparr>
            in Inr (set_content v (Write w2) g, counter))))))))"

definition write_diff_key :: "event_graph \<Rightarrow> nat list \<Rightarrow> event_graph res" where
  "write_diff_key g vertices =
     res_bind (res_fold write_diff_step (g, []) vertices) (\<lambda>(g', _). Inr g')"

definition nk_signature :: "controller_nk_write \<Rightarrow> string" where
  "nk_signature w = cn_recv_type w @ ''/'' @ cn_fun_name w"

definition nk_count_step ::
  "event_graph \<times> (string, nat) dict \<Rightarrow> nat \<Rightarrow> (event_graph \<times> (string, nat) dict) res" where
  "nk_count_step st v = (case st of (g, counter0) \<Rightarrow>
     res_bind (as_nk_write (content g v)) (\<lambda>w.
       let counter = dict_bump (nk_signature w) counter0;
           w' = w\<lparr> cn_signature_counter := dict_count counter (nk_signature w) \<rparr>
       in Inr (set_content v (NonK8sWrite w') g, counter)))"

definition compute_event_diff :: "event_graph \<Rightarrow> event_graph res" where
  "compute_event_diff g0 =
     res_bind (res_fold (\<lambda>g (key, vertices). hear_diff_key g vertices) g0 (eg_hear_key g0)) (\<lambda>g1.
     res_bind (res_fold (\<lambda>g (key, vertices). write_diff_key g vertices) g1 (eg_write_key g1)) (\<lambda>g2.
     res_bind (res_fold nk_count_step (g2, []) (eg_nk_writes g2)) (\<lambda>(g3, _). Inr g3)))"

section \<open>Cancellation\<close>

definition set_add :: "'a \<Rightarrow> 'a list \<Rightarrow> 'a list" where
  "set_add x xs = (if x \<in> set xs then xs else xs @ [x])"

text \<open>The ids of the later hears of the key that cancel a hear; all of them for the first hear.\<close>

definition cancel_step ::
  "event_graph \<Rightarrow> bool \<Rightarrow> controller_hear \<Rightarrow> int list \<Rightarrow> nat \<Rightarrow> int list res" where
  "cancel_step g is_first cur cancelled_by u =
     res_bind (as_hear (content g u)) (\<lambda>future.
       if is_first then Inr (set_add (ch_id future) cancelled_by)
       else res_bind (retrieve_masked g (ch_key cur)) (\<lambda>(masked_keys, masked_paths).
         res_bind (conflicting_event cur future masked_keys masked_paths) (\<lambda>b.
           Inr (if b then set_add (ch_id future) cancelled_by else cancelled_by))))"

fun cancel_key :: "bool \<Rightarrow> event_graph \<Rightarrow> nat list \<Rightarrow> event_graph res" where
  "cancel_key is_first g [] = Inr g"
| "cancel_key is_first g [v] = Inr g"
| "cancel_key is_first g (v # vs) =
     res_bind (as_hear (content g v)) (\<lambda>cur.
     res_bind (res_fold (cancel_step g is_first cur) [] vs) (\<lambda>cancelled_by.
       cancel_key False (set_content v (Hear (cur\<lparr> ch_cancelled_by := cancelled_by \<rparr>)) g) vs))"

definition compute_event_cancel :: "event_graph \<Rightarrow> event_graph res" where
  "compute_event_cancel g0 =
     res_fold (\<lambda>g (key, vertices). cancel_key True g vertices) g0 (eg_hear_key g0)"

definition finalize :: "event_graph \<Rightarrow> event_graph res" where
  "finalize g = res_bind (compute_event_diff g) compute_event_cancel"

section \<open>Sanity check\<close>

text \<open>
  The assertions \<open>v.is_controller_hear\<close> and \<open>v.is_controller_write\<close> test a bound method, which is
  always true, and have no counterpart here.
\<close>

fun check_sorted :: "event_graph \<Rightarrow> int option \<Rightarrow> nat list \<Rightarrow> (event \<Rightarrow> event_vertex \<Rightarrow> unit res) \<Rightarrow> unit res" where
  "check_sorted g before [] check = Inr ()"
| "check_sorted g before (v # vs) check =
     res_bind (start_timestamp (content g v)) (\<lambda>t.
     res_bind (py_assert (case before of None \<Rightarrow> True | Some t0 \<Rightarrow> t > t0)) (\<lambda>_.
     res_bind (check (content g v) (vertex g v)) (\<lambda>_.
       check_sorted g (Some t) vs check)))"

definition check_out_edges :: "event_vertex \<Rightarrow> unit res" where
  "check_out_edges v = res_fold (\<lambda>_ edge. py_assert (ev_gid v = ee_source edge)) () (ev_out_inter v)"

definition check_hear :: "event \<Rightarrow> event_vertex \<Rightarrow> unit res" where
  "check_hear e v =
     res_bind (as_hear e) (\<lambda>h.
     res_bind (py_assert (ch_start_timestamp h \<noteq> -1)) (\<lambda>_.
     res_bind (py_assert (ch_end_timestamp h \<noteq> -1)) (\<lambda>_.
     res_bind (py_assert (ch_start_timestamp h < ch_end_timestamp h)) (\<lambda>_.
       check_out_edges v))))"

definition check_write :: "event \<Rightarrow> event_vertex \<Rightarrow> unit res" where
  "check_write e v =
     res_bind (as_write e) (\<lambda>w.
     res_bind (py_assert (cw_start_timestamp w < cw_end_timestamp w)) (\<lambda>_.
     res_bind (check_out_edges v) (\<lambda>_.
       if cw_reconcile_id w \<noteq> None then
         res_bind (py_assert (cw_range_end_timestamp w \<noteq> -1)) (\<lambda>_.
         res_bind (py_assert (cw_range_start_timestamp w < cw_range_end_timestamp w)) (\<lambda>_.
           py_assert (cw_end_timestamp w = cw_range_end_timestamp w)))
       else Inr ())))"

definition check_edge :: "event_graph \<Rightarrow> bool \<Rightarrow> event_edge \<Rightarrow> unit res" where
  "check_edge g from_hear edge =
     (let u = ee_source edge; v = ee_sink edge in
      res_bind (py_assert
        (if from_hear then is_controller_hear (vertex g u) \<and> is_controller_write (vertex g v)
         else is_controller_hear (vertex g v) \<and> is_controller_write (vertex g u))) (\<lambda>_.
      res_bind (start_timestamp (content g u)) (\<lambda>tu.
      res_bind (start_timestamp (content g v)) (\<lambda>tv. py_assert (tu < tv)))))"

definition sanity_check :: "event_graph \<Rightarrow> unit res" where
  "sanity_check g =
     res_bind (check_sorted g None (eg_hears g) check_hear) (\<lambda>_.
     res_bind (check_sorted g None (eg_writes g) check_write) (\<lambda>_.
     res_bind (res_fold (\<lambda>_ edge. check_edge g True edge) () (eg_hear_write_edges g)) (\<lambda>_.
       res_fold (\<lambda>_ edge. check_edge g False edge) () (eg_write_hear_edges g))))"

section \<open>Reachability\<close>

text \<open>
  \<open>event_vertices_reachable\<close>: breadth-first search over the edges between reconcilers. The inner
  loop over the edges of one vertex returns \<open>None\<close> when it meets the sink and else the visited
  gids and the queue. A gid outside of the store has no vertex; \<open>OutOfModel\<close> stands for it.
\<close>

fun scan_edges ::
  "event_graph \<Rightarrow> nat \<Rightarrow> nat \<Rightarrow> event_edge list \<Rightarrow> nat list \<Rightarrow> nat list \<Rightarrow> (nat list \<times> nat list) option res"
  where
  "scan_edges g cur sink [] visited queue = Inr (Some (visited, queue))"
| "scan_edges g cur sink (edge # edges) visited queue =
     (let u = ee_sink edge in
      if u \<ge> length (eg_vertices g) then Inl OutOfModel
      else res_bind (py_assert (cur = ee_source edge)) (\<lambda>_.
        res_bind (start_timestamp (content g (ee_source edge))) (\<lambda>ts.
        res_bind (start_timestamp (content g u)) (\<lambda>tu.
        res_bind (py_assert (ts < tu)) (\<lambda>_.
          if u = sink then Inr None
          else if u \<in> set visited then scan_edges g cur sink edges visited queue
          else scan_edges g cur sink edges (u # visited) (queue @ [u]))))))"

lemma scan_edges_measure:
  "scan_edges g cur sink edges visited queue = Inr (Some (visited', queue')) \<Longrightarrow>
   2 * card ({..<length (eg_vertices g)} - set visited') + length queue' \<le>
   2 * card ({..<length (eg_vertices g)} - set visited) + length queue"
proof (induction edges arbitrary: visited queue)
  case Nil
  then show ?case by simp
next
  case (Cons edge edges)
  let ?V = "{..<length (eg_vertices g)}"
  let ?u = "ee_sink edge"
  from Cons.prems have u: "?u \<in> ?V"
    by (auto simp: Let_def split: if_splits)
  show ?case
  proof (cases "?u \<in> set visited")
    case True
    with Cons show ?thesis by (auto simp: Let_def res_simps split: if_splits)
  next
    case False
    with Cons.prems have "scan_edges g cur sink edges (?u # visited) (queue @ [?u]) =
        Inr (Some (visited', queue'))"
      by (auto simp: Let_def res_simps split: if_splits)
    from Cons.IH[OF this] have le: "2 * card (?V - set (?u # visited)) + Suc (length queue) \<ge>
        2 * card (?V - set visited') + length queue'" by simp
    have rest: "?V - set (?u # visited) = ?V - set visited - {?u}" by auto
    have "Suc (card (?V - set visited - {?u})) = card (?V - set visited)"
      by (rule card_Suc_Diff1) (use u False in auto)
    with le[unfolded rest] show ?thesis by linarith
  qed
qed

function reach_loop :: "event_graph \<Rightarrow> nat \<Rightarrow> nat list \<Rightarrow> nat list \<Rightarrow> bool res" where
  "reach_loop g sink [] visited = Inr False"
| "reach_loop g sink (cur # queue) visited =
     (case scan_edges g cur sink (ev_out_inter (vertex g cur)) visited queue of
        Inl e \<Rightarrow> Inl e
      | Inr None \<Rightarrow> Inr True
      | Inr (Some (visited', queue')) \<Rightarrow> reach_loop g sink queue' visited')"
  by pat_completeness auto
termination
proof (relation "measure (\<lambda>(g, sink, queue, visited).
    2 * card ({..<length (eg_vertices g)} - set visited) + length queue)", goal_cases)
  case (2 g sink cur queue visited r p visited' queue')
  then have "scan_edges g cur sink (ev_out_inter (vertex g cur)) visited queue =
      Inr (Some (visited', queue'))" by simp
  from scan_edges_measure[OF this] show ?case by simp
qed simp

definition event_vertices_reachable :: "event_graph \<Rightarrow> nat \<Rightarrow> nat \<Rightarrow> bool res" where
  "event_vertices_reachable g source sink =
     (if source = sink then Inr True
      else reach_loop g sink [source] [source])"

definition event_vertices_connected :: "event_graph \<Rightarrow> nat \<Rightarrow> nat \<Rightarrow> bool" where
  "event_vertices_connected g source sink \<longleftrightarrow>
     list_ex (\<lambda>edge. ee_sink edge = sink) (ev_out_inter (vertex g source))"

end
