(* ===== verification/Graph_Reach.thy ===== *)
theory Graph_Reach
  imports Event_Graph
begin

text \<open>
  Correctness of the search over causality edges: \<open>event_vertices_reachable\<close> always returns and
  decides reachability, and the edges, which go forward in time, form no cycle.
\<close>

definition inter_rel :: "event_graph \<Rightarrow> (nat \<times> nat) set" where
  "inter_rel g = {(u, v). u < length (eg_vertices g) \<and>
     (\<exists>e\<in>set (ev_out_inter (vertex g u)). ee_sink e = v)}"

definition time_lt :: "event \<Rightarrow> event \<Rightarrow> bool" where
  "time_lt a b \<longleftrightarrow> (\<exists>s t. start_timestamp a = Inr s \<and> start_timestamp b = Inr t \<and> s < t)"

text \<open>Every edge leaves the vertex that holds it, ends in the store and goes forward in time.\<close>

definition edges_ok :: "event_graph \<Rightarrow> bool" where
  "edges_ok g \<longleftrightarrow> (\<forall>u < length (eg_vertices g). \<forall>e\<in>set (ev_out_inter (vertex g u)).
     ee_source e = u \<and> ee_sink e < length (eg_vertices g) \<and> time_lt (content g u) (content g (ee_sink e)))"

section \<open>The search\<close>

lemma scan_edges_correct:
  assumes "\<forall>e\<in>set edges. ee_source e = cur \<and> ee_sink e < length (eg_vertices g) \<and>
    time_lt (content g cur) (content g (ee_sink e))"
  shows "if sink \<in> ee_sink ` set edges then scan_edges g cur sink edges visited queue = Inr None
    else \<exists>visited' queue'. scan_edges g cur sink edges visited queue = Inr (Some (visited', queue')) \<and>
      set visited' = set visited \<union> ee_sink ` set edges \<and>
      set queue' = set queue \<union> (ee_sink ` set edges - set visited)"
  using assms
proof (induction edges arbitrary: visited queue)
  case Nil
  then show ?case by simp
next
  case (Cons e es)
  from Cons.prems obtain s t where "start_timestamp (content g cur) = Inr s"
    "start_timestamp (content g (ee_sink e)) = Inr t" "s < t" by (auto simp: time_lt_def)
  with Cons.prems have step: "scan_edges g cur sink (e # es) visited queue =
     (if ee_sink e = sink then Inr None
      else if ee_sink e \<in> set visited then scan_edges g cur sink es visited queue
      else scan_edges g cur sink es (ee_sink e # visited) (queue @ [ee_sink e]))"
    by (simp add: Let_def)
  show ?case
    using Cons.IH[of visited queue] Cons.IH[of "ee_sink e # visited" "queue @ [ee_sink e]"] Cons.prems
    unfolding step by (fastforce split: if_splits)
qed

lemma closed_rtrancl:
  assumes "(u, w) \<in> r\<^sup>*" "u \<in> A" "\<And>x y. x \<in> A \<Longrightarrow> (x, y) \<in> r \<Longrightarrow> y \<in> A"
  shows "w \<in> A"
  using assms(1) by (induction rule: rtrancl_induct) (use assms in auto)

lemma reach_loop_correct:
  assumes "edges_ok g" "\<forall>v\<in>set visited. v < length (eg_vertices g) \<and> v \<noteq> sink"
    "set queue \<subseteq> set visited"
    "\<forall>v\<in>set visited - set queue. \<forall>w. (v, w) \<in> inter_rel g \<longrightarrow> w \<in> set visited"
  shows "reach_loop g sink queue visited =
    Inr (\<exists>v\<in>set visited. (v, sink) \<in> (inter_rel g)\<^sup>*)"
  using assms
proof (induction g sink queue visited rule: reach_loop.induct)
  case (1 g sink visited)
  have "\<not> (\<exists>v\<in>set visited. (v, sink) \<in> (inter_rel g)\<^sup>*)"
  proof
    assume "\<exists>v\<in>set visited. (v, sink) \<in> (inter_rel g)\<^sup>*"
    then obtain v where v: "v \<in> set visited" "(v, sink) \<in> (inter_rel g)\<^sup>*" by blast
    have "sink \<in> set visited"
      by (rule closed_rtrancl[OF v(2,1)]) (use "1.prems"(4) in simp)
    with "1.prems"(2) show False by blast
  qed
  then show ?case by simp
next
  case (2 g sink cur queue visited)
  let ?out = "ev_out_inter (vertex g cur)"
  have cur: "cur \<in> set visited" "cur < length (eg_vertices g)" using "2.prems"(2,3) by auto
  have succ: "ee_sink ` set ?out = {w. (cur, w) \<in> inter_rel g}" using cur by (auto simp: inter_rel_def)
  have out: "\<forall>e\<in>set ?out. ee_source e = cur \<and> ee_sink e < length (eg_vertices g) \<and>
      time_lt (content g cur) (content g (ee_sink e))"
    using "2.prems"(1) cur by (simp add: edges_ok_def)
  show ?case
  proof (cases "sink \<in> ee_sink ` set ?out")
    case True
    then have "scan_edges g cur sink ?out visited queue = Inr None"
      using scan_edges_correct[OF out, of sink visited queue] by simp
    moreover have "\<exists>v\<in>set visited. (v, sink) \<in> (inter_rel g)\<^sup>*"
      using True cur succ by blast
    ultimately show ?thesis by simp
  next
    case False
    then obtain visited' queue' where
      scan: "scan_edges g cur sink ?out visited queue = Inr (Some (visited', queue'))"
      and v': "set visited' = set visited \<union> ee_sink ` set ?out"
      and q': "set queue' = set queue \<union> (ee_sink ` set ?out - set visited)"
      using scan_edges_correct[OF out, of sink visited queue] by auto
    have "reach_loop g sink queue' visited' = Inr (\<exists>v\<in>set visited'. (v, sink) \<in> (inter_rel g)\<^sup>*)"
    proof (rule "2.IH"[OF scan refl refl "2.prems"(1)])
      show "\<forall>v\<in>set visited'. v < length (eg_vertices g) \<and> v \<noteq> sink"
        using "2.prems"(2) out False v' by auto
      show "set queue' \<subseteq> set visited'" using "2.prems"(3) v' q' by auto
      show "\<forall>v\<in>set visited' - set queue'. \<forall>w. (v, w) \<in> inter_rel g \<longrightarrow> w \<in> set visited'"
      proof (intro ballI allI impI)
        fix v w
        assume v: "v \<in> set visited' - set queue'" and vw: "(v, w) \<in> inter_rel g"
        then have "v \<in> set visited" using v' q' by blast
        show "w \<in> set visited'"
        proof (cases "v = cur")
          case True
          then show ?thesis using vw succ v' by blast
        next
          case False
          then have "v \<in> set visited - set (cur # queue)" using \<open>v \<in> set visited\<close> v q' by simp
          then show ?thesis using "2.prems"(4) vw v' by blast
        qed
      qed
    qed
    moreover have "(\<exists>v\<in>set visited'. (v, sink) \<in> (inter_rel g)\<^sup>*) \<longleftrightarrow>
        (\<exists>v\<in>set visited. (v, sink) \<in> (inter_rel g)\<^sup>*)"
      using v' cur succ by (auto intro: converse_rtrancl_into_rtrancl)
    ultimately show ?thesis using scan by simp
  qed
qed

lemma reachable_iff:
  assumes "edges_ok g" "source < length (eg_vertices g)"
  shows "event_vertices_reachable g source sink = Inr ((source, sink) \<in> (inter_rel g)\<^sup>*)"
  using reach_loop_correct[OF assms(1), of "[source]" sink "[source]"] assms(2)
  by (auto simp: event_vertices_reachable_def)

section \<open>No cycles\<close>

lemma inter_rel_time:
  assumes "edges_ok g" "(u, v) \<in> (inter_rel g)\<^sup>+" "u < length (eg_vertices g)"
  shows "v < length (eg_vertices g) \<and> time_lt (content g u) (content g v)"
  using assms(2)
proof (induction rule: trancl_induct)
  case (base v)
  then show ?case using assms(1,3) unfolding edges_ok_def inter_rel_def by blast
next
  case (step v w)
  then have "w < length (eg_vertices g)" "time_lt (content g v) (content g w)"
    using assms(1) unfolding edges_ok_def inter_rel_def by blast+
  with step.IH show ?case by (auto simp: time_lt_def)
qed

lemma inter_rel_acyclic:
  assumes "edges_ok g" "u < length (eg_vertices g)"
  shows "(u, u) \<notin> (inter_rel g)\<^sup>+"
  using inter_rel_time[OF assms(1) _ assms(2), of u] by (auto simp: time_lt_def)

end
