(* ===== verification/Graph_Build.thy ===== *)
theory Graph_Build
  imports Graph_Reach
begin

text \<open>
  The construction of the event graph keeps its indexes exact: every list of vertices is the list
  of the vertices of its kind, in order, every dict groups them by key, the id map is a bijection
  onto the hears, edges leave the vertex that holds them and go forward in time.
\<close>

section \<open>The invariant\<close>

text \<open>The gids whose content satisfies a predicate, in the order of creation.\<close>

definition verts :: "event_graph \<Rightarrow> (event \<Rightarrow> bool) \<Rightarrow> nat list" where
  "verts g Q = filter (\<lambda>i. Q (content g i)) [0..<length (eg_vertices g)]"

definition hear_sat :: "(controller_hear \<Rightarrow> bool) \<Rightarrow> event \<Rightarrow> bool" where
  "hear_sat P e = (case e of Hear h \<Rightarrow> P h | _ \<Rightarrow> False)"
definition write_sat :: "(controller_write \<Rightarrow> bool) \<Rightarrow> event \<Rightarrow> bool" where
  "write_sat P e = (case e of Write w \<Rightarrow> P w | _ \<Rightarrow> False)"
definition nk_write_sat :: "(controller_nk_write \<Rightarrow> bool) \<Rightarrow> event \<Rightarrow> bool" where
  "nk_write_sat P e = (case e of NonK8sWrite w \<Rightarrow> P w | _ \<Rightarrow> False)"
definition read_sat :: "(controller_read \<Rightarrow> bool) \<Rightarrow> event \<Rightarrow> bool" where
  "read_sat P e = (case e of Read r \<Rightarrow> P r | _ \<Rightarrow> False)"
definition begin_ev :: "event \<Rightarrow> bool" where
  "begin_ev e = (case e of ReconcileBegin _ \<Rightarrow> True | _ \<Rightarrow> False)"
definition end_ev :: "event \<Rightarrow> bool" where
  "end_ev e = (case e of ReconcileEnd _ \<Rightarrow> True | _ \<Rightarrow> False)"

lemmas sat_defs = hear_sat_def write_sat_def nk_write_sat_def read_sat_def begin_ev_def end_ev_def

lemma hear_sat_Hear: "hear_sat P (Hear h) = P h"
  by (simp add: hear_sat_def)

definition lists_ok :: "event_graph \<Rightarrow> bool" where
  "lists_ok g \<longleftrightarrow>
     eg_hears g = verts g (hear_sat (\<lambda>_. True)) \<and> eg_writes g = verts g (write_sat (\<lambda>_. True)) \<and>
     eg_nk_writes g = verts g (nk_write_sat (\<lambda>_. True)) \<and> eg_reads g = verts g (read_sat (\<lambda>_. True)) \<and>
     eg_begins g = verts g begin_ev \<and> eg_ends g = verts g end_ev"

definition keys_ok :: "event_graph \<Rightarrow> bool" where
  "keys_ok g \<longleftrightarrow>
     (\<forall>k. dict_group (eg_hear_key g) k = verts g (hear_sat (\<lambda>h. ch_key h = k))) \<and>
     (\<forall>k. dict_group (eg_write_key g) k = verts g (write_sat (\<lambda>w. cw_key w = k))) \<and>
     (\<forall>k. dict_group (eg_read_key g) k = verts g (read_sat (\<lambda>r. k \<in> set (cr_key_set r)))) \<and>
     dict_ok (eg_hear_key g) \<and> dict_ok (eg_write_key g) \<and> dict_ok (eg_read_key g)"

definition ids_ok :: "event_graph \<Rightarrow> bool" where
  "ids_ok g \<longleftrightarrow> (\<forall>i v. map_of (eg_hear_id g) i = Some v \<longleftrightarrow>
     v < length (eg_vertices g) \<and> hear_sat (\<lambda>h. ch_id h = i) (content g v))"

definition gids_ok :: "event_graph \<Rightarrow> bool" where
  "gids_ok g \<longleftrightarrow> (\<forall>i < length (eg_vertices g). ev_gid (vertex g i) = i)"

text \<open>Edges inside a reconciler join one vertex to the next.\<close>

definition intra_ok :: "event_graph \<Rightarrow> bool" where
  "intra_ok g \<longleftrightarrow> (\<forall>u < length (eg_vertices g). \<forall>e\<in>set (ev_out_intra (vertex g u)).
     ee_source e = u \<and> ee_sink e = Suc u \<and> Suc u < length (eg_vertices g))"

definition graph_ok :: "event_graph \<Rightarrow> bool" where
  "graph_ok g \<longleftrightarrow> gids_ok g \<and> lists_ok g \<and> keys_ok g \<and> ids_ok g \<and> edges_ok g \<and> intra_ok g"

section \<open>Adding a vertex\<close>

lemma verts_new:
  "eg_vertices g' = eg_vertices g @ [v] \<Longrightarrow>
   verts g' Q = verts g Q @ (if Q (ev_content v) then [length (eg_vertices g)] else [])"
  by (auto simp: verts_def nth_append intro!: filter_cong)

lemma new_vertex_fields [simp]:
  "eg_vertices (new_vertex e g) = eg_vertices g @
     [\<lparr> ev_gid = length (eg_vertices g), ev_content = e, ev_out_inter = [], ev_out_intra = [] \<rparr>]"
  "eg_hears (new_vertex e g) = eg_hears g" "eg_writes (new_vertex e g) = eg_writes g"
  "eg_nk_writes (new_vertex e g) = eg_nk_writes g" "eg_reads (new_vertex e g) = eg_reads g"
  "eg_begins (new_vertex e g) = eg_begins g" "eg_ends (new_vertex e g) = eg_ends g"
  "eg_hear_key (new_vertex e g) = eg_hear_key g" "eg_write_key (new_vertex e g) = eg_write_key g"
  "eg_read_key (new_vertex e g) = eg_read_key g" "eg_hear_id (new_vertex e g) = eg_hear_id g"
  by (simp_all add: new_vertex_def)

lemma structure_new:
  assumes "graph_ok g" "eg_vertices g' = eg_vertices (new_vertex e g)"
  shows "gids_ok g'" "edges_ok g'" "intra_ok g'"
  using assms unfolding graph_ok_def gids_ok_def edges_ok_def intra_ok_def
  by (auto simp: nth_append less_Suc_eq)

lemma ids_new_other:
  assumes "ids_ok g" "eg_vertices g' = eg_vertices (new_vertex e g)" "eg_hear_id g' = eg_hear_id g"
    "\<not> hear_sat (\<lambda>_. True) e"
  shows "ids_ok g'"
  using assms unfolding ids_ok_def by (auto simp: nth_append less_Suc_eq sat_defs split: event.splits)

lemma group_append:
  "dict_group (dict_append k v d) j = (if j = k then dict_group d j @ [v] else dict_group d j)"
  by (rule append_grouping.group_add)

lemma filter_eq_distinct: "distinct ks \<Longrightarrow> filter (\<lambda>k. k = j) ks = (if j \<in> set ks then [j] else [])"
  by (induction ks) (auto simp: filter_empty_conv)

lemma group_append_all:
  "distinct ks \<Longrightarrow> dict_group (fold (\<lambda>k. dict_append k v) ks d) j =
     (if j \<in> set ks then dict_group d j @ [v] else dict_group d j)"
  using append_grouping.group_fold[of "\<lambda>k. k" "\<lambda>_. v" ks d j] by (simp add: filter_eq_distinct)

lemma dict_ok_append_all: "dict_ok d \<Longrightarrow> dict_ok (fold (\<lambda>k. dict_append k v) ks d)"
  by (induction ks arbitrary: d) auto

lemma add_controller_hear_ok:
  assumes "graph_ok g" "add_controller_hear g h = Inr g'"
  shows "graph_ok g'"
proof -
  let ?v = "length (eg_vertices g)"
  have fresh: "map_of (eg_hear_id g) (ch_id h) = None"
    and g': "g' = (new_vertex (Hear h) g)\<lparr> eg_hears := eg_hears g @ [?v],
      eg_hear_key := dict_append (ch_key h) ?v (eg_hear_key g),
      eg_hear_id := AList.update (ch_id h) ?v (eg_hear_id g) \<rparr>"
    using assms(2) by (auto simp: add_controller_hear_def Let_def res_simps)
  have V: "eg_vertices g' = eg_vertices (new_vertex (Hear h) g)" by (simp add: g')
  note vs = verts_new[of g' g, OF V[unfolded new_vertex_fields]]
  have "lists_ok g'" "keys_ok g'"
    using assms(1) unfolding graph_ok_def lists_ok_def keys_ok_def vs
    by (simp_all add: g' sat_defs group_append)
  moreover have "ids_ok g'"
  proof -
    have ids: "ids_ok g" using assms(1) by (simp add: graph_ok_def)
    then have "\<not> hear_sat (\<lambda>x. ch_id x = ch_id h) (content g v)" if "v < length (eg_vertices g)" for v
      using fresh that unfolding ids_ok_def by (metis option.distinct(1))
    then show ?thesis
      using ids unfolding ids_ok_def by (auto simp: g' nth_append less_Suc_eq hear_sat_Hear)
  qed
  ultimately show ?thesis using structure_new[OF assms(1) V] by (simp add: graph_ok_def)
qed

text \<open>A read may be added only if its key set holds no key twice; the parser guarantees it.\<close>

definition addable :: "event \<Rightarrow> bool" where
  "addable e = (case e of Read r \<Rightarrow> distinct (cr_key_set r) | _ \<Rightarrow> True)"

lemma add_reconciler_event_ok:
  assumes "graph_ok g" "addable e" "add_reconciler_event g e = Inr g'"
  shows "graph_ok g'"
proof -
  have V: "eg_vertices g' = eg_vertices (new_vertex e g)" and id: "eg_hear_id g' = eg_hear_id g"
    and nohear: "\<not> hear_sat (\<lambda>_. True) e"
    using assms(3) by (auto simp: add_reconciler_event_def Let_def sat_defs split: event.splits)
  note vs = verts_new[of g' g, OF V[unfolded new_vertex_fields]]
  have "lists_ok g'"
    using assms(1,3) unfolding graph_ok_def lists_ok_def vs
    by (auto simp: add_reconciler_event_def Let_def sat_defs split: event.splits)
  moreover have "keys_ok g'"
    using assms unfolding graph_ok_def keys_ok_def vs
    by (auto simp: add_reconciler_event_def addable_def Let_def sat_defs group_append group_append_all
        dict_ok_append_all split: event.splits)
  moreover have "ids_ok g'" using ids_new_other[OF _ V id nohear] assms(1) by (simp add: graph_ok_def)
  ultimately show ?thesis using structure_new[OF assms(1) V] by (simp add: graph_ok_def)
qed

section \<open>Adding an edge\<close>

text \<open>A change of the edges leaves the contents, and with them every index, as they were.\<close>

definition same_contents :: "event_graph \<Rightarrow> event_graph \<Rightarrow> bool" where
  "same_contents g g' \<longleftrightarrow>
     map ev_content (eg_vertices g') = map ev_content (eg_vertices g) \<and>
     map ev_gid (eg_vertices g') = map ev_gid (eg_vertices g) \<and>
     eg_hears g' = eg_hears g \<and> eg_writes g' = eg_writes g \<and> eg_nk_writes g' = eg_nk_writes g \<and>
     eg_reads g' = eg_reads g \<and> eg_begins g' = eg_begins g \<and> eg_ends g' = eg_ends g \<and>
     eg_read_key g' = eg_read_key g \<and> eg_write_key g' = eg_write_key g \<and>
     eg_hear_key g' = eg_hear_key g \<and> eg_hear_id g' = eg_hear_id g"

lemma same_contents_length: "same_contents g g' \<Longrightarrow> length (eg_vertices g') = length (eg_vertices g)"
  unfolding same_contents_def by (metis length_map)

lemma same_contents_nth:
  "same_contents g g' \<Longrightarrow> v < length (eg_vertices g) \<Longrightarrow> content g' v = content g v"
  unfolding same_contents_def by (metis length_map nth_map)

lemma same_contents_verts: "same_contents g g' \<Longrightarrow> verts g' Q = verts g Q"
  using same_contents_nth[of g g'] same_contents_length[of g g']
  by (auto simp: verts_def intro!: filter_cong)

lemma indexes_same:
  assumes "same_contents g g'" "graph_ok g"
  shows "gids_ok g'" "lists_ok g'" "keys_ok g'" "ids_ok g'"
proof -
  note v = same_contents_verts[OF assms(1)]
  note n = same_contents_nth[OF assms(1)] same_contents_length[OF assms(1)]
  show "gids_ok g'"
    using assms n(2) unfolding graph_ok_def gids_ok_def same_contents_def by (metis nth_map)
  show "lists_ok g'" "keys_ok g'"
    using assms unfolding graph_ok_def lists_ok_def keys_ok_def v same_contents_def by simp_all
  show "ids_ok g'"
    using assms n unfolding graph_ok_def ids_ok_def same_contents_def by auto
qed

lemma map_list_update_same: "f x = f (xs ! i) \<Longrightarrow> map f (xs[i := x]) = map f xs"
  by (cases "i < length xs") (simp_all add: map_update list_update_same_conv list_update_beyond)

lemma add_inter_edge_same: "same_contents g (add_inter_edge v u g)"
  by (simp add: same_contents_def add_inter_edge_def map_list_update_same)

lemma add_intra_edge_same: "same_contents g (add_intra_edge (v, u) g)"
  by (simp add: same_contents_def add_intra_edge_def map_list_update_same Let_def)

lemma add_intra_edge_ok:
  assumes "graph_ok g" "Suc v < length (eg_vertices g)"
  shows "graph_ok (add_intra_edge (v, Suc v) g)"
proof -
  let ?g = "add_intra_edge (v, Suc v) g"
  note same = add_intra_edge_same[of g v "Suc v"]
  have inter: "ev_out_inter (vertex ?g u) = ev_out_inter (vertex g u)" for u
    using assms(2) by (cases "u = v") (simp_all add: add_intra_edge_def Let_def)
  have "edges_ok ?g"
    using assms same_contents_nth[OF same] same_contents_length[OF same]
    unfolding graph_ok_def edges_ok_def inter by auto
  moreover have "intra_ok ?g"
    using assms same_contents_length[OF same] unfolding graph_ok_def intra_ok_def
    by (auto simp: add_intra_edge_def Let_def nth_list_update)
  ultimately show ?thesis using indexes_same[OF same assms(1)] by (simp add: graph_ok_def)
qed

lemma add_inter_edge_ok:
  assumes "graph_ok g" "v < length (eg_vertices g)" "u < length (eg_vertices g)"
    "time_lt (content g v) (content g u)"
  shows "graph_ok (add_inter_edge v u g)"
proof -
  let ?g = "add_inter_edge v u g"
  note same = add_inter_edge_same[of g v u]
  have "edges_ok ?g"
    unfolding edges_ok_def
  proof (intro allI impI ballI)
    fix x e
    assume x: "x < length (eg_vertices ?g)" and e: "e \<in> set (ev_out_inter (vertex ?g x))"
    have "e \<in> set (ev_out_inter (vertex g x)) \<or> x = v \<and> ee_source e = v \<and> ee_sink e = u"
      using e assms(2) by (cases "x = v") (auto simp: add_inter_edge_def)
    then have "ee_source e = x \<and> ee_sink e < length (eg_vertices g) \<and>
        time_lt (content g x) (content g (ee_sink e))"
      using assms x same_contents_length[OF same] unfolding graph_ok_def edges_ok_def by auto
    then show "ee_source e = x \<and> ee_sink e < length (eg_vertices ?g) \<and>
        time_lt (content ?g x) (content ?g (ee_sink e))"
      using x same_contents_nth[OF same] same_contents_length[OF same] by simp
  qed
  moreover have "intra_ok ?g"
    using assms same_contents_length[OF same] unfolding graph_ok_def intra_ok_def
    by (auto simp: add_inter_edge_def nth_list_update)
  ultimately show ?thesis using indexes_same[OF same assms(1)] by (simp add: graph_ok_def)
qed

section \<open>The operations keep the invariant\<close>

interpretation hear_add: step_invariant graph_ok "\<lambda>_. True" add_controller_hear
  by unfold_locales (rule add_controller_hear_ok)

interpretation reconciler_add: step_invariant graph_ok addable add_reconciler_event
  by unfold_locales (rule add_reconciler_event_ok)

lemma connect_hear_to_write_edge:
  assumes "connect_hear_to_write g (h, w) = Inr g'"
  shows "time_lt (content g h) (content g w)"
    "g' = (add_inter_edge h w g)\<lparr> eg_hear_write_edges := eg_hear_write_edges g @
       [\<lparr> ee_source = h, ee_sink = w, ee_type = INTER_RECONCILER_EDGE \<rparr>] \<rparr>"
    "is_controller_hear (vertex g h)"
    "is_controller_write (vertex g w) \<or> is_controller_non_k8s_write (vertex g w)"
  using assms by (auto simp: connect_hear_to_write_def res_simps time_lt_def)

lemma connect_write_to_hear_edge:
  assumes "connect_write_to_hear g (w, h) = Inr g'"
  shows "time_lt (content g w) (content g h)"
    "g' = (add_inter_edge w h g)\<lparr> eg_write_hear_edges := eg_write_hear_edges g @
       [\<lparr> ee_source = w, ee_sink = h, ee_type = INTER_RECONCILER_EDGE \<rparr>] \<rparr>"
  using assms by (auto simp: connect_write_to_hear_def res_simps time_lt_def)

lemma graph_ok_edge_lists [simp]:
  "graph_ok (g\<lparr> eg_hear_write_edges := es \<rparr>) = graph_ok g"
  "graph_ok (g\<lparr> eg_write_hear_edges := es \<rparr>) = graph_ok g"
  by (simp_all add: graph_ok_def gids_ok_def lists_ok_def keys_ok_def ids_ok_def edges_ok_def
      intra_ok_def verts_def)

lemma add_inter_edge_length [simp]: "length (eg_vertices (add_inter_edge v u g)) = length (eg_vertices g)"
  by (simp add: add_inter_edge_def)

text \<open>Pairs of gids of a store of \<open>N\<close> vertices.\<close>

definition pair_in :: "nat \<Rightarrow> nat \<times> nat \<Rightarrow> bool" where
  "pair_in N p \<longleftrightarrow> fst p < N \<and> snd p < N"

interpretation hear_write: step_invariant
  "\<lambda>g. graph_ok g \<and> length (eg_vertices g) = N" "pair_in N" connect_hear_to_write for N
proof
  fix s x s'
  assume g: "graph_ok s \<and> length (eg_vertices s) = N" "pair_in N x" "connect_hear_to_write s x = Inr s'"
  obtain h w where x: "x = (h, w)" by fastforce
  note e = connect_hear_to_write_edge[OF g(3)[unfolded x]]
  show "graph_ok s' \<and> length (eg_vertices s') = N"
    using add_inter_edge_ok[of s h w] e(1) g by (simp add: e(2) x pair_in_def)
qed

interpretation write_hear: step_invariant
  "\<lambda>g. graph_ok g \<and> length (eg_vertices g) = N" "pair_in N" connect_write_to_hear for N
proof
  fix s x s'
  assume g: "graph_ok s \<and> length (eg_vertices s) = N" "pair_in N x" "connect_write_to_hear s x = Inr s'"
  obtain w h where x: "x = (w, h)" by fastforce
  note e = connect_write_to_hear_edge[OF g(3)[unfolded x]]
  show "graph_ok s' \<and> length (eg_vertices s') = N"
    using add_inter_edge_ok[of s w h] e(1) g by (simp add: e(2) x pair_in_def)
qed

lemma EventGraph_ok: "graph_ok (EventGraph a b c)"
  by (simp add: EventGraph_def graph_ok_def gids_ok_def lists_ok_def keys_ok_def ids_ok_def
      edges_ok_def intra_ok_def verts_def dict_group_def)

section \<open>What the two passes add\<close>

lemma add_hears_contents:
  "add_sorted_controller_hears g hs = Inr g' \<Longrightarrow>
   map ev_content (eg_vertices g') = map ev_content (eg_vertices g) @ map Hear hs"
  unfolding add_sorted_controller_hears_def
proof (induction hs arbitrary: g)
  case (Cons h hs)
  then obtain g1 where g1: "add_controller_hear g h = Inr g1"
    and rest: "res_fold add_controller_hear g1 hs = Inr g'" by (auto simp: res_simps)
  have "map ev_content (eg_vertices g1) = map ev_content (eg_vertices g) @ [Hear h]"
    using g1 by (auto simp: add_controller_hear_def Let_def res_simps)
  with Cons.IH[OF rest] show ?case by simp
qed simp

lemma add_events_contents:
  "res_fold add_reconciler_event g evs = Inr g' \<Longrightarrow>
   map ev_content (eg_vertices g') = map ev_content (eg_vertices g) @ evs"
proof (induction evs arbitrary: g)
  case (Cons e evs)
  then obtain g1 where g1: "add_reconciler_event g e = Inr g1"
    and rest: "res_fold add_reconciler_event g1 evs = Inr g'" by (auto simp: res_simps)
  have "map ev_content (eg_vertices g1) = map ev_content (eg_vertices g) @ [e]"
    using g1 by (auto simp: add_reconciler_event_def Let_def split: event.splits)
  with Cons.IH[OF rest] show ?case by simp
qed simp

lemma zip_upt_tl: "p \<in> set (zip [a..<b] (tl [a..<b])) \<Longrightarrow> snd p = Suc (fst p) \<and> Suc (fst p) < b"
  by (cases "a < b") (auto simp: set_zip tl_upt)

lemma fold_intra_ok:
  "graph_ok g \<Longrightarrow> \<forall>p\<in>set ps. snd p = Suc (fst p) \<and> Suc (fst p) < length (eg_vertices g) \<Longrightarrow>
   graph_ok (fold add_intra_edge ps g) \<and>
   map ev_content (eg_vertices (fold add_intra_edge ps g)) = map ev_content (eg_vertices g)"
proof (induction ps arbitrary: g)
  case (Cons p ps)
  obtain v where p: "p = (v, Suc v)" using Cons.prems(2) by (cases p) auto
  note same = add_intra_edge_same[of g v "Suc v"]
  have "graph_ok (add_intra_edge p g)" using Cons.prems add_intra_edge_ok[of g v] p by simp
  moreover have "length (eg_vertices (add_intra_edge p g)) = length (eg_vertices g)"
    using same_contents_length[OF same] p by simp
  ultimately show ?case using Cons same p by (simp add: same_contents_def)
qed simp

lemma add_sorted_reconciler_events_ok:
  assumes "add_sorted_reconciler_events g evs = Inr g'" "graph_ok g" "\<forall>e\<in>set evs. addable e"
  shows "graph_ok g' \<and> map ev_content (eg_vertices g') = map ev_content (eg_vertices g) @ evs"
proof -
  obtain g1 where g1: "res_fold add_reconciler_event g evs = Inr g1"
    and g': "g' = fold add_intra_edge (zip [length (eg_vertices g)..<length (eg_vertices g1)]
      (tl [length (eg_vertices g)..<length (eg_vertices g1)])) g1"
    using assms(1) by (auto simp: add_sorted_reconciler_events_def Let_def res_simps)
  have "graph_ok g1" using reconciler_add.fold_inv[OF g1 assms(2,3)] .
  then show ?thesis
    using fold_intra_ok[of g1] zip_upt_tl add_events_contents[OF g1] unfolding g' by simp
qed

lemma construction_exact_aux:
  assumes "add_sorted_controller_hears (EventGraph a b c) hs = Inr g1"
    and "add_sorted_reconciler_events g1 evs = Inr g2" "\<forall>e\<in>set evs. addable e"
  shows "graph_ok g2 \<and> map ev_content (eg_vertices g2) = map Hear hs @ evs"
proof -
  have "graph_ok g1"
    using hear_add.fold_inv[OF assms(1)[unfolded add_sorted_controller_hears_def] EventGraph_ok] by simp
  then show ?thesis
    using add_sorted_reconciler_events_ok[OF assms(2) _ assms(3)] add_hears_contents[OF assms(1)]
    by (simp add: EventGraph_def)
qed

end
