(* ===== verification/Graph_Diff.thy ===== *)
theory Graph_Diff
  imports Graph_Build
begin

text \<open>
  The annotation passes of the event graph, \<open>compute_event_diff\<close> and \<open>compute_event_cancel\<close>: they
  write only the annotation attributes of the events and leave the structure of the graph alone, and
  the signature counters they assign number the repetitions of a signature within a key.
\<close>

section \<open>Annotation\<close>

text \<open>An event without the attributes the passes assign.\<close>

fun core :: "event \<Rightarrow> event" where
  "core (Hear h) = Hear (h\<lparr> ch_slim_prev_obj_map := None, ch_slim_cur_obj_map := None,
     ch_prev_etype := [], ch_cancelled_by := [], ch_signature_counter := 0 \<rparr>)"
| "core (Write w) = Write (w\<lparr> cw_prev_obj_map := None, cw_slim_prev_obj_map := None,
     cw_slim_cur_obj_map := None, cw_prev_etype := [], cw_signature_counter := 0 \<rparr>)"
| "core (NonK8sWrite w) = NonK8sWrite (w\<lparr> cn_signature_counter := 0 \<rparr>)"
| "core e = e"

text \<open>What can be read off the core, for the predicates the indexes are built from.\<close>

lemma core_static [simp]:
  "hear_sat (\<lambda>_. b) (core e) = hear_sat (\<lambda>_. b) e" "write_sat (\<lambda>_. b) (core e) = write_sat (\<lambda>_. b) e"
  "nk_write_sat (\<lambda>_. b) (core e) = nk_write_sat (\<lambda>_. b) e"
  "read_sat P (core e) = read_sat P e" "begin_ev (core e) = begin_ev e" "end_ev (core e) = end_ev e"
  "hear_sat (\<lambda>h. ch_key h = k) (core e) = hear_sat (\<lambda>h. ch_key h = k) e"
  "write_sat (\<lambda>w. cw_key w = k) (core e) = write_sat (\<lambda>w. cw_key w = k) e"
  "hear_sat (\<lambda>h. ch_id h = i) (core e) = hear_sat (\<lambda>h. ch_id h = i) e"
  "start_timestamp (core e) = start_timestamp e"
  by (cases e; simp add: sat_defs start_timestamp_def)+

text \<open>The graph without annotations; \<open>g'\<close> is \<open>g\<close> with other annotations.\<close>

definition bare :: "event_graph \<Rightarrow> event_graph" where
  "bare g = g\<lparr> eg_vertices := map (\<lambda>v. v\<lparr> ev_content := core (ev_content v) \<rparr>) (eg_vertices g) \<rparr>"

definition graph_ann :: "event_graph \<Rightarrow> event_graph \<Rightarrow> bool" where
  "graph_ann g g' \<longleftrightarrow> bare g' = bare g"

lemma graph_ann_refl [simp]: "graph_ann g g"
  by (simp add: graph_ann_def)

lemma graph_ann_trans: "graph_ann g g' \<Longrightarrow> graph_ann g' g'' \<Longrightarrow> graph_ann g g''"
  by (simp add: graph_ann_def)

lemma graph_ann_field:
  assumes "graph_ann g g'" "\<And>h. f (bare h) = f h"
  shows "f g' = f g"
  using assms unfolding graph_ann_def by metis

lemma graph_ann_fields:
  assumes "graph_ann g g'"
  shows "eg_hears g' = eg_hears g" "eg_writes g' = eg_writes g" "eg_nk_writes g' = eg_nk_writes g"
    "eg_reads g' = eg_reads g" "eg_begins g' = eg_begins g" "eg_ends g' = eg_ends g"
    "eg_read_key g' = eg_read_key g" "eg_write_key g' = eg_write_key g" "eg_hear_key g' = eg_hear_key g"
    "eg_hear_id g' = eg_hear_id g" "eg_hear_write_edges g' = eg_hear_write_edges g"
    "eg_write_hear_edges g' = eg_write_hear_edges g"
    "length (eg_vertices g') = length (eg_vertices g)"
    "eg_learned_masked_paths g' = eg_learned_masked_paths g"
    "eg_configured_masked_keys g' = eg_configured_masked_keys g"
    "eg_configured_masked_paths g' = eg_configured_masked_paths g"
  by (rule graph_ann_field[OF assms]; simp add: bare_def)+

lemma graph_ann_vertex:
  assumes "graph_ann g g'" "v < length (eg_vertices g)"
  shows "core (content g' v) = core (content g v)" "ev_gid (vertex g' v) = ev_gid (vertex g v)"
    "ev_out_inter (vertex g' v) = ev_out_inter (vertex g v)"
    "ev_out_intra (vertex g' v) = ev_out_intra (vertex g v)"
proof -
  have eq: "(vertex g' v)\<lparr> ev_content := core (content g' v) \<rparr> = (vertex g v)\<lparr> ev_content := core (content g v) \<rparr>"
    using arg_cong[OF assms(1)[unfolded graph_ann_def], of "\<lambda>g. vertex g v"]
      assms(2) graph_ann_fields(13)[OF assms(1)] by (simp add: bare_def)
  show "core (content g' v) = core (content g v)" using arg_cong[OF eq, of ev_content] by simp
  show "ev_gid (vertex g' v) = ev_gid (vertex g v)" using arg_cong[OF eq, of ev_gid] by simp
  show "ev_out_inter (vertex g' v) = ev_out_inter (vertex g v)"
    using arg_cong[OF eq, of ev_out_inter] by simp
  show "ev_out_intra (vertex g' v) = ev_out_intra (vertex g v)"
    using arg_cong[OF eq, of ev_out_intra] by simp
qed

lemma graph_ann_verts:
  assumes "graph_ann g g'" "\<And>e. Q (core e) = Q e"
  shows "verts g' Q = verts g Q"
proof -
  have "Q (content g' v) = Q (content g v)" if "v < length (eg_vertices g)" for v
    using graph_ann_vertex(1)[OF assms(1) that] assms(2) by metis
  then show ?thesis using graph_ann_fields(13)[OF assms(1)] by (auto simp: verts_def intro!: filter_cong)
qed

lemma graph_ann_time:
  assumes "graph_ann g g'" "u < length (eg_vertices g)" "v < length (eg_vertices g)"
  shows "time_lt (content g' u) (content g' v) = time_lt (content g u) (content g v)"
  using graph_ann_vertex(1)[OF assms(1)] assms(2,3) core_static(10) unfolding time_lt_def by metis

lemma graph_ann_ok:
  assumes "graph_ann g g'" "graph_ok g"
  shows "graph_ok g'"
proof -
  note f = graph_ann_fields[OF assms(1)] and v = graph_ann_vertex[OF assms(1)]
  note vs = graph_ann_verts[OF assms(1)]
  have "gids_ok g'" "intra_ok g'" "edges_ok g'"
    using assms(2) f(13) v graph_ann_time[OF assms(1)]
    unfolding graph_ok_def gids_ok_def intra_ok_def edges_ok_def by auto
  moreover have "lists_ok g'" "keys_ok g'"
    using assms(2) unfolding graph_ok_def lists_ok_def keys_ok_def by (simp_all add: vs f)
  moreover have "ids_ok g'"
    using assms(2) f(10,13) v(1) core_static(9) unfolding graph_ok_def ids_ok_def by metis
  ultimately show ?thesis by (simp add: graph_ok_def)
qed

lemma set_content_ann:
  assumes "core e = core (content g v)"
  shows "graph_ann g (set_content v e g)"
  using assms by (simp add: graph_ann_def bare_def set_content_def map_list_update_same)

lemma set_content_other: "u \<noteq> v \<Longrightarrow> vertex (set_content v e g) u = vertex g u"
  by (simp add: set_content_def)

lemma set_content_same:
  "v < length (eg_vertices g) \<Longrightarrow> content (set_content v e g) v = e"
  by (simp add: set_content_def)

section \<open>Counting signatures\<close>

fun event_sig :: "event \<Rightarrow> string" where
  "event_sig (Hear h) = signature_of (ch_etype h) (ch_slim_prev_obj_map h) (ch_slim_cur_obj_map h)"
| "event_sig (Write w) = signature_of (cw_etype w) (cw_slim_prev_obj_map w) (cw_slim_cur_obj_map w)"
| "event_sig (NonK8sWrite w) = nk_signature w"
| "event_sig e = []"

fun event_counter :: "event \<Rightarrow> nat" where
  "event_counter (Hear h) = ch_signature_counter h"
| "event_counter (Write w) = cw_signature_counter w"
| "event_counter (NonK8sWrite w) = cn_signature_counter w"
| "event_counter e = 0"

text \<open>
  The specification: along a list of vertices the counter of a vertex is the number of vertices up
  to and including it that have its signature.
\<close>

definition counters_ok :: "event_graph \<Rightarrow> nat list \<Rightarrow> bool" where
  "counters_ok g vs \<longleftrightarrow> (\<forall>p < length vs. event_counter (content g (vs ! p)) =
     count_list (map (\<lambda>v. event_sig (content g v)) (take (Suc p) vs)) (event_sig (content g (vs ! p))))"

lemma counters_ok_cong:
  assumes "\<And>v. v \<in> set vs \<Longrightarrow> event_sig (content g' v) = event_sig (content g v) \<and>
    event_counter (content g' v) = event_counter (content g v)"
  shows "counters_ok g' vs = counters_ok g vs"
proof -
  have "map (\<lambda>v. event_sig (content g' v)) (take n vs) = map (\<lambda>v. event_sig (content g v)) (take n vs)" for n
    using assms by (auto dest: in_set_takeD)
  then show ?thesis unfolding counters_ok_def using assms by (metis nth_mem)
qed

lemma counters_ok_snoc:
  "counters_ok g (vs @ [v]) \<longleftrightarrow> counters_ok g vs \<and> event_counter (content g v) =
     Suc (count_list (map (\<lambda>v. event_sig (content g v)) vs) (event_sig (content g v)))"
  by (auto simp: counters_ok_def nth_append less_Suc_eq)

text \<open>
  The contract of the body of a counting loop over the vertices of one key: it replaces the
  annotations of one vertex, counts the new signature and stores the count in the vertex.
\<close>

locale counting_step =
  fixes graph :: "'s \<Rightarrow> event_graph"
    and counter :: "'s \<Rightarrow> (string, nat) dict"
    and step :: "'s \<Rightarrow> nat \<Rightarrow> 's res"
  assumes step_counts: "step st v = Inr st' \<Longrightarrow> \<exists>e. core e = core (content (graph st) v) \<and>
      graph st' = set_content v e (graph st) \<and>
      counter st' = dict_bump (event_sig e) (counter st) \<and>
      event_counter e = dict_count (counter st') (event_sig e)"
begin

lemma fold_counts:
  assumes "res_fold step st vs = Inr st'" "counter st = []" "distinct vs"
    "\<forall>v\<in>set vs. v < length (eg_vertices (graph st))"
  shows "graph_ann (graph st) (graph st') \<and>
    (\<forall>v. v \<notin> set vs \<longrightarrow> vertex (graph st') v = vertex (graph st) v) \<and>
    counter st' = fold dict_bump (map (\<lambda>v. event_sig (content (graph st') v)) vs) [] \<and>
    counters_ok (graph st') vs"
  using assms(1,3,4)
proof (induction vs arbitrary: st' rule: rev_induct)
  case Nil
  then show ?case using assms(2) by (simp add: counters_ok_def)
next
  case (snoc v vs)
  then obtain st1 where st1: "res_fold step st vs = Inr st1" and st': "step st1 v = Inr st'"
    by (auto simp: res_fold_append res_simps)
  have IH: "graph_ann (graph st) (graph st1)"
      "\<forall>u. u \<notin> set vs \<longrightarrow> vertex (graph st1) u = vertex (graph st) u"
      "counter st1 = fold dict_bump (map (\<lambda>v. event_sig (content (graph st1) v)) vs) []"
      "counters_ok (graph st1) vs"
    using snoc.IH[OF st1] snoc.prems by auto
  obtain e where e: "core e = core (content (graph st1) v)" "graph st' = set_content v e (graph st1)"
      "counter st' = dict_bump (event_sig e) (counter st1)"
      "event_counter e = dict_count (counter st') (event_sig e)"
    using step_counts[OF st'] by blast
  have v: "v < length (eg_vertices (graph st1))" "v \<notin> set vs"
    using snoc.prems graph_ann_fields(13)[OF IH(1)] by auto
  have new: "content (graph st') v = e" using set_content_same[OF v(1)] e(2) by simp
  have old: "vertex (graph st') u = vertex (graph st1) u" if "u \<noteq> v" for u
    using set_content_other[OF that] e(2) by simp
  have sigs: "map (\<lambda>v. event_sig (content (graph st') v)) vs = map (\<lambda>v. event_sig (content (graph st1) v)) vs"
    using old v(2) by (intro map_cong refl) metis
  have "graph_ann (graph st) (graph st')"
    using graph_ann_trans[OF IH(1)] set_content_ann[OF e(1)] e(2) by simp
  moreover have "\<forall>u. u \<notin> set (vs @ [v]) \<longrightarrow> vertex (graph st') u = vertex (graph st) u"
    using IH(2) old by simp
  moreover have "counter st' = fold dict_bump (map (\<lambda>v. event_sig (content (graph st') v)) (vs @ [v])) []"
    unfolding map_append fold_append o_apply sigs using e(3) IH(3) new by simp
  moreover have "counters_ok (graph st') (vs @ [v])"
  proof -
    have "counters_ok (graph st') vs"
      using IH(4) counters_ok_cong[of vs "graph st'" "graph st1"] old v(2) by metis
    moreover have "event_counter e = Suc (count_list (map (\<lambda>v. event_sig (content (graph st1) v)) vs) (event_sig e))"
      using e(3,4) IH(3) bump_tally.count_bumped_fold by simp
    ultimately show ?thesis unfolding counters_ok_snoc sigs using new by simp
  qed
  ultimately show ?case by blast
qed

end

lemma hear_diff_step_counts:
  assumes "hear_diff_step st v = Inr st'"
  shows "\<exists>e. core e = core (content (hl_graph st) v) \<and> hl_graph st' = set_content v e (hl_graph st) \<and>
    hl_counter st' = dict_bump (event_sig e) (hl_counter st) \<and>
    event_counter e = dict_count (hl_counter st') (event_sig e)"
proof -
  obtain h where h: "content (hl_graph st) v = Hear h"
    using assms by (auto simp: hear_diff_step_def Let_def res_simps as_hear_def split: event.splits)
  then obtain ks ps prev cur where f: "retrieve_masked (hl_graph st) (ch_key h) = Inr (ks, ps)"
    "as_dict (hl_prev_obj st) = Inr prev" "as_dict (ch_obj_map h) = Inr cur"
    using assms by (auto simp: hear_diff_step_def Let_def res_simps as_hear_def)
  define h1 where "h1 = h\<lparr> ch_slim_prev_obj_map := map_option fst (diff_event prev cur ks ps False True),
    ch_slim_cur_obj_map := map_option snd (diff_event prev cur ks ps False True),
    ch_prev_etype := hl_prev_etype st \<rparr>"
  define d where "d = h1\<lparr> ch_signature_counter :=
    dict_count (dict_bump (event_sig (Hear h1)) (hl_counter st)) (event_sig (Hear h1)) \<rparr>"
  have "hl_graph st' = set_content v (Hear d) (hl_graph st)"
    "hl_counter st' = dict_bump (event_sig (Hear h1)) (hl_counter st)"
    using assms h f by (auto simp: hear_diff_step_def Let_def as_hear_def get_event_signature_def d_def h1_def)
  then show ?thesis using h by (intro exI[of _ "Hear d"]) (simp add: d_def h1_def)
qed

interpretation hear_count: counting_step hl_graph hl_counter hear_diff_step
  by unfold_locales (rule hear_diff_step_counts)

lemma write_diff_step_counts:
  assumes "write_diff_step st v = Inr st'"
  shows "\<exists>e. core e = core (content (fst st) v) \<and> fst st' = set_content v e (fst st) \<and>
    snd st' = dict_bump (event_sig e) (snd st) \<and>
    event_counter e = dict_count (snd st') (event_sig e)"
proof -
  obtain w where w: "content (fst st) v = Write w"
    using assms by (auto simp: write_diff_step_def split_beta Let_def res_simps as_write_def
        split: event.splits)
  then obtain obj etype ks ps prev cur where f: "prev_read (fst st) w = Inr (obj, etype)"
    "retrieve_masked (fst st) (cw_key w) = Inr (ks, ps)"
    "as_dict obj = Inr prev" "as_dict (cw_obj_map w) = Inr cur"
    using assms by (auto simp: write_diff_step_def split_beta Let_def res_simps as_write_def)
  define w1 where "w1 = w\<lparr> cw_prev_obj_map := Some obj,
    cw_slim_prev_obj_map := map_option fst (diff_event prev cur ks ps True True),
    cw_slim_cur_obj_map := map_option snd (diff_event prev cur ks ps True True), cw_prev_etype := etype \<rparr>"
  define d where "d = w1\<lparr> cw_signature_counter :=
    dict_count (dict_bump (event_sig (Write w1)) (snd st)) (event_sig (Write w1)) \<rparr>"
  have "fst st' = set_content v (Write d) (fst st)" "snd st' = dict_bump (event_sig (Write w1)) (snd st)"
    using assms w f by (auto simp: write_diff_step_def split_beta Let_def as_write_def
        get_event_signature_def d_def w1_def)
  then show ?thesis using w by (intro exI[of _ "Write d"]) (simp add: d_def w1_def)
qed

interpretation write_count: counting_step fst snd write_diff_step
  by unfold_locales (rule write_diff_step_counts)

lemma nk_count_step_counts:
  assumes "nk_count_step st v = Inr st'"
  shows "\<exists>e. core e = core (content (fst st) v) \<and> fst st' = set_content v e (fst st) \<and>
    snd st' = dict_bump (event_sig e) (snd st) \<and>
    event_counter e = dict_count (snd st') (event_sig e)"
proof -
  obtain w where w: "content (fst st) v = NonK8sWrite w"
    using assms by (auto simp: nk_count_step_def split_beta res_simps as_nk_write_def split: event.splits)
  let ?d = "w\<lparr> cn_signature_counter := dict_count (snd st') (nk_signature w) \<rparr>"
  have "fst st' = set_content v (NonK8sWrite ?d) (fst st)" "snd st' = dict_bump (nk_signature w) (snd st)"
    using assms w by (auto simp: nk_count_step_def split_beta Let_def as_nk_write_def)
  then show ?thesis using w by (intro exI[of _ "NonK8sWrite ?d"]) (simp add: nk_signature_def)
qed

interpretation nk_count: counting_step fst snd nk_count_step
  by unfold_locales (rule nk_count_step_counts)

section \<open>All keys\<close>

text \<open>The contract of the pass over the vertices of one key, and what it gives for all keys.\<close>

locale counting_pass =
  fixes pass :: "event_graph \<Rightarrow> nat list \<Rightarrow> event_graph res"
  assumes pass_counts: "pass g vs = Inr g' \<Longrightarrow> distinct vs \<Longrightarrow>
    \<forall>v\<in>set vs. v < length (eg_vertices g) \<Longrightarrow>
    graph_ann g g' \<and> (\<forall>v. v \<notin> set vs \<longrightarrow> vertex g' v = vertex g v) \<and> counters_ok g' vs"
begin

lemma all_groups:
  assumes "res_fold (\<lambda>g (k, vs). pass g vs) g d = Inr g'" "distinct (concat (map snd d))"
    "\<forall>v\<in>set (concat (map snd d)). v < length (eg_vertices g)"
  shows "graph_ann g g' \<and> (\<forall>v. v \<notin> set (concat (map snd d)) \<longrightarrow> vertex g' v = vertex g v) \<and>
    (\<forall>kv\<in>set d. counters_ok g' (snd kv))"
  using assms
proof (induction d arbitrary: g)
  case Nil
  then show ?case by simp
next
  case (Cons kv d)
  obtain k vs where kv: "kv = (k, vs)" by fastforce
  from Cons.prems(1) kv obtain g1 where g1: "pass g vs = Inr g1"
    and rest: "res_fold (\<lambda>g (k, vs). pass g vs) g1 d = Inr g'" by (auto simp: res_simps)
  have p: "graph_ann g g1" "\<forall>v. v \<notin> set vs \<longrightarrow> vertex g1 v = vertex g v" "counters_ok g1 vs"
    using pass_counts[OF g1] Cons.prems(2,3) kv by auto
  have r: "graph_ann g1 g'" "\<forall>v. v \<notin> set (concat (map snd d)) \<longrightarrow> vertex g' v = vertex g1 v"
      "\<forall>kv\<in>set d. counters_ok g' (snd kv)"
    using Cons.IH[OF rest] Cons.prems(2,3) graph_ann_fields(13)[OF p(1)] kv by auto
  have "vertex g' v = vertex g1 v" if "v \<in> set vs" for v
    using r(2) Cons.prems(2) kv that by fastforce
  then have "counters_ok g' vs" using p(3) counters_ok_cong[of vs g' g1] by simp
  then show ?case using p r kv graph_ann_trans[OF p(1) r(1)] by auto
qed

end

interpretation hear_pass: counting_pass hear_diff_key
proof
  fix g vs g'
  assume g: "hear_diff_key g vs = Inr g'" "distinct vs" "\<forall>v\<in>set vs. v < length (eg_vertices g)"
  obtain st where "res_fold hear_diff_step \<lparr> hl_graph = g, hl_counter = [], hl_prev_obj = JObj [],
      hl_prev_etype = EVENT_NONE_TYPE \<rparr> vs = Inr st" "g' = hl_graph st"
    using g(1) by (auto simp: hear_diff_key_def res_simps)
  from hear_count.fold_counts[OF this(1) _ g(2)] this(2) g(3)
  show "graph_ann g g' \<and> (\<forall>v. v \<notin> set vs \<longrightarrow> vertex g' v = vertex g v) \<and> counters_ok g' vs" by simp
qed

interpretation write_pass: counting_pass write_diff_key
proof
  fix g vs g'
  assume g: "write_diff_key g vs = Inr g'" "distinct vs" "\<forall>v\<in>set vs. v < length (eg_vertices g)"
  obtain st where "res_fold write_diff_step (g, []) vs = Inr st" "g' = fst st"
    using g(1) by (auto simp: write_diff_key_def res_simps)
  from write_count.fold_counts[OF this(1) _ g(2)] this(2) g(3)
  show "graph_ann g g' \<and> (\<forall>v. v \<notin> set vs \<longrightarrow> vertex g' v = vertex g v) \<and> counters_ok g' vs" by simp
qed

text \<open>The groups of a key index are disjoint.\<close>

lemma distinct_groups:
  assumes "dict_ok d" "\<forall>kv\<in>set d. distinct (snd kv) \<and> (\<forall>v\<in>set (snd kv). key v = fst kv)"
  shows "distinct (concat (map snd d))"
  using assms
proof (induction d)
  case (Cons kv d)
  have "v \<notin> set (concat (map snd d))" if "v \<in> set (snd kv)" for v
  proof
    assume "v \<in> set (concat (map snd d))"
    then obtain kv' where "kv' \<in> set d" "v \<in> set (snd kv')" by auto
    then have "fst kv = fst kv'" using Cons.prems(2) that by (metis list.set_intros)
    then show False using Cons.prems(1) \<open>kv' \<in> set d\<close> by (auto simp: dict_ok_def)
  qed
  with Cons show ?case by (auto simp: dict_ok_def)
qed simp

lemma verts_props: "distinct (verts g Q)" "v \<in> set (verts g Q) \<longleftrightarrow> v < length (eg_vertices g) \<and> Q (content g v)"
  by (auto simp: verts_def)

lemma group_of: "dict_ok d \<Longrightarrow> (k, vs) \<in> set d \<Longrightarrow> vs = dict_group d k"
  by (simp add: dict_ok_map_of dict_group_def)

definition vertex_key :: "event_graph \<Rightarrow> nat \<Rightarrow> string" where
  "vertex_key g v = (case content g v of Hear h \<Rightarrow> ch_key h | Write w \<Rightarrow> cw_key w | _ \<Rightarrow> [])"

lemma key_groups:
  assumes "dict_ok d" "\<And>k. dict_group d k = verts g (Q k)"
    and "\<And>k v. Q k (content g v) \<Longrightarrow> vertex_key g v = k \<and> P (content g v)"
  shows "distinct (concat (map snd d))"
    "\<forall>v\<in>set (concat (map snd d)). v < length (eg_vertices g) \<and> P (content g v)"
proof -
  have vs: "vs = verts g (Q k)" if "(k, vs) \<in> set d" for k vs
    using group_of[OF assms(1) that] assms(2) by simp
  have group: "distinct (snd kv) \<and> (\<forall>v\<in>set (snd kv). vertex_key g v = fst kv \<and>
      v < length (eg_vertices g) \<and> P (content g v))" if "kv \<in> set d" for kv
    using vs[of "fst kv" "snd kv"] that assms(3) verts_props[where g = g and Q = "Q (fst kv)"] by auto
  show "distinct (concat (map snd d))"
    by (rule distinct_groups[where key = "vertex_key g", OF assms(1)]) (use group in blast)
  show "\<forall>v\<in>set (concat (map snd d)). v < length (eg_vertices g) \<and> P (content g v)"
    using group by fastforce
qed

lemma sat_key:
  "hear_sat (\<lambda>h. ch_key h = k) (content g v) \<Longrightarrow> vertex_key g v = k \<and> hear_sat (\<lambda>_. True) (content g v)"
  "write_sat (\<lambda>w. cw_key w = k) (content g v) \<Longrightarrow> vertex_key g v = k \<and> write_sat (\<lambda>_. True) (content g v)"
  by (auto simp: vertex_key_def sat_defs split: event.splits)

lemma hear_groups:
  assumes "graph_ok g"
  shows "distinct (concat (map snd (eg_hear_key g)))"
    "\<forall>v\<in>set (concat (map snd (eg_hear_key g))).
       v < length (eg_vertices g) \<and> hear_sat (\<lambda>_. True) (content g v)"
proof -
  have d: "dict_ok (eg_hear_key g)" "\<And>k. dict_group (eg_hear_key g) k = verts g (hear_sat (\<lambda>h. ch_key h = k))"
    using assms by (simp_all add: graph_ok_def keys_ok_def)
  show "distinct (concat (map snd (eg_hear_key g)))"
    "\<forall>v\<in>set (concat (map snd (eg_hear_key g))).
       v < length (eg_vertices g) \<and> hear_sat (\<lambda>_. True) (content g v)"
    using key_groups[OF d sat_key(1)] by blast+
qed

lemma write_groups:
  assumes "graph_ok g"
  shows "distinct (concat (map snd (eg_write_key g)))"
    "\<forall>v\<in>set (concat (map snd (eg_write_key g))).
       v < length (eg_vertices g) \<and> write_sat (\<lambda>_. True) (content g v)"
proof -
  have d: "dict_ok (eg_write_key g)" "\<And>k. dict_group (eg_write_key g) k = verts g (write_sat (\<lambda>w. cw_key w = k))"
    using assms by (simp_all add: graph_ok_def keys_ok_def)
  show "distinct (concat (map snd (eg_write_key g)))"
    "\<forall>v\<in>set (concat (map snd (eg_write_key g))).
       v < length (eg_vertices g) \<and> write_sat (\<lambda>_. True) (content g v)"
    using key_groups[OF d sat_key(2)] by blast+
qed

lemma kinds_disjoint:
  "hear_sat P e \<Longrightarrow> \<not> write_sat Q e" "hear_sat P e \<Longrightarrow> \<not> nk_write_sat R e"
  "write_sat Q e \<Longrightarrow> \<not> nk_write_sat R e"
  by (cases e; simp add: sat_defs)+

lemma graph_ann_kind:
  assumes "graph_ann g g'" "v < length (eg_vertices g)"
  shows "hear_sat (\<lambda>_. True) (content g' v) = hear_sat (\<lambda>_. True) (content g v)"
    "write_sat (\<lambda>_. True) (content g' v) = write_sat (\<lambda>_. True) (content g v)"
    "nk_write_sat (\<lambda>_. True) (content g' v) = nk_write_sat (\<lambda>_. True) (content g v)"
  using graph_ann_vertex(1)[OF assms] core_static(1-3) by metis+

lemma counters_ok_untouched:
  assumes "counters_ok g vs" "\<forall>v. v \<notin> A \<longrightarrow> vertex g' v = vertex g v" "set vs \<inter> A = {}"
  shows "counters_ok g' vs"
  using assms counters_ok_cong[of vs g' g] by (metis disjoint_iff)

definition all_counted :: "event_graph \<Rightarrow> event_graph \<Rightarrow> bool" where
  "all_counted g g' \<longleftrightarrow> (\<forall>kv\<in>set (eg_hear_key g). counters_ok g' (snd kv)) \<and>
     (\<forall>kv\<in>set (eg_write_key g). counters_ok g' (snd kv)) \<and> counters_ok g' (eg_nk_writes g)"

lemma compute_event_diff_counts:
  assumes "graph_ok g" "compute_event_diff g = Inr g'"
  shows "graph_ann g g' \<and> all_counted g g'"
proof -
  obtain g1 g2 c where
    g1: "res_fold (\<lambda>g (key, vertices). hear_diff_key g vertices) g (eg_hear_key g) = Inr g1"
    and g2: "res_fold (\<lambda>g (key, vertices). write_diff_key g vertices) g1 (eg_write_key g1) = Inr g2"
    and g3: "res_fold nk_count_step (g2, []) (eg_nk_writes g2) = Inr (g', c)"
    using assms(2) by (auto simp: compute_event_diff_def res_simps)
  let ?H = "concat (map snd (eg_hear_key g))" and ?W = "concat (map snd (eg_write_key g))"
  let ?N = "eg_nk_writes g"
  have h: "\<forall>v\<in>set ?H. v < length (eg_vertices g) \<and> hear_sat (\<lambda>_. True) (content g v)"
    and w: "\<forall>v\<in>set ?W. v < length (eg_vertices g) \<and> write_sat (\<lambda>_. True) (content g v)"
    using hear_groups[OF assms(1)] write_groups[OF assms(1)] by auto
  have n: "?N = verts g (nk_write_sat (\<lambda>_. True))"
    using assms(1) by (simp add: graph_ok_def lists_ok_def)
  then have nk: "\<forall>v\<in>set ?N. v < length (eg_vertices g) \<and> nk_write_sat (\<lambda>_. True) (content g v)"
    by (simp add: verts_props)
  have HW: "set ?H \<inter> set ?W = {}" and HN: "set ?H \<inter> set ?N = {}" and WN: "set ?W \<inter> set ?N = {}"
    using h w nk kinds_disjoint by (meson disjoint_iff)+
  have p1: "graph_ann g g1" "\<forall>kv\<in>set (eg_hear_key g). counters_ok g1 (snd kv)"
    using hear_pass.all_groups[OF g1 hear_groups(1)[OF assms(1)]] h by auto
  have "eg_write_key g1 = eg_write_key g" "length (eg_vertices g1) = length (eg_vertices g)"
    using graph_ann_fields[OF p1(1)] by auto
  then have p2: "graph_ann g1 g2" "\<forall>v. v \<notin> set ?W \<longrightarrow> vertex g2 v = vertex g1 v"
      "\<forall>kv\<in>set (eg_write_key g). counters_ok g2 (snd kv)"
    using write_pass.all_groups[OF g2] write_groups[OF assms(1)] by auto
  note a2 = graph_ann_trans[OF p1(1) p2(1)]
  have "distinct (eg_nk_writes g2)" "eg_nk_writes g2 = ?N"
    using graph_ann_fields(3)[OF a2] n verts_props(1) by auto
  then have p3: "graph_ann g2 g'" "\<forall>v. v \<notin> set ?N \<longrightarrow> vertex g' v = vertex g2 v" "counters_ok g' ?N"
    using nk_count.fold_counts[OF g3] nk graph_ann_fields(13)[OF a2] by auto
  have "\<forall>kv\<in>set (eg_hear_key g). counters_ok g' (snd kv)"
  proof
    fix kv assume kv: "kv \<in> set (eg_hear_key g)"
    then have sub: "set (snd kv) \<subseteq> set ?H" by auto
    have "counters_ok g2 (snd kv)"
      using p1(2) kv counters_ok_untouched[OF _ p2(2)] sub HW by blast
    then show "counters_ok g' (snd kv)" using counters_ok_untouched[OF _ p3(2)] sub HN by blast
  qed
  moreover have "\<forall>kv\<in>set (eg_write_key g). counters_ok g' (snd kv)"
  proof
    fix kv assume kv: "kv \<in> set (eg_write_key g)"
    then have sub: "set (snd kv) \<subseteq> set ?W" by auto
    show "counters_ok g' (snd kv)"
      using p2(3) kv counters_ok_untouched[OF _ p3(2)] sub WN by blast
  qed
  ultimately show ?thesis using p3(3) graph_ann_trans[OF a2 p3(1)] by (simp add: all_counted_def)
qed

section \<open>Cancellation only adds the cancelling ids\<close>

definition keeps :: "event_graph \<Rightarrow> event_graph \<Rightarrow> bool" where
  "keeps g g' \<longleftrightarrow> graph_ann g g' \<and> (\<forall>v. event_sig (content g' v) = event_sig (content g v) \<and>
     event_counter (content g' v) = event_counter (content g v))"

lemma keeps_trans: "keeps g g' \<Longrightarrow> keeps g' g'' \<Longrightarrow> keeps g g''"
  using graph_ann_trans by (auto simp: keeps_def)

lemma set_cancelled_keeps:
  assumes "content g v = Hear h"
  shows "keeps g (set_content v (Hear (h\<lparr> ch_cancelled_by := c \<rparr>)) g)"
proof -
  have "content (set_content v e g) u = (if u = v \<and> v < length (eg_vertices g) then e else content g u)"
    for e u by (auto simp: set_content_def nth_list_update list_update_beyond)
  then show ?thesis using assms set_content_ann[of _ g v] by (simp add: keeps_def)
qed

lemma cancel_key_keeps: "cancel_key b g vs = Inr g' \<Longrightarrow> keeps g g'"
proof (induction b g vs rule: cancel_key.induct)
  case (3 b g v u vs)
  obtain cur c where "content g v = Hear cur"
    and rest: "cancel_key False (set_content v (Hear (cur\<lparr> ch_cancelled_by := c \<rparr>)) g) (u # vs) = Inr g'"
    and f: "as_hear (content g v) = Inr cur" "res_fold (cancel_step g b cur) [] (u # vs) = Inr c"
    using "3.prems" by (auto simp: res_simps as_hear_def split: event.splits)
  then show ?case using "3.IH"[OF f rest] set_cancelled_keeps keeps_trans by blast
qed (simp_all add: keeps_def)

lemma keeps_refl: "keeps g g"
  by (simp add: keeps_def)

interpretation cancel: step_invariant "keeps g" "\<lambda>_. True" "\<lambda>g (key, vertices). cancel_key True g vertices" for g
  by unfold_locales (use cancel_key_keeps keeps_trans in auto)

lemma compute_event_cancel_keeps:
  assumes "compute_event_cancel g = Inr g'"
  shows "keeps g g'"
  using cancel.fold_inv[OF assms[unfolded compute_event_cancel_def] keeps_refl] by simp

lemma finalize_counts:
  assumes "graph_ok g" "finalize g = Inr g'"
  shows "graph_ann g g'" "all_counted g g'"
proof -
  obtain g1 where g1: "compute_event_diff g = Inr g1" and g': "compute_event_cancel g1 = Inr g'"
    using assms(2) by (auto simp: finalize_def res_simps)
  note d = compute_event_diff_counts[OF assms(1) g1] and k = compute_event_cancel_keeps[OF g']
  show "graph_ann g g'" using d k graph_ann_trans by (auto simp: keeps_def)
  have "counters_ok g' vs = counters_ok g1 vs" for vs
    using k by (intro counters_ok_cong) (simp add: keeps_def)
  then show "all_counted g g'" using d by (simp add: all_counted_def)
qed

section \<open>Counters identify repetitions\<close>

lemma counters_increase:
  assumes "counters_ok g vs" "p < q" "q < length vs"
    "event_sig (content g (vs ! p)) = event_sig (content g (vs ! q))"
  shows "event_counter (content g (vs ! p)) < event_counter (content g (vs ! q))"
proof -
  let ?s = "\<lambda>v. event_sig (content g v)"
  have "take q vs = take (Suc p) vs @ drop (Suc p) (take q vs)"
    using append_take_drop_id[of "Suc p" "take q vs"] assms(2) by (simp add: min_def)
  then have "take (Suc q) vs = take (Suc p) vs @ drop (Suc p) (take q vs) @ [vs ! q]"
    using take_Suc_conv_app_nth[OF assms(3)] by simp
  then have "count_list (map ?s (take (Suc q) vs)) (?s (vs ! q)) >
      count_list (map ?s (take (Suc p) vs)) (?s (vs ! q))" by simp
  then show ?thesis using assms unfolding counters_ok_def by simp
qed

end
