(* ===== verification/Analyze.thy ===== *)
theory Analyze
  imports Graph_Diff
begin

text \<open>
  Model of the causality analysis of \<^verbatim>\<open>sieve_analyzer/analyze.py\<close>: the passes that pair hears with
  writes and the construction of the event graph from a log. The files \<open>sieve-server.log\<close> and
  \<open>mask.json\<close> are arguments: the lines of the one, the value of the other.
\<close>

section \<open>Pairing hears and writes\<close>

text \<open>The attributes of a write vertex the base pass reads; both classes of writes have them.\<close>

definition write_attrs :: "event \<Rightarrow> (string option \<times> int \<times> int) res" where
  "write_attrs e = (case e of
       Write w \<Rightarrow> Inr (cw_reconcile_id w, cw_range_start_timestamp w, cw_start_timestamp w)
     | NonK8sWrite w \<Rightarrow> Inr (cn_reconcile_id w, cn_range_start_timestamp w, cn_start_timestamp w)
     | _ \<Rightarrow> Inl AttributeError)"

definition base_pair ::
  "event_graph \<Rightarrow> nat \<Rightarrow> (nat \<times> nat) list \<Rightarrow> nat \<Rightarrow> (nat \<times> nat) list res" where
  "base_pair g w vertex_pairs h =
     res_bind (write_attrs (content g w)) (\<lambda>(reconcile_id, range_start, start).
       if reconcile_id = None then Inr vertex_pairs
       else res_bind (as_hear (content g h)) (\<lambda>hear.
         let hear_within_reconcile_scope = range_start < ch_end_timestamp hear;
             write_after_hear = start > ch_start_timestamp hear
         in Inr (if hear_within_reconcile_scope \<and> write_after_hear
                 then vertex_pairs @ [(h, w)] else vertex_pairs)))"

definition base_pass ::
  "event_graph \<Rightarrow> nat list \<Rightarrow> nat list \<Rightarrow> nat list \<Rightarrow> (nat \<times> nat) list res" where
  "base_pass g hear_vertices write_vertices nk_write_vertices =
     res_fold (\<lambda>pairs w. res_fold (base_pair g w) pairs hear_vertices) []
       (write_vertices @ nk_write_vertices)"

definition hear_read_overlap :: "event_graph \<Rightarrow> nat \<times> nat \<Rightarrow> bool res" where
  "hear_read_overlap g pair = (case pair of (h, w) \<Rightarrow>
     case content g w of
       Write write \<Rightarrow> res_bind (as_hear (content g h)) (\<lambda>hear.
         let key_match = ch_key hear \<in> set (cw_read_keys write);
             type_match = ch_rtype hear \<in> set (cw_read_types write)
         in Inr (key_match \<or> type_match))
     | _ \<Rightarrow> Inr True)"

definition hear_read_overlap_filtering_pass ::
  "event_graph \<Rightarrow> (nat \<times> nat) list \<Rightarrow> (nat \<times> nat) list res" where
  "hear_read_overlap_filtering_pass g vertex_pairs = res_filter (hear_read_overlap g) vertex_pairs"

definition error_msg_filtering_pass :: "event_graph \<Rightarrow> (nat \<times> nat) list \<Rightarrow> (nat \<times> nat) list" where
  "error_msg_filtering_pass g vertex_pairs =
     filter (\<lambda>(h, w). case content g w of
         Write write \<Rightarrow> cw_error write \<in> set ALLOWED_ERROR_TYPE
       | _ \<Rightarrow> True) vertex_pairs"

definition generate_hear_write_pairs :: "event_graph \<Rightarrow> (nat \<times> nat) list res" where
  "generate_hear_write_pairs g =
     res_bind (base_pass g (eg_hears g) (eg_writes g) (eg_nk_writes g)) (\<lambda>vertex_pairs.
       if HEAR_READ_FILTER_FLAG then hear_read_overlap_filtering_pass g vertex_pairs
       else Inr vertex_pairs)"

text \<open>The inner loop stops at the first hear that matches the write.\<close>

fun first_matching_hear :: "event_graph \<Rightarrow> controller_write \<Rightarrow> nat list \<Rightarrow> nat option res" where
  "first_matching_hear g w [] = Inr None"
| "first_matching_hear g w (h # hs) =
     res_bind (as_hear (content g h)) (\<lambda>hear.
       if ch_obj_str hear = cw_obj_str w \<and> cw_start_timestamp w < ch_start_timestamp hear \<and>
          consistent_event_type (ch_etype hear) (cw_etype w)
       then Inr (Some h) else first_matching_hear g w hs)"

definition generate_write_hear_pairs :: "event_graph \<Rightarrow> (nat \<times> nat) list res" where
  "generate_write_hear_pairs g =
     res_fold (\<lambda>vertex_pairs w.
         res_bind (as_write (content g w)) (\<lambda>write.
           if map_of (eg_hear_key g) (cw_key write) \<noteq> None then
             res_bind (first_matching_hear g write (eg_hears g)) (\<lambda>m.
               Inr (case m of None \<Rightarrow> vertex_pairs | Some h \<Rightarrow> vertex_pairs @ [(w, h)]))
           else Inr vertex_pairs))
       [] (eg_writes g)"

section \<open>Building the graph\<close>

text \<open>
  The parts of the test context the analysis reads: \<open>loosen_reconciler_boundary\<close> of the
  controller's configuration, \<open>compress_trivial_reconcile_enabled\<close> and the two masks of the
  common one.
\<close>

definition build_controller_event_graph ::
  "bool \<Rightarrow> bool \<Rightarrow> mask_map \<Rightarrow> mask_map \<Rightarrow> mask_map \<Rightarrow> string list \<Rightarrow> event_graph res" where
  "build_controller_event_graph loosen compress field_key_mask field_path_mask
      learned_masked_paths lines =
     res_bind (parse_receiver_events lines) (\<lambda>controller_hear_list.
     res_bind (parse_reconciler_events loosen compress lines) (\<lambda>reconciler_event_list.
     res_bind (add_sorted_controller_hears
       (EventGraph learned_masked_paths field_key_mask field_path_mask) controller_hear_list) (\<lambda>g1.
     res_bind (add_sorted_reconciler_events g1 reconciler_event_list) (\<lambda>g2.
     res_bind (generate_hear_write_pairs g2) (\<lambda>hear_write_pairs.
     res_bind (res_fold connect_hear_to_write g2 hear_write_pairs) (\<lambda>g3.
     res_bind (finalize g3) (\<lambda>g4.
     res_bind (sanity_check g4) (\<lambda>_. Inr g4))))))))"

section \<open>What the pairs are\<close>

text \<open>
  The specification of a causality edge: the write happens in a reconcile whose scope (from the
  begin of the previous round) the hear overlaps, it starts after the hear, and, for a write to
  the API server, the reconciler had read the heard object's key or type from its cache.
\<close>

fun in_scope :: "event \<Rightarrow> event \<Rightarrow> bool" where
  "in_scope (Hear h) (Write w) \<longleftrightarrow> cw_reconcile_id w \<noteq> None \<and>
     cw_range_start_timestamp w < ch_end_timestamp h \<and> ch_start_timestamp h < cw_start_timestamp w"
| "in_scope (Hear h) (NonK8sWrite w) \<longleftrightarrow> cn_reconcile_id w \<noteq> None \<and>
     cn_range_start_timestamp w < ch_end_timestamp h \<and> ch_start_timestamp h < cn_start_timestamp w"
| "in_scope e f \<longleftrightarrow> False"

fun reads_overlap :: "event \<Rightarrow> event \<Rightarrow> bool" where
  "reads_overlap (Hear h) (Write w) \<longleftrightarrow>
     ch_key h \<in> set (cw_read_keys w) \<or> ch_rtype h \<in> set (cw_read_types w)"
| "reads_overlap e f \<longleftrightarrow> True"

definition may_cause :: "event \<Rightarrow> event \<Rightarrow> bool" where
  "may_cause e f \<longleftrightarrow> in_scope e f \<and> reads_overlap e f"

definition writer :: "event \<Rightarrow> bool" where
  "writer e = (case e of Write _ \<Rightarrow> True | NonK8sWrite _ \<Rightarrow> True | _ \<Rightarrow> False)"

lemma base_pair_eq:
  assumes "hear_sat (\<lambda>_. True) (content g h)" "writer (content g w)"
  shows "base_pair g w ps h =
    Inr (ps @ (if in_scope (content g h) (content g w) then [(h, w)] else []))"
  using assms
  by (cases "content g h"; cases "content g w")
     (auto simp: base_pair_def write_attrs_def as_hear_def writer_def sat_defs Let_def)

lemma base_row:
  assumes "\<forall>h\<in>set hs. hear_sat (\<lambda>_. True) (content g h)" "writer (content g w)"
  shows "res_fold (base_pair g w) ps hs =
    Inr (ps @ map (\<lambda>h. (h, w)) (filter (\<lambda>h. in_scope (content g h) (content g w)) hs))"
  using assms(1) by (induction hs arbitrary: ps) (simp_all add: base_pair_eq assms(2))

lemma base_pass_eq:
  assumes "\<forall>h\<in>set hs. hear_sat (\<lambda>_. True) (content g h)"
    "\<forall>w\<in>set (ws @ ns). writer (content g w)"
  shows "base_pass g hs ws ns = Inr (concat (map (\<lambda>w. map (\<lambda>h. (h, w))
    (filter (\<lambda>h. in_scope (content g h) (content g w)) hs)) (ws @ ns)))"
proof -
  have "res_fold (\<lambda>pairs w. res_fold (base_pair g w) pairs hs) ps us =
      Inr (ps @ concat (map (\<lambda>w. map (\<lambda>h. (h, w))
        (filter (\<lambda>h. in_scope (content g h) (content g w)) hs)) us))"
    if "\<forall>w\<in>set us. writer (content g w)" for us ps
    using that by (induction us arbitrary: ps) (simp_all add: base_row[OF assms(1)])
  from this[of "ws @ ns" "[]"] assms(2) show ?thesis by (simp add: base_pass_def)
qed

lemma hear_read_overlap_eq:
  "hear_sat (\<lambda>_. True) (content g h) \<Longrightarrow>
   hear_read_overlap g (h, w) = Inr (reads_overlap (content g h) (content g w))"
  by (cases "content g h"; cases "content g w")
     (simp_all add: hear_read_overlap_def as_hear_def sat_defs Let_def)

lemma pairs_exact:
  assumes "graph_ok g"
  shows "\<exists>pairs. generate_hear_write_pairs g = Inr pairs \<and>
    set pairs = {(h, w). h < length (eg_vertices g) \<and> w < length (eg_vertices g) \<and>
      may_cause (content g h) (content g w)}"
proof -
  have H: "eg_hears g = verts g (hear_sat (\<lambda>_. True))" and W: "eg_writes g = verts g (write_sat (\<lambda>_. True))"
    and N: "eg_nk_writes g = verts g (nk_write_sat (\<lambda>_. True))"
    using assms by (simp_all add: graph_ok_def lists_ok_def)
  have hears: "\<forall>h\<in>set (eg_hears g). hear_sat (\<lambda>_. True) (content g h)"
    by (simp add: H verts_props)
  have writers: "\<forall>w\<in>set (eg_writes g @ eg_nk_writes g). writer (content g w)"
    by (auto simp: W N verts_props writer_def sat_defs split: event.splits)
  define base where "base = concat (map (\<lambda>w. map (\<lambda>h. (h, w))
    (filter (\<lambda>h. in_scope (content g h) (content g w)) (eg_hears g))) (eg_writes g @ eg_nk_writes g))"
  have b: "base_pass g (eg_hears g) (eg_writes g) (eg_nk_writes g) = Inr base"
    unfolding base_def by (rule base_pass_eq[OF hears writers])
  have kinds: "hear_sat (\<lambda>_. True) e \<and> (write_sat (\<lambda>_. True) f \<or> nk_write_sat (\<lambda>_. True) f)"
    if "in_scope e f" for e f
    using that by (cases e; cases f) (simp_all add: sat_defs)
  have base: "set base = {(h, w). h < length (eg_vertices g) \<and> w < length (eg_vertices g) \<and>
      in_scope (content g h) (content g w)}"
    using kinds by (fastforce simp: base_def H W N verts_props)
  have "generate_hear_write_pairs g = Inr (filter (\<lambda>(h, w). reads_overlap (content g h) (content g w)) base)"
    unfolding generate_hear_write_pairs_def b HEAR_READ_FILTER_FLAG_def hear_read_overlap_filtering_pass_def
    using hear_read_overlap_eq[of g] base kinds by (auto intro!: res_filter_total)
  then show ?thesis using base by (auto simp: may_cause_def)
qed

section \<open>Connecting the pairs\<close>

lemma connect_pair:
  assumes "in_scope (content g h) (content g w)"
  shows "connect_hear_to_write g (h, w) = Inr ((add_inter_edge h w g)\<lparr>
    eg_hear_write_edges := eg_hear_write_edges g @
      [\<lparr> ee_source = h, ee_sink = w, ee_type = INTER_RECONCILER_EDGE \<rparr>] \<rparr>)"
  using assms
  by (cases "content g h"; cases "content g w")
     (simp_all add: connect_hear_to_write_def vertex_kinds start_timestamp_def)

lemma connect_pair_contents:
  assumes "connect_hear_to_write g p = Inr g'"
  shows "same_contents g g'"
proof -
  obtain h w where p: "p = (h, w)" by fastforce
  show ?thesis
    using connect_hear_to_write_edge(2)[OF assms[unfolded p]] add_inter_edge_same[of g h w]
    by (simp add: same_contents_def)
qed

lemma connect_all:
  assumes "\<forall>(h, w)\<in>set pairs. h < length (eg_vertices g) \<and> w < length (eg_vertices g) \<and>
    in_scope (content g h) (content g w)"
  shows "\<exists>g'. res_fold connect_hear_to_write g pairs = Inr g' \<and> same_contents g g' \<and>
    inter_rel g' = inter_rel g \<union> set pairs \<and>
    set (eg_hear_write_edges g') = set (eg_hear_write_edges g) \<union>
      (\<lambda>(h, w). \<lparr> ee_source = h, ee_sink = w, ee_type = INTER_RECONCILER_EDGE \<rparr>) ` set pairs \<and>
    eg_write_hear_edges g' = eg_write_hear_edges g"
  using assms
proof (induction pairs arbitrary: g)
  case Nil
  then show ?case by (simp add: same_contents_def)
next
  case (Cons p pairs)
  obtain h w where p: "p = (h, w)" by fastforce
  have scope: "in_scope (content g h) (content g w)" and h: "h < length (eg_vertices g)"
    using Cons.prems p by auto
  obtain g1 where g1: "connect_hear_to_write g p = Inr g1"
    and g1_eq: "g1 = (add_inter_edge h w g)\<lparr> eg_hear_write_edges := eg_hear_write_edges g @
      [\<lparr> ee_source = h, ee_sink = w, ee_type = INTER_RECONCILER_EDGE \<rparr>] \<rparr>"
    using connect_pair[OF scope] p by simp
  note same = connect_pair_contents[OF g1]
  have rel: "inter_rel g1 = insert (h, w) (inter_rel g)"
    using h by (auto simp: inter_rel_def g1_eq add_inter_edge_def nth_list_update split: if_splits)
  have "\<forall>(h, w)\<in>set pairs. h < length (eg_vertices g1) \<and> w < length (eg_vertices g1) \<and>
      in_scope (content g1 h) (content g1 w)"
    using Cons.prems same_contents_length[OF same] same_contents_nth[OF same] by auto
  from Cons.IH[OF this] obtain g' where g': "res_fold connect_hear_to_write g1 pairs = Inr g'"
    "same_contents g1 g'" "inter_rel g' = inter_rel g1 \<union> set pairs"
    "set (eg_hear_write_edges g') = set (eg_hear_write_edges g1) \<union>
      (\<lambda>(h, w). \<lparr> ee_source = h, ee_sink = w, ee_type = INTER_RECONCILER_EDGE \<rparr>) ` set pairs"
    "eg_write_hear_edges g' = eg_write_hear_edges g1" by blast
  have "same_contents g g'" using same g'(2) by (simp add: same_contents_def)
  moreover have "eg_write_hear_edges g1 = eg_write_hear_edges g" by (simp add: g1_eq add_inter_edge_def)
  ultimately show ?case using g1 g' rel p by (simp add: g1_eq)
qed

end
