(* ===== verification/Causality.thy ===== *)
theory Causality
  imports Analyze
begin

text \<open>
  The event graph that \<open>build_controller_event_graph\<close> returns: its edges are exactly the pairs of
  a hear and a write that \<open>may_cause\<close> relates, it is well-formed and acyclic, and the closing sanity
  check never fails on events the log readers return with distinct ids.
\<close>

section \<open>Before the pairs are connected\<close>

definition no_inter :: "event_graph \<Rightarrow> bool" where
  "no_inter g \<longleftrightarrow> (\<forall>v\<in>set (eg_vertices g). ev_out_inter v = []) \<and>
     eg_hear_write_edges g = [] \<and> eg_write_hear_edges g = []"

interpretation hear_no_inter: step_invariant no_inter "\<lambda>_. True" add_controller_hear
  by unfold_locales
     (auto simp: no_inter_def add_controller_hear_def new_vertex_def Let_def res_simps)

interpretation event_no_inter: step_invariant no_inter "\<lambda>_. True" add_reconciler_event
  by unfold_locales
     (auto simp: no_inter_def add_reconciler_event_def new_vertex_def Let_def split: event.splits)

lemma intra_no_inter: "no_inter g \<Longrightarrow> \<forall>p\<in>set ps. fst p < length (eg_vertices g) \<Longrightarrow>
  no_inter (fold add_intra_edge ps g)"
proof (induction ps arbitrary: g)
  case (Cons p ps)
  obtain u v where p: "p = (u, v)" by fastforce
  have u: "ev_out_inter (vertex g u) = []" using Cons.prems p by (auto simp: no_inter_def)
  have "no_inter (add_intra_edge p g)"
    using Cons.prems(1) u p set_update_subset_insert[of "eg_vertices g" u]
    by (fastforce simp: no_inter_def add_intra_edge_def Let_def)
  moreover have "length (eg_vertices (add_intra_edge p g)) = length (eg_vertices g)"
    by (simp add: p add_intra_edge_def Let_def)
  ultimately show ?case using Cons by simp
qed simp

lemma construction_no_inter:
  assumes "add_sorted_controller_hears (EventGraph a b c) hs = Inr g1"
    and "add_sorted_reconciler_events g1 evs = Inr g2"
  shows "no_inter g2"
proof -
  have "no_inter (EventGraph a b c)" by (simp add: no_inter_def EventGraph_def)
  then have g1: "no_inter g1"
    using hear_no_inter.fold_inv[OF assms(1)[unfolded add_sorted_controller_hears_def]] by simp
  obtain g where g: "res_fold add_reconciler_event g1 evs = Inr g"
    and g2: "g2 = fold add_intra_edge (zip [length (eg_vertices g1)..<length (eg_vertices g)]
      (tl [length (eg_vertices g1)..<length (eg_vertices g)])) g"
    using assms(2) by (auto simp: add_sorted_reconciler_events_def Let_def res_simps)
  have "no_inter g" using event_no_inter.fold_inv[OF g g1] by simp
  moreover have "fst p < length (eg_vertices g)"
    if "p \<in> set (zip [length (eg_vertices g1)..<length (eg_vertices g)]
      (tl [length (eg_vertices g1)..<length (eg_vertices g)]))" for p
    using zip_upt_tl[OF that] by linarith
  ultimately show ?thesis unfolding g2 by (intro intra_no_inter) auto
qed

lemma no_inter_rel: "no_inter g \<Longrightarrow> inter_rel g = {}"
  by (auto simp: no_inter_def inter_rel_def)

lemma event_ok_addable: "event_ok e \<Longrightarrow> addable e"
  by (cases e) (auto simp: addable_def dict_ok_def)

section \<open>The edges of the finished graph\<close>

lemma may_cause_core: "in_scope (core e) (core f) = in_scope e f" "may_cause (core e) (core f) = may_cause e f"
  by (cases e; cases f; simp add: may_cause_def)+

lemma graph_ann_inter_rel: "graph_ann g g' \<Longrightarrow> inter_rel g' = inter_rel g"
  using graph_ann_vertex(3)[of g g'] graph_ann_fields(13)[of g g'] by (auto simp: inter_rel_def)

text \<open>The steps of \<open>build_controller_event_graph\<close> up to the graph with its edges.\<close>

definition connected_graph :: "controller_hear list \<Rightarrow> event list \<Rightarrow> event_graph \<Rightarrow> bool" where
  "connected_graph hs evs g \<longleftrightarrow> graph_ok g \<and> map ev_content (eg_vertices g) = map Hear hs @ evs \<and>
     inter_rel g = {(h, w). h < length (eg_vertices g) \<and> w < length (eg_vertices g) \<and>
       may_cause (content g h) (content g w)} \<and>
     set (eg_hear_write_edges g) =
       (\<lambda>(h, w). \<lparr> ee_source = h, ee_sink = w, ee_type = INTER_RECONCILER_EDGE \<rparr>) ` inter_rel g \<and>
     eg_write_hear_edges g = []"

lemma connect_pairs_ok:
  assumes "add_sorted_controller_hears (EventGraph a b c) hs = Inr g1"
    and "add_sorted_reconciler_events g1 evs = Inr g2" "\<forall>e\<in>set evs. event_ok e"
  shows "\<exists>pairs g3. generate_hear_write_pairs g2 = Inr pairs \<and>
    res_fold connect_hear_to_write g2 pairs = Inr g3 \<and> connected_graph hs evs g3"
proof -
  have ok: "graph_ok g2" "map ev_content (eg_vertices g2) = map Hear hs @ evs"
    using construction_exact_aux[OF assms(1,2)] assms(3) event_ok_addable by auto
  obtain pairs where pairs: "generate_hear_write_pairs g2 = Inr pairs"
    and set_pairs: "set pairs = {(h, w). h < length (eg_vertices g2) \<and> w < length (eg_vertices g2) \<and>
      may_cause (content g2 h) (content g2 w)}"
    using pairs_exact[OF ok(1)] by blast
  have ps: "\<forall>(h, w)\<in>set pairs. h < length (eg_vertices g2) \<and> w < length (eg_vertices g2) \<and>
      in_scope (content g2 h) (content g2 w)"
    using set_pairs by (auto simp: may_cause_def)
  note none = construction_no_inter[OF assms(1,2)]
  obtain g3 where g3: "res_fold connect_hear_to_write g2 pairs = Inr g3" "same_contents g2 g3"
    "inter_rel g3 = set pairs" "eg_write_hear_edges g3 = []"
    "set (eg_hear_write_edges g3) =
      (\<lambda>(h, w). \<lparr> ee_source = h, ee_sink = w, ee_type = INTER_RECONCILER_EDGE \<rparr>) ` set pairs"
    using connect_all[OF ps] no_inter_rel[OF none] none by (auto simp: no_inter_def)
  have len: "length (eg_vertices g3) = length (eg_vertices g2)" using same_contents_length[OF g3(2)] .
  have "\<forall>x\<in>set pairs. pair_in (length (eg_vertices g2)) x" using ps by (auto simp: pair_in_def)
  then have "graph_ok g3" using hear_write.fold_inv[OF g3(1), of "length (eg_vertices g2)"] ok(1) by simp
  moreover have "set pairs = {(h, w). h < length (eg_vertices g3) \<and> w < length (eg_vertices g3) \<and>
      may_cause (content g3 h) (content g3 w)}"
    using set_pairs same_contents_nth[OF g3(2)] len by auto
  ultimately have "connected_graph hs evs g3"
    using g3 ok(2) by (simp add: connected_graph_def same_contents_def)
  with pairs g3(1) show ?thesis by blast
qed

section \<open>The sanity check\<close>

lemma check_sorted_ok:
  assumes "\<forall>v\<in>set vs. start_timestamp (content g v) = Inr (t v)" "sorted_wrt (<) (map t vs)"
    "\<forall>v\<in>set vs. case before of None \<Rightarrow> True | Some t0 \<Rightarrow> t0 < t v"
    "\<forall>v\<in>set vs. check (content g v) (vertex g v) = Inr ()"
  shows "check_sorted g before vs check = Inr ()"
  using assms by (induction vs arbitrary: before) auto

lemma sorted_verts:
  assumes "\<And>u v. u < v \<Longrightarrow> v < length (eg_vertices g) \<Longrightarrow> Q (content g u) \<Longrightarrow> Q (content g v) \<Longrightarrow> t u < t v"
  shows "sorted_wrt (<) (map t (verts g Q))"
proof -
  have "sorted_wrt (\<lambda>u v. t u < t v) (verts g Q)"
    unfolding verts_def sorted_wrt_iff_nth_less
  proof (intro allI impI)
    fix i j
    let ?l = "filter (\<lambda>i. Q (content g i)) [0..<length (eg_vertices g)]"
    assume ij: "i < j" "j < length ?l"
    have "sorted_wrt (<) ?l" by (intro sorted_wrt_filter) simp
    then have "?l ! i < ?l ! j" using ij by (simp add: sorted_wrt_nth_less)
    moreover have "?l ! i \<in> set ?l" "?l ! j \<in> set ?l" using ij by (meson nth_mem order_less_trans)+
    ultimately show "t (?l ! i) < t (?l ! j)" using assms by auto
  qed
  then show ?thesis by (simp add: sorted_wrt_map)
qed

text \<open>The facts about hears and writes that the check asserts, on the core of the event.\<close>

definition hear_fine :: "controller_hear \<Rightarrow> bool" where
  "hear_fine h \<longleftrightarrow> 0 \<le> ch_start_timestamp h \<and> ch_start_timestamp h < ch_end_timestamp h"

lemma check_edges_ok:
  assumes "graph_ok g" "v < length (eg_vertices g)"
  shows "check_out_edges (vertex g v) = Inr ()"
  using assms unfolding check_out_edges_def graph_ok_def gids_ok_def edges_ok_def
  by (simp add: res_fold_assert)

lemma check_hear_ok:
  assumes "hear_sat hear_fine e" "check_out_edges v = Inr ()"
  shows "check_hear e v = Inr ()"
  using assms by (cases e) (auto simp: check_hear_def as_hear_def sat_defs hear_fine_def)

lemma check_write_ok:
  assumes "write_sat (\<lambda>_. True) e" "event_ok e" "check_out_edges v = Inr ()"
  shows "check_write e v = Inr ()"
  using assms by (cases e) (auto simp: check_write_def as_write_def sat_defs)

lemma check_edge_ok:
  assumes "in_scope (content g h) (content g w)" "\<not> nk_write_sat (\<lambda>_. True) (content g w)"
  shows "check_edge g True \<lparr> ee_source = h, ee_sink = w, ee_type = t \<rparr> = Inr ()"
  using assms by (cases "content g h"; cases "content g w")
    (simp_all add: check_edge_def vertex_kinds start_timestamp_def sat_defs)

lemma core_fine [simp]:
  "hear_sat hear_fine (core e) = hear_sat hear_fine e" "event_ok (core e) = event_ok e"
  "event_time (core e) = event_time e"
  by (cases e; simp add: sat_defs hear_fine_def)+

text \<open>The order of the log survives in the graph.\<close>

definition log_order :: "controller_hear list \<Rightarrow> event list \<Rightarrow> bool" where
  "log_order hs evs \<longleftrightarrow> (\<forall>h\<in>set hs. hear_fine h) \<and> sorted_wrt (<) (map ch_start_timestamp hs) \<and>
     (\<forall>e\<in>set evs. event_ok e) \<and> sorted_wrt (<) (map event_time evs)"

lemma time_of_hear: "hear_sat P e \<Longrightarrow> start_timestamp e = Inr (event_time e)"
  "write_sat Q e \<Longrightarrow> start_timestamp e = Inr (event_time e)"
  by (cases e; simp add: sat_defs start_timestamp_def)+

lemma contents_order:
  assumes "map (\<lambda>v. core (ev_content v)) (eg_vertices g) = map core (map Hear hs @ evs)" "log_order hs evs"
  shows "u < v \<Longrightarrow> v < length (eg_vertices g) \<Longrightarrow>
      hear_sat (\<lambda>_. True) (content g u) \<Longrightarrow> hear_sat (\<lambda>_. True) (content g v) \<Longrightarrow>
      event_time (content g u) < event_time (content g v)"
    and "u < v \<Longrightarrow> v < length (eg_vertices g) \<Longrightarrow>
      write_sat (\<lambda>_. True) (content g u) \<Longrightarrow> write_sat (\<lambda>_. True) (content g v) \<Longrightarrow>
      event_time (content g u) < event_time (content g v)"
    and "v < length (eg_vertices g) \<Longrightarrow> hear_sat (\<lambda>_. True) (content g v) \<Longrightarrow> hear_sat hear_fine (content g v)"
    and "v < length (eg_vertices g) \<Longrightarrow> \<not> hear_sat (\<lambda>_. True) (content g v) \<Longrightarrow> event_ok (content g v)"
proof -
  let ?n = "length hs" and ?N = "length (eg_vertices g)"
  have N: "?N = ?n + length evs" using arg_cong[OF assms(1), of length] by simp
  have at: "core (content g v) = core (if v < ?n then Hear (hs ! v) else evs ! (v - ?n))" if "v < ?N" for v
    using arg_cong[OF assms(1), of "\<lambda>l. l ! v"] that N by (simp add: nth_append split: if_splits)
  have kind: "hear_sat (\<lambda>_. True) (content g v) \<longleftrightarrow> v < ?n" if "v < ?N" for v
  proof -
    have "\<not> hear_sat (\<lambda>_. True) (evs ! (v - ?n))" if "\<not> v < ?n"
    proof -
      have "evs ! (v - ?n) \<in> set evs" using \<open>v < ?N\<close> that N by (intro nth_mem) arith
      then have "event_ok (evs ! (v - ?n))" using assms(2) by (simp add: log_order_def)
      then show ?thesis by (cases "evs ! (v - ?n)") (simp_all add: sat_defs)
    qed
    moreover have "hear_sat (\<lambda>_. True) (content g v) =
        hear_sat (\<lambda>_. True) (if v < ?n then Hear (hs ! v) else evs ! (v - ?n))"
      using arg_cong[OF at[OF that], of "hear_sat (\<lambda>_. True)"] by simp
    ultimately show ?thesis by (simp add: hear_sat_Hear split: if_splits)
  qed
  have time: "event_time (content g v) = event_time (if v < ?n then Hear (hs ! v) else evs ! (v - ?n))"
    if "v < ?N" for v using arg_cong[OF at[OF that], of event_time] by simp
  show "event_time (content g u) < event_time (content g v)" if "u < v" "v < ?N"
      "hear_sat (\<lambda>_. True) (content g u)" "hear_sat (\<lambda>_. True) (content g v)"
    using that kind[of u] kind[of v] time[of u] time[of v] assms(2)
    by (simp add: log_order_def sorted_wrt_iff_nth_less)
  show "event_time (content g u) < event_time (content g v)" if "u < v" "v < ?N"
      "write_sat (\<lambda>_. True) (content g u)" "write_sat (\<lambda>_. True) (content g v)"
  proof -
    have "\<not> u < ?n" "\<not> v < ?n" using that kind[of u] kind[of v] kinds_disjoint(1) by fastforce+
    then show ?thesis
      using that time[of u] time[of v] assms(2) N by (simp add: log_order_def sorted_wrt_iff_nth_less)
  qed
  show "hear_sat hear_fine (content g v)" if "v < ?N" "hear_sat (\<lambda>_. True) (content g v)"
    using that kind[of v] arg_cong[OF at[OF that(1)], of "hear_sat hear_fine"] assms(2)
    by (simp add: log_order_def hear_sat_Hear hear_fine_def)
  show "event_ok (content g v)" if "v < ?N" "\<not> hear_sat (\<lambda>_. True) (content g v)"
  proof -
    have "evs ! (v - ?n) \<in> set evs" using that kind N by (intro nth_mem) auto
    then show ?thesis using that kind[of v] arg_cong[OF at[OF that(1)], of event_ok] assms(2)
      by (simp add: log_order_def)
  qed
qed

lemma sanity_ok:
  assumes "connected_graph hs evs g" "log_order hs evs" "graph_ann g g'"
  shows "sanity_check g' = Inr ()"
proof -
  note ann = graph_ann_ok[OF assms(3)]
  have c: "graph_ok g" "map ev_content (eg_vertices g) = map Hear hs @ evs"
    "inter_rel g = {(h, w). h < length (eg_vertices g) \<and> w < length (eg_vertices g) \<and>
       may_cause (content g h) (content g w)}"
    "set (eg_hear_write_edges g) =
       (\<lambda>(h, w). \<lparr> ee_source = h, ee_sink = w, ee_type = INTER_RECONCILER_EDGE \<rparr>) ` inter_rel g"
    "eg_write_hear_edges g = []"
    using assms(1) unfolding connected_graph_def by blast+
  note f = graph_ann_fields[OF assms(3)]
  have ok: "graph_ok g'" using ann c(1) .
  then have lists: "eg_hears g' = verts g' (hear_sat (\<lambda>_. True))" "eg_writes g' = verts g' (write_sat (\<lambda>_. True))"
    by (simp_all add: graph_ok_def lists_ok_def)
  have contents: "map (\<lambda>v. core (ev_content v)) (eg_vertices g') = map core (map Hear hs @ evs)"
  proof -
    have "map core (map ev_content (eg_vertices g')) = map core (map ev_content (eg_vertices g))"
      using graph_ann_vertex(1)[OF assms(3)] f(13) by (auto intro: nth_equalityI)
    then show ?thesis using c(2) by (simp add: comp_def)
  qed
  note order = contents_order[OF contents assms(2)]
  have hears: "check_sorted g' None (eg_hears g') check_hear = Inr ()"
    unfolding lists
    by (rule check_sorted_ok[where t = "\<lambda>v. event_time (content g' v)"])
       (auto simp: verts_props time_of_hear order check_hear_ok check_edges_ok[OF ok] intro: sorted_verts)
  have not_hear: "\<not> hear_sat (\<lambda>_. True) e" if "write_sat (\<lambda>_. True) e" for e
    using kinds_disjoint(1) that by blast
  have writes: "check_sorted g' None (eg_writes g') check_write = Inr ()"
    unfolding lists
    by (rule check_sorted_ok[where t = "\<lambda>v. event_time (content g' v)"])
       (auto simp: verts_props time_of_hear order not_hear check_write_ok check_edges_ok[OF ok] intro: sorted_verts)
  have edge: "check_edge g' True e = Inr ()" if e: "e \<in> set (eg_hear_write_edges g')" for e
  proof -
    have "e \<in> set (eg_hear_write_edges g)" using e f by simp
    then obtain h w where hw: "e = \<lparr> ee_source = h, ee_sink = w, ee_type = INTER_RECONCILER_EDGE \<rparr>"
      "h < length (eg_vertices g)" "w < length (eg_vertices g)" "may_cause (content g h) (content g w)"
      unfolding c(4) c(3) by auto
    have scope: "in_scope (content g' h) (content g' w)"
      using hw graph_ann_vertex(1)[OF assms(3)] may_cause_core(1) unfolding may_cause_def by metis
    have "event_ok (content g' w)"
      using order(4)[of w] scope hw(3) f(13) by (cases "content g' h"; cases "content g' w") (auto simp: sat_defs)
    then have "\<not> nk_write_sat (\<lambda>_. True) (content g' w)"
      using scope by (cases "content g' h"; cases "content g' w") (auto simp: sat_defs)
    then show ?thesis using check_edge_ok[OF scope] hw(1) by simp
  qed
  have "res_fold (\<lambda>_ e. check_edge g' True e) () es = Inr ()" if "set es \<subseteq> set (eg_hear_write_edges g')" for es
    using that edge by (induction es) auto
  then show ?thesis using hears writes f c(5) by (simp add: sanity_check_def)
qed

section \<open>The construction succeeds\<close>

lemma add_hears_total:
  "distinct (map ch_id hs) \<Longrightarrow> \<forall>h\<in>set hs. map_of (eg_hear_id g) (ch_id h) = None \<Longrightarrow>
   \<exists>g'. res_fold add_controller_hear g hs = Inr g'"
proof (induction hs arbitrary: g)
  case (Cons h hs)
  obtain g1 where g1: "add_controller_hear g h = Inr g1"
    "eg_hear_id g1 = AList.update (ch_id h) (length (eg_vertices g)) (eg_hear_id g)"
    using Cons.prems(2) by (auto simp: add_controller_hear_def Let_def py_assert_def)
  have "map_of (eg_hear_id g1) (ch_id h') = None" if "h' \<in> set hs" for h'
  proof -
    have "ch_id h \<noteq> ch_id h'" using Cons.prems(1) that image_eqI[of "ch_id h" ch_id h' "set hs"] by auto
    then show ?thesis using Cons.prems(2) that by (simp add: g1(2) update_conv')
  qed
  then show ?case using Cons g1(1) by simp
qed simp

lemma add_events_total:
  "\<forall>e\<in>set evs. event_ok e \<Longrightarrow> \<exists>g'. res_fold add_reconciler_event g evs = Inr g'"
proof (induction evs arbitrary: g)
  case (Cons e evs)
  then obtain g1 where "add_reconciler_event g e = Inr g1"
    by (cases e) (auto simp: add_reconciler_event_def Let_def)
  then show ?case using Cons by simp
qed simp

lemma build_unfold:
  assumes "parse_receiver_events lines = Inr hs" "parse_reconciler_events loosen compress lines = Inr evs"
    "add_sorted_controller_hears (EventGraph lm fk fp) hs = Inr g1" "add_sorted_reconciler_events g1 evs = Inr g2"
  shows "\<exists>g3. connected_graph hs evs g3 \<and> build_controller_event_graph loosen compress fk fp lm lines =
    res_bind (finalize g3) (\<lambda>g4. res_bind (sanity_check g4) (\<lambda>_. Inr g4))"
proof -
  obtain pairs g3 where "generate_hear_write_pairs g2 = Inr pairs"
    "res_fold connect_hear_to_write g2 pairs = Inr g3" "connected_graph hs evs g3"
    using connect_pairs_ok[OF assms(3,4) reconciler_events(2)[OF assms(2)]] by blast
  then show ?thesis using assms by (auto simp: build_controller_event_graph_def)
qed

lemma build_inv:
  assumes "build_controller_event_graph loosen compress fk fp lm lines = Inr g"
  shows "\<exists>hs evs g3. parse_receiver_events lines = Inr hs \<and>
    parse_reconciler_events loosen compress lines = Inr evs \<and> connected_graph hs evs g3 \<and> finalize g3 = Inr g"
proof -
  obtain hs evs g1 g2 where st: "parse_receiver_events lines = Inr hs"
    "parse_reconciler_events loosen compress lines = Inr evs"
    "add_sorted_controller_hears (EventGraph lm fk fp) hs = Inr g1" "add_sorted_reconciler_events g1 evs = Inr g2"
    using assms by (auto simp: build_controller_event_graph_def res_simps)
  obtain g3 where g3: "connected_graph hs evs g3" "build_controller_event_graph loosen compress fk fp lm lines =
    res_bind (finalize g3) (\<lambda>g4. res_bind (sanity_check g4) (\<lambda>_. Inr g4))" using build_unfold[OF st] by blast
  from g3(2) have "finalize g3 = Inr g" unfolding assms by (auto simp: res_simps dest: sym)
  then show ?thesis using st(1,2) g3(1) by blast
qed

lemma log_order_of_log:
  assumes "parse_receiver_events lines = Inr hs" "distinct (map ch_id hs)"
    "parse_reconciler_events loosen compress lines = Inr evs"
  shows "log_order hs evs"
proof -
  have "sorted_wrt (<) (map ch_start_timestamp hs)"
    using receiver_events(1)[OF assms(1,2)] hear_lines_sorted[of lines] by (simp add: sorted_wrt_map)
  moreover have "\<forall>h\<in>set hs. hear_fine h"
    using receiver_events(2)[OF assms(1,2)] unfolding hear_of_def hear_fine_def by fastforce
  ultimately show ?thesis using reconciler_events[OF assms(3)] by (simp add: log_order_def)
qed

lemma connected_finalize:
  assumes "connected_graph hs evs g" "finalize g = Inr g'"
  shows "graph_ok g'" "graph_ann g g'"
    "map core (map ev_content (eg_vertices g')) = map core (map Hear hs @ evs)"
    "inter_rel g' = {(h, w). h < length (eg_vertices g') \<and> w < length (eg_vertices g') \<and>
       may_cause (content g' h) (content g' w)}"
proof -
  have c: "graph_ok g" "map ev_content (eg_vertices g) = map Hear hs @ evs"
    "inter_rel g = {(h, w). h < length (eg_vertices g) \<and> w < length (eg_vertices g) \<and>
       may_cause (content g h) (content g w)}" using assms(1) unfolding connected_graph_def by blast+
  show ann: "graph_ann g g'" using finalize_counts(1)[OF c(1) assms(2)] .
  show "graph_ok g'" using graph_ann_ok[OF ann c(1)] .
  note len = graph_ann_fields(13)[OF ann]
  show "map core (map ev_content (eg_vertices g')) = map core (map Hear hs @ evs)"
    unfolding c(2)[symmetric] using graph_ann_vertex(1)[OF ann] len by (auto intro: nth_equalityI)
  have "may_cause (content g' h) (content g' w) = may_cause (content g h) (content g w)"
    if "h < length (eg_vertices g)" "w < length (eg_vertices g)" for h w
    using that graph_ann_vertex(1)[OF ann] may_cause_core(2) by metis
  then show "inter_rel g' = {(h, w). h < length (eg_vertices g') \<and> w < length (eg_vertices g') \<and>
       may_cause (content g' h) (content g' w)}"
    unfolding graph_ann_inter_rel[OF ann] c(3) len by auto
qed

lemma built_event_ok:
  assumes "build_controller_event_graph loosen compress fk fp lm lines = Inr g"
    "v < length (eg_vertices g)" "\<not> hear_sat (\<lambda>_. True) (content g v)"
  shows "event_ok (content g v)"
proof -
  obtain hs evs g3 where b: "parse_reconciler_events loosen compress lines = Inr evs"
    "connected_graph hs evs g3" "finalize g3 = Inr g" using build_inv[OF assms(1)] by blast
  have "core (content g v) \<in> set (map core (map Hear hs @ evs))"
    unfolding connected_finalize(3)[OF b(2,3), symmetric] using assms(2) by simp
  then obtain e where e: "core (content g v) = core e" "e \<in> Hear ` set hs \<union> set evs"
    unfolding set_map set_append image_iff by blast
  have "\<not> hear_sat (\<lambda>_. True) e"
    using arg_cong[OF e(1), of "hear_sat (\<lambda>_. True)"] assms(3) by simp
  then have "e \<in> set evs" using e(2) by (auto simp: hear_sat_Hear)
  then have "event_ok e" using reconciler_events(2)[OF b(1)] by blast
  then show ?thesis using arg_cong[OF e(1), of event_ok] by simp
qed

section \<open>Properties of the event graph\<close>

text \<open>The graph of the sample log has the hear, the begin of the reconcile, the read and the write.\<close>

lemma sample_graph:
  "\<exists>g. build_controller_event_graph False False [] [] [] sample_log = Inr g \<and>
     (length (eg_vertices g), eg_hears g, eg_writes g, may_cause (content g 0) (content g 3)) =
     (4, [0], [3], True)"
proof (rule map_sum_Inr)
  show "map_sum id (\<lambda>g. (length (eg_vertices g), eg_hears g, eg_writes g, may_cause (content g 0) (content g 3)))
      (build_controller_event_graph False False [] [] [] sample_log) = Inr (4, [0], [3], True)"
    by code_simp
qed

text \<open>
  C1: the edges between a hear and a write in the graph \<open>build_controller_event_graph\<close> returns are
  exactly the pairs the causality rule relates: the write belongs to a reconcile whose scope the
  hear overlaps, starts after the hear, and, for a write to the API server, the reconciler read the
  heard object's key or type before.
\<close>

theorem causality_exact:
  assumes "build_controller_event_graph loosen compress field_key_mask field_path_mask learned lines = Inr g"
  shows "(h, w) \<in> inter_rel g \<longleftrightarrow> h < length (eg_vertices g) \<and> w < length (eg_vertices g) \<and>
    may_cause (content g h) (content g w)"
proof -
  obtain hs evs g3 where "connected_graph hs evs g3" "finalize g3 = Inr g"
    using build_inv[OF assms] by blast
  from connected_finalize(4)[OF this] show ?thesis by auto
qed

theorem causality_exact_witness:
  "\<exists>g. build_controller_event_graph False False [] [] [] sample_log = Inr g \<and> (0, 3) \<in> inter_rel g"
proof -
  obtain g where g: "build_controller_event_graph False False [] [] [] sample_log = Inr g"
    "length (eg_vertices g) = 4" "may_cause (content g 0) (content g 3)"
    using sample_graph by (elim exE conjE) simp
  with causality_exact[OF g(1), of 0 3] show ?thesis by simp
qed

text \<open>
  C8: the graph that is returned is well formed: the vertices hold, up to the annotations, the
  hears followed by the events of the reconcilers in log order; every index lists exactly the
  vertices of its kind or key, the id map is exact, edges leave the vertex that holds them and go
  forward in time, and edges inside a reconciler join neighbours.
\<close>

theorem event_graph_well_formed:
  assumes "build_controller_event_graph loosen compress field_key_mask field_path_mask learned lines = Inr g"
  shows "graph_ok g \<and> (\<exists>hs evs. parse_receiver_events lines = Inr hs \<and>
    parse_reconciler_events loosen compress lines = Inr evs \<and>
    map core (map ev_content (eg_vertices g)) = map core (map Hear hs @ evs))"
  using build_inv[OF assms] connected_finalize(1,3) by blast

theorem event_graph_well_formed_witness:
  "\<exists>g. build_controller_event_graph False False [] [] [] sample_log = Inr g \<and>
     length (eg_vertices g) = 4 \<and> graph_ok g"
proof -
  obtain g where g: "build_controller_event_graph False False [] [] [] sample_log = Inr g"
    "length (eg_vertices g) = 4" using sample_graph by (elim exE conjE) simp
  with event_graph_well_formed[OF g(1)] show ?thesis by simp
qed

text \<open>
  C33: the breadth-first search \<open>event_vertices_reachable\<close> terminates without an error on every pair of
  vertices of the graph and decides reachability along the edges, and the graph has no cycle.
\<close>

theorem reachability_decided:
  assumes "build_controller_event_graph loosen compress field_key_mask field_path_mask learned lines = Inr g"
    and "source < length (eg_vertices g)"
  shows "event_vertices_reachable g source sink = Inr ((source, sink) \<in> (inter_rel g)\<^sup>*) \<and>
    (source, source) \<notin> (inter_rel g)\<^sup>+"
proof -
  have "edges_ok g" using build_inv[OF assms(1)] connected_finalize(1) unfolding graph_ok_def by blast
  then show ?thesis using reachable_iff inter_rel_acyclic assms(2) by blast
qed

theorem reachability_decided_witness:
  "\<exists>g. build_controller_event_graph False False [] [] [] sample_log = Inr g \<and>
     event_vertices_reachable g 0 3 = Inr ((0, 3) \<in> (inter_rel g)\<^sup>*)"
proof -
  obtain g where g: "build_controller_event_graph False False [] [] [] sample_log = Inr g"
    "length (eg_vertices g) = 4" using sample_graph by (elim exE conjE) simp
  with reachability_decided[OF g(1), of 0 3] show ?thesis by simp
qed

lemma built_counters:
  assumes "build_controller_event_graph loosen compress field_key_mask field_path_mask learned lines = Inr g"
  shows "counters_ok g (verts g (hear_sat (\<lambda>h. ch_key h = k))) \<and>
    counters_ok g (verts g (write_sat (\<lambda>w. cw_key w = k))) \<and>
    counters_ok g (verts g (nk_write_sat (\<lambda>_. True)))"
proof -
  obtain hs evs g3 where g3: "connected_graph hs evs g3" "finalize g3 = Inr g"
    using build_inv[OF assms] by blast
  have ok: "graph_ok g3" using g3(1) by (simp add: connected_graph_def)
  note n = finalize_counts[OF ok g3(2)]
  have group: "counters_ok g (dict_group d k)" if "\<forall>kv\<in>set d. counters_ok g (snd kv)" for d
  proof (cases "map_of d k")
    case (Some vs)
    then show ?thesis using that map_of_SomeD[OF Some] by (auto simp: dict_group_def)
  qed (simp add: dict_group_def counters_ok_def)
  have "dict_group (eg_hear_key g3) k = verts g (hear_sat (\<lambda>h. ch_key h = k))"
    "dict_group (eg_write_key g3) k = verts g (write_sat (\<lambda>w. cw_key w = k))"
    "eg_nk_writes g3 = verts g (nk_write_sat (\<lambda>_. True))"
    using ok unfolding graph_ok_def keys_ok_def lists_ok_def by (simp_all add: graph_ann_verts[OF n(1)])
  then show ?thesis using n(2) group unfolding all_counted_def by metis
qed

text \<open>
  C34: the signature counter of a hear, of a write and of a non-k8s write in the returned graph is
  its position among the events of the same key (of the same class for non-k8s writes) that have
  its signature, so that key, signature and counter name one event.
\<close>

theorem signature_counters_exact:
  assumes "build_controller_event_graph loosen compress field_key_mask field_path_mask learned lines = Inr g"
  shows "counters_ok g (verts g (hear_sat (\<lambda>h. ch_key h = k))) \<and>
    counters_ok g (verts g (write_sat (\<lambda>w. cw_key w = k))) \<and>
    counters_ok g (verts g (nk_write_sat (\<lambda>_. True)))"
  by (rule built_counters[OF assms])

theorem signature_counters_exact_witness:
  "\<exists>g. build_controller_event_graph False False [] [] [] sample_log = Inr g \<and> eg_writes g = [3] \<and>
     counters_ok g (verts g (write_sat (\<lambda>w. cw_key w = ''pod/default/a'')))"
proof -
  obtain g where g: "build_controller_event_graph False False [] [] [] sample_log = Inr g"
    "eg_writes g = [3]" using sample_graph by (elim exE conjE) simp
  with signature_counters_exact[OF g(1)] show ?thesis by blast
qed

end
