(* ===== verification/Intra_Chain.thy ===== *)
theory Intra_Chain
  imports Causality
begin

text \<open>
  The edges inside the reconcilers form one chain: in the graph of a log every event of a
  reconciler has exactly one edge, to the event that follows it in the log, and the last has none.
\<close>

definition intra_edge :: "nat \<Rightarrow> event_edge" where
  "intra_edge u = \<lparr> ee_source = u, ee_sink = Suc u, ee_type = INTRA_RECONCILER_EDGE \<rparr>"

definition intra_chain :: "nat \<Rightarrow> event_graph \<Rightarrow> bool" where
  "intra_chain a g \<longleftrightarrow> (\<forall>u < length (eg_vertices g). a \<le> u \<longrightarrow>
     ev_out_intra (vertex g u) = (if Suc u < length (eg_vertices g) then [intra_edge u] else []))"

definition no_intra :: "nat \<Rightarrow> event_graph \<Rightarrow> bool" where
  "no_intra a g \<longleftrightarrow> (\<forall>u < length (eg_vertices g). a \<le> u \<longrightarrow> ev_out_intra (vertex g u) = [])"

interpretation event_no_intra: step_invariant "no_intra a" "\<lambda>_. True" add_reconciler_event for a
  by unfold_locales
     (auto simp: no_intra_def add_reconciler_event_def new_vertex_def Let_def nth_append less_Suc_eq
       split: event.splits)

lemma zip_upt_tl_eq: "zip [a..<b] (tl [a..<b]) = map (\<lambda>u. (u, Suc u)) [a..<b - 1]"
proof (cases "a < b")
  case True
  then show ?thesis by (intro nth_equalityI) (auto simp: tl_upt)
qed simp

lemma fold_chain:
  "a \<le> b \<Longrightarrow> b < length (eg_vertices g) \<Longrightarrow>
   length (eg_vertices (fold add_intra_edge (map (\<lambda>u. (u, Suc u)) [a..<b]) g)) = length (eg_vertices g) \<and>
   (\<forall>u. ev_out_intra (vertex (fold add_intra_edge (map (\<lambda>u. (u, Suc u)) [a..<b]) g) u) =
     ev_out_intra (vertex g u) @ (if a \<le> u \<and> u < b then [intra_edge u] else []))"
proof (induction b)
  case (Suc b)
  show ?case
  proof (cases "a = Suc b")
    case False
    then have ab: "a \<le> b" "b < length (eg_vertices g)" using Suc.prems by simp_all
    let ?g = "fold add_intra_edge (map (\<lambda>u. (u, Suc u)) [a..<b]) g"
    note IH = Suc.IH[OF ab]
    have "fold add_intra_edge (map (\<lambda>u. (u, Suc u)) [a..<Suc b]) g = add_intra_edge (b, Suc b) ?g"
      using ab(1) by simp
    then show ?thesis using IH ab
      by (auto simp: add_intra_edge_def Let_def nth_list_update intra_edge_def)
  qed simp
qed simp

lemma add_events_chain:
  assumes "add_sorted_reconciler_events g evs = Inr g'"
  shows "intra_chain (length (eg_vertices g)) g'"
proof -
  let ?a = "length (eg_vertices g)"
  obtain g1 where g1: "res_fold add_reconciler_event g evs = Inr g1"
    and g': "g' = fold add_intra_edge (zip [?a..<length (eg_vertices g1)] (tl [?a..<length (eg_vertices g1)])) g1"
    using assms by (auto simp: add_sorted_reconciler_events_def Let_def res_simps)
  have "no_intra ?a g" by (simp add: no_intra_def)
  then have none: "no_intra ?a g1" using event_no_intra.fold_inv[OF g1] by simp
  show ?thesis
  proof (cases "?a < length (eg_vertices g1)")
    case True
    then have "?a \<le> length (eg_vertices g1) - 1" "length (eg_vertices g1) - 1 < length (eg_vertices g1)" by linarith+
    from fold_chain[OF this] show ?thesis
      using none unfolding g' zip_upt_tl_eq intra_chain_def no_intra_def by (auto simp: less_diff_conv)
  next
    case False
    then show ?thesis using none unfolding g' intra_chain_def no_intra_def by auto
  qed
qed

lemma add_inter_edge_intra: "ev_out_intra (vertex (add_inter_edge h w g) u) = ev_out_intra (vertex g u)"
  by (cases "h < length (eg_vertices g)"; cases "u = h") (simp_all add: add_inter_edge_def list_update_beyond)

interpretation connect_chain: step_invariant "intra_chain a" "\<lambda>_. True" connect_hear_to_write for a
proof
  fix s x s'
  assume inv: "intra_chain a s" and step: "connect_hear_to_write s x = Inr s'"
  obtain h w where x: "x = (h, w)" by fastforce
  have "s' = (add_inter_edge h w s)\<lparr> eg_hear_write_edges := eg_hear_write_edges s @
       [\<lparr> ee_source = h, ee_sink = w, ee_type = INTER_RECONCILER_EDGE \<rparr>] \<rparr>"
    using connect_hear_to_write_edge(2)[OF step[unfolded x]] .
  then show "intra_chain a s'" using inv
    by (simp add: intra_chain_def add_inter_edge_intra)
qed

lemma built_chain:
  assumes "build_controller_event_graph loosen compress fk fp lm lines = Inr g"
  shows "\<exists>a. intra_chain a g \<and> (\<forall>v < length (eg_vertices g). \<not> hear_sat (\<lambda>_. True) (content g v) \<longrightarrow> a \<le> v)"
proof -
  obtain hs evs g1 g2 pairs g3 where st: "parse_reconciler_events loosen compress lines = Inr evs"
    "add_sorted_controller_hears (EventGraph lm fk fp) hs = Inr g1" "add_sorted_reconciler_events g1 evs = Inr g2"
    "generate_hear_write_pairs g2 = Inr pairs" "res_fold connect_hear_to_write g2 pairs = Inr g3" "finalize g3 = Inr g"
    using assms by (auto simp: build_controller_event_graph_def res_simps)
  have g3: "connected_graph hs evs g3"
    using connect_pairs_ok[OF st(2,3) reconciler_events(2)[OF st(1)]] st(4,5) by auto
  note ann = connected_finalize(2)[OF g3 st(6)]
  have len: "length (eg_vertices g1) = length hs"
    using arg_cong[OF add_hears_contents[OF st(2)], of length] by (simp add: EventGraph_def)
  have "intra_chain (length hs) g2" using add_events_chain[OF st(3)] len by simp
  then have "intra_chain (length hs) g3" using connect_chain.fold_inv[OF st(5)] by simp
  then have "intra_chain (length hs) g"
    using graph_ann_vertex(4)[OF ann] graph_ann_fields(13)[OF ann] by (simp add: intra_chain_def)
  moreover have "length hs \<le> v" if v: "v < length (eg_vertices g)" "\<not> hear_sat (\<lambda>_. True) (content g v)" for v
  proof (rule ccontr)
    assume "\<not> length hs \<le> v"
    then have "core (content g v) = core (Hear (hs ! v))"
      using arg_cong[OF connected_finalize(3)[OF g3 st(6)], of "\<lambda>l. l ! v"] v(1) by (simp add: nth_append)
    from arg_cong[OF this, of "hear_sat (\<lambda>_. True)"] show False using v(2) by (simp add: hear_sat_Hear)
  qed
  ultimately show ?thesis by blast
qed

end
