(* ===== verification/Config.thy ===== *)
theory Config
  imports Intra_Chain
begin

text \<open>
  The configuration of a run: \<^verbatim>\<open>sieve_common/config.py\<close> and the class \<open>TestContext\<close> of
  \<^verbatim>\<open>sieve_common/common.py\<close>. A configuration file is its JSON value; a field keeps the value
  of its key, of whatever type it is, and code that branches on a field reads its truth value.
  The test plan, which \<open>yaml.safe_load\<close> reads, is an argument.
\<close>

text \<open>The truth value of a JSON value, \<open>bool(j)\<close>.\<close>

definition py_truth :: "json \<Rightarrow> bool" where
  "py_truth j = (case j of
       JNull \<Rightarrow> False
     | JBool b \<Rightarrow> b
     | JInt i \<Rightarrow> i \<noteq> 0
     | JStr s \<Rightarrow> s \<noteq> []
     | JList xs \<Rightarrow> xs \<noteq> []
     | JObj m \<Rightarrow> m \<noteq> [])"

section \<open>The configuration files\<close>

record common_config =
  cc_container_registry :: json
  cc_namespace :: json
  cc_leading_api :: json
  cc_following_api :: json
  cc_state_update_summary_check_enabled :: json
  cc_end_state_check_enabled :: json
  cc_workload_error_check_enabled :: json
  cc_controller_exception_check_enabled :: json
  cc_state_update_summary_check_event_list :: json
  cc_compress_trivial_reconcile_enabled :: json
  cc_workload_conditional_wait_timeout :: json
  cc_workload_command_wait_timeout :: json
  cc_generate_debugging_information_enabled :: json
  cc_causality_pruning_enabled :: json
  cc_effective_updates_pruning_enabled :: json
  cc_nondeterministic_pruning_enabled :: json
  cc_persist_test_plans_enabled :: json
  cc_field_key_mask :: json
  cc_field_path_mask :: json
  cc_state_update_summary_checker_mask :: json
  cc_update_oracle_file_enabled :: json

text \<open>
  The keys of \<open>sieve_config.json\<close> override those of \<open>config.json\<close>. Both files hold an object in
  every use; \<open>override_config[key]\<close> raises on a non-empty string or a list of strings, and a list
  of anything else is not represented.
\<close>

definition override_config :: "json \<Rightarrow> json \<Rightarrow> json res" where
  "override_config config override = (case override of
       JObj ov \<Rightarrow> (case config of
           JObj m \<Rightarrow> Inr (JObj (fold (\<lambda>(k, v). AList.update k v) ov m))
         | _ \<Rightarrow> if ov = [] then Inr config else Inl TypeError)
     | JList xs \<Rightarrow> if xs = [] then Inr config
         else (case hd xs of JStr _ \<Rightarrow> Inl TypeError | _ \<Rightarrow> Inl OutOfModel)
     | JStr s \<Rightarrow> if s = [] then Inr config else Inl TypeError
     | _ \<Rightarrow> Inl TypeError)"

text \<open>
  \<open>get_common_config\<close>: the field \<open>generate_debugging_information_enabled\<close> is the list literal the
  source has, not the value of the key.
\<close>

definition get_common_config :: "json \<Rightarrow> json option \<Rightarrow> common_config res" where
  "get_common_config config override =
     res_bind (case override of None \<Rightarrow> Inr config | Some ov \<Rightarrow> override_config config ov) (\<lambda>cfg.
     res_bind (py_getitem cfg ''container_registry'') (\<lambda>container_registry.
     res_bind (py_getitem cfg ''namespace'') (\<lambda>namespace.
     res_bind (py_getitem cfg ''leading_api'') (\<lambda>leading_api.
     res_bind (py_getitem cfg ''following_api'') (\<lambda>following_api.
     res_bind (py_getitem cfg ''state_update_summary_check_enabled'') (\<lambda>state_update_summary_check_enabled.
     res_bind (py_getitem cfg ''end_state_check_enabled'') (\<lambda>end_state_check_enabled.
     res_bind (py_getitem cfg ''workload_error_check_enabled'') (\<lambda>workload_error_check_enabled.
     res_bind (py_getitem cfg ''controller_exception_check_enabled'') (\<lambda>controller_exception_check_enabled.
     res_bind (py_getitem cfg ''state_update_summary_check_event_list'') (\<lambda>state_update_summary_check_event_list.
     res_bind (py_getitem cfg ''compress_trivial_reconcile_enabled'') (\<lambda>compress_trivial_reconcile_enabled.
     res_bind (py_getitem cfg ''workload_conditional_wait_timeout'') (\<lambda>workload_conditional_wait_timeout.
     res_bind (py_getitem cfg ''workload_command_wait_timeout'') (\<lambda>workload_command_wait_timeout.
     res_bind (py_getitem cfg ''causality_pruning_enabled'') (\<lambda>causality_pruning_enabled.
     res_bind (py_getitem cfg ''effective_updates_pruning_enabled'') (\<lambda>effective_updates_pruning_enabled.
     res_bind (py_getitem cfg ''nondeterministic_pruning_enabled'') (\<lambda>nondeterministic_pruning_enabled.
     res_bind (py_getitem cfg ''persist_test_plans_enabled'') (\<lambda>persist_test_plans_enabled.
     res_bind (py_getitem cfg ''field_key_mask'') (\<lambda>field_key_mask.
     res_bind (py_getitem cfg ''field_path_mask'') (\<lambda>field_path_mask.
     res_bind (py_getitem cfg ''state_update_summary_checker_mask'') (\<lambda>state_update_summary_checker_mask.
     res_bind (py_getitem cfg ''update_oracle_file_enabled'') (\<lambda>update_oracle_file_enabled.
       Inr \<lparr> cc_container_registry = container_registry,
             cc_namespace = namespace,
             cc_leading_api = leading_api,
             cc_following_api = following_api,
             cc_state_update_summary_check_enabled = state_update_summary_check_enabled,
             cc_end_state_check_enabled = end_state_check_enabled,
             cc_workload_error_check_enabled = workload_error_check_enabled,
             cc_controller_exception_check_enabled = controller_exception_check_enabled,
             cc_state_update_summary_check_event_list = state_update_summary_check_event_list,
             cc_compress_trivial_reconcile_enabled = compress_trivial_reconcile_enabled,
             cc_workload_conditional_wait_timeout = workload_conditional_wait_timeout,
             cc_workload_command_wait_timeout = workload_command_wait_timeout,
             cc_generate_debugging_information_enabled = JList [JStr ''generate_debugging_information_enabled''],
             cc_causality_pruning_enabled = causality_pruning_enabled,
             cc_effective_updates_pruning_enabled = effective_updates_pruning_enabled,
             cc_nondeterministic_pruning_enabled = nondeterministic_pruning_enabled,
             cc_persist_test_plans_enabled = persist_test_plans_enabled,
             cc_field_key_mask = field_key_mask,
             cc_field_path_mask = field_path_mask,
             cc_state_update_summary_checker_mask = state_update_summary_checker_mask,
             cc_update_oracle_file_enabled = update_oracle_file_enabled \<rparr>)))))))))))))))))))))"

record controller_config =
  kc_controller_name :: json
  kc_github_link :: json
  kc_commit :: json
  kc_cherry_pick_commits :: json
  kc_kubernetes_version :: json
  kc_client_go_version :: json
  kc_apimachinery_version :: json
  kc_go_mod :: json
  kc_vendored_controller_runtime_path :: json
  kc_vendored_client_go_path :: json
  kc_vendored_sieve_client_path :: json
  kc_dockerfile_path :: json
  kc_apis_to_instrument :: json
  kc_controller_image_name :: json
  kc_test_command :: json
  kc_loosen_reconciler_boundary :: json
  kc_custom_resource_definitions :: json
  kc_annotated_reconcile_functions :: json
  kc_controller_pod_label :: json
  kc_container_name :: json
  kc_controller_deployment_file_path :: json
  kc_test_setting :: json
  kc_end_state_checker_mask :: json
  kc_state_update_summary_checker_mask :: json

definition load_controller_config :: "json \<Rightarrow> controller_config res" where
  "load_controller_config cfg =
     res_bind (py_getitem cfg ''name'') (\<lambda>controller_name.
     res_bind (py_getitem cfg ''github_link'') (\<lambda>github_link.
     res_bind (py_getitem cfg ''commit'') (\<lambda>commit.
     res_bind (get_or cfg ''cherry_pick_commits'' (JList [])) (\<lambda>cherry_pick_commits.
     res_bind (py_getitem cfg ''kubernetes_version'') (\<lambda>kubernetes_version.
     res_bind (py_getitem cfg ''client_go_version'') (\<lambda>client_go_version.
     res_bind (get_or cfg ''apimachinery_version'' JNull) (\<lambda>apimachinery_version.
     res_bind (get_or cfg ''go_mod'' (JStr ''mod'')) (\<lambda>go_mod.
     res_bind (get_or cfg ''vendored_controller_runtime_path'' JNull) (\<lambda>vendored_controller_runtime_path.
     res_bind (get_or cfg ''vendored_client_go_path'' JNull) (\<lambda>vendored_client_go_path.
     res_bind (get_or cfg ''vendored_sieve_client_path'' JNull) (\<lambda>vendored_sieve_client_path.
     res_bind (py_getitem cfg ''dockerfile_path'') (\<lambda>dockerfile_path.
     res_bind (get_or cfg ''apis_to_instrument'' (JList [])) (\<lambda>apis_to_instrument.
     res_bind (py_getitem cfg ''controller_image_name'') (\<lambda>controller_image_name.
     res_bind (py_getitem cfg ''test_command'') (\<lambda>test_command.
     res_bind (get_or cfg ''loosen_reconciler_boundary'' (JBool False)) (\<lambda>loosen_reconciler_boundary.
     res_bind (py_getitem cfg ''custom_resource_definitions'') (\<lambda>custom_resource_definitions.
     res_bind (py_getitem cfg ''annotated_reconcile_functions'') (\<lambda>annotated_reconcile_functions.
     res_bind (py_getitem cfg ''controller_pod_label'') (\<lambda>controller_pod_label.
     res_bind (get_or cfg ''container_name'' JNull) (\<lambda>container_name.
     res_bind (py_getitem cfg ''controller_deployment_file_path'') (\<lambda>controller_deployment_file_path.
     res_bind (get_or cfg ''test_setting'' (JObj [])) (\<lambda>test_setting.
     res_bind (get_or cfg ''end_state_checker_mask'' (JObj [])) (\<lambda>end_state_checker_mask.
     res_bind (get_or cfg ''state_update_summary_checker_mask'' (JObj [])) (\<lambda>state_update_summary_checker_mask.
       Inr \<lparr> kc_controller_name = controller_name,
             kc_github_link = github_link,
             kc_commit = commit,
             kc_cherry_pick_commits = cherry_pick_commits,
             kc_kubernetes_version = kubernetes_version,
             kc_client_go_version = client_go_version,
             kc_apimachinery_version = apimachinery_version,
             kc_go_mod = go_mod,
             kc_vendored_controller_runtime_path = vendored_controller_runtime_path,
             kc_vendored_client_go_path = vendored_client_go_path,
             kc_vendored_sieve_client_path = vendored_sieve_client_path,
             kc_dockerfile_path = dockerfile_path,
             kc_apis_to_instrument = apis_to_instrument,
             kc_controller_image_name = controller_image_name,
             kc_test_command = test_command,
             kc_loosen_reconciler_boundary = loosen_reconciler_boundary,
             kc_custom_resource_definitions = custom_resource_definitions,
             kc_annotated_reconcile_functions = annotated_reconcile_functions,
             kc_controller_pod_label = controller_pod_label,
             kc_container_name = container_name,
             kc_controller_deployment_file_path = controller_deployment_file_path,
             kc_test_setting = test_setting,
             kc_end_state_checker_mask = end_state_checker_mask,
             kc_state_update_summary_checker_mask = state_update_summary_checker_mask \<rparr>))))))))))))))))))))))))"

text \<open>The keys a configuration file must have.\<close>

definition common_config_keys :: "string list" where
  "common_config_keys =
     [''container_registry'', ''namespace'', ''leading_api'', ''following_api'',
      ''state_update_summary_check_enabled'', ''end_state_check_enabled'',
      ''workload_error_check_enabled'', ''controller_exception_check_enabled'',
      ''state_update_summary_check_event_list'', ''compress_trivial_reconcile_enabled'',
      ''workload_conditional_wait_timeout'', ''workload_command_wait_timeout'',
      ''causality_pruning_enabled'', ''effective_updates_pruning_enabled'',
      ''nondeterministic_pruning_enabled'', ''persist_test_plans_enabled'', ''field_key_mask'',
      ''field_path_mask'', ''state_update_summary_checker_mask'', ''update_oracle_file_enabled'']"

definition controller_config_keys :: "string list" where
  "controller_config_keys =
     [''name'', ''github_link'', ''commit'', ''kubernetes_version'', ''client_go_version'',
      ''dockerfile_path'', ''controller_image_name'', ''test_command'',
      ''custom_resource_definitions'', ''annotated_reconcile_functions'',
      ''controller_pod_label'', ''controller_deployment_file_path'']"

section \<open>The test context\<close>

definition TEST :: string where "TEST = ''test''"
definition VANILLA :: string where "VANILLA = ''vanilla''"
definition LEARN :: string where "LEARN = ''learn''"

record test_context =
  tc_controller :: string
  tc_controller_config_dir :: string
  tc_test_workload :: string
  tc_mode :: string
  tc_postprocess :: bool
  tc_build_oracle :: bool
  tc_original_test_plan :: string
  tc_test_plan :: string
  tc_result_root_dir :: string
  tc_result_dir :: string
  tc_oracle_dir :: string
  tc_container_registry :: string
  tc_image_tag :: string
  tc_num_apiservers :: int
  tc_num_workers :: int
  tc_use_csi_driver_for_ref :: bool
  tc_use_csi_driver :: bool
  tc_common_config :: common_config
  tc_controller_config :: controller_config
  tc_test_plan_content :: "json option"
  tc_action_types :: "json list"

text \<open>
  \<open>TestContext.__init__\<close> on a context that holds its arguments: outside of test mode nothing else
  happens; in test mode the actions of the plan are collected and the numbers of API servers and
  workers adapted to them.
\<close>

definition plan_action_types :: "json \<Rightarrow> json list res" where
  "plan_action_types plan =
     res_bind (py_getitem plan ''actions'') (\<lambda>actions.
       if actions = JNull then Inr []
       else res_bind (py_iter actions) (res_map (\<lambda>action. py_getitem action ''actionType'')))"

definition TestContext :: "test_context \<Rightarrow> json \<Rightarrow> test_context res" where
  "TestContext args plan =
     (let tc = args\<lparr> tc_use_csi_driver_for_ref := tc_use_csi_driver args,
                     tc_test_plan_content := None, tc_action_types := [] \<rparr>
      in if tc_mode tc = TEST then
           res_bind (plan_action_types plan) (\<lambda>action_types.
             let num_apiservers =
                   (if list_ex (json_eq (JStr ''reconnectController'')) action_types \<and>
                       tc_num_apiservers tc < 3 then 3 else tc_num_apiservers tc);
                 tc1 = tc\<lparr> tc_test_plan_content := Some plan, tc_action_types := action_types,
                           tc_num_apiservers := num_apiservers \<rparr>
             in Inr (if num_apiservers > 1 then tc1\<lparr> tc_use_csi_driver := False \<rparr>
                     else if tc_use_csi_driver tc1
                     then tc1\<lparr> tc_num_apiservers := 1, tc_num_workers := 0 \<rparr>
                     else tc1))
         else Inr tc)"

record test_result =
  tr_injection_completed :: bool
  tr_workload_completed :: bool
  tr_common_errors :: "string list"
  tr_end_state_errors :: "string list"
  tr_history_errors :: "string list"
  tr_no_exception :: bool
  tr_exception_message :: string

text \<open>The masks as the event graph uses them; other shapes of the JSON value are not represented.\<close>

definition as_string_list :: "json \<Rightarrow> string list res" where
  "as_string_list j = (case j of
       JList xs \<Rightarrow> res_map (\<lambda>x. case x of JStr s \<Rightarrow> Inr s | _ \<Rightarrow> Inl OutOfModel) xs
     | _ \<Rightarrow> Inl OutOfModel)"

definition as_mask_map :: "json \<Rightarrow> mask_map res" where
  "as_mask_map j = (case j of
       JObj m \<Rightarrow> res_map (\<lambda>(k, v). case v of
           JList paths \<Rightarrow> res_bind (res_map as_string_list paths) (\<lambda>ps. Inr (k, ps))
         | _ \<Rightarrow> Inl OutOfModel) m
     | _ \<Rightarrow> Inl OutOfModel)"

section \<open>Directories\<close>

definition build_directory :: "test_context \<Rightarrow> string" where
  "build_directory tc = path_join (tc_controller_config_dir tc) ''build''"

definition deploy_directory :: "test_context \<Rightarrow> string" where
  "deploy_directory tc = path_join (tc_controller_config_dir tc) ''deploy''"

definition test_directory :: "test_context \<Rightarrow> string" where
  "test_directory tc = path_join (tc_controller_config_dir tc) ''test''"

definition oracle_directory :: "test_context \<Rightarrow> string" where
  "oracle_directory tc = path_join (tc_controller_config_dir tc) ''oracle''"

section \<open>Loading\<close>

lemma get_or_JObj [simp]: "get_or (JObj m) k d = Inr (case map_of m k of None \<Rightarrow> d | Some v \<Rightarrow> v)"
  by (cases "map_of m k") (simp_all add: get_or_def)

lemma ex_res_bind: "(\<exists>c. res_bind m f = Inr c) \<longleftrightarrow> (\<exists>x. m = Inr x \<and> (\<exists>c. f x = Inr c))"
  by (auto simp: res_simps)

lemma raises_only_intros [intro]:
  "raises_only E (Inr x)" "e \<in> E \<Longrightarrow> raises_only E (Inl e)"
  "raises_only E m \<Longrightarrow> (\<And>x. raises_only E (f x)) \<Longrightarrow> raises_only E (res_bind m f)"
  "raises_only {KeyError} (py_getitem (JObj kvs) k)" "raises_only E (get_or (JObj kvs) k d)"
  by (auto simp: raises_only_def res_simps)

lemma res_cases_keys:
  assumes "(\<exists>c. r = Inr c) \<longleftrightarrow> b" "raises_only {KeyError} r"
  shows "if b then \<exists>c. r = Inr c else r = Inl KeyError"
  using assms by (cases r) (auto simp: raises_only_def)

text \<open>
  \<open>load_controller_config\<close> succeeds on exactly the objects that have all of the required keys;
  on any other object it raises \<open>KeyError\<close>. A key with a default may be missing.
\<close>

theorem controller_config_required_keys:
  "if list_all (\<lambda>k. map_of m k \<noteq> None) controller_config_keys
   then \<exists>c. load_controller_config (JObj m) = Inr c
   else load_controller_config (JObj m) = Inl KeyError"
proof (rule res_cases_keys)
  show "(\<exists>c. load_controller_config (JObj m) = Inr c) = list_all (\<lambda>k. map_of m k \<noteq> None) controller_config_keys"
    unfolding load_controller_config_def controller_config_keys_def
    by (simp add: ex_res_bind from_option_eq_Inr del: not_None_eq) auto
  show "raises_only {KeyError} (load_controller_config (JObj m))"
    unfolding load_controller_config_def by (intro raises_only_intros)
qed

text \<open>The same for the common configuration, after the overriding file is merged into it.\<close>

lemma common_config_required_keys:
  "if list_all (\<lambda>k. map_of m k \<noteq> None) common_config_keys
   then \<exists>c. get_common_config (JObj m) None = Inr c
   else get_common_config (JObj m) None = Inl KeyError"
proof (rule res_cases_keys)
  show "(\<exists>c. get_common_config (JObj m) None = Inr c) = list_all (\<lambda>k. map_of m k \<noteq> None) common_config_keys"
    unfolding get_common_config_def common_config_keys_def
    by (simp add: ex_res_bind from_option_eq_Inr del: not_None_eq) auto
  show "raises_only {KeyError} (get_common_config (JObj m) None)"
    unfolding get_common_config_def option.case res_bind_Inr by (intro raises_only_intros)
qed

lemma map_of_fold_update:
  "dict_ok ov \<Longrightarrow> map_of (fold (\<lambda>(k, v). AList.update k v) ov m) j = (map_of m ++ map_of ov) j"
proof (induction ov arbitrary: m)
  case (Cons kv ov)
  obtain k v where kv: "kv = (k, v)" by fastforce
  have "map_of ov k = None" "dict_ok ov"
    using Cons.prems by (auto simp: kv dict_ok_def map_of_eq_None_iff)
  then show ?case using Cons.IH[of "AList.update k v m"]
    by (auto simp: kv map_add_def split: option.splits)
qed simp

text \<open>
  With an overriding file the common configuration is the one that is read from the merged
  object, in which a key of \<open>sieve_config.json\<close> wins over the same key of \<open>config.json\<close>; and the
  flag \<open>generate_debugging_information_enabled\<close> is true whatever the files say.
\<close>

theorem common_config_override:
  assumes "dict_ok ov" "map_of merged = map_of m ++ map_of ov"
  shows "get_common_config (JObj m) (Some (JObj ov)) = get_common_config (JObj merged) None \<and>
    (\<forall>c. get_common_config (JObj m) (Some (JObj ov)) = Inr c \<longrightarrow>
       py_truth (cc_generate_debugging_information_enabled c))"
proof -
  have "map_of (fold (\<lambda>(k, v). AList.update k v) ov m) = map_of merged"
    using map_of_fold_update[OF assms(1)] assms(2) by (intro ext) simp
  then have eq: "get_common_config (JObj m) (Some (JObj ov)) = get_common_config (JObj merged) None"
    by (simp add: get_common_config_def override_config_def)
  show ?thesis unfolding eq by (auto simp: get_common_config_def res_simps py_truth_def)
qed

text \<open>A configuration object with all required keys.\<close>

definition sample_common :: jdict where
  "sample_common = map (\<lambda>k. (k, JBool False)) common_config_keys"

theorem common_config_override_witness:
  "get_common_config (JObj sample_common) (Some (JObj [(''namespace'', JStr ''x'')])) =
     get_common_config (JObj ((''namespace'', JStr ''x'') # sample_common)) None \<and>
   (\<exists>c. get_common_config (JObj ((''namespace'', JStr ''x'') # sample_common)) None = Inr c \<and>
      py_truth (cc_generate_debugging_information_enabled c))"
proof -
  let ?ov = "[(''namespace'', JStr ''x'')]" and ?m = "(''namespace'', JStr ''x'') # sample_common"
  have "dict_ok ?ov" "map_of ?m = map_of sample_common ++ map_of ?ov" by (simp_all add: dict_ok_def)
  note app = common_config_override[OF this]
  have "list_all (\<lambda>k. map_of ?m k \<noteq> None) common_config_keys"
    by (simp add: sample_common_def common_config_keys_def)
  then obtain c where "get_common_config (JObj ?m) None = Inr c"
    using common_config_required_keys[of ?m] by auto
  with app show ?thesis by auto
qed

section \<open>Clusters\<close>

text \<open>
  C40: in test mode a plan that reconnects the controller runs on at least three API servers, the
  number of API servers asked for is never lowered, and the CSI driver is used only where it can
  work, with one API server and no worker node.
\<close>

theorem test_context_cluster:
  assumes "TestContext args plan = Inr tc" "tc_mode args = TEST"
  shows "(list_ex (json_eq (JStr ''reconnectController'')) (tc_action_types tc) \<longrightarrow> 3 \<le> tc_num_apiservers tc) \<and>
    tc_num_apiservers args \<le> tc_num_apiservers tc \<and>
    (tc_use_csi_driver tc \<longrightarrow> tc_num_apiservers tc = 1 \<and> tc_num_workers tc = 0 \<and> tc_use_csi_driver args) \<and>
    plan_action_types plan = Inr (tc_action_types tc)"
proof -
  obtain ats where p: "plan_action_types plan = Inr ats"
    using assms by (cases "plan_action_types plan") (simp_all add: TestContext_def Let_def)
  have tc: "tc = projr (TestContext args plan)" using assms(1) by simp
  have eqs: "tc_action_types tc = ats"
    "tc_num_apiservers tc = (let n = tc_num_apiservers args;
       m = (if list_ex (json_eq (JStr ''reconnectController'')) ats \<and> n < 3 then 3 else n)
       in if m > 1 then m else if tc_use_csi_driver args then 1 else m)"
    "tc_use_csi_driver tc \<Longrightarrow> tc_use_csi_driver args \<and> tc_num_apiservers tc = 1 \<and> tc_num_workers tc = 0"
    by (simp_all add: tc TestContext_def assms(2) p Let_def split: if_splits)
  show ?thesis using eqs p by (auto simp: Let_def split: if_splits)
qed

text \<open>A context with the arguments the tests start from.\<close>

definition sample_context :: "string \<Rightarrow> int \<Rightarrow> bool \<Rightarrow> common_config \<Rightarrow> controller_config \<Rightarrow> test_context" where
  "sample_context mode apiservers csi common controller =
     \<lparr> tc_controller = ''op'', tc_controller_config_dir = ''examples/op'', tc_test_workload = ''recreate'',
       tc_mode = mode, tc_postprocess = False, tc_build_oracle = False, tc_original_test_plan = ''plan.yaml'',
       tc_test_plan = ''plan.yaml'', tc_result_root_dir = ''results'', tc_result_dir = ''results/op'',
       tc_oracle_dir = ''examples/op/oracle'', tc_container_registry = ''reg'', tc_image_tag = mode,
       tc_num_apiservers = apiservers, tc_num_workers = 2, tc_use_csi_driver_for_ref = csi,
       tc_use_csi_driver = csi, tc_common_config = common, tc_controller_config = controller,
       tc_test_plan_content = None, tc_action_types = [] \<rparr>"

theorem test_context_cluster_witness:
  "\<exists>common controller tc. TestContext (sample_context TEST 1 True common controller)
       (JObj [(''actions'', JList [JObj [(''actionType'', JStr ''reconnectController'')]])]) = Inr tc \<and>
     3 \<le> tc_num_apiservers tc \<and> \<not> tc_use_csi_driver tc"
proof -
  fix common controller
  let ?plan = "JObj [(''actions'', JList [JObj [(''actionType'', JStr ''reconnectController'')]])]"
  let ?args = "sample_context TEST 1 True common controller"
  obtain tc where tc: "TestContext ?args ?plan = Inr tc"
    "tc_action_types tc = [JStr ''reconnectController'']"
    by (simp add: TestContext_def Let_def sample_context_def plan_action_types_def py_iter_def)
  have "3 \<le> tc_num_apiservers tc \<and> \<not> tc_use_csi_driver tc"
    using test_context_cluster[OF tc(1)] tc(2) by (auto simp: sample_context_def)
  with tc(1) show ?thesis by blast
qed

end
