(* ===== verification/Controller_Family.thy ===== *)
theory Controller_Family
  imports Config
begin

text \<open>
  The objects that belong to the controller itself, from \<^verbatim>\<open>sieve_oracle/checker_common.py\<close>: starting
  from the pods that carry Sieve's label, \<open>generate_controller_related_list\<close> follows owner references
  in both directions until nothing is added. The lines of \<open>apiserver1.log\<close> are an argument.
\<close>

definition kind_native_objects :: "string \<Rightarrow> bool res" where
  "kind_native_objects key =
     res_bind (parse_key key) (\<lambda>(rtype, ns, name).
       Inr (rtype = ''endpoints'' \<and> name = ''kubernetes'' \<or>
            rtype = ''secret'' \<and> py_startswith name ''default-token-'' \<and> length name = 19 \<or>
            rtype = ''serviceaccount'' \<and> name = ''default'' \<or>
            rtype = ''service'' \<and> name = ''kubernetes'' \<or>
            rtype = ''endpointslice'' \<and> name = ''kubernetes''))"

text \<open>The API events of a log.\<close>

definition api_events :: "string list \<Rightarrow> api_event list res" where
  "api_events lines = res_map parse_api_event (filter (py_contains SIEVE_API_EVENT_MARK) lines)"

text \<open>
  A uid is a string, or \<open>None\<close> where an object has none; a set that holds anything else is not
  represented.
\<close>

type_synonym uid = "string option"

definition uid_of :: "json \<Rightarrow> uid res" where
  "uid_of j = (case j of JStr s \<Rightarrow> Inr (Some s) | JNull \<Rightarrow> Inr None | _ \<Rightarrow> Inl OutOfModel)"

definition owner_uids :: "json \<Rightarrow> uid list res" where
  "owner_uids refs = res_bind (py_iter refs) (res_map (\<lambda>r. res_bind (py_getitem r ''uid'') uid_of))"

definition insert_uid :: "uid \<Rightarrow> uid list \<Rightarrow> uid list" where
  "insert_uid u s = (if u \<in> set s then s else s @ [u])"

definition seed_event :: "uid list \<Rightarrow> api_event \<Rightarrow> uid list res" where
  "seed_event s e =
     (if ae_rtype e = ''pod'' then
        let pod = ae_obj_map e in
        res_bind (py_in ''labels'' pod) (\<lambda>b.
        if \<not> b then Inr s
        else res_bind (py_getitem pod ''labels'') (\<lambda>labels.
          res_bind (py_in ''sievetag'' labels) (\<lambda>tagged.
          if \<not> tagged then Inr s
          else res_bind (py_getitem pod ''uid'') (\<lambda>u. res_bind (uid_of u) (\<lambda>uid.
            res_bind (py_getitem pod ''ownerReferences'') (\<lambda>refs.
            res_bind (owner_uids refs) (\<lambda>owners.
              Inr (fold insert_uid owners (insert_uid uid s))))))))) 
      else Inr s)"

text \<open>
  What a round of the loop reads of an event: nothing when it has no owner references, else its
  uid and those of its owners. Each round reads all of them, so that a malformed event raises in
  the first round or never; the loop below works on the values.
\<close>

definition event_link :: "api_event \<Rightarrow> (uid \<times> uid list) option res" where
  "event_link e =
     res_bind (get_metadata_value e ''ownerReferences'') (\<lambda>refs.
       if refs = JNull then Inr None
       else res_bind (get_metadata_value e ''uid'') (\<lambda>u.
         res_bind (uid_of u) (\<lambda>uid.
         res_bind (owner_uids refs) (\<lambda>owners. Inr (Some (uid, owners))))))"

definition taint_event :: "(uid \<times> uid list) option \<Rightarrow> uid list \<times> bool \<Rightarrow> uid list \<times> bool" where
  "taint_event link st = (case link of
       None \<Rightarrow> st
     | Some (uid, owners) \<Rightarrow>
         if uid \<in> set (fst st)
         then fold (\<lambda>owner (s, keep). if owner \<notin> set s then (s @ [owner], True) else (s, keep)) owners st
         else fold (\<lambda>owner (s, keep). if owner \<in> set s then (insert_uid uid s, True) else (s, keep)) owners st)"

definition taint_round :: "(uid \<times> uid list) option list \<Rightarrow> uid list \<Rightarrow> uid list \<times> bool" where
  "taint_round links s = fold taint_event links (s, False)"

section \<open>A round adds or stops\<close>

text \<open>The uids that occur, and the relation along which the taint spreads.\<close>

definition link_uids :: "(uid \<times> uid list) option list \<Rightarrow> uid set" where
  "link_uids links = (\<Union>(u, os)\<in>{l. Some l \<in> set links}. insert u (set os))"

definition owner_rel :: "(uid \<times> uid list) option list \<Rightarrow> (uid \<times> uid) set" where
  "owner_rel links = {(a, b). \<exists>u os. Some (u, os) \<in> set links \<and> (a = u \<and> b \<in> set os \<or> a \<in> set os \<and> b = u)}"

text \<open>
  The contract of one step on the set and the flag: nothing is lost, what is added is reachable
  and known, the flag is set exactly when something was added.
\<close>

definition spreads :: "(uid \<times> uid list) option list \<Rightarrow> uid list \<times> bool \<Rightarrow> uid list \<times> bool \<Rightarrow> bool" where
  "spreads links st st' \<longleftrightarrow> set (fst st) \<subseteq> set (fst st') \<and>
     set (fst st') \<subseteq> (owner_rel links)\<^sup>* `` set (fst st) \<and>
     set (fst st') \<subseteq> set (fst st) \<union> link_uids links \<and>
     (snd st \<longrightarrow> snd st') \<and> (snd st' \<and> \<not> snd st \<longrightarrow> set (fst st) \<subset> set (fst st')) \<and>
     (\<not> snd st' \<longrightarrow> set (fst st') = set (fst st))"

lemma spreads_refl: "spreads links st st"
  by (auto simp: spreads_def)

lemma spreads_trans:
  assumes "spreads links a b" "spreads links b c"
  shows "spreads links a c"
proof -
  let ?R = "(owner_rel links)\<^sup>*"
  have 1: "set (fst a) \<subseteq> set (fst b)" "set (fst b) \<subseteq> ?R `` set (fst a)"
      "set (fst b) \<subseteq> set (fst a) \<union> link_uids links" "snd a \<longrightarrow> snd b"
      "snd b \<and> \<not> snd a \<longrightarrow> set (fst a) \<subset> set (fst b)" "\<not> snd b \<longrightarrow> set (fst b) = set (fst a)"
    and 2: "set (fst b) \<subseteq> set (fst c)" "set (fst c) \<subseteq> ?R `` set (fst b)"
      "set (fst c) \<subseteq> set (fst b) \<union> link_uids links" "snd b \<longrightarrow> snd c"
      "snd c \<and> \<not> snd b \<longrightarrow> set (fst b) \<subset> set (fst c)" "\<not> snd c \<longrightarrow> set (fst c) = set (fst b)"
    using assms unfolding spreads_def by simp_all
  have "?R `` set (fst b) \<subseteq> ?R `` (?R `` set (fst a))" using 1(2) by (rule Image_mono[OF order_refl])
  also have "\<dots> = ?R `` set (fst a)" by (metis relcomp_Image rtrancl_idemp_self_comp)
  finally have R: "set (fst c) \<subseteq> ?R `` set (fst a)" using 2(2) by (rule order_trans[rotated])
  show ?thesis unfolding spreads_def
  proof (intro conjI)
    show "snd c \<and> \<not> snd a \<longrightarrow> set (fst a) \<subset> set (fst c)"
      using 1(1,5) 2(1,5) 1(6) by (metis order_trans psubset_subset_trans subset_psubset_trans)
    show "\<not> snd c \<longrightarrow> set (fst c) = set (fst a)" using 1(6) 2(4,6) by argo
    show "set (fst c) \<subseteq> set (fst a) \<union> link_uids links" using 1(3) 2(3) by fast
  qed (use 1 2 R in \<open>simp_all add: order_trans[OF 1(1) 2(1)]\<close>)
qed

lemma spreads_fold:
  assumes "\<And>x st. x \<in> set xs \<Longrightarrow> spreads links st (f x st)"
  shows "spreads links st (fold f xs st)"
  using assms
proof (induction xs arbitrary: st)
  case (Cons x xs)
  then have "spreads links st (f x st)" "spreads links (f x st) (fold f xs (f x st))" by auto
  then show ?case using spreads_trans by auto
qed (simp add: spreads_refl)

lemma spreads_add:
  assumes "a \<in> set s" "(a, b) \<in> owner_rel links" "b \<in> link_uids links" "b \<notin> set s"
  shows "spreads links (s, keep) (s @ [b], True)"
  using assms by (auto simp: spreads_def)

lemma taint_event_spreads:
  assumes "link \<in> set links"
  shows "spreads links st (taint_event link st)"
proof (cases link)
  case None
  then show ?thesis by (simp add: taint_event_def spreads_refl)
next
  case (Some l)
  obtain u os where link: "link = Some (u, os)" using Some by (cases l) simp
  have mem: "Some (u, os) \<in> set links" using assms link by simp
  have known: "u \<in> link_uids links" "\<And>b. b \<in> set os \<Longrightarrow> b \<in> link_uids links"
    using mem by (auto simp: link_uids_def)
  have rel: "(u, b) \<in> owner_rel links" "(b, u) \<in> owner_rel links" if "b \<in> set os" for b
    using mem that by (auto simp: owner_rel_def)
  show ?thesis
  proof (cases "u \<in> set (fst st)")
    case True
    let ?f = "\<lambda>owner (s, keep). if owner \<notin> set s then (s @ [owner], True) else (s, keep)"
    have "spreads links st (fold ?f xs st)" if "set xs \<subseteq> set os" "u \<in> set (fst st)" for xs st
      using that
    proof (induction xs arbitrary: st)
      case (Cons x xs)
      obtain s keep where st: "st = (s, keep)" by fastforce
      have x: "x \<in> set os" "u \<in> set s" using Cons.prems st by simp_all
      have step: "spreads links st (?f x st)"
      proof (cases "x \<in> set s")
        case False
        then show ?thesis using spreads_add[OF x(2) rel(1)[OF x(1)] known(2)[OF x(1)] False, of keep] st by simp
      qed (simp add: st spreads_refl)
      have "spreads links (?f x st) (fold ?f xs (?f x st))" using Cons.prems st by (intro Cons.IH) auto
      from spreads_trans[OF step this] show ?case by (simp only: fold_simps)
    qed (simp add: spreads_refl)
    then show ?thesis using True by (simp add: taint_event_def link)
  next
    case False
    let ?f = "\<lambda>owner (s, keep). if owner \<in> set s then (insert_uid u s, True) else (s, keep)"
    have "spreads links st (fold ?f xs st)" if "set xs \<subseteq> set os" "u \<in> set (fst st) \<longrightarrow> snd st" for xs st
      using that
    proof (induction xs arbitrary: st)
      case (Cons x xs)
      obtain s keep where st: "st = (s, keep)" by fastforce
      have x: "x \<in> set os" using Cons.prems by simp
      have step: "spreads links st (?f x st)"
      proof (cases "x \<in> set s \<and> u \<notin> set s")
        case True
        then show ?thesis using spreads_add[OF conjunct1[OF True] rel(2)[OF x] known(1) conjunct2[OF True], of keep] st
          by (simp add: insert_uid_def)
      next
        case False
        then show ?thesis using Cons.prems(2) spreads_refl[of links st] by (auto simp: st insert_uid_def)
      qed
      have "spreads links (?f x st) (fold ?f xs (?f x st))" using Cons.prems st by (intro Cons.IH) auto
      from spreads_trans[OF step this] show ?case by (simp only: fold_simps)
    qed (simp add: spreads_refl)
    then show ?thesis using False by (simp add: taint_event_def link)
  qed
qed

lemma taint_round_spreads: "spreads links (s, False) (taint_round links s)"
  unfolding taint_round_def by (intro spreads_fold taint_event_spreads)

lemma finite_link_uids [simp]: "finite (link_uids links)"
proof -
  have "{l. Some l \<in> set links} = the ` (set links - {None})" by force
  then have "finite {l. Some l \<in> set links}" by simp
  then show ?thesis by (auto simp: link_uids_def)
qed

section \<open>The loop\<close>

function taint_loop :: "(uid \<times> uid list) option list \<Rightarrow> uid list \<Rightarrow> uid list" where
  "taint_loop links s =
     (case taint_round links s of (s', keep_tainting) \<Rightarrow> if keep_tainting then taint_loop links s' else s')"
  by pat_completeness auto
termination
proof (relation "measure (\<lambda>(links, s). card (link_uids links - set s))", goal_cases)
  case (2 links s s' keep)
  then have sp: "spreads links (s, False) (s', True)" using taint_round_spreads[of links s] by simp
  then have "set s \<subset> set s'" "set s' \<subseteq> set s \<union> link_uids links" by (simp_all add: spreads_def)
  then have "link_uids links - set s' \<subset> link_uids links - set s" by blast
  then show ?case by (simp add: psubset_card_mono)
qed simp

declare taint_loop.simps [simp del]

text \<open>A round that adds nothing has found the set closed.\<close>

lemma taint_event_closed:
  assumes "\<not> snd (taint_event (Some (u, os)) (s, False))"
  shows "if u \<in> set s then set os \<subseteq> set s else set os \<inter> set s = {}"
proof -
  let ?f = "\<lambda>owner (s, keep). if owner \<notin> set s then (s @ [owner], True) else (s, keep)"
  let ?g = "\<lambda>owner (s, keep). if owner \<in> set s then (insert_uid u s, True) else (s, keep)"
  have mono: "snd (fold ?f xs (t, True))" "snd (fold ?g xs (t, True))" for xs t
    by (induction xs arbitrary: t) auto
  have "\<not> snd (fold ?f xs (s, False)) \<Longrightarrow> set xs \<subseteq> set s" for xs
    using mono(1) by (induction xs) (auto split: if_splits)
  moreover have "\<not> snd (fold ?g xs (s, False)) \<Longrightarrow> set xs \<inter> set s = {}" for xs
    using mono(2) by (induction xs) (auto split: if_splits)
  ultimately show ?thesis using assms by (simp add: taint_event_def split: if_splits)
qed

lemma taint_event_quiet:
  "\<not> snd (taint_event link (s, k)) \<Longrightarrow> taint_event link (s, k) = (s, False)"
proof -
  let ?f = "\<lambda>owner (s, keep). if owner \<notin> set s then (s @ [owner], True) else (s, keep)"
  let ?g = "\<lambda>u owner (s, keep). if owner \<in> set s then (insert_uid u s, True) else (s, keep)"
  have mono: "snd (fold ?f xs (t, True))" "snd (fold (?g u) xs (t, True))" for xs t u
    by (induction xs arbitrary: t) auto
  have "\<not> snd (fold ?f xs (s, k)) \<Longrightarrow> fold ?f xs (s, k) = (s, False)" for xs
    using mono(1) by (induction xs) (auto split: if_splits)
  moreover have "\<not> snd (fold (?g u) xs (s, k)) \<Longrightarrow> fold (?g u) xs (s, k) = (s, False)" for u xs
    using mono(2) by (induction xs) (auto split: if_splits)
  ultimately show "\<not> snd (taint_event link (s, k)) \<Longrightarrow> taint_event link (s, k) = (s, False)"
    by (cases link) (auto simp: taint_event_def)
qed

lemma quiet_round:
  assumes "\<not> snd (fold taint_event links (s, False))"
  shows "fst (fold taint_event links (s, False)) = s \<and>
    (\<forall>u os. Some (u, os) \<in> set links \<longrightarrow> (if u \<in> set s then set os \<subseteq> set s else set os \<inter> set s = {}))"
  using assms
proof (induction links)
  case (Cons l links)
  have mono: "snd st \<Longrightarrow> snd (taint_event x st)" for x st
    using taint_event_quiet[of x "fst st" "snd st"] taint_event_spreads[of x "[x]" st] by (simp add: spreads_def)
  have "snd st \<Longrightarrow> snd (fold taint_event xs st)" for xs st
    by (induction xs arbitrary: st) (simp_all add: mono)
  from this[of "taint_event l (s, False)" links] have quiet: "\<not> snd (taint_event l (s, False))"
    using Cons.prems by auto
  then have eq: "taint_event l (s, False) = (s, False)" by (rule taint_event_quiet)
  have "\<forall>u os. l = Some (u, os) \<longrightarrow> (if u \<in> set s then set os \<subseteq> set s else set os \<inter> set s = {})"
    using taint_event_closed[of _ _ s] quiet by blast
  moreover have "fst (fold taint_event links (s, False)) = s \<and>
      (\<forall>u os. Some (u, os) \<in> set links \<longrightarrow> (if u \<in> set s then set os \<subseteq> set s else set os \<inter> set s = {}))"
    using Cons by (simp add: eq)
  ultimately show ?case using eq by (simp del: if_split) (metis (mono_tags, lifting))
qed simp

lemma taint_loop_closure: "set (taint_loop links s) = (owner_rel links)\<^sup>* `` set s"
proof (induction links s rule: taint_loop.induct)
  case (1 links s)
  obtain s' keep where r: "taint_round links s = (s', keep)" by fastforce
  note sp = taint_round_spreads[of links s, unfolded r]
  show ?case
  proof (cases keep)
    case True
    let ?R = "(owner_rel links)\<^sup>*"
    have "set s \<subseteq> set s'" "set s' \<subseteq> ?R `` set s" using sp by (simp_all add: spreads_def)
    then have "?R `` set s \<subseteq> ?R `` set s'" "?R `` set s' \<subseteq> ?R `` (?R `` set s)" by (simp_all add: Image_mono)
    moreover have "?R `` (?R `` set s) = ?R `` set s" by (metis relcomp_Image rtrancl_idemp_self_comp)
    ultimately have "?R `` set s' = ?R `` set s" by simp
    then show ?thesis using "1.IH"[OF r[symmetric] True] True r by (subst taint_loop.simps) simp
  next
    case False
    have q: "s' = s" "\<And>u os. Some (u, os) \<in> set links \<Longrightarrow> (if u \<in> set s then set os \<subseteq> set s else set os \<inter> set s = {})"
      using quiet_round[of links s] r False unfolding taint_round_def by auto
    have "b \<in> set s" if "a \<in> set s" "(a, b) \<in> owner_rel links" for a b
      using that q(2) by (fastforce simp: owner_rel_def split: if_splits)
    then have "(owner_rel links)\<^sup>* `` set s = set s" by (intro Image_closed_trancl) blast
    then show ?thesis using False r q(1) by (subst taint_loop.simps) simp
  qed
qed

section \<open>The list\<close>

definition add_related :: "uid list \<Rightarrow> string list \<Rightarrow> api_event \<Rightarrow> string list res" where
  "add_related s related e =
     res_bind (get_metadata_value e ''uid'') (\<lambda>u. res_bind (uid_of u) (\<lambda>uid.
       Inr (if uid \<in> set s \<and> ae_key e \<notin> set related then related @ [ae_key e] else related)))"

definition generate_controller_related_list :: "string list \<Rightarrow> string list res" where
  "generate_controller_related_list lines =
     res_bind (api_events lines) (\<lambda>evs.
     res_bind (res_fold seed_event [] evs) (\<lambda>seeds.
     res_bind (res_map event_link evs) (\<lambda>links.
     res_bind (res_fold (add_related (taint_loop links seeds)) [] evs) (\<lambda>related.
       Inr (sort related)))))"

definition event_uid :: "api_event \<Rightarrow> uid res" where
  "event_uid e = res_bind (get_metadata_value e ''uid'') uid_of"

lemma add_related_all:
  assumes "res_fold (add_related s) ks evs = Inr ks'" "distinct ks"
  shows "distinct ks' \<and> set ks' = set ks \<union> {ae_key e | e. e \<in> set evs \<and> (\<exists>u\<in>set s. event_uid e = Inr u)}"
  using assms
proof (induction evs arbitrary: ks)
  case (Cons e evs)
  obtain u where u: "event_uid e = Inr u" and
    rest: "res_fold (add_related s) (if u \<in> set s \<and> ae_key e \<notin> set ks then ks @ [ae_key e] else ks) evs = Inr ks'"
    using Cons.prems(1) by (auto simp: add_related_def[of s ks e] event_uid_def res_simps)
  let ?ks = "if u \<in> set s \<and> ae_key e \<notin> set ks then ks @ [ae_key e] else ks"
  have "distinct ?ks" using Cons.prems(2) by auto
  moreover have "set ?ks = set ks \<union> {ae_key x | x. x = e \<and> (\<exists>v\<in>set s. event_uid x = Inr v)}" using u by auto
  ultimately show ?case using Cons.IH[OF rest] by auto
qed auto

text \<open>
  C26: the loop that taints the objects related to the controller terminates on every log, and
  \<open>generate_controller_related_list\<close> returns, sorted and without repetition, exactly the keys of the
  events whose uid is connected to a labelled pod by a chain of owner references, in either direction.
\<close>

theorem controller_family_closure:
  assumes "generate_controller_related_list lines = Inr keys"
  shows "\<exists>evs seeds links. api_events lines = Inr evs \<and> res_fold seed_event [] evs = Inr seeds \<and>
    res_map event_link evs = Inr links \<and> sorted keys \<and> distinct keys \<and>
    set keys = {ae_key e | e. e \<in> set evs \<and>
      (\<exists>u\<in>(owner_rel links)\<^sup>* `` set seeds. event_uid e = Inr u)}"
proof -
  obtain evs seeds links ks where st: "api_events lines = Inr evs" "res_fold seed_event [] evs = Inr seeds"
    "res_map event_link evs = Inr links" "res_fold (add_related (taint_loop links seeds)) [] evs = Inr ks"
    "keys = sort ks" using assms by (auto simp: generate_controller_related_list_def res_simps)
  have "distinct ks" "set ks = {ae_key e | e. e \<in> set evs \<and> (\<exists>u\<in>set (taint_loop links seeds). event_uid e = Inr u)}"
    using add_related_all[OF st(4)] by simp_all
  then show ?thesis using st by (auto simp: taint_loop_closure)
qed

text \<open>A labelled pod, its owner, a second object of that owner, and an unrelated object.\<close>

definition api_line :: "string \<Rightarrow> string \<Rightarrow> string \<Rightarrow> json \<Rightarrow> string" where
  "api_line etype rtype name obj = log_line [] SIEVE_API_EVENT_MARK
     [etype, ''/registry'', rtype, ''default'', name, dumps obj]"

definition owned_by :: "string \<Rightarrow> string \<times> json" where
  "owned_by u = (''ownerReferences'', JList [JObj [(''uid'', JStr u)]])"

definition family_log :: "string list" where
  "family_log =
    [api_line ''ADDED'' ''set'' ''s'' (JObj [(''uid'', JStr ''2'')]),
     api_line ''ADDED'' ''job'' ''j'' (JObj [(''uid'', JStr ''3''), owned_by ''2'']),
     api_line ''ADDED'' ''pod'' ''p'' (JObj [(''uid'', JStr ''1''), (''labels'', JObj [(''sievetag'', JStr ''x'')]), owned_by ''2'']),
     api_line ''ADDED'' ''pod'' ''q'' (JObj [(''uid'', JStr ''9'')])]"

lemma family_sample:
  "generate_controller_related_list family_log = Inr [''job/default/j'', ''pod/default/p'', ''set/default/s'']"
  by code_simp

theorem controller_family_closure_witness:
  "generate_controller_related_list family_log = Inr [''job/default/j'', ''pod/default/p'', ''set/default/s''] \<and>
   (\<exists>evs seeds links e. api_events family_log = Inr evs \<and> res_fold seed_event [] evs = Inr seeds \<and>
      res_map event_link evs = Inr links \<and> e \<in> set evs \<and> ae_key e = ''job/default/j'' \<and>
      (\<exists>u\<in>(owner_rel links)\<^sup>* `` set seeds. event_uid e = Inr u))"
proof -
  obtain evs seeds links where st: "api_events family_log = Inr evs" "res_fold seed_event [] evs = Inr seeds"
    "res_map event_link evs = Inr links"
    "set [''job/default/j'', ''pod/default/p'', ''set/default/s''] = {ae_key e | e. e \<in> set evs \<and>
      (\<exists>u\<in>(owner_rel links)\<^sup>* `` set seeds. event_uid e = Inr u)}"
    using controller_family_closure[OF family_sample] by (elim exE conjE)
  have "''job/default/j'' \<in> set [''job/default/j'', ''pod/default/p'', ''set/default/s'']" by simp
  then obtain e where "e \<in> set evs" "ae_key e = ''job/default/j''"
    "\<exists>u\<in>(owner_rel links)\<^sup>* `` set seeds. event_uid e = Inr u" unfolding st(4) by fastforce
  then show ?thesis using st(1-3) family_sample by blast
qed

end
