(* ===== verification/History.thy ===== *)
theory History
  imports Controller_Family
begin

text \<open>
  The history of a run and the checkers on it, \<^verbatim>\<open>sieve_oracle/safety_checker.py\<close>, with the helpers
  it takes from \<^verbatim>\<open>checker_common.py\<close>. The lines of \<open>apiserver1.log\<close> and the values of the JSON files
  of earlier runs are arguments. \<open>DeepDiff\<close> is a library: where the code uses it, the differences it
  reports are an argument.
\<close>

section \<open>History and digest\<close>

record history_event =
  he_number :: nat
  he_etype :: string
  he_key :: string
  he_state :: string

definition generate_history :: "string list \<Rightarrow> history_event list res" where
  "generate_history lines = res_bind (api_events lines) (\<lambda>evs.
     Inr (map (\<lambda>(i, e). \<lparr> he_number = i, he_etype = ae_etype e, he_key = ae_key e, he_state = ae_obj_str e \<rparr>)
       (enumerate 0 evs)))"

type_synonym digest = "(string, (string, nat) dict) dict"

definition api_event_empty_entry :: "(string, nat) dict" where
  "api_event_empty_entry = [(API_ADDED, 0), (API_DELETED, 0)]"

text \<open>The key an event is counted under: a generated name is replaced by a wildcard.\<close>

definition digest_key :: "api_event \<Rightarrow> string res" where
  "digest_key e =
     res_bind (extract_generate_name (ae_obj_map e)) (\<lambda>generate_name.
       if generate_name = JNull then Inr (ae_key e)
       else res_bind (as_str generate_name) (\<lambda>gn.
         Inr (if is_generated_random_name (ae_name e) gn
              then take (length (ae_key e) - 5) (ae_key e) @ ''*'' else ae_key e)))"

definition digest_step :: "json \<Rightarrow> digest \<Rightarrow> api_event \<Rightarrow> digest res" where
  "digest_step check_event_list summary e =
     res_bind (py_in (ae_etype e) check_event_list) (\<lambda>listed.
       if \<not> listed then Inr summary
       else res_bind (digest_key e) (\<lambda>key.
         let entry = (case map_of summary key of None \<Rightarrow> api_event_empty_entry | Some m \<Rightarrow> m) in
         res_bind (dict_item entry (ae_etype e)) (\<lambda>n.
           Inr (AList.update key (AList.update (ae_etype e) (Suc n) entry) summary))))"

definition generate_history_digest :: "test_context \<Rightarrow> string list \<Rightarrow> digest res" where
  "generate_history_digest tc lines = res_bind (api_events lines)
     (res_fold (digest_step (cc_state_update_summary_check_event_list (tc_common_config tc))) [])"

section \<open>Trimming what two learning runs disagree on\<close>

text \<open>A step of a path into a JSON value: a key of a dict or an index of a list.\<close>

datatype path_step = PKey string | PIdx nat

text \<open>\<open>dic[key]\<close> and \<open>dic[key] = value\<close> for a key of a path.\<close>

definition step_get :: "json \<Rightarrow> path_step \<Rightarrow> json res" where
  "step_get j p = (case (j, p) of
       (JObj m, PKey k) \<Rightarrow> dict_item m k
     | (JObj m, PIdx i) \<Rightarrow> Inl KeyError
     | (JList xs, PIdx i) \<Rightarrow> if i < length xs then Inr (xs ! i) else Inl IndexError
     | _ \<Rightarrow> Inl TypeError)"

definition step_set :: "json \<Rightarrow> path_step \<Rightarrow> json \<Rightarrow> json res" where
  "step_set j p v = (case (j, p) of
       (JObj m, PKey k) \<Rightarrow> Inr (JObj (AList.update k v m))
     | (JObj m, PIdx i) \<Rightarrow> Inl OutOfModel
     | (JList xs, PIdx i) \<Rightarrow> if i < length xs then Inr (JList (xs[i := v])) else Inl IndexError
     | _ \<Rightarrow> Inl TypeError)"

fun nested_set :: "json \<Rightarrow> path_step list \<Rightarrow> json \<Rightarrow> json res" where
  "nested_set dic [] v = Inl IndexError"
| "nested_set dic [p] v = step_set dic p v"
| "nested_set dic (p # ps) v =
     res_bind (step_get dic p) (\<lambda>d. res_bind (nested_set d ps v) (\<lambda>d'. step_set dic p d'))"

text \<open>
  \<open>second_pass_learn_trim\<close>: \<open>deep_diff\<close> gives, for the second and the first run, the paths of the
  changed values and of the added dict items.
\<close>

definition second_pass_learn_trim ::
  "(json \<Rightarrow> json \<Rightarrow> path_step list list \<times> path_step list list) \<Rightarrow> json \<Rightarrow> json \<Rightarrow> json res" where
  "second_pass_learn_trim deep_diff base_resources twice_resources =
     (case deep_diff twice_resources base_resources of (values_changed, dictionary_item_added) \<Rightarrow>
        res_fold (\<lambda>stored path. nested_set stored path (JStr SIEVE_LEARN_VALUE_MASK)) base_resources
          (values_changed @ dictionary_item_added))"

definition is_ignored :: "json \<Rightarrow> bool" where
  "is_ignored v \<longleftrightarrow> json_eq v (JStr SIEVE_LEARN_VALUE_MASK)"

definition ignored_entry :: "json \<Rightarrow> bool res" where
  "ignored_entry v =
     (if is_ignored v then Inr True
      else res_bind (py_iter v) (res_any (\<lambda>etype. res_bind (as_str etype) (\<lambda>t.
        res_bind (py_getitem v t) (\<lambda>n. Inr (is_ignored n))))))"

definition remove_ignored_value :: "jdict \<Rightarrow> jdict res" where
  "remove_ignored_value event_map =
     res_filter (\<lambda>(key, v). res_bind (ignored_entry v) (\<lambda>b. Inr (\<not> b))) event_map"

definition canonicalize_history_digest ::
  "(json \<Rightarrow> json \<Rightarrow> path_step list list \<times> path_step list list) \<Rightarrow> test_context \<Rightarrow> json \<Rightarrow> json \<Rightarrow> jdict res" where
  "canonicalize_history_digest deep_diff tc prev_history_digest cur_history_digest =
     res_bind (py_assert (tc_mode tc = LEARN \<and> tc_build_oracle tc)) (\<lambda>_.
     res_bind (second_pass_learn_trim deep_diff prev_history_digest cur_history_digest) (\<lambda>can.
       case can of JObj m \<Rightarrow> remove_ignored_value m | _ \<Rightarrow> Inl OutOfModel))"

section \<open>Masked keys\<close>

definition key_matches :: "string \<Rightarrow> json \<Rightarrow> bool res" where
  "key_matches resource_key masked_key =
     (if json_eq masked_key (JStr resource_key) then Inr True
      else res_bind (as_str masked_key) (\<lambda>m. Inr (path_match resource_key m)))"

definition masked_resource_key_for_state_update_summary_checker :: "string \<Rightarrow> test_context \<Rightarrow> bool res" where
  "masked_resource_key_for_state_update_summary_checker resource_key tc =
     (let controller_mask = kc_state_update_summary_checker_mask (tc_controller_config tc);
          common_mask = cc_state_update_summary_checker_mask (tc_common_config tc) in
      res_bind (py_iter controller_mask) (\<lambda>workloads.
      res_bind (res_any (\<lambda>w.
          if json_eq w (JStr ''*'') \<or> json_eq w (JStr (tc_test_workload tc)) then
            res_bind (as_str w) (\<lambda>ws. res_bind (py_getitem controller_mask ws) (\<lambda>keys.
            res_bind (py_iter keys) (res_any (key_matches resource_key))))
          else Inr False) workloads) (\<lambda>b.
        if b then Inr True
        else res_bind (py_iter common_mask) (res_any (key_matches resource_key)))))"

section \<open>The checkers\<close>

definition generate_alarm :: "string \<Rightarrow> string \<Rightarrow> string" where
  "generate_alarm sub_alarm msg = sub_alarm @ '' '' @ msg"

text \<open>
  \<open>apply_safety_checker\<close>: the state of each watched resource after every event, and the checker
  called whenever all of them exist. The checker is the user's function.
\<close>

definition set_state :: "history_event \<Rightarrow> (string, string option) dict \<Rightarrow> (string, string option) dict" where
  "set_state e current_state = AList.update (he_key e)
     (if he_etype e = API_DELETED then None else Some (he_state e)) current_state"

definition safety_step ::
  "string list \<Rightarrow> string \<Rightarrow> ((string, string) dict \<Rightarrow> bool) \<Rightarrow>
   (string, string option) dict \<times> string list \<Rightarrow> history_event \<Rightarrow> (string, string option) dict \<times> string list" where
  "safety_step resource_keys checker_name customized_checker st e = (case st of (current_state, messages) \<Rightarrow>
     if he_key e \<in> set resource_keys then
       let current_state' = set_state e current_state;
           existing_resource_cnt = length (filter (\<lambda>(k, v). v \<noteq> None) current_state') in
       if existing_resource_cnt = length current_state' \<and>
          \<not> customized_checker (map (\<lambda>(k, v). (k, the v)) current_state')
       then (current_state', messages @ [generate_alarm ''Safety violation:''
         (''checker '' @ checker_name @ '' failed on state '' @ nat_str (he_number e) @ '' in history.json'')])
       else (current_state', messages)
     else st)"

definition apply_safety_checker ::
  "history_event list \<Rightarrow> string list \<Rightarrow> string \<Rightarrow> ((string, string) dict \<Rightarrow> bool) \<Rightarrow> string list" where
  "apply_safety_checker history resource_keys checker_name customized_checker =
     sort (snd (foldl (safety_step resource_keys checker_name customized_checker)
       (fold (\<lambda>key. AList.update key None) resource_keys [], []) history))"

text \<open>\<open>str\<close> of a count or of a string; nothing else occurs in a digest.\<close>

definition py_str :: "json \<Rightarrow> string res" where
  "py_str j = (case j of JInt i \<Rightarrow> Inr (int_str i) | JStr s \<Rightarrow> Inr s | _ \<Rightarrow> Inl OutOfModel)"

definition digest_alarm :: "string \<Rightarrow> string \<Rightarrow> string \<Rightarrow> string \<Rightarrow> string" where
  "digest_alarm key etype expected seen = generate_alarm ''State-update summaries inconsistency:''
     (key @ '' '' @ etype @ '' inconsistency: '' @ expected @ '' event(s) seen during reference run, but '' @
      seen @ '' seen during testing run'')"

definition compare_count ::
  "json \<Rightarrow> string \<Rightarrow> json \<Rightarrow> json \<Rightarrow> string list \<Rightarrow> json \<Rightarrow> string list res" where
  "compare_count check_event_list key canonicalized testing messages etype_json =
     res_bind (as_str etype_json) (\<lambda>etype.
     res_bind (py_in etype check_event_list) (\<lambda>listed.
       if \<not> listed then Inr messages
       else res_bind (py_getitem canonicalized etype) (\<lambda>expected.
         if is_ignored expected then Inr messages
         else res_bind (py_getitem testing etype) (\<lambda>seen.
           if json_eq seen expected then Inr messages
           else res_bind (py_str expected) (\<lambda>es. res_bind (py_str seen) (\<lambda>ss.
             Inr (messages @ [digest_alarm key etype es ss])))))))"

definition compare_key ::
  "test_context \<Rightarrow> string list \<Rightarrow> jdict \<Rightarrow> string list \<Rightarrow> string \<times> json \<Rightarrow> string list res" where
  "compare_key tc controller_family canonicalized_events messages entry = (case entry of (key, testing) \<Rightarrow>
     case map_of canonicalized_events key of
       None \<Rightarrow> Inr messages
     | Some canonicalized \<Rightarrow>
         if is_ignored canonicalized then Inr messages
         else if key \<in> set controller_family then Inr messages
         else res_bind (masked_resource_key_for_state_update_summary_checker key tc) (\<lambda>masked.
           if masked then Inr messages
           else res_bind (py_iter testing) (res_fold (compare_count
             (cc_state_update_summary_check_event_list (tc_common_config tc)) key canonicalized testing) messages)))"

text \<open>The keys are visited in the order of the digest; the messages are sorted at the end.\<close>

definition compare_history_digests ::
  "test_context \<Rightarrow> jdict \<Rightarrow> jdict \<Rightarrow> string list \<Rightarrow> string list res" where
  "compare_history_digests tc canonicalized_events testing_events controller_family =
     res_bind (res_fold (compare_key tc controller_family canonicalized_events) [] testing_events) (\<lambda>messages.
       Inr (sort messages))"

section \<open>The digest counts events\<close>

definition entry_of :: "digest \<Rightarrow> string \<Rightarrow> (string, nat) dict" where
  "entry_of d key = (case map_of d key of None \<Rightarrow> api_event_empty_entry | Some m \<Rightarrow> m)"

definition digest_count :: "digest \<Rightarrow> string \<times> string \<Rightarrow> nat" where
  "digest_count d kt = dict_count (entry_of d (fst kt)) (snd kt)"

definition digest_bump :: "string \<times> string \<Rightarrow> digest \<Rightarrow> digest" where
  "digest_bump kt d = AList.update (fst kt) (dict_bump (snd kt) (entry_of d (fst kt))) d"

interpretation digest_tally: tally "[]" digest_bump digest_count
  by unfold_locales (auto simp: digest_count_def digest_bump_def entry_of_def api_event_empty_entry_def
      dict_count_def dict_bump_def split: option.splits)

text \<open>The events that are counted, with their key and type.\<close>

definition counted :: "json \<Rightarrow> api_event \<Rightarrow> (string \<times> string) option" where
  "counted check_event_list e = (if py_in (ae_etype e) check_event_list = Inr True
     then (case digest_key e of Inr k \<Rightarrow> Some (k, ae_etype e) | Inl _ \<Rightarrow> None) else None)"

lemma digest_step_counts:
  assumes "digest_step check d e = Inr d'"
  shows "d' = (case counted check e of None \<Rightarrow> d | Some kt \<Rightarrow> digest_bump kt d)"
proof (cases "py_in (ae_etype e) check = Inr True")
  case True
  then obtain k n where "digest_key e = Inr k" "dict_item (entry_of d k) (ae_etype e) = Inr n"
    "d' = AList.update k (AList.update (ae_etype e) (Suc n) (entry_of d k)) d"
    using assms by (auto simp: digest_step_def entry_of_def Let_def res_simps)
  then show ?thesis using True
    by (auto simp: counted_def digest_bump_def dict_bump_def dict_item_def res_simps)
next
  case False
  then show ?thesis using assms by (auto simp: digest_step_def counted_def res_simps split: if_splits)
qed

lemma digest_fold:
  "res_fold (digest_step check) d evs = Inr d' \<Longrightarrow> d' = fold digest_bump (List.map_filter (counted check) evs) d"
proof (induction evs arbitrary: d)
  case (Cons e evs)
  then obtain d1 where d1: "digest_step check d e = Inr d1" "res_fold (digest_step check) d1 evs = Inr d'"
    by (auto simp: res_bind_eq_Inr)
  show ?case using Cons.IH[OF d1(2)] digest_step_counts[OF d1(1)]
    by (auto simp: List.map_filter_simps split: option.splits)
qed (simp add: List.map_filter_simps)

text \<open>
  The number a history digest holds for a key and an event type is the number of events of that
  type in the log that are counted under that key, where objects with generated names share a key.
\<close>

theorem digest_counts_events:
  assumes "generate_history_digest tc lines = Inr d" "api_events lines = Inr evs"
  shows "digest_count d (k, t) = length (filter (\<lambda>e.
    counted (cc_state_update_summary_check_event_list (tc_common_config tc)) e = Some (k, t)) evs)"
proof -
  let ?check = "cc_state_update_summary_check_event_list (tc_common_config tc)"
  have "d = fold digest_bump (List.map_filter (counted ?check) evs) []"
    using assms digest_fold by (auto simp: generate_history_digest_def)
  then have "digest_count d (k, t) = count_list (List.map_filter (counted ?check) evs) (k, t)"
    by (simp add: digest_tally.count_all)
  also have "\<dots> = length (filter (\<lambda>e. counted ?check e = Some (k, t)) evs)"
    by (induction evs) (auto simp: List.map_filter_simps split: option.splits)
  finally show ?thesis .
qed

text \<open>Two pods with generated names and one without.\<close>

definition digest_log :: "string list" where
  "digest_log =
    [api_line ''ADDED'' ''pod'' ''a-12345'' (JObj [(''generateName'', JStr ''a-'')]),
     api_line ''ADDED'' ''pod'' ''a-67890'' (JObj [(''generateName'', JStr ''a-'')]),
     api_line ''DELETED'' ''pod'' ''b'' (JObj [])]"

definition digest_tc :: test_context where
  "digest_tc = sample_context TEST 1 False
     ((projr (get_common_config (JObj sample_common) None))\<lparr>
        cc_state_update_summary_check_event_list := JList [JStr ''ADDED'', JStr ''DELETED''],
        cc_state_update_summary_checker_mask := JList [] \<rparr>)
     (projr (load_controller_config (JObj (map (\<lambda>k. (k, JNull)) controller_config_keys))))"

lemma digest_sample:
  "generate_history_digest digest_tc digest_log =
     Inr [(''pod/default/a-*'', [(''ADDED'', 2), (''DELETED'', 0)]), (''pod/default/b'', [(''ADDED'', 0), (''DELETED'', 1)])]"
  by code_simp

theorem digest_counts_events_witness:
  "\<exists>evs. api_events digest_log = Inr evs \<and> length (filter (\<lambda>e.
     counted (cc_state_update_summary_check_event_list (tc_common_config digest_tc)) e =
       Some (''pod/default/a-*'', ''ADDED'')) evs) = 2"
proof -
  obtain evs where evs: "api_events digest_log = Inr evs"
    using digest_sample by (auto simp: generate_history_digest_def res_bind_eq_Inr)
  from digest_counts_events[OF digest_sample this, of "''pod/default/a-*''" "''ADDED''"] evs show ?thesis
    by (simp add: digest_count_def entry_of_def dict_count_def)
qed

section \<open>Ignored entries\<close>

lemma ignored_entry_JObj:
  assumes "dict_ok e"
  shows "ignored_entry (JObj e) = Inr (\<exists>(t, n)\<in>set e. is_ignored n)"
proof -
  have "res_bind (as_str x) (\<lambda>t. res_bind (py_getitem (JObj e) t) (\<lambda>n. Inr (is_ignored n))) =
      Inr (case x of JStr s \<Rightarrow> is_ignored (the (map_of e s)) | _ \<Rightarrow> False)"
    if "x \<in> set (map (\<lambda>(k, v). JStr k) e)" for x
    using that assms by (auto simp: as_str_def dict_ok_map_of)
  then have "ignored_entry (JObj e) = Inr (\<exists>x\<in>set (map (\<lambda>(k, v). JStr k) e).
      case x of JStr s \<Rightarrow> is_ignored (the (map_of e s)) | _ \<Rightarrow> False)"
    using res_any_total[of "map (\<lambda>(k, v). JStr k) e"]
    by (simp add: ignored_entry_def py_iter_def is_ignored_def)
  moreover have "(\<exists>x\<in>set (map (\<lambda>(k, v). JStr k) e). case x of JStr s \<Rightarrow> is_ignored (the (map_of e s)) | _ \<Rightarrow> False) =
      (\<exists>(t, n)\<in>set e. is_ignored n)"
  proof -
    have "the (map_of e t) = n" if "(t, n) \<in> set e" for t n using that assms by (simp add: dict_ok_map_of)
    then show ?thesis by force
  qed
  ultimately show ?thesis by simp
qed

text \<open>
  Whatever \<open>DeepDiff\<close> reports, the canonical digest holds no ignored value: an entry of the trimmed
  digest is kept, unchanged, exactly when neither it nor the number of any event type in it is the
  ignored value.
\<close>

theorem canonical_digest_no_ignored:
  assumes "canonicalize_history_digest deep_diff tc prev cur = Inr d"
    and "second_pass_learn_trim deep_diff prev cur = Inr (JObj trimmed)"
    and "\<forall>(k, v)\<in>set trimmed. is_ignored v \<or> (\<exists>e. v = JObj e \<and> dict_ok e)"
  shows "tc_mode tc = LEARN \<and> tc_build_oracle tc \<and>
    d = filter (\<lambda>(k, v). case v of JObj e \<Rightarrow> \<not> (\<exists>(t, n)\<in>set e. is_ignored n) | _ \<Rightarrow> False) trimmed"
proof -
  have r: "remove_ignored_value trimmed = Inr d" "tc_mode tc = LEARN" "tc_build_oracle tc"
    using assms(1,2) by (auto simp: canonicalize_history_digest_def res_simps)
  have ign: "ignored_entry v = Inr True" if "is_ignored v" for v using that by (simp add: ignored_entry_def)
  have "d = filter (\<lambda>p. (case p of (k, v) \<Rightarrow> res_bind (ignored_entry v) (\<lambda>b. Inr (\<not> b))) = Inr True) trimmed"
    using res_filter_Inr(1)[OF r(1)[unfolded remove_ignored_value_def]] .
  also have "\<dots> = filter (\<lambda>(k, v). case v of JObj e \<Rightarrow> \<not> (\<exists>(t, n)\<in>set e. is_ignored n) | _ \<Rightarrow> False) trimmed"
  proof (rule filter_cong[OF refl])
    fix p assume "p \<in> set trimmed"
    then obtain k v where p: "p = (k, v)" "is_ignored v \<or> (\<exists>e. v = JObj e \<and> dict_ok e)" using assms(3) by (cases p) auto
    show "((case p of (k, v) \<Rightarrow> res_bind (ignored_entry v) (\<lambda>b. Inr (\<not> b))) = Inr True) =
        (case p of (k, v) \<Rightarrow> case v of JObj e \<Rightarrow> \<not> (\<exists>(t, n)\<in>set e. is_ignored n) | _ \<Rightarrow> False)"
    proof (cases "is_ignored v")
      case True
      then have "\<not> (\<exists>e. v = JObj e)" by (auto simp: is_ignored_def)
      then show ?thesis using ign[OF True] by (cases v) (simp_all add: p(1))
    next
      case False
      then obtain e where "v = JObj e" "dict_ok e" using p(2) by blast
      then show ?thesis by (simp add: p(1) ignored_entry_JObj del: res_bind_eq_Inr)
    qed
  qed
  finally show ?thesis using r by blast
qed

text \<open>A difference in one number of one entry.\<close>

definition sample_diff :: "json \<Rightarrow> json \<Rightarrow> path_step list list \<times> path_step list list" where
  "sample_diff a b = ([[PKey ''pod/default/b'', PKey ''ADDED'']], [])"

theorem canonical_digest_no_ignored_witness:
  "\<exists>d. canonicalize_history_digest sample_diff (digest_tc\<lparr> tc_mode := LEARN, tc_build_oracle := True \<rparr>)
      (JObj [(''pod/default/a'', JObj [(''ADDED'', JInt 1)]), (''pod/default/b'', JObj [(''ADDED'', JInt 1)])]) JNull =
      Inr d \<and> d = [(''pod/default/a'', JObj [(''ADDED'', JInt 1)])]"
proof -
  let ?prev = "JObj [(''pod/default/a'', JObj [(''ADDED'', JInt 1)]), (''pod/default/b'', JObj [(''ADDED'', JInt 1)])]"
  let ?t = "[(''pod/default/a'', JObj [(''ADDED'', JInt 1)]), (''pod/default/b'', JObj [(''ADDED'', JStr SIEVE_LEARN_VALUE_MASK)])]"
  let ?tc = "digest_tc\<lparr> tc_mode := LEARN, tc_build_oracle := True \<rparr>"
  have t: "second_pass_learn_trim sample_diff ?prev JNull = Inr (JObj ?t)"
    by (simp add: second_pass_learn_trim_def sample_diff_def step_get_def step_set_def dict_item_def)
  obtain d where d: "canonicalize_history_digest sample_diff ?tc ?prev JNull = Inr d"
    using t by (simp add: canonicalize_history_digest_def remove_ignored_value_def ignored_entry_JObj dict_ok_def)
  have "\<forall>(k, v)\<in>set ?t. is_ignored v \<or> (\<exists>e. v = JObj e \<and> dict_ok e)" by (simp add: dict_ok_def)
  from canonical_digest_no_ignored[OF d t this] d show ?thesis by (simp add: is_ignored_def)
qed

section \<open>The safety monitor sees every state\<close>

text \<open>The state of a resource after a history: that of its last event, none after a deletion.\<close>

definition resource_state :: "history_event list \<Rightarrow> string \<Rightarrow> string option" where
  "resource_state hs key = (let es = filter (\<lambda>e. he_key e = key) hs in
     if es = [] \<or> he_etype (last es) = API_DELETED then None else Some (he_state (last es)))"

lemma resource_state_snoc:
  "resource_state (hs @ [e]) key = (if he_key e = key
     then if he_etype e = API_DELETED then None else Some (he_state e) else resource_state hs key)"
  by (simp add: resource_state_def Let_def)

text \<open>What the checker is shown after a history.\<close>

definition state_view :: "string list \<Rightarrow> history_event list \<Rightarrow> (string, string) dict" where
  "state_view keys hs = map (\<lambda>k. (k, the (resource_state hs k))) keys"

definition violates :: "string list \<Rightarrow> ((string, string) dict \<Rightarrow> bool) \<Rightarrow> history_event list \<Rightarrow> nat \<Rightarrow> bool" where
  "violates keys checker hs i \<longleftrightarrow> he_key (hs ! i) \<in> set keys \<and>
     (\<forall>k\<in>set keys. resource_state (take (Suc i) hs) k \<noteq> None) \<and> \<not> checker (state_view keys (take (Suc i) hs))"

definition safety_alarm :: "string \<Rightarrow> nat \<Rightarrow> string" where
  "safety_alarm checker_name n = generate_alarm ''Safety violation:''
     (''checker '' @ checker_name @ '' failed on state '' @ nat_str n @ '' in history.json'')"

lemma update_keyed_map:
  "distinct ks \<Longrightarrow> k \<in> set ks \<Longrightarrow>
   AList.update k v (map (\<lambda>j. (j, f j)) ks) = map (\<lambda>j. (j, if j = k then v else f j)) ks"
proof (induction ks)
  case (Cons j ks)
  show ?case
  proof (cases "j = k")
    case True
    then have "map (\<lambda>j. (j, if j = k then v else f j)) ks = map (\<lambda>j. (j, f j)) ks" using Cons.prems(1) by auto
    then show ?thesis using True by simp
  qed (use Cons in auto)
qed simp

lemma update_new_key: "k \<notin> fst ` set xs \<Longrightarrow> AList.update k v xs = xs @ [(k, v)]"
  by (induction xs) auto

lemma init_state: "distinct ks \<Longrightarrow> fold (\<lambda>k. AList.update k None) ks [] = map (\<lambda>k. (k, None)) ks"
proof (induction ks rule: rev_induct)
  case (snoc k ks)
  have "AList.update k None (map (\<lambda>k. (k, None)) ks) = map (\<lambda>k. (k, None)) ks @ [(k, None)]"
    using snoc.prems by (intro update_new_key) auto
  then show ?case using snoc by simp
qed simp

lemma safety_fold:
  assumes "distinct keys"
  shows "foldl (safety_step keys name checker) (map (\<lambda>k. (k, None)) keys, []) hs =
    (map (\<lambda>k. (k, resource_state hs k)) keys,
     map (\<lambda>i. safety_alarm name (he_number (hs ! i))) (filter (violates keys checker hs) [0..<length hs]))"
proof (induction hs rule: rev_induct)
  case Nil
  show ?case by (simp add: resource_state_def)
next
  case (snoc e hs)
  have old: "violates keys checker (hs @ [e]) i = violates keys checker hs i" if "i < length hs" for i
    using that by (simp add: violates_def nth_append)
  then have "filter (violates keys checker (hs @ [e])) [0..<length hs] = filter (violates keys checker hs) [0..<length hs]"
    by (intro filter_cong) auto
  then have alarms: "map (\<lambda>i. safety_alarm name (he_number ((hs @ [e]) ! i)))
      (filter (violates keys checker (hs @ [e])) [0..<length hs]) =
      map (\<lambda>i. safety_alarm name (he_number (hs ! i))) (filter (violates keys checker hs) [0..<length hs])"
    by (auto simp: nth_append)
  show ?case
  proof (cases "he_key e \<in> set keys")
    case True
    have state: "set_state e (map (\<lambda>k. (k, resource_state hs k)) keys) =
        map (\<lambda>k. (k, resource_state (hs @ [e]) k)) keys"
      unfolding set_state_def update_keyed_map[OF assms True] by (auto simp: resource_state_snoc)
    let ?st = "map (\<lambda>k. (k, resource_state (hs @ [e]) k)) keys"
    have "length (filter P xs) = length xs \<longleftrightarrow> list_all P xs" for P and xs :: "(string \<times> string option) list"
      using filter_id_conv[of P xs] length_filter_less[of _ xs P] by (auto simp: list_all_iff) (metis less_irrefl)
    from this[of "\<lambda>(k, v). v \<noteq> None" ?st] have all: "length (filter (\<lambda>(k, v). v \<noteq> None) ?st) = length ?st \<longleftrightarrow>
        (\<forall>k\<in>set keys. resource_state (hs @ [e]) k \<noteq> None)" by (simp only: list_all_iff) simp
    have view: "map (\<lambda>(k, v). (k, the v)) ?st = state_view keys (hs @ [e])" by (simp add: state_view_def)
    have new: "violates keys checker (hs @ [e]) (length hs) \<longleftrightarrow>
        length (filter (\<lambda>(k, v). v \<noteq> None) ?st) = length ?st \<and> \<not> checker (map (\<lambda>(k, v). (k, the v)) ?st)"
      unfolding all view using True by (simp add: violates_def)
    have "safety_step keys name checker (map (\<lambda>k. (k, resource_state hs k)) keys, ms) e =
        (?st, ms @ (if violates keys checker (hs @ [e]) (length hs) then [safety_alarm name (he_number e)] else []))" for ms
      unfolding new safety_step_def prod.case state Let_def using True by (simp only: safety_alarm_def if_True if_split) simp
    then show ?thesis using snoc alarms by simp
  next
    case False
    then have "violates keys checker (hs @ [e]) (length hs) = False" by (simp add: violates_def)
    moreover have "map (\<lambda>k. (k, resource_state (hs @ [e]) k)) keys = map (\<lambda>k. (k, resource_state hs k)) keys"
      using False by (auto simp: resource_state_snoc)
    ultimately show ?thesis using snoc alarms False by (simp add: safety_step_def)
  qed
qed


text \<open>A checker that rejects the second of two states of one resource.\<close>

definition sample_history :: "history_event list" where
  "sample_history = [\<lparr> he_number = 0, he_etype = ''ADDED'', he_key = ''a'', he_state = ''1'' \<rparr>,
     \<lparr> he_number = 1, he_etype = ''MODIFIED'', he_key = ''a'', he_state = ''2'' \<rparr>]"


section \<open>Which digests are reported\<close>

text \<open>The two numbers of an event type, as text, when they are compared and differ.\<close>

definition count_differs :: "json \<Rightarrow> json \<Rightarrow> json \<Rightarrow> string \<Rightarrow> string \<Rightarrow> string \<Rightarrow> bool" where
  "count_differs check_event_list canonicalized testing etype es ss \<longleftrightarrow>
     py_in etype check_event_list = Inr True \<and>
     (\<exists>expected seen. py_getitem canonicalized etype = Inr expected \<and> \<not> is_ignored expected \<and>
        py_getitem testing etype = Inr seen \<and> \<not> json_eq seen expected \<and>
        py_str expected = Inr es \<and> py_str seen = Inr ss)"

definition entry_differs :: "test_context \<Rightarrow> string list \<Rightarrow> jdict \<Rightarrow> string \<times> json \<Rightarrow> string \<Rightarrow> bool" where
  "entry_differs tc family canonical entry message \<longleftrightarrow> (case entry of (key, testing) \<Rightarrow>
     \<exists>c xs etype es ss. map_of canonical key = Some c \<and> \<not> is_ignored c \<and> key \<notin> set family \<and>
       masked_resource_key_for_state_update_summary_checker key tc = Inr False \<and>
       py_iter testing = Inr xs \<and> JStr etype \<in> set xs \<and>
       count_differs (cc_state_update_summary_check_event_list (tc_common_config tc)) c testing etype es ss \<and>
       message = digest_alarm key etype es ss)"

lemma compare_count_messages:
  assumes "compare_count check key c v ms x = Inr ms'"
  shows "set ms' = set ms \<union> {digest_alarm key etype es ss | etype es ss. x = JStr etype \<and> count_differs check c v etype es ss}"
  using assms unfolding compare_count_def count_differs_def by (auto simp: res_simps split: if_splits)

lemma compare_counts_messages:
  "res_fold (compare_count check key c v) ms xs = Inr ms' \<Longrightarrow>
   set ms' = set ms \<union> {digest_alarm key etype es ss | etype es ss. JStr etype \<in> set xs \<and> count_differs check c v etype es ss}"
proof (induction xs arbitrary: ms)
  case (Cons x xs)
  then obtain m1 where m1: "compare_count check key c v ms x = Inr m1"
    "res_fold (compare_count check key c v) m1 xs = Inr ms'" by (auto simp: res_bind_eq_Inr)
  show ?case unfolding Cons.IH[OF m1(2)] compare_count_messages[OF m1(1)] by auto
qed auto

lemma compare_key_messages:
  assumes "compare_key tc family canonical ms entry = Inr ms'"
  shows "set ms' = set ms \<union> {m. entry_differs tc family canonical entry m}"
proof -
  obtain key v where entry: "entry = (key, v)" by fastforce
  consider (none) "map_of canonical key = None" | (ign) c where "map_of canonical key = Some c" "is_ignored c \<or> key \<in> set family"
    | (cmp) c where "map_of canonical key = Some c" "\<not> is_ignored c" "key \<notin> set family" by (cases "map_of canonical key") auto
  then show ?thesis
  proof cases
    case cmp
    then obtain b where b: "masked_resource_key_for_state_update_summary_checker key tc = Inr b"
      using assms entry by (auto simp: compare_key_def res_bind_eq_Inr)
    show ?thesis
    proof (cases b)
      case True
      then show ?thesis using assms entry cmp b by (auto simp: compare_key_def entry_differs_def)
    next
      case False
      then obtain xs where xs: "py_iter v = Inr xs" "res_fold (compare_count
             (cc_state_update_summary_check_event_list (tc_common_config tc)) key c v) ms xs = Inr ms'"
        using assms entry cmp b by (auto simp: compare_key_def res_bind_eq_Inr)
      show ?thesis unfolding compare_counts_messages[OF xs(2)]
        using entry cmp b False xs(1) by (auto simp: entry_differs_def)
    qed
  qed (use assms entry in \<open>auto simp: compare_key_def entry_differs_def split: if_splits\<close>)
qed

lemma compare_keys_messages:
  "res_fold (compare_key tc family canonical) ms entries = Inr ms' \<Longrightarrow>
   set ms' = set ms \<union> {m. \<exists>entry\<in>set entries. entry_differs tc family canonical entry m}"
proof (induction entries arbitrary: ms)
  case (Cons e entries)
  then obtain m1 where m1: "compare_key tc family canonical ms e = Inr m1"
    "res_fold (compare_key tc family canonical) m1 entries = Inr ms'" by (auto simp: res_bind_eq_Inr)
  show ?case unfolding Cons.IH[OF m1(2)] compare_key_messages[OF m1(1)] by auto
qed auto

lemma compare_history_digests_exact:
  assumes "compare_history_digests tc canonical testing family = Inr messages"
  shows "sorted messages \<and> set messages = {m. \<exists>entry\<in>set testing. entry_differs tc family canonical entry m} \<and>
    (map_of canonical \<subseteq>\<^sub>m map_of testing \<and> wf_json (JObj testing) \<longrightarrow> messages = [])"
proof -
  obtain ms where ms: "res_fold (compare_key tc family canonical) [] testing = Inr ms" "messages = sort ms"
    using assms by (auto simp: compare_history_digests_def res_simps)
  have set: "set messages = {m. \<exists>entry\<in>set testing. entry_differs tc family canonical entry m}"
    using compare_keys_messages[OF ms(1)] ms(2) by simp
  have none: "\<not> entry_differs tc family canonical entry m"
    if eq: "map_of canonical \<subseteq>\<^sub>m map_of testing" "wf_json (JObj testing)" and e: "entry \<in> set testing" for entry m
  proof
    assume "entry_differs tc family canonical entry m"
    then obtain key v c etype expected seen where d: "entry = (key, v)" "map_of canonical key = Some c"
      "py_getitem c etype = Inr expected" "py_getitem v etype = Inr seen" "\<not> json_eq seen expected"
      unfolding entry_differs_def count_differs_def by (cases entry) auto
    have "map_of testing key = Some c" using eq(1) d(2) by (metis domI map_le_def)
    moreover have "map_of testing key = Some v" using d(1) e eq(2) by (simp add: dict_ok_map_of)
    ultimately have "c = v" by simp
    moreover have "wf_json v" using e eq d(1) by auto
    ultimately have "seen = expected" "wf_json seen" using d(3,4) by (auto simp: res_simps dest!: map_of_SomeD)
    then show False using d(5) json_eq_refl by simp
  qed
  then have "messages = []" if "map_of canonical \<subseteq>\<^sub>m map_of testing" "wf_json (JObj testing)" using that set by auto
  with set ms(2) show ?thesis by simp
qed

text \<open>
  C29: \<open>compare_history_digests\<close> reports, sorted, exactly the numbers of listed event types that differ
  between the reference digest and the digest of the test run, for the keys both have that are
  neither ignored, nor of the controller's own objects, nor masked; a run whose digest agrees with the
  reference wherever that has an entry raises no alarm.
\<close>

theorem digest_alarms_exact:
  assumes "compare_history_digests tc canonical testing family = Inr messages"
  shows "sorted messages \<and> set messages = {m. \<exists>entry\<in>set testing. entry_differs tc family canonical entry m} \<and>
    (map_of canonical \<subseteq>\<^sub>m map_of testing \<and> wf_json (JObj testing) \<longrightarrow> messages = [])"
  by (rule compare_history_digests_exact[OF assms])

theorem digest_alarms_exact_witness:
  "\<exists>messages. compare_history_digests (digest_tc\<lparr> tc_controller_config := (tc_controller_config digest_tc)\<lparr>
        kc_state_update_summary_checker_mask := JObj [] \<rparr> \<rparr>)
      [(''pod/default/a'', JObj [(''ADDED'', JInt 1)])] [(''pod/default/a'', JObj [(''ADDED'', JInt 2)])] [] = Inr messages \<and>
    messages = [digest_alarm ''pod/default/a'' ''ADDED'' ''1'' ''2''] \<and> sorted messages"
proof -
  let ?tc = "digest_tc\<lparr> tc_controller_config := (tc_controller_config digest_tc)\<lparr>
        kc_state_update_summary_checker_mask := JObj [] \<rparr> \<rparr>"
  have "compare_history_digests ?tc [(''pod/default/a'', JObj [(''ADDED'', JInt 1)])]
      [(''pod/default/a'', JObj [(''ADDED'', JInt 2)])] [] =
      Inr [digest_alarm ''pod/default/a'' ''ADDED'' ''1'' ''2'']" by code_simp
  with digest_alarms_exact[OF this] show ?thesis by blast
qed

end
