(* ===== verification/End_State.thy ===== *)
theory End_State
  imports History
begin

text \<open>
  The end state of a run, the canonical end state of two learning runs and the mask computed from
  it, \<^verbatim>\<open>sieve_oracle/liveness_checker.py\<close>. The lines of \<open>apiserver1.log\<close> and the values of the two
  files \<open>state.json\<close> are arguments.
\<close>

section \<open>The end state\<close>

text \<open>The events are read from the last to the first; the first one seen of a key decides.\<close>

definition state_step :: "api_event \<Rightarrow> jdict \<times> string list \<Rightarrow> jdict \<times> string list" where
  "state_step e st = (case st of (end_state, deleted) \<Rightarrow>
     if ae_key e \<in> set deleted \<or> map_of end_state (ae_key e) \<noteq> None then st
     else if ae_etype e = API_DELETED then (end_state, ae_key e # deleted)
     else (AList.update (ae_key e) (ae_obj_map e) end_state, deleted))"

definition generate_state :: "string list \<Rightarrow> jdict res" where
  "generate_state lines = res_bind (api_events (rev lines)) (\<lambda>evs. Inr (fst (fold state_step evs ([], []))))"

definition canonicalize_state ::
  "(json \<Rightarrow> json \<Rightarrow> path_step list list \<times> path_step list list) \<Rightarrow> test_context \<Rightarrow> json \<Rightarrow> json \<Rightarrow> json res" where
  "canonicalize_state deep_diff tc prev_state cur_state =
     res_bind (py_assert (tc_mode tc = LEARN \<and> tc_build_oracle tc)) (\<lambda>_.
       second_pass_learn_trim deep_diff prev_state cur_state)"

section \<open>The mask\<close>

definition METADATA_FIELDS :: "string list" where
  "METADATA_FIELDS = [''name'', ''generateName'', ''namespace'', ''selfLink'', ''uid'', ''resourceVersion'',
     ''generation'', ''creationTimestamp'', ''deletionTimestamp'', ''deletionGracePeriodSeconds'', ''labels'',
     ''annotations'', ''ownerReferences'', ''finalizers'', ''clusterName'', ''managedFields'']"

fun generate_state_mask_helper :: "string list list \<Rightarrow> json \<Rightarrow> string list \<Rightarrow> string list list" where
  "generate_state_mask_helper mask_list (JStr s) path =
     (if s = SIEVE_LEARN_VALUE_MASK \<and> path \<notin> set mask_list then mask_list @ [path] else mask_list)"
| "generate_state_mask_helper mask_list (JList xs) path =
     fold (\<lambda>val ml. generate_state_mask_helper ml val (path @ [''*''])) xs mask_list"
| "generate_state_mask_helper mask_list (JObj m) path =
     fold (\<lambda>(key, val) ml. generate_state_mask_helper ml val (path @ [key])) m mask_list"
| "generate_state_mask_helper mask_list _ path = mask_list"

text \<open>\<open>s[:1].lower() + s[1:]\<close>; the capital letters of the represented characters are ASCII and Latin-1.\<close>

definition lower_char :: "char \<Rightarrow> char" where
  "lower_char c = (let n = of_char c :: nat in
     if 65 \<le> n \<and> n \<le> 90 \<or> 192 \<le> n \<and> n \<le> 222 \<and> n \<noteq> 215 then char_of (n + 32) else c)"

definition lower_first :: "string \<Rightarrow> string" where
  "lower_first s = map lower_char (take 1 s) @ drop 1 s"

definition translate_mask_path :: "string list \<Rightarrow> string list res" where
  "translate_mask_path masked_field_path = (case masked_field_path of
       [] \<Rightarrow> Inl IndexError
     | field # rest \<Rightarrow>
         Inr (if field \<in> set METADATA_FIELDS then ''metadata'' # masked_field_path
              else map lower_first masked_field_path))"

definition generate_state_mask :: "jdict \<Rightarrow> mask_map res" where
  "generate_state_mask data =
     res_fold (\<lambda>mask_map (key, v).
         if is_ignored v then Inr mask_map
         else res_bind (res_map translate_mask_path (generate_state_mask_helper [] v [])) (\<lambda>translated.
           Inr (AList.update key (sort translated) mask_map)))
       [] data"

section \<open>The end state is the replay of the log\<close>

text \<open>What one event does to the objects of the cluster.\<close>

definition apply_event :: "(string \<rightharpoonup> json) \<Rightarrow> api_event \<Rightarrow> (string \<rightharpoonup> json)" where
  "apply_event m e = m(ae_key e := if ae_etype e = API_DELETED then None else Some (ae_obj_map e))"

lemma replay_untouched:
  "foldl apply_event m evs k = (if k \<in> ae_key ` set evs then foldl apply_event Map.empty evs k else m k)"
proof (induction evs arbitrary: m)
  case (Cons e evs)
  show ?case
    using Cons.IH[of "apply_event m e"] Cons.IH[of "apply_event Map.empty e"]
    by (auto simp: apply_event_def)
qed simp

lemma state_step_fold:
  "dict_ok (fst (fold state_step (rev evs) ([], []))) \<and>
   map_of (fst (fold state_step (rev evs) ([], []))) = foldl apply_event Map.empty evs \<and>
   (\<forall>k. k \<in> ae_key ` set evs \<longleftrightarrow> k \<in> set (snd (fold state_step (rev evs) ([], []))) \<or>
      map_of (fst (fold state_step (rev evs) ([], []))) k \<noteq> None)"
proof (induction evs)
  case (Cons e evs)
  obtain s dl where st: "fold state_step (rev evs) ([], []) = (s, dl)" by fastforce
  have seen: "k \<in> ae_key ` set evs \<longleftrightarrow> k \<in> set dl \<or> map_of s k \<noteq> None" for k
    using Cons.IH unfolding st by simp
  have ok: "dict_ok s" and repl: "map_of s = foldl apply_event Map.empty evs"
    using Cons.IH unfolding st by simp_all
  have step: "fold state_step (rev (e # evs)) ([], []) = state_step e (s, dl)" by (simp add: st)
  have new: "foldl apply_event Map.empty (e # evs) k =
      (if k \<in> ae_key ` set evs then map_of s k else apply_event Map.empty e k)" for k
    using replay_untouched[of "apply_event Map.empty e" evs k] repl by simp
  show ?case
  proof (cases "ae_key e \<in> ae_key ` set evs")
    case True
    then have "state_step e (s, dl) = (s, dl)" using seen by (auto simp: state_step_def)
    moreover have "map_of s = foldl apply_event Map.empty (e # evs)"
    proof
      fix k
      show "map_of s k = foldl apply_event Map.empty (e # evs) k"
        unfolding new using True seen[of k] by (auto simp: apply_event_def)
    qed
    moreover have "ae_key ` set (e # evs) = ae_key ` set evs" using True by auto
    ultimately show ?thesis unfolding step using ok seen by simp
  next
    case False
    then have free: "ae_key e \<notin> set dl" "map_of s (ae_key e) = None" using seen by auto
    have res: "state_step e (s, dl) = (if ae_etype e = API_DELETED then (s, ae_key e # dl)
        else (AList.update (ae_key e) (ae_obj_map e) s, dl))" using free by (simp add: state_step_def)
    have "map_of (fst (state_step e (s, dl))) = foldl apply_event Map.empty (e # evs)"
    proof
      fix k
      show "map_of (fst (state_step e (s, dl))) k = foldl apply_event Map.empty (e # evs) k"
        unfolding new using False seen[of k] free by (auto simp: res apply_event_def)
    qed
    moreover have "k \<in> ae_key ` set (e # evs) \<longleftrightarrow> k \<in> set (snd (state_step e (s, dl))) \<or>
        map_of (fst (state_step e (s, dl))) k \<noteq> None" for k
      using seen[of k] by (auto simp: res)
    moreover have "dict_ok (fst (state_step e (s, dl)))" using ok by (simp add: res)
    ultimately show ?thesis unfolding step by blast
  qed
qed simp

text \<open>
  C27: \<open>generate_state\<close>, which reads the log backwards and lets the last event of each key decide,
  returns the state that replaying the events forwards gives: the objects that exist when the run
  ends, each with its last value and each once.
\<close>

theorem end_state_replays_log:
  assumes "api_events lines = Inr evs"
  shows "\<exists>d. generate_state lines = Inr d \<and> dict_ok d \<and> map_of d = foldl apply_event Map.empty evs"
proof -
  have "api_events (rev lines) = Inr (rev evs)"
    using assms by (simp add: api_events_def res_map_Inr rev_filter list_all2_rev flip: rev_filter)
  then show ?thesis using state_step_fold[of evs] by (simp add: generate_state_def)
qed

text \<open>Two objects, one of them deleted, and an update of the other.\<close>

definition state_log :: "string list" where
  "state_log =
    [api_line ''ADDED'' ''pod'' ''a'' (JObj [(''n'', JInt 1)]), api_line ''ADDED'' ''pod'' ''b'' (JObj []),
     api_line ''MODIFIED'' ''pod'' ''a'' (JObj [(''n'', JInt 2)]), api_line ''DELETED'' ''pod'' ''b'' (JObj [])]"

theorem end_state_replays_log_witness:
  "\<exists>d. generate_state state_log = Inr d \<and> map_of d ''pod/default/a'' = Some (JObj [(''n'', JInt 2)]) \<and>
     map_of d ''pod/default/b'' = None"
proof -
  obtain evs where evs: "api_events state_log = Inr evs"
    "map (\<lambda>e. (ae_key e, ae_etype e, ae_obj_map e)) evs =
      [(''pod/default/a'', ''ADDED'', JObj [(''n'', JInt 1)]), (''pod/default/b'', ''ADDED'', JObj []),
       (''pod/default/a'', ''MODIFIED'', JObj [(''n'', JInt 2)]), (''pod/default/b'', ''DELETED'', JObj [])]"
  proof -
    have "map_sum id (map (\<lambda>e. (ae_key e, ae_etype e, ae_obj_map e))) (api_events state_log) = Inr
      [(''pod/default/a'', ''ADDED'', JObj [(''n'', JInt 1)]), (''pod/default/b'', ''ADDED'', JObj []),
       (''pod/default/a'', ''MODIFIED'', JObj [(''n'', JInt 2)]), (''pod/default/b'', ''DELETED'', JObj [])]"
      by code_simp
    then show ?thesis using that by (cases "api_events state_log") simp_all
  qed
  have eqs: "foldl apply_event m es = foldl (\<lambda>m (k, t, v). m(k := if t = API_DELETED then None else Some v)) m
      (map (\<lambda>e. (ae_key e, ae_etype e, ae_obj_map e)) es)" for m es
    by (induction es arbitrary: m) (simp_all add: apply_event_def)
  from end_state_replays_log[OF evs(1)] show ?thesis unfolding eqs evs(2) by auto
qed

section \<open>The mask holds what is ignored\<close>

text \<open>The paths that lead to an ignored value; all elements of a list share one path.\<close>

inductive ignored_path :: "json \<Rightarrow> string list \<Rightarrow> bool" where
  here: "ignored_path (JStr SIEVE_LEARN_VALUE_MASK) []"
| elem: "x \<in> set xs \<Longrightarrow> ignored_path x p \<Longrightarrow> ignored_path (JList xs) (''*'' # p)"
| entry: "(k, v) \<in> set m \<Longrightarrow> ignored_path v p \<Longrightarrow> ignored_path (JObj m) (k # p)"

inductive_simps ignored_path_simps:
  "ignored_path JNull p" "ignored_path (JBool b) p" "ignored_path (JInt i) p" "ignored_path (JStr s) p"
  "ignored_path (JList xs) p" "ignored_path (JObj m) p" "ignored_path j []"

lemma fold_collects:
  assumes "\<And>x ml. x \<in> set xs \<Longrightarrow> set (f x ml) = set ml \<union> g x \<and> (distinct ml \<longrightarrow> distinct (f x ml))"
  shows "set (fold f xs ml) = set ml \<union> (\<Union>x\<in>set xs. g x) \<and> (distinct ml \<longrightarrow> distinct (fold f xs ml))"
  using assms by (induction xs arbitrary: ml) auto

lemma mask_helper_exact:
  "set (generate_state_mask_helper ml j path) = set ml \<union> {path @ p | p. ignored_path j p} \<and>
   (distinct ml \<longrightarrow> distinct (generate_state_mask_helper ml j path))"
proof (induction j arbitrary: ml path)
  case (JList xs)
  note fold_collects[of xs "\<lambda>val ml. generate_state_mask_helper ml val (path @ [''*''])"
      "\<lambda>x. {path @ [''*''] @ p | p. ignored_path x p}" ml]
  moreover have "(\<Union>x\<in>set xs. {path @ [''*''] @ p | p. ignored_path x p}) = {path @ p | p. ignored_path (JList xs) p}"
    by (auto simp: ignored_path_simps)
  ultimately show ?case using JList by simp
next
  case (JObj m)
  note fold_collects[of m "\<lambda>(key, val) ml. generate_state_mask_helper ml val (path @ [key])"
      "\<lambda>(key, x). {path @ [key] @ p | p. ignored_path x p}" ml]
  moreover have "(\<Union>(key, x)\<in>set m. {path @ [key] @ p | p. ignored_path x p}) = {path @ p | p. ignored_path (JObj m) p}"
    by (auto simp: ignored_path_simps)
  moreover have "set (generate_state_mask_helper ml v (path @ [k])) = set ml \<union> {path @ [k] @ p | p. ignored_path v p} \<and>
      (distinct ml \<longrightarrow> distinct (generate_state_mask_helper ml v (path @ [k])))" if "(k, v) \<in> set m" for k v ml
    using JObj that by fastforce
  ultimately show ?case by (simp add: case_prod_unfold)
qed (auto simp: ignored_path_simps)

text \<open>The paths of the mask: those of ignored values, as the controller writes them.\<close>

definition mask_path :: "string list \<Rightarrow> string list" where
  "mask_path p = (if hd p \<in> set METADATA_FIELDS then ''metadata'' # p else map lower_first p)"

lemma translate_mask_path_Inr: "p \<noteq> [] \<Longrightarrow> translate_mask_path p = Inr (mask_path p)"
  by (cases p) (simp_all add: translate_mask_path_def mask_path_def)

lemma mask_path_nonempty: "p \<noteq> [] \<Longrightarrow> mask_path p \<noteq> []"
  by (simp add: mask_path_def)

definition object_mask :: "json \<Rightarrow> string list list" where
  "object_mask v = sort (map mask_path (generate_state_mask_helper [] v []))"

lemma object_mask_set: "set (object_mask v) = mask_path ` {p. ignored_path v p}"
  using mask_helper_exact[of "[]" v "[]"] by (simp add: object_mask_def)

lemma ignored_root: "\<not> is_ignored v \<Longrightarrow> ignored_path v p \<Longrightarrow> p \<noteq> []"
  by (auto simp: ignored_path_simps is_ignored_def)

lemma res_map_total: "\<forall>x\<in>set xs. f x = Inr (g x) \<Longrightarrow> res_map f xs = Inr (map g xs)"
  by (induction xs) auto

lemma object_mask_translated:
  assumes "\<not> is_ignored v"
  shows "res_map translate_mask_path (generate_state_mask_helper [] v []) =
    Inr (map mask_path (generate_state_mask_helper [] v []))"
proof (rule res_map_total, rule ballI, rule translate_mask_path_Inr)
  fix p assume "p \<in> set (generate_state_mask_helper [] v [])"
  then show "p \<noteq> []" using mask_helper_exact[of "[]" v "[]"] ignored_root[OF assms] by auto
qed

lemma generate_state_mask_fold:
  "dict_ok data \<Longrightarrow> generate_state_mask data =
     Inr (map (\<lambda>(k, v). (k, object_mask v)) (filter (\<lambda>(k, v). \<not> is_ignored v) data))"
proof (induction data rule: rev_induct)
  case (snoc e data)
  obtain k v where e: "e = (k, v)" by fastforce
  have ok: "dict_ok data" "k \<notin> fst ` set data" using snoc.prems by (auto simp: dict_ok_def e)
  then have "k \<notin> fst ` set (map (\<lambda>(k, v). (k, object_mask v)) (filter (\<lambda>(k, v). \<not> is_ignored v) data))" by force
  then show ?case using snoc.IH[OF ok(1)] object_mask_translated[of v]
    by (auto simp: generate_state_mask_def res_fold_append e update_new_key object_mask_def)
qed (simp add: generate_state_mask_def)

lemma mask_lookup_total:
  assumes "\<forall>(k, ps)\<in>set mm. [] \<notin> set ps"
  shows "\<exists>ms. get_mask_by_resource_key mm key = Inr ms"
proof -
  have "\<exists>ms. res_map mask_of_path ps = Inr ms" if "[] \<notin> set ps" for ps
    using that by (induction ps) (auto simp: mask_of_path_def)
  then show ?thesis unfolding get_mask_by_resource_key_def
    using assms by (intro res_fold_total[where I = "\<lambda>_. True", simplified]) (fastforce split: prod.splits)
qed

text \<open>
  C28: the mask learned from the canonical end state has, for every object that is not ignored as a
  whole, exactly the paths of its ignored values, as the controller writes them: \<open>metadata\<close> first for
  the fields of the metadata, else each key with a small first letter. The paths are sorted, none is
  empty, and so looking up the mask of any resource never fails.
\<close>

theorem state_mask_exact:
  assumes "dict_ok data"
  shows "\<exists>mm. generate_state_mask data = Inr mm \<and> dict_ok mm \<and>
    (\<forall>k. map_of mm k = (case map_of data k of
        None \<Rightarrow> None | Some v \<Rightarrow> if is_ignored v then None else Some (object_mask v))) \<and>
    (\<forall>(k, ps)\<in>set mm. sorted ps \<and> [] \<notin> set ps \<and> (\<exists>v. map_of data k = Some v \<and> set ps = mask_path ` {p. ignored_path v p})) \<and>
    (\<forall>key. \<exists>ms. get_mask_by_resource_key mm key = Inr ms)"
proof -
  let ?mm = "map (\<lambda>(k, v). (k, object_mask v)) (filter (\<lambda>(k, v). \<not> is_ignored v) data)"
  have nonempty: "[] \<notin> set (object_mask v)" if "\<not> is_ignored v" for v
    using ignored_root[OF that] mask_path_nonempty by (auto simp: object_mask_set) metis
  have keys: "map fst ?mm = map fst (filter (\<lambda>(k, v). \<not> is_ignored v) data)" by auto
  have "dict_ok ?mm" using assms unfolding dict_ok_def keys by (simp add: distinct_map_filter)
  moreover have "map_of ?mm k = (case map_of data k of
        None \<Rightarrow> None | Some v \<Rightarrow> if is_ignored v then None else Some (object_mask v))" for k
    using assms by (induction data) (auto simp: dict_ok_def map_of_eq_None_iff rev_image_eqI split: option.splits)
  moreover have "\<forall>(k, ps)\<in>set ?mm. sorted ps \<and> [] \<notin> set ps \<and>
      (\<exists>v. map_of data k = Some v \<and> set ps = mask_path ` {p. ignored_path v p})"
    using nonempty assms by (auto simp: object_mask_set object_mask_def[THEN arg_cong[of _ _ sorted]] dict_ok_map_of)
  moreover have "\<exists>ms. get_mask_by_resource_key ?mm key = Inr ms" for key
    using nonempty by (intro mask_lookup_total) auto
  ultimately show ?thesis using generate_state_mask_fold[OF assms] by blast
qed

theorem state_mask_exact_witness:
  "\<exists>mm. generate_state_mask [(''pod/default/a'', JObj [(''Spec'', JList [JStr ''SIEVE-IGNORE'']), (''uid'', JStr ''SIEVE-IGNORE'')]),
      (''pod/default/b'', JStr ''SIEVE-IGNORE'')] = Inr mm \<and>
    map_of mm ''pod/default/a'' = Some [[''metadata'', ''uid''], [''spec'', ''*'']] \<and> map_of mm ''pod/default/b'' = None"
proof -
  let ?v = "JObj [(''Spec'', JList [JStr ''SIEVE-IGNORE'']), (''uid'', JStr ''SIEVE-IGNORE'')]"
  let ?data = "[(''pod/default/a'', ?v), (''pod/default/b'', JStr ''SIEVE-IGNORE'')]"
  have "dict_ok ?data" by (simp add: dict_ok_def)
  moreover have "object_mask ?v = [[''metadata'', ''uid''], [''spec'', ''*'']]" by code_simp
  moreover have "\<not> is_ignored ?v" "is_ignored (JStr ''SIEVE-IGNORE'')" by code_simp+
  ultimately show ?thesis using state_mask_exact[of ?data] by fastforce
qed

end
