(* ===== verification/Py_Repr.thy ===== *)
theory Py_Repr
  imports Json_Value
begin

text \<open>
  How Python prints a value, \<open>repr\<close> and \<open>str\<close>, for the messages that contain one, and how it cuts a
  text into lines.
\<close>

definition hex_char :: "nat \<Rightarrow> char" where
  "hex_char d = (if d < 10 then digit_char d else char_of (d + 87))"

definition repr_char :: "char \<Rightarrow> char \<Rightarrow> string" where
  "repr_char quote c = (let n = of_char c :: nat in
     if c = quote \<or> c = CHR 0x5C then [CHR 0x5C, c]
     else if n = 10 then [CHR 0x5C, CHR ''n'']
     else if n = 13 then [CHR 0x5C, CHR ''r'']
     else if n = 9 then [CHR 0x5C, CHR ''t'']
     else if n < 32 \<or> 127 \<le> n \<and> n \<le> 160 \<or> n = 173
     then [CHR 0x5C, CHR ''x'', hex_char (n div 16), hex_char (n mod 16)]
     else [c])"

definition str_repr :: "string \<Rightarrow> string" where
  "str_repr s = (let quote = (if CHR 0x27 \<in> set s \<and> CHR 0x22 \<notin> set s then CHR 0x22 else CHR 0x27) in
     quote # concat (map (repr_char quote) s) @ [quote])"

fun py_repr :: "json \<Rightarrow> string" where
  "py_repr JNull = ''None''"
| "py_repr (JBool b) = (if b then ''True'' else ''False'')"
| "py_repr (JInt i) = int_str i"
| "py_repr (JStr s) = str_repr s"
| "py_repr (JList xs) = ''['' @ py_join '', '' (map py_repr xs) @ '']''"
| "py_repr (JObj m) = ''{'' @ py_join '', '' (map (\<lambda>(k, v). str_repr k @ '': '' @ py_repr v) m) @ ''}''"

definition py_format :: "json \<Rightarrow> string" where
  "py_format j = (case j of JStr s \<Rightarrow> s | _ \<Rightarrow> py_repr j)"

definition list_repr :: "string list \<Rightarrow> string" where
  "list_repr xs = py_repr (JList (map JStr xs))"

text \<open>\<open>readlines\<close>: every line keeps its end.\<close>

fun readlines :: "string \<Rightarrow> string list" where
  "readlines [] = []"
| "readlines (c # s) = (if c = CHR 0x0A then [c] # readlines s
     else case readlines s of [] \<Rightarrow> [[c]] | l # ls \<Rightarrow> (c # l) # ls)"

end
