(* ===== verification/Compare_States.thy ===== *)
theory Compare_States
  imports End_State Py_Repr
begin

text \<open>
  The comparison of the end state of a test run with the reference, the rest of
  \<^verbatim>\<open>sieve_oracle/liveness_checker.py\<close>. The values of the two files \<open>state.json\<close> and of the two files
  \<open>controller_family.json\<close> are arguments, and so is the result of \<open>DeepDiff\<close>. The sets of keys are
  visited in the order of the dicts; the messages are sorted at the end.
\<close>

section \<open>Paths\<close>

definition equal_path :: "string \<Rightarrow> string \<Rightarrow> bool" where
  "equal_path template path \<longleftrightarrow>
     (let ts = py_split CHR ''/'' template; vs = py_split CHR ''/'' path in
      length ts \<le> length vs \<and> list_all2 (\<lambda>t v. t = ''*'' \<or> t = v) ts (take (length ts) vs))"

definition get_objects_from_state_by_type :: "jdict \<Rightarrow> string \<Rightarrow> string list" where
  "get_objects_from_state_by_type state rtype =
     filter (\<lambda>key. py_startswith key (rtype @ ''/'')) (map fst state)"

text \<open>The loop over the steps of the path stops at the first key that starts with \<open>SIEVE\<close>.\<close>

fun lower_steps :: "path_step list \<Rightarrow> path_step list" where
  "lower_steps [] = []"
| "lower_steps (PIdx i # ps) = PIdx i # lower_steps ps"
| "lower_steps (PKey k # ps) =
     (if py_startswith k ''SIEVE'' then PKey k # ps else PKey (lower_first k) # lower_steps ps)"

definition tranlate_apiserver_shape_to_controller_shape :: "path_step list \<Rightarrow> path_step list" where
  "tranlate_apiserver_shape_to_controller_shape path = (case path of
       p # q # ps \<Rightarrow>
         if q \<in> PKey ` set METADATA_FIELDS then p # PKey ''metadata'' # q # ps
         else p # lower_steps (q # ps)
     | _ \<Rightarrow> path)"

definition step_str :: "path_step \<Rightarrow> string" where
  "step_str p = (case p of PKey k \<Rightarrow> k | PIdx i \<Rightarrow> nat_str i)"

text \<open>\<open>str.isdigit\<close>: the digits of the represented characters are \<open>0\<close> to \<open>9\<close> and three superscripts.\<close>

definition py_isdigit :: "string \<Rightarrow> bool" where
  "py_isdigit s \<longleftrightarrow> s \<noteq> [] \<and> list_all (\<lambda>c. is_digit c \<or> (of_char c :: nat) \<in> {178, 179, 185}) s"

definition field_path_for_print :: "string list \<Rightarrow> string" where
  "field_path_for_print field_path_list = concat (map (\<lambda>field.
     if py_isdigit field then ''['' @ field @ '']''
     else [CHR ''['', CHR 0x22] @ field @ [CHR 0x22, CHR '']'']) field_path_list)"

section \<open>Masks\<close>

definition py_len :: "json \<Rightarrow> nat res" where
  "py_len j = (case j of
       JList xs \<Rightarrow> Inr (length xs)
     | JObj m \<Rightarrow> Inr (length m)
     | JStr s \<Rightarrow> Inr (length s)
     | _ \<Rightarrow> Inl TypeError)"

text \<open>
  The loop the three checks share, over the keys of the masks of this workload and of all workloads:
  does one satisfy the condition?
\<close>

definition any_masked_key :: "test_context \<Rightarrow> (json \<Rightarrow> json \<Rightarrow> bool res) \<Rightarrow> bool res" where
  "any_masked_key tc holds =
     (let state_mask = kc_end_state_checker_mask (tc_controller_config tc) in
      res_bind (py_iter state_mask) (res_any (\<lambda>w.
        if json_eq w (JStr (tc_test_workload tc)) \<or> json_eq w (JStr ''*'') then
          res_bind (as_str w) (\<lambda>ws. res_bind (py_getitem state_mask ws) (\<lambda>workload_mask.
          res_bind (py_iter workload_mask) (res_any (holds workload_mask))))
        else Inr False)))"

definition key_mask :: "json \<Rightarrow> json \<Rightarrow> json res" where
  "key_mask workload_mask masked_resource_key =
     res_bind (as_str masked_resource_key) (py_getitem workload_mask)"

definition masks_whole_object :: "json \<Rightarrow> json \<Rightarrow> bool res" where
  "masks_whole_object workload_mask masked_resource_key =
     res_bind (key_mask workload_mask masked_resource_key) (\<lambda>v. res_bind (py_len v) (\<lambda>n. Inr (n = 0)))"

definition resource_key_should_be_masked ::
  "test_context \<Rightarrow> string list \<Rightarrow> string list \<Rightarrow> string \<Rightarrow> bool res" where
  "resource_key_should_be_masked tc current_controller_family reference_controller_family resource_key =
     res_bind (parse_key resource_key) (\<lambda>(resource_type, namespace, name).
       if name = ''sieve-testing-global-config'' then Inr True
       else if resource_key \<in> set current_controller_family \<or> resource_key \<in> set reference_controller_family
       then Inr True
       else any_masked_key tc (\<lambda>workload_mask masked_resource_key.
         res_bind (key_matches resource_key masked_resource_key) (\<lambda>b.
           if b then masks_whole_object workload_mask masked_resource_key else Inr False)))"

definition resource_type_should_be_masked_by_controller_config :: "test_context \<Rightarrow> string \<Rightarrow> bool res" where
  "resource_type_should_be_masked_by_controller_config tc resource_type =
     any_masked_key tc (\<lambda>workload_mask masked_resource_key.
       if json_eq masked_resource_key (JStr (resource_type @ ''/*/*''))
       then masks_whole_object workload_mask masked_resource_key else Inr False)"

text \<open>A masked path masks a field when it is, or matches, a prefix of the path of the field.\<close>

definition masks_prefix :: "string list \<Rightarrow> json \<Rightarrow> bool res" where
  "masks_prefix field_path_list masked_path =
     res_bind (py_iter masked_path) (\<lambda>steps. res_bind (res_map as_str steps) (\<lambda>ss.
       let masked_path_str = py_join ''/'' ss in
       Inr (list_ex (\<lambda>i. let prefix_str = py_join ''/'' (take (Suc i) field_path_list) in
           masked_path_str = prefix_str \<or> path_match prefix_str masked_path_str)
         [0..<length field_path_list])))"

definition resource_field_path_should_be_masked :: "test_context \<Rightarrow> string \<Rightarrow> string list \<Rightarrow> bool res" where
  "resource_field_path_should_be_masked tc resource_key field_path_list =
     any_masked_key tc (\<lambda>workload_mask masked_resource_key.
       res_bind (key_matches resource_key masked_resource_key) (\<lambda>b.
         if b then res_bind (key_mask workload_mask masked_resource_key) (\<lambda>paths.
           res_bind (py_iter paths) (res_any (masks_prefix field_path_list)))
         else Inr False))"

section \<open>Objects\<close>

text \<open>A checker of the user on the final state of some resources.\<close>

definition check_single_state ::
  "json \<Rightarrow> string list \<Rightarrow> string \<Rightarrow> (jdict \<Rightarrow> bool) \<Rightarrow> string list res" where
  "check_single_state state resource_keys checker_name customized_checker =
     res_bind (res_fold (\<lambda>final_state resource_key.
         case py_split CHR ''/'' resource_key of
           rtype # ns # name # rest \<Rightarrow>
             res_bind (py_getitem state rtype) (\<lambda>objects. res_bind (py_getitem objects name) (\<lambda>v.
               Inr (AList.update resource_key v final_state)))
         | _ \<Rightarrow> Inl IndexError) [] resource_keys) (\<lambda>final_state.
       Inr (if customized_checker final_state then []
            else [generate_alarm ''[CUSTOMIZED-LIVENESS]''
              (''liveness violation: checker '' @ checker_name @ '' failed on '' @ py_repr (JObj final_state))]))"

record type_summary =
  ts_testing :: "(string, string list) dict"
  ts_reference :: "(string, string list) dict"
  ts_random :: "string list"
  ts_masked :: "string list"

definition no_summary :: type_summary where
  "no_summary = \<lparr> ts_testing = [], ts_reference = [], ts_random = [], ts_masked = [] \<rparr>"

definition summary_step ::
  "test_context \<Rightarrow> jdict \<Rightarrow> jdict \<Rightarrow> type_summary \<Rightarrow> string \<Rightarrow> type_summary res" where
  "summary_step tc reference_state testing_state ts resource_key =
     res_bind (kind_native_objects resource_key) (\<lambda>native.
     if native then Inr ts
     else res_bind (parse_key resource_key) (\<lambda>(resource_type, namespace, name).
     res_bind (resource_type_should_be_masked_by_controller_config tc resource_type) (\<lambda>masked.
       let ts1 = (if masked then ts\<lparr> ts_masked := ts_masked ts @ [resource_type] \<rparr> else ts);
           ts2 = (if map_of testing_state resource_key \<noteq> None
                  then ts1\<lparr> ts_testing := dict_append resource_type resource_key (ts_testing ts1) \<rparr> else ts1)
       in Inr (case map_of reference_state resource_key of
           None \<Rightarrow> ts2
         | Some v \<Rightarrow>
             let ts3 = ts2\<lparr> ts_reference := dict_append resource_type resource_key (ts_reference ts2) \<rparr> in
             if is_ignored v \<and> resource_type \<notin> set (ts_random ts3)
             then ts3\<lparr> ts_random := ts_random ts3 @ [resource_type] \<rparr> else ts3))))"

definition more_objects :: string where
  "more_objects = ''End state inconsistency - more objects than reference:''"

definition fewer_objects :: string where
  "fewer_objects = ''End state inconsistency - fewer objects than reference:''"

text \<open>The message on a key that only one of the states has.\<close>

definition existence_step ::
  "test_context \<Rightarrow> string list \<Rightarrow> string list \<Rightarrow> string list \<Rightarrow> string \<Rightarrow> string \<Rightarrow> string list \<Rightarrow> string \<Rightarrow> string list res" where
  "existence_step tc current_family reference_family random_types sub_alarm suffix messages resource_key =
     res_bind (kind_native_objects resource_key) (\<lambda>native.
     if native then Inr messages
     else res_bind (resource_key_should_be_masked tc current_family reference_family resource_key) (\<lambda>masked.
       if masked then Inr messages
       else res_bind (parse_key resource_key) (\<lambda>(resource_type, namespace, name).
         if resource_type \<in> set random_types then Inr messages
         else Inr (messages @ [generate_alarm sub_alarm
           (py_join ''/'' [resource_type, namespace, name] @ '' '' @ suffix)]))))"

definition count_message :: "string \<Rightarrow> string list \<Rightarrow> string list \<Rightarrow> string" where
  "count_message resource_type reference_list testing_list =
     generate_alarm (if length testing_list > length reference_list then more_objects else fewer_objects)
       (nat_str (length reference_list) @ '' '' @ resource_type @ '' object(s) seen after reference run '' @
        list_repr reference_list @ '' but '' @ nat_str (length testing_list) @ '' '' @ resource_type @
        '' object(s) seen after testing run '' @ list_repr testing_list)"

definition count_alarm :: "type_summary \<Rightarrow> string \<Rightarrow> string list" where
  "count_alarm ts resource_type =
     (if resource_type \<in> set (ts_masked ts) then []
      else let testing_list = dict_group (ts_testing ts) resource_type;
               reference_list = dict_group (ts_reference ts) resource_type in
        if length testing_list = length reference_list then []
        else [count_message resource_type (sort reference_list) (sort testing_list)])"

section \<open>Fields\<close>

text \<open>
  One difference of the tree view of \<open>DeepDiff\<close>: its path and the two values; a value that is not
  present is \<open>None\<close>.
\<close>

record deep_delta =
  dd_path :: "path_step list"
  dd_t1 :: "json option"
  dd_t2 :: "json option"

type_synonym tree_diff = "(string \<times> deep_delta list) list"

definition opt_ignored :: "json option \<Rightarrow> bool" where
  "opt_ignored v \<longleftrightarrow> (case v of None \<Rightarrow> False | Some j \<Rightarrow> is_ignored j)"

definition opt_mask_regex :: "json option \<Rightarrow> bool" where
  "opt_mask_regex v \<longleftrightarrow> (case v of None \<Rightarrow> False | Some j \<Rightarrow> match_mask_regex j)"

definition opt_format :: "json option \<Rightarrow> string res" where
  "opt_format v = (case v of None \<Rightarrow> Inl OutOfModel | Some j \<Rightarrow> Inr (py_format j))"

definition field_messages ::
  "string \<Rightarrow> string \<Rightarrow> string \<Rightarrow> deep_delta \<Rightarrow> (string list \<times> string list) res" where
  "field_messages resource_key field_path delta_type d =
     (if delta_type = ''dictionary_item_added'' \<or> delta_type = ''iterable_item_added'' then
        res_bind (opt_format (dd_t2 d)) (\<lambda>t2. Inr ([],
          [generate_alarm ''End state inconsistency - more object fields than reference:''
            (resource_key @ field_path @ '' not seen after reference run, but is '' @ t2 @ '' after testing run'')]))
      else if delta_type = ''dictionary_item_removed'' \<or> delta_type = ''iterable_item_removed'' then
        res_bind (if opt_ignored (dd_t1 d) then Inr ''a nondeterministic value'' else opt_format (dd_t1 d)) (\<lambda>t1. Inr ([],
          [generate_alarm ''End state inconsistency - fewer object fields than reference:''
            (resource_key @ field_path @ '' is '' @ t1 @ '' after reference run, but not seen after testing run'')]))
      else if delta_type = ''values_changed'' \<or> delta_type = ''type_changes'' then
        res_bind (opt_format (dd_t1 d)) (\<lambda>t1. res_bind (opt_format (dd_t2 d)) (\<lambda>t2. Inr (
          [generate_alarm ''End state inconsistency - object field has a different value:''
            (resource_key @ field_path @ '' is '' @ t1 @ '' after reference run, but '' @ t2 @ '' after testing run'')], [])))
      else Inl AssertionError)"

definition controller_shape :: "test_context \<Rightarrow> string \<Rightarrow> path_step list \<Rightarrow> path_step list res" where
  "controller_shape tc resource_type path =
     res_bind (py_in resource_type (kc_custom_resource_definitions (tc_controller_config tc))) (\<lambda>custom.
       Inr (if custom then path else tranlate_apiserver_shape_to_controller_shape path))"

text \<open>The keys and paths of the common configuration that are never compared.\<close>

definition boring_path :: "test_context \<Rightarrow> string \<Rightarrow> path_step list \<Rightarrow> bool res" where
  "boring_path tc resource_key path =
     res_bind (as_mask_map (cc_field_key_mask (tc_common_config tc))) (\<lambda>field_key_mask.
     res_bind (get_mask_by_resource_key field_key_mask resource_key) (\<lambda>mask_keys.
     res_bind (as_mask_map (cc_field_path_mask (tc_common_config tc))) (\<lambda>field_path_mask.
     res_bind (get_mask_by_resource_key field_path_mask resource_key) (\<lambda>mask_paths.
       Inr (list_ex (\<lambda>kp. kp \<in> PKey ` set mask_keys) path \<or>
         length path > 2 \<and> list_ex (\<lambda>rule. equal_path rule (py_join ''/'' (map step_str (tl path)))) mask_paths)))))"

text \<open>A changed value that the learning runs disagree on, or that is a time or an address.\<close>

definition nondeterministic_change :: "string \<Rightarrow> deep_delta \<Rightarrow> bool" where
  "nondeterministic_change delta_type d \<longleftrightarrow> (delta_type = ''values_changed'' \<or> delta_type = ''type_changes'') \<and>
     (opt_ignored (dd_t1 d) \<or> opt_mask_regex (dd_t1 d) \<or> opt_mask_regex (dd_t2 d))"

definition delta_messages ::
  "test_context \<Rightarrow> string list \<Rightarrow> string list \<Rightarrow> string \<times> deep_delta \<Rightarrow> (string list \<times> string list) res" where
  "delta_messages tc current_family reference_family x = (case x of (delta_type, d) \<Rightarrow>
     (case dd_path d of
        [] \<Rightarrow> Inl IndexError
      | PIdx i # ps \<Rightarrow> Inl AttributeError
      | PKey resource_key # ps \<Rightarrow>
          res_bind (kind_native_objects resource_key) (\<lambda>native.
          if native then Inr ([], [])
          else res_bind (parse_key resource_key) (\<lambda>(resource_type, namespace, name).
          res_bind (controller_shape tc resource_type (dd_path d)) (\<lambda>path.
          res_bind (boring_path tc resource_key path) (\<lambda>should_be_masked.
          if length path = 1 then Inr ([], [])
          else if nondeterministic_change delta_type d then Inr ([], [])
          else if should_be_masked then Inr ([], [])
          else let field_path_list = map step_str (tl path) in
            res_bind (resource_key_should_be_masked tc current_family reference_family resource_key) (\<lambda>key_masked.
            if key_masked then Inr ([], [])
            else res_bind (resource_field_path_should_be_masked tc resource_key field_path_list) (\<lambda>field_masked.
            if field_masked then Inr ([], [])
            else field_messages resource_key (field_path_for_print field_path_list) delta_type d))))))))"

definition add_messages ::
  "test_context \<Rightarrow> string list \<Rightarrow> string list \<Rightarrow> string list \<times> string list \<Rightarrow> string \<times> deep_delta \<Rightarrow> (string list \<times> string list) res" where
  "add_messages tc current_family reference_family acc x =
     res_bind (delta_messages tc current_family reference_family x) (\<lambda>(ds, es). Inr (fst acc @ ds, snd acc @ es))"

definition compare_states ::
  "(json \<Rightarrow> json \<Rightarrow> tree_diff) \<Rightarrow> test_context \<Rightarrow> string list \<Rightarrow> string list \<Rightarrow> jdict \<Rightarrow> jdict \<Rightarrow> string list res" where
  "compare_states deep_diff tc current_family reference_family reference_state testing_state =
     (let testing_only = filter (\<lambda>k. map_of reference_state k = None) (map fst testing_state);
          reference_only = filter (\<lambda>k. map_of testing_state k = None) (map fst reference_state) in
      res_bind (res_fold (summary_step tc reference_state testing_state)
        no_summary
        (map fst testing_state @ reference_only)) (\<lambda>ts.
      res_bind (res_fold (existence_step tc current_family reference_family (ts_random ts) more_objects
        ''is not seen after reference run, but seen after testing run'') [] testing_only) (\<lambda>more.
      res_bind (res_fold (existence_step tc current_family reference_family (ts_random ts) fewer_objects
        ''is seen after reference run, but not seen after testing run'') more reference_only) (\<lambda>existence.
      let resource_existence_messages = existence @ concat (map (count_alarm ts) (ts_random ts)) in
      res_bind (res_fold (add_messages tc current_family reference_family) ([], [])
        (concat (map (\<lambda>(delta_type, ds). map (Pair delta_type) ds)
          (deep_diff (JObj reference_state) (JObj testing_state))))) (\<lambda>(fields_diff, fields_existence).
        Inr (sort resource_existence_messages @ sort fields_diff @ sort fields_existence))))))"

section \<open>What the loops compute\<close>

lemma res_fold_collects:
  assumes "res_fold f ms xs = Inr ms'"
    and "\<And>ms x ms'. x \<in> set xs \<Longrightarrow> f ms x = Inr ms' \<Longrightarrow> h ms' = h ms \<union> g x"
  shows "h ms' = h ms \<union> (\<Union>x\<in>set xs. g x)"
  using assms
proof (induction xs arbitrary: ms)
  case (Cons x xs)
  then obtain m1 where m1: "f ms x = Inr m1" "res_fold f m1 xs = Inr ms'" by (auto simp: res_bind_eq_Inr)
  show ?case using Cons.IH[OF m1(2)] Cons.prems(2)[OF _ m1(1)] Cons.prems(2) by auto
qed simp

text \<open>An object that is compared and its type.\<close>

definition compared :: "string \<Rightarrow> string \<Rightarrow> bool" where
  "compared key t \<longleftrightarrow> kind_native_objects key = Inr False \<and> (\<exists>ns n. parse_key key = Inr (t, ns, n))"

definition random_types :: "jdict \<Rightarrow> string set" where
  "random_types reference = {t. \<exists>k v. map_of reference k = Some v \<and> is_ignored v \<and> compared k t}"

definition objects_of_type :: "jdict \<Rightarrow> string \<Rightarrow> string set" where
  "objects_of_type state t = {k. map_of state k \<noteq> None \<and> compared k t}"

lemma compared_unique: "compared k t \<Longrightarrow> compared k t' \<Longrightarrow> t' = t"
  by (auto simp: compared_def)

lemma summary_step_cases:
  assumes "summary_step tc ref test ts key = Inr ts'"
  obtains (native) "kind_native_objects key = Inr True" "ts' = ts"
  | (object) t where "compared key t"
      "dict_group (ts_testing ts') = (\<lambda>u. dict_group (ts_testing ts) u @ (if u = t \<and> map_of test key \<noteq> None then [key] else []))"
      "dict_group (ts_reference ts') = (\<lambda>u. dict_group (ts_reference ts) u @ (if u = t \<and> map_of ref key \<noteq> None then [key] else []))"
      "set (ts_random ts') = set (ts_random ts) \<union> {u. u = t \<and> (\<exists>v. map_of ref key = Some v \<and> is_ignored v)}"
      "distinct (ts_random ts) \<longrightarrow> distinct (ts_random ts')"
      "set (ts_masked ts') = set (ts_masked ts) \<union> {u. u = t \<and> resource_type_should_be_masked_by_controller_config tc t = Inr True}"
proof (cases "kind_native_objects key = Inr True")
  case False
  then obtain t ns n b where o: "kind_native_objects key = Inr False" "parse_key key = Inr (t, ns, n)"
    "resource_type_should_be_masked_by_controller_config tc t = Inr b"
    using assms by (auto simp: summary_step_def res_bind_eq_Inr split: if_splits)
  then have "compared key t" by (simp add: compared_def)
  then show thesis using assms o
    by (intro object[of t])
       (auto simp: summary_step_def Let_def append_grouping.group_add split: option.splits if_splits)
qed (use assms native in \<open>simp add: summary_step_def\<close>)

lemma summary_fold:
  assumes "res_fold (summary_step tc ref test) no_summary keys = Inr ts"
  shows "dict_group (ts_testing ts) t = filter (\<lambda>k. compared k t \<and> map_of test k \<noteq> None) keys \<and>
    dict_group (ts_reference ts) t = filter (\<lambda>k. compared k t \<and> map_of ref k \<noteq> None) keys \<and>
    set (ts_random ts) = {t. \<exists>k\<in>set keys. compared k t \<and> (\<exists>v. map_of ref k = Some v \<and> is_ignored v)} \<and>
    distinct (ts_random ts) \<and>
    set (ts_masked ts) = {t. \<exists>k\<in>set keys. compared k t \<and> resource_type_should_be_masked_by_controller_config tc t = Inr True}"
  using assms
proof (induction keys arbitrary: ts rule: rev_induct)
  case Nil
  then show ?case by (auto simp: no_summary_def append_grouping.group_start)
next
  case (snoc key keys)
  then obtain ts1 where ts1: "res_fold (summary_step tc ref test) no_summary keys = Inr ts1"
    "summary_step tc ref test ts1 key = Inr ts" by (auto simp: res_fold_append res_bind_eq_Inr)
  note IH = snoc.IH[OF ts1(1)]
  from ts1(2) show ?case
  proof (cases rule: summary_step_cases)
    case native
    then show ?thesis using IH by (auto simp: compared_def)
  next
    case (object u)
    have u: "compared key w \<longleftrightarrow> w = u" for w using object(1) compared_unique by blast
    show ?thesis
    proof (intro conjI)
      show "set (ts_random ts) = {t. \<exists>k\<in>set (keys @ [key]). compared k t \<and> (\<exists>v. map_of ref k = Some v \<and> is_ignored v)}"
        using object(4) IH by (auto simp: u)
      show "set (ts_masked ts) = {t. \<exists>k\<in>set (keys @ [key]). compared k t \<and>
          resource_type_should_be_masked_by_controller_config tc t = Inr True}"
        using object(6) IH by (auto simp: u)
    qed (use object(2,3,5) IH in \<open>auto simp: u\<close>)
  qed
qed

definition object_alarm :: "string \<Rightarrow> string \<Rightarrow> string \<Rightarrow> string" where
  "object_alarm sub_alarm key suffix = generate_alarm sub_alarm (key @ '' '' @ suffix)"

lemma parse_key_join:
  assumes "parse_key key = Inr (t, ns, n)"
  shows "py_join ''/'' [t, ns, n] = key"
proof -
  have "py_split CHR ''/'' key = [t, ns, n]" using assms by (auto simp: parse_key_def split: list.splits)
  then show ?thesis using py_join_py_split[of "CHR ''/''" key] by simp
qed

definition reported_object :: "test_context \<Rightarrow> string list \<Rightarrow> string list \<Rightarrow> string set \<Rightarrow> string \<Rightarrow> bool" where
  "reported_object tc cf rf random key \<longleftrightarrow>
     resource_key_should_be_masked tc cf rf key = Inr False \<and> (\<exists>t. compared key t \<and> t \<notin> random)"

lemma existence_step_messages:
  assumes "existence_step tc cf rf random sub suffix ms key = Inr ms'"
  shows "set ms' = set ms \<union> {m. m = object_alarm sub key suffix \<and> reported_object tc cf rf (set random) key}"
proof -
  obtain native where native: "kind_native_objects key = Inr native"
    using assms by (auto simp: existence_step_def res_bind_eq_Inr)
  show ?thesis
  proof (cases "\<not> native \<and> resource_key_should_be_masked tc cf rf key = Inr False")
    case True
    then obtain t ns n where "parse_key key = Inr (t, ns, n)"
      using assms native by (auto simp: existence_step_def res_bind_eq_Inr)
    moreover note parse_key_join[OF this]
    ultimately show ?thesis using assms native True
      by (auto simp: existence_step_def object_alarm_def reported_object_def compared_def split: if_splits)
  next
    case False
    then show ?thesis using assms native
      by (auto simp: existence_step_def res_bind_eq_Inr reported_object_def compared_def split: if_splits)
  qed
qed

text \<open>The differences that are reported, with their message.\<close>

definition reported_delta ::
  "test_context \<Rightarrow> string list \<Rightarrow> string list \<Rightarrow> string \<times> deep_delta \<Rightarrow> string \<Rightarrow> bool" where
  "reported_delta tc cf rf x m \<longleftrightarrow> (case x of (delta_type, d) \<Rightarrow>
     \<exists>key ps t path ds es. dd_path d = PKey key # ps \<and> compared key t \<and> controller_shape tc t (dd_path d) = Inr path \<and>
       length path \<noteq> 1 \<and> \<not> nondeterministic_change delta_type d \<and> boring_path tc key path = Inr False \<and>
       resource_key_should_be_masked tc cf rf key = Inr False \<and>
       resource_field_path_should_be_masked tc key (map step_str (tl path)) = Inr False \<and>
       field_messages key (field_path_for_print (map step_str (tl path))) delta_type d = Inr (ds, es) \<and>
       m \<in> set ds \<union> set es)"

lemma delta_messages_exact:
  assumes "delta_messages tc cf rf x = Inr (ds, es)"
  shows "set ds \<union> set es = {m. reported_delta tc cf rf x m}"
proof -
  obtain delta_type d where x: "x = (delta_type, d)" by fastforce
  obtain key ps where path: "dd_path d = PKey key # ps"
    using assms by (auto simp: delta_messages_def x split: list.splits path_step.splits)
  obtain native where native: "kind_native_objects key = Inr native"
    using assms by (auto simp: delta_messages_def x path res_bind_eq_Inr)
  show ?thesis
  proof (cases native)
    case True
    then show ?thesis using assms native
      by (auto simp: delta_messages_def reported_delta_def x path compared_def)
  next
    case False
    then obtain t ns n p b where o: "parse_key key = Inr (t, ns, n)" "controller_shape tc t (dd_path d) = Inr p"
      "boring_path tc key p = Inr b"
      using assms native by (auto simp: delta_messages_def x path res_bind_eq_Inr)
    have c: "compared key u \<longleftrightarrow> u = t" for u using o(1) native False by (auto simp: compared_def)
    show ?thesis using assms native False o
      by (auto simp: delta_messages_def reported_delta_def x path c res_bind_eq_Inr Let_def split: if_splits)
  qed
qed

lemma add_messages_exact:
  assumes "add_messages tc cf rf acc x = Inr acc'"
  shows "set (fst acc') \<union> set (snd acc') = set (fst acc) \<union> set (snd acc) \<union> {m. reported_delta tc cf rf x m}"
proof -
  obtain ds es where "delta_messages tc cf rf x = Inr (ds, es)" "acc' = (fst acc @ ds, snd acc @ es)"
    using assms by (auto simp: add_messages_def res_bind_eq_Inr)
  then show ?thesis using delta_messages_exact[of tc cf rf x ds es] by auto
qed

section \<open>Which end states are reported\<close>

definition count_differs_by :: "jdict \<Rightarrow> jdict \<Rightarrow> string \<Rightarrow> string \<Rightarrow> bool" where
  "count_differs_by reference testing t m \<longleftrightarrow>
     card (objects_of_type testing t) \<noteq> card (objects_of_type reference t) \<and>
     m = count_message t (sorted_list_of_set (objects_of_type reference t)) (sorted_list_of_set (objects_of_type testing t))"

lemma sort_distinct: "distinct xs \<Longrightarrow> sort xs = sorted_list_of_set (set xs)"
  by (simp add: sorted_list_of_set_sort_remdups distinct_remdups_id)

text \<open>The keys of both states, in the order in which they are visited.\<close>

definition both_keys :: "jdict \<Rightarrow> jdict \<Rightarrow> string list" where
  "both_keys reference testing = map fst testing @ filter (\<lambda>k. map_of testing k = None) (map fst reference)"

lemma both_keys:
  assumes "dict_ok reference" "dict_ok testing"
  shows "set (both_keys reference testing) = {k. map_of reference k \<noteq> None \<or> map_of testing k \<noteq> None}"
    and "distinct (both_keys reference testing)"
proof -
  have "set (map fst d) = {k. map_of d k \<noteq> None}" for d :: jdict by (auto simp: map_of_eq_None_iff)
  then show "set (both_keys reference testing) = {k. map_of reference k \<noteq> None \<or> map_of testing k \<noteq> None}"
    by (auto simp: both_keys_def)
  show "distinct (both_keys reference testing)"
    using assms by (auto simp: both_keys_def dict_ok_def map_of_eq_None_iff)
qed

lemma summary_both:
  assumes "res_fold (summary_step tc ref test) no_summary (both_keys ref test) = Inr ts" "dict_ok ref" "dict_ok test"
  shows "set (ts_random ts) = random_types ref"
    and "t \<in> random_types ref \<Longrightarrow> set (count_alarm ts t) = {m.
      resource_type_should_be_masked_by_controller_config tc t \<noteq> Inr True \<and> count_differs_by ref test t m}"
proof -
  note fold = summary_fold[OF assms(1)] and keys = both_keys[OF assms(2,3)]
  show random: "set (ts_random ts) = random_types ref"
    using fold by (auto simp: random_types_def keys(1))
  have sets: "set (dict_group (ts_testing ts) t) = objects_of_type test t"
    "set (dict_group (ts_reference ts) t) = objects_of_type ref t" for t
    using fold[of t] by (auto simp: objects_of_type_def keys(1))
  have dist: "distinct (dict_group (ts_testing ts) t)" "distinct (dict_group (ts_reference ts) t)" for t
    using fold[of t] keys(2) by simp_all
  assume t: "t \<in> random_types ref"
  then have "t \<in> set (ts_masked ts) \<longleftrightarrow> resource_type_should_be_masked_by_controller_config tc t = Inr True"
    using fold by (auto simp: random_types_def keys(1))
  moreover have "length (dict_group (ts_testing ts) t) = card (objects_of_type test t)"
    "length (dict_group (ts_reference ts) t) = card (objects_of_type ref t)"
    using distinct_card[OF dist(1)[of t]] distinct_card[OF dist(2)[of t]] by (simp_all add: sets)
  ultimately show "set (count_alarm ts t) = {m.
      resource_type_should_be_masked_by_controller_config tc t \<noteq> Inr True \<and> count_differs_by ref test t m}"
    using sort_distinct[OF dist(1)[of t]] sort_distinct[OF dist(2)[of t]]
    by (auto simp: count_alarm_def count_differs_by_def sets Let_def)
qed

definition not_in_reference :: string where
  "not_in_reference = ''is not seen after reference run, but seen after testing run''"

definition not_in_testing :: string where
  "not_in_testing = ''is seen after reference run, but not seen after testing run''"

lemma compare_states_exact:
  assumes "compare_states deep_diff tc cf rf ref test = Inr messages" "dict_ok ref" "dict_ok test"
  shows "set messages =
      {object_alarm more_objects k not_in_reference | k. map_of test k \<noteq> None \<and> map_of ref k = None \<and>
        reported_object tc cf rf (random_types ref) k} \<union>
      {object_alarm fewer_objects k not_in_testing | k. map_of ref k \<noteq> None \<and> map_of test k = None \<and>
        reported_object tc cf rf (random_types ref) k} \<union>
      {m. \<exists>t\<in>random_types ref. resource_type_should_be_masked_by_controller_config tc t \<noteq> Inr True \<and>
        count_differs_by ref test t m} \<union>
      {m. \<exists>(delta_type, ds)\<in>set (deep_diff (JObj ref) (JObj test)). \<exists>d\<in>set ds. reported_delta tc cf rf (delta_type, d) m} \<and>
    (test = ref \<and> deep_diff (JObj ref) (JObj test) = [] \<longrightarrow> messages = [])"
proof -
  let ?deltas = "concat (map (\<lambda>(delta_type, ds). map (Pair delta_type) ds) (deep_diff (JObj ref) (JObj test)))"
  obtain ts more existence fd fe where st:
    "res_fold (summary_step tc ref test) no_summary (both_keys ref test) = Inr ts"
    "res_fold (existence_step tc cf rf (ts_random ts) more_objects not_in_reference) []
      (filter (\<lambda>k. map_of ref k = None) (map fst test)) = Inr more"
    "res_fold (existence_step tc cf rf (ts_random ts) fewer_objects not_in_testing) more
      (filter (\<lambda>k. map_of test k = None) (map fst ref)) = Inr existence"
    "res_fold (add_messages tc cf rf) ([], []) ?deltas = Inr (fd, fe)"
    "messages = sort (existence @ concat (map (count_alarm ts) (ts_random ts))) @ sort fd @ sort fe"
    using assms(1) unfolding compare_states_def Let_def both_keys_def not_in_reference_def not_in_testing_def
    by (elim res_bind_eq_Inr[THEN iffD1, elim_format] exE conjE) (auto simp: res_bind_eq_Inr)
  have keys: "k \<in> set (map fst d) \<longleftrightarrow> map_of d k \<noteq> None" for k and d :: jdict by (auto simp: map_of_eq_None_iff)
  note random = summary_both(1)[OF st(1) assms(2,3)]
  have more: "set more = {object_alarm more_objects k not_in_reference | k. map_of test k \<noteq> None \<and> map_of ref k = None \<and>
        reported_object tc cf rf (random_types ref) k}"
    using res_fold_collects[where h = set, OF st(2) existence_step_messages] by (auto simp: random keys[simplified] simp del: not_None_eq)
  have ex: "set existence = set more \<union> {object_alarm fewer_objects k not_in_testing | k. map_of ref k \<noteq> None \<and>
        map_of test k = None \<and> reported_object tc cf rf (random_types ref) k}"
    using res_fold_collects[where h = set, OF st(3) existence_step_messages] by (auto simp: random keys[simplified] simp del: not_None_eq)
  have counts: "set (concat (map (count_alarm ts) (ts_random ts))) = {m. \<exists>t\<in>random_types ref.
      resource_type_should_be_masked_by_controller_config tc t \<noteq> Inr True \<and> count_differs_by ref test t m}"
    using summary_both(2)[OF st(1) assms(2,3)] by (auto simp: random)
  have "set fd \<union> set fe = (\<Union>x\<in>set ?deltas. {m. reported_delta tc cf rf x m})"
    using res_fold_collects[where h = "\<lambda>acc. set (fst acc) \<union> set (snd acc)" and g = "\<lambda>x. {m. reported_delta tc cf rf x m}",
        OF st(4) add_messages_exact] by simp
  then have deltas: "set fd \<union> set fe = {m. \<exists>(delta_type, ds)\<in>set (deep_diff (JObj ref) (JObj test)).
      \<exists>d\<in>set ds. reported_delta tc cf rf (delta_type, d) m}"
    by (auto split: prod.splits)
  have all: "set messages = set more \<union> {object_alarm fewer_objects k not_in_testing | k. map_of ref k \<noteq> None \<and>
        map_of test k = None \<and> reported_object tc cf rf (random_types ref) k} \<union>
      {m. \<exists>t\<in>random_types ref. resource_type_should_be_masked_by_controller_config tc t \<noteq> Inr True \<and>
        count_differs_by ref test t m} \<union> (set fd \<union> set fe)"
    unfolding st(5) using ex counts by auto
  have "messages = []" if "test = ref" "deep_diff (JObj ref) (JObj test) = []"
  proof -
    have "set messages = {}" unfolding all more deltas using that by (auto simp: count_differs_by_def)
    then show ?thesis by simp
  qed
  then show ?thesis unfolding all more deltas by blast
qed

text \<open>
  C9: the alarms on the end state are exactly these: every object that only one of the two states has
  and that is neither native to the cluster, nor masked, nor of a type with random names; every
  type with random names that is not masked and has different numbers of objects; and every difference
  \<open>DeepDiff\<close> reports inside an object that is not nondeterministic, boring or masked. An end state
  equal to the reference raises no alarm.
\<close>

theorem end_state_alarms_exact:
  assumes "compare_states deep_diff tc cf rf ref test = Inr messages" "dict_ok ref" "dict_ok test"
  shows "set messages =
      {object_alarm more_objects k not_in_reference | k. map_of test k \<noteq> None \<and> map_of ref k = None \<and>
        reported_object tc cf rf (random_types ref) k} \<union>
      {object_alarm fewer_objects k not_in_testing | k. map_of ref k \<noteq> None \<and> map_of test k = None \<and>
        reported_object tc cf rf (random_types ref) k} \<union>
      {m. \<exists>t\<in>random_types ref. resource_type_should_be_masked_by_controller_config tc t \<noteq> Inr True \<and>
        count_differs_by ref test t m} \<union>
      {m. \<exists>(delta_type, ds)\<in>set (deep_diff (JObj ref) (JObj test)). \<exists>d\<in>set ds. reported_delta tc cf rf (delta_type, d) m} \<and>
    (test = ref \<and> deep_diff (JObj ref) (JObj test) = [] \<longrightarrow> messages = [])"
  by (rule compare_states_exact[OF assms])

text \<open>A changed field and an object the reference does not have.\<close>

definition state_tc :: test_context where
  "state_tc = digest_tc\<lparr>
     tc_common_config := (tc_common_config digest_tc)\<lparr> cc_field_key_mask := JObj [], cc_field_path_mask := JObj [] \<rparr>,
     tc_controller_config := (tc_controller_config digest_tc)\<lparr>
       kc_end_state_checker_mask := JObj [], kc_custom_resource_definitions := JList [] \<rparr> \<rparr>"

definition sample_tree_diff :: "json \<Rightarrow> json \<Rightarrow> tree_diff" where
  "sample_tree_diff a b = (if a = b then [] else
     [(''dictionary_item_added'', [\<lparr> dd_path = [PKey ''pod/default/b''], dd_t1 = None, dd_t2 = Some (JObj []) \<rparr>]),
      (''values_changed'', [\<lparr> dd_path = [PKey ''pod/default/a'', PKey ''Spec''], dd_t1 = Some (JInt 1), dd_t2 = Some (JInt 2) \<rparr>])])"

lemma compare_sample:
  "map_sum id length (compare_states sample_tree_diff state_tc [] [] [(''pod/default/a'', JObj [(''Spec'', JInt 1)])]
     [(''pod/default/a'', JObj [(''Spec'', JInt 2)]), (''pod/default/b'', JObj [])]) = Inr 2"
  by code_simp

theorem end_state_alarms_exact_witness:
  "\<exists>messages. compare_states sample_tree_diff state_tc [] [] [(''pod/default/a'', JObj [(''Spec'', JInt 1)])]
      [(''pod/default/a'', JObj [(''Spec'', JInt 2)]), (''pod/default/b'', JObj [])] = Inr messages \<and>
    object_alarm more_objects ''pod/default/b'' not_in_reference \<in> set messages \<and> length messages = 2"
proof -
  let ?ref = "[(''pod/default/a'', JObj [(''Spec'', JInt 1)])]" and ?b = "''pod/default/b''"
  let ?test = "[(''pod/default/a'', JObj [(''Spec'', JInt 2)]), (?b, JObj [])]"
  obtain ms where ms: "compare_states sample_tree_diff state_tc [] [] ?ref ?test = Inr ms" "length ms = 2"
    using compare_sample by (cases "compare_states sample_tree_diff state_tc [] [] ?ref ?test") simp_all
  have "dict_ok ?ref" "dict_ok ?test" by (simp_all add: dict_ok_def)
  note exact = end_state_alarms_exact[OF ms(1) this]
  have "random_types ?ref = {}" by (auto simp: random_types_def is_ignored_def)
  moreover have "resource_key_should_be_masked state_tc [] [] ?b = Inr False" by code_simp
  moreover have "kind_native_objects ?b = Inr False" "parse_key ?b = Inr (''pod'', ''default'', ''b'')" by code_simp+
  ultimately have rep: "reported_object state_tc [] [] (random_types ?ref) ?b"
    by (auto simp: reported_object_def compared_def)
  have "object_alarm more_objects ?b not_in_reference \<in> set ms"
    unfolding exact[THEN conjunct1] using rep by (intro UnI1 CollectI exI[of _ ?b] conjI refl) simp_all
  with ms show ?thesis by blast
qed

end
