(* ===== verification/Policy_Common.thy ===== *)
theory Policy_Common
  imports Config
begin

text \<open>
  What the three perturbation policies share, \<^verbatim>\<open>sieve_perturbation_policies/common.py\<close>: when an
  event can be detected again in a test run, and when the object it is about has a nondeterministic
  name. The end state the oracle holds for the workload, \<open>state.json\<close>, is an argument.
\<close>

definition convert_deltafifo_etype_to_API_etype :: "string \<Rightarrow> string" where
  "convert_deltafifo_etype_to_API_etype etype =
     (if etype = HEAR_ADDED then API_ADDED
      else if etype = HEAR_UPDATED then API_MODIFIED
      else if etype = HEAR_DELETED then API_DELETED
      else API_MODIFIED)"

definition event_diff_validation_check :: "string \<Rightarrow> string \<Rightarrow> unit res" where
  "event_diff_validation_check prev_etype cur_etype =
     res_bind (py_assert (\<not> (prev_etype = cur_etype \<and>
       (prev_etype = HEAR_ADDED \<or> prev_etype = HEAR_DELETED)))) (\<lambda>_.
     res_bind (py_assert (\<not> (prev_etype = HEAR_DELETED \<and> cur_etype \<noteq> HEAR_ADDED \<and>
       cur_etype \<noteq> HEAR_UPDATED))) (\<lambda>_.
     py_assert (\<not> (prev_etype \<noteq> EVENT_NONE_TYPE \<and> prev_etype \<noteq> HEAR_DELETED \<and>
       cur_etype = HEAR_ADDED))))"

text \<open>Python's \<open>==\<close> on two differences, either of which may be \<open>None\<close>.\<close>

definition same_diff :: "jdict option \<Rightarrow> jdict option \<Rightarrow> bool" where
  "same_diff p c \<longleftrightarrow> json_eq (slim_json p) (slim_json c)"

text \<open>The condition \<open>d is not None and "status" not in d\<close>.\<close>

definition no_status :: "jdict option \<Rightarrow> bool" where
  "no_status d = (case d of None \<Rightarrow> False | Some m \<Rightarrow> map_of m ''status'' = None)"

definition is_update_or_patch :: "string \<Rightarrow> bool" where
  "is_update_or_patch etype \<longleftrightarrow> etype = WRITE_UPDATE \<or> etype = WRITE_PATCH \<or>
     etype = WRITE_STATUS_UPDATE \<or> etype = WRITE_STATUS_PATCH"

definition is_status_write :: "string \<Rightarrow> bool" where
  "is_status_write etype \<longleftrightarrow> etype = WRITE_STATUS_UPDATE \<or> etype = WRITE_STATUS_PATCH"

definition detectable_event_diff ::
  "bool \<Rightarrow> jdict option \<Rightarrow> jdict option \<Rightarrow> string \<Rightarrow> string \<Rightarrow> nat \<Rightarrow> bool res" where
  "detectable_event_diff recv_event diff_prev_obj diff_cur_obj prev_etype cur_etype signature_counter =
     (if signature_counter > 3 then Inr False
      else if recv_event then
        res_bind (event_diff_validation_check prev_etype cur_etype) (\<lambda>_.
          if prev_etype = EVENT_NONE_TYPE \<and> cur_etype \<noteq> HEAR_ADDED then Inr False
          else if cur_etype \<notin> set detectable_controller_hear_types then Inr False
          else if same_diff diff_prev_obj diff_cur_obj \<and> cur_etype = HEAR_UPDATED then Inr False
          else Inr True)
      else if cur_etype \<notin> set detectable_controller_write_types then Inr False
      else if same_diff diff_prev_obj diff_cur_obj \<and> is_update_or_patch cur_etype then Inr False
      else if no_status diff_prev_obj \<and> no_status diff_cur_obj \<and> is_status_write cur_etype
      then Inr False
      else Inr True)"

text \<open>\<open>nondeterministic_key\<close>, from the fields of the hear or write it reads.\<close>

definition nondeterministic_key :: "json \<Rightarrow> json \<Rightarrow> string \<Rightarrow> string \<Rightarrow> bool res" where
  "nondeterministic_key end_state obj_map key name =
     res_bind (extract_generate_name obj_map) (\<lambda>generate_name.
     res_bind (py_in key end_state) (\<lambda>known.
       if \<not> known then
         if generate_name \<noteq> JNull
         then res_bind (as_str generate_name) (\<lambda>gn. Inr (is_generated_random_name name gn))
         else Inr False
       else res_bind (py_getitem end_state key) (\<lambda>state.
         Inr (json_eq state (JStr ''SIEVE-IGNORE'')))))"

definition nondeterministic_write :: "json \<Rightarrow> controller_write \<Rightarrow> bool res" where
  "nondeterministic_write end_state w =
     nondeterministic_key end_state (cw_obj_map w) (cw_key w) (cw_name w)"

definition nondeterministic_hear :: "json \<Rightarrow> controller_hear \<Rightarrow> bool res" where
  "nondeterministic_hear end_state h =
     nondeterministic_key end_state (ch_obj_map h) (ch_key h) (ch_name h)"

definition detectable_hear :: "controller_hear \<Rightarrow> bool res" where
  "detectable_hear h = detectable_event_diff True (ch_slim_prev_obj_map h) (ch_slim_cur_obj_map h)
     (ch_prev_etype h) (ch_etype h) (ch_signature_counter h)"

definition detectable_write :: "controller_write \<Rightarrow> bool res" where
  "detectable_write w = detectable_event_diff False (cw_slim_prev_obj_map w) (cw_slim_cur_obj_map w)
     (cw_prev_etype w) (cw_etype w) (cw_signature_counter w)"

section \<open>Test plans\<close>

text \<open>
  The plans generated so far: how many, and the files that were written. Each policy numbers its
  files and writes them when \<open>persist_test_plans_enabled\<close> is set.
\<close>

type_synonym plan_files = "nat \<times> (string \<times> json) list"

definition save_plan :: "test_context \<Rightarrow> string \<Rightarrow> string \<Rightarrow> plan_files \<Rightarrow> json \<Rightarrow> plan_files" where
  "save_plan tc path prefix st plan = (case st of (i, files) \<Rightarrow>
     let file_name = path_join path (prefix @ nat_str (Suc i) @ ''.yaml'')
     in (Suc i, if py_truth (cc_persist_test_plans_enabled (tc_common_config tc))
                then files @ [(file_name, plan)] else files))"

text \<open>The four numbers an analysis returns: baseline, after each pruning, final.\<close>

type_synonym spec_numbers = "int \<times> int \<times> int \<times> int"

text \<open>A trigger that is defined by one condition, and one condition observed at a point.\<close>

definition observed :: "string \<Rightarrow> json \<Rightarrow> string \<Rightarrow> json \<Rightarrow> json" where
  "observed name condition when observer =
     JObj [(''triggerName'', JStr name), (''condition'', condition),
       (''observationPoint'', JObj [(''when'', JStr when), (''by'', observer)])]"

definition trigger_of :: "json list \<Rightarrow> string \<Rightarrow> json" where
  "trigger_of definitions expression =
     JObj [(''definitions'', JList definitions), (''expression'', JStr expression)]"

definition condition_of :: "string \<Rightarrow> string \<Rightarrow> nat \<Rightarrow> json" where
  "condition_of ctype resource_key n = JObj [(''conditionType'', JStr ctype),
     (''resourceKey'', JStr resource_key), (''occurrence'', JInt (int n))]"

definition plan_of :: "test_context \<Rightarrow> json list \<Rightarrow> json" where
  "plan_of tc actions = JObj [(''workload'', JStr (tc_test_workload tc)), (''actions'', JList actions)]"

text \<open>A context that persists plans and in which every other flag has the value \<open>b\<close>.\<close>

definition sample_tc :: "bool \<Rightarrow> test_context" where
  "sample_tc b = sample_context TEST 1 False
     ((projr (get_common_config (JObj (map (\<lambda>k. (k, JBool b)) common_config_keys)) None))\<lparr>
        cc_persist_test_plans_enabled := JBool True \<rparr>)
     (projr (load_controller_config (JObj (map (\<lambda>k. (k, JList [])) controller_config_keys))))"

section \<open>Numbering\<close>

lemma save_plan_count: "fst (save_plan tc path prefix st plan) = Suc (fst st)"
  by (simp add: save_plan_def Let_def split: prod.splits)

text \<open>
  The files a run of \<open>save_plan\<close> leaves: nothing when plans are not persisted, else one file per
  plan, numbered from one.
\<close>

definition saved :: "test_context \<Rightarrow> string \<Rightarrow> string \<Rightarrow> json list \<Rightarrow> plan_files" where
  "saved tc path prefix plans = (length plans,
     if py_truth (cc_persist_test_plans_enabled (tc_common_config tc))
     then map (\<lambda>(i, plan). (path_join path (prefix @ nat_str i @ ''.yaml''), plan)) (enumerate 1 plans)
     else [])"

lemma saved_Nil: "saved tc path prefix [] = (0, [])"
  by (simp add: saved_def)

lemma save_plan_saved: "save_plan tc path prefix (saved tc path prefix plans) plan = saved tc path prefix (plans @ [plan])"
  by (simp add: save_plan_def saved_def Let_def enumerate_append_eq)

lemma foldl_save_plan:
  "foldl (save_plan tc path prefix) (saved tc path prefix plans) ps = saved tc path prefix (plans @ ps)"
  by (induction ps arbitrary: plans) (simp_all add: save_plan_saved)

lemma fold_saved:
  assumes "res_fold (\<lambda>st v. res_bind (gen v) (\<lambda>p. Inr (save_plan tc path prefix st p)))
    (saved tc path prefix plans) vs = Inr st"
  shows "\<exists>ps. res_map gen vs = Inr ps \<and> st = saved tc path prefix (plans @ ps)"
  using assms
proof (induction vs arbitrary: plans)
  case (Cons v vs)
  then obtain p where p: "gen v = Inr p" and
    "res_fold (\<lambda>st v. res_bind (gen v) (\<lambda>p. Inr (save_plan tc path prefix st p)))
      (saved tc path prefix (plans @ [p])) vs = Inr st"
    by (auto simp: res_simps save_plan_saved)
  from Cons.IH[OF this(2)] p show ?case by (auto simp: res_simps)
qed simp

lemma nat_str_inj [simp]: "nat_str i = nat_str j \<longleftrightarrow> i = j"
  by (metis digits_val_nat_str)

lemma path_join_inj: "\<not> py_startswith b ''/'' \<Longrightarrow> \<not> py_startswith c ''/'' \<Longrightarrow> path_join a b = path_join a c \<longleftrightarrow> b = c"
  by (auto simp: path_join_def)

lemma saved_distinct:
  assumes "prefix \<noteq> []" "hd prefix \<noteq> CHR ''/''"
  shows "distinct (map fst (snd (saved tc path prefix plans)))"
proof -
  have "\<not> py_startswith (prefix @ s) ''/''" for s using assms by (cases prefix) (auto simp: py_startswith_def)
  then have inj: "path_join path (prefix @ nat_str i @ ''.yaml'') = path_join path (prefix @ nat_str j @ ''.yaml'')
      \<longleftrightarrow> i = j" for i j by (subst path_join_inj) auto
  have "map fst (map (\<lambda>(i, plan). (path_join path (prefix @ nat_str i @ ''.yaml''), plan)) (enumerate n plans)) =
      map (\<lambda>i. path_join path (prefix @ nat_str i @ ''.yaml'')) [n..<n + length plans]" for n
    by (simp add: comp_def case_prod_beta flip: map_fst_enumerate)
  note names = this[of 1]
  have "distinct (map (\<lambda>i. path_join path (prefix @ nat_str i @ ''.yaml'')) [1..<1 + length plans])"
    by (simp add: distinct_map inj_on_def inj del: upt_Suc)
  then show ?thesis unfolding saved_def snd_conv
    by (cases "py_truth (cc_persist_test_plans_enabled (tc_common_config tc))") (simp_all only: names if_True if_False, simp)
qed

end
