(* ===== verification/Intermediate_State.thy ===== *)
theory Intermediate_State
  imports Policy_Common
begin

text \<open>
  The intermediate-state policy, \<^verbatim>\<open>sieve_perturbation_policies/intermediate_state.py\<close>: a crash of
  the controller after each of its writes. The analysis prunes the writes that change nothing or
  failed and those a test run cannot detect, and generates one test plan for each that is left.
\<close>

section \<open>Passes\<close>

definition detectable_write_vertex :: "json \<Rightarrow> event_graph \<Rightarrow> nat \<Rightarrow> bool res" where
  "detectable_write_vertex end_state g v =
     res_bind (py_assert (is_controller_write (vertex g v))) (\<lambda>_.
     res_bind (as_write (content g v)) (\<lambda>w.
     res_bind (nondeterministic_write end_state w) (\<lambda>skip.
       if skip then Inr False else detectable_write w)))"

definition intermediate_state_detectable_pass :: "json \<Rightarrow> event_graph \<Rightarrow> nat list \<Rightarrow> nat list res" where
  "intermediate_state_detectable_pass end_state g event_vertices =
     res_filter (detectable_write_vertex end_state g) event_vertices"

text \<open>
  A write keeps its place if it creates or deletes, or if the object it writes differs from the
  one that was read before it, in the status for a status write.
\<close>

definition effective_write :: "controller_write \<Rightarrow> bool res" where
  "effective_write w =
     (if is_creation_or_deletion (cw_etype w) then Inr True
      else res_bind (as_dict (case cw_prev_obj_map w of None \<Rightarrow> JNull | Some j \<Rightarrow> j)) (\<lambda>prev.
      res_bind (as_dict (cw_obj_map w)) (\<lambda>cur.
        let d = diff_event prev cur {} {} True False;
            unmasked_prev_object = map_option fst d;
            unmasked_cur_object = map_option snd d;
            cur_etype = cw_etype w;
            empty_write =
              same_diff unmasked_prev_object unmasked_cur_object \<and> is_update_or_patch cur_etype \<or>
              no_status unmasked_prev_object \<and> no_status unmasked_cur_object \<and> is_status_write cur_etype
        in Inr (\<not> empty_write))))"

definition effective_write_filtering_pass :: "event_graph \<Rightarrow> nat list \<Rightarrow> nat list res" where
  "effective_write_filtering_pass g event_vertices =
     res_filter (\<lambda>v. res_bind (py_assert (is_controller_write (vertex g v))) (\<lambda>_.
       res_bind (as_write (content g v)) effective_write)) event_vertices"

definition no_error_write_filtering_pass :: "event_graph \<Rightarrow> nat list \<Rightarrow> nat list res" where
  "no_error_write_filtering_pass g event_vertices =
     res_filter (\<lambda>v. res_bind (py_assert (is_controller_write (vertex g v))) (\<lambda>_.
       res_bind (as_write (content g v)) (\<lambda>w. Inr (cw_error w \<in> set ALLOWED_ERROR_TYPE)))) event_vertices"

section \<open>Plans\<close>

definition write_condition :: "controller_write \<Rightarrow> json" where
  "write_condition w =
     (let resource_key = generate_key (cw_rtype w) (cw_namespace w) (cw_name w) in
      if cw_etype w = WRITE_CREATE then condition_of ''onObjectCreate'' resource_key (cw_signature_counter w)
      else if cw_etype w = WRITE_DELETE then condition_of ''onObjectDelete'' resource_key (cw_signature_counter w)
      else JObj [(''conditionType'', JStr ''onObjectUpdate''), (''resourceKey'', JStr resource_key),
             (''prevStateDiff'', JStr (dumps (slim_json (cw_slim_prev_obj_map w)))),
             (''curStateDiff'', JStr (dumps (slim_json (cw_slim_cur_obj_map w)))),
             (''occurrence'', JInt (int (cw_signature_counter w)))])"

definition restart_action :: "test_context \<Rightarrow> json \<Rightarrow> json" where
  "restart_action tc trigger_definition =
     JObj [(''actionType'', JStr ''restartController''),
       (''controllerLabel'', kc_controller_pod_label (tc_controller_config tc)),
       (''trigger'', trigger_of [trigger_definition] ''trigger1'')]"

definition generate_intermediate_state_test_plan_for_controller_write ::
  "test_context \<Rightarrow> controller_write \<Rightarrow> json" where
  "generate_intermediate_state_test_plan_for_controller_write tc w =
     plan_of tc [restart_action tc (observed ''trigger1'' (write_condition w) ''afterControllerWrite''
       (JStr (cw_reconcile_fun w)))]"

definition generate_intermediate_state_test_plan_for_annotated_api_invocation ::
  "test_context \<Rightarrow> controller_nk_write \<Rightarrow> json" where
  "generate_intermediate_state_test_plan_for_annotated_api_invocation tc a =
     plan_of tc [restart_action tc (observed ''trigger1''
       (JObj [(''conditionType'', JStr ''onAnnotatedAPICall''), (''module'', JStr (cn_module a)),
          (''filePath'', JStr (cn_file_path a)), (''receiverType'', JStr (cn_recv_type a)),
          (''funName'', JStr (cn_fun_name a)), (''occurrence'', JInt (int (cn_signature_counter a)))])
       ''afterAnnotatedAPICall'' (JStr (cn_reconcile_fun a)))]"

definition save_intermediate :: "test_context \<Rightarrow> string \<Rightarrow> plan_files \<Rightarrow> json \<Rightarrow> plan_files" where
  "save_intermediate tc path = save_plan tc path ''intermediate-state-test-plan-''"

definition intermediate_state_analysis ::
  "test_context \<Rightarrow> json \<Rightarrow> event_graph \<Rightarrow> string \<Rightarrow> (spec_numbers \<times> plan_files) res" where
  "intermediate_state_analysis tc end_state g path =
     (let writes = eg_writes g; invocations = eg_nk_writes g;
          count = (\<lambda>vs. int (length vs) + int (length invocations));
          baseline_spec_number = count writes;
          after_p1_spec_number = count writes
      in res_bind (if py_truth (cc_effective_updates_pruning_enabled (tc_common_config tc))
           then res_bind (effective_write_filtering_pass g writes) (\<lambda>writes1.
             res_bind (no_error_write_filtering_pass g writes1) (\<lambda>writes2.
               Inr (writes2, count writes2)))
           else Inr (writes, -1)) (\<lambda>(writes2, after_p2_spec_number).
         res_bind (if py_truth (cc_nondeterministic_pruning_enabled (tc_common_config tc))
           then intermediate_state_detectable_pass end_state g writes2
           else Inr writes2) (\<lambda>writes3.
         res_bind (res_fold (\<lambda>st v. res_bind (as_write (content g v)) (\<lambda>w.
             Inr (save_intermediate tc path st
               (generate_intermediate_state_test_plan_for_controller_write tc w)))) (0, []) writes3) (\<lambda>st.
         res_bind (res_fold (\<lambda>st v. res_bind (as_nk_write (content g v)) (\<lambda>a.
             Inr (save_intermediate tc path st
               (generate_intermediate_state_test_plan_for_annotated_api_invocation tc a)))) st invocations) (\<lambda>st'.
           Inr ((baseline_spec_number, after_p1_spec_number, after_p2_spec_number, count writes3), st'))))))"

section \<open>What is generated\<close>

text \<open>The writes that survive the enabled prunings, and the plans of the writes and invocations.\<close>

definition kept_write :: "test_context \<Rightarrow> json \<Rightarrow> event_graph \<Rightarrow> nat \<Rightarrow> bool" where
  "kept_write tc end_state g v \<longleftrightarrow>
     (py_truth (cc_effective_updates_pruning_enabled (tc_common_config tc)) \<longrightarrow>
        write_sat (\<lambda>w. effective_write w = Inr True \<and> cw_error w \<in> set ALLOWED_ERROR_TYPE) (content g v)) \<and>
     (py_truth (cc_nondeterministic_pruning_enabled (tc_common_config tc)) \<longrightarrow>
        write_sat (\<lambda>w. nondeterministic_write end_state w = Inr False \<and> detectable_write w = Inr True)
          (content g v))"

definition write_plan :: "test_context \<Rightarrow> event_graph \<Rightarrow> nat \<Rightarrow> json res" where
  "write_plan tc g v = res_bind (as_write (content g v)) (\<lambda>w.
     Inr (generate_intermediate_state_test_plan_for_controller_write tc w))"

definition invocation_plan :: "test_context \<Rightarrow> event_graph \<Rightarrow> nat \<Rightarrow> json res" where
  "invocation_plan tc g v = res_bind (as_nk_write (content g v)) (\<lambda>a.
     Inr (generate_intermediate_state_test_plan_for_annotated_api_invocation tc a))"

lemma write_passes_sat:
  "res_bind (py_assert (is_controller_write (vertex g v))) (\<lambda>_. res_bind (as_write (content g v)) P) = Inr True
    \<longleftrightarrow> write_sat (\<lambda>w. P w = Inr True) (content g v)"
  "detectable_write_vertex end_state g v = Inr True \<longleftrightarrow> write_sat (\<lambda>w. nondeterministic_write end_state w = Inr False \<and>
     detectable_write w = Inr True) (content g v)"
  by (cases "content g v"; auto simp: detectable_write_vertex_def vertex_kinds as_write_def sat_defs res_simps
      split: if_splits)+

lemma pruned_writes:
  assumes "(if p2 then res_bind (effective_write_filtering_pass g ws) (\<lambda>ws1.
      res_bind (no_error_write_filtering_pass g ws1) (\<lambda>ws2. Inr (ws2, n ws2))) else Inr (ws, -1)) = Inr (ws2, k)"
  shows "ws2 = filter (\<lambda>v. p2 \<longrightarrow> write_sat (\<lambda>w. effective_write w = Inr True \<and>
      cw_error w \<in> set ALLOWED_ERROR_TYPE) (content g v)) ws" "k = (if p2 then n ws2 else -1)"
proof -
  show "k = (if p2 then n ws2 else -1)" using assms by (auto simp: res_bind_eq_Inr split: if_splits)
  show "ws2 = filter (\<lambda>v. p2 \<longrightarrow> write_sat (\<lambda>w. effective_write w = Inr True \<and>
      cw_error w \<in> set ALLOWED_ERROR_TYPE) (content g v)) ws"
  proof (cases p2)
    case True
    then obtain ws1 where p: "effective_write_filtering_pass g ws = Inr ws1"
      "no_error_write_filtering_pass g ws1 = Inr ws2" using assms by (auto simp: res_bind_eq_Inr)
    show ?thesis
      unfolding res_filter_Inr[OF p(2)[unfolded no_error_write_filtering_pass_def]]
        res_filter_Inr[OF p(1)[unfolded effective_write_filtering_pass_def]] filter_filter write_passes_sat(1)
      using True by (intro filter_cong) (auto simp: sat_defs split: event.splits)
  qed (use assms in simp)
qed

lemma intermediate_state_analysis_plans:
  assumes "intermediate_state_analysis tc end_state g path = Inr ((baseline, p1, p2, final), st)"
  shows "\<exists>plans invocations.
    res_map (write_plan tc g) (filter (kept_write tc end_state g) (eg_writes g)) = Inr plans \<and>
    res_map (invocation_plan tc g) (eg_nk_writes g) = Inr invocations \<and>
    st = saved tc path ''intermediate-state-test-plan-'' (plans @ invocations) \<and>
    final = int (fst st) \<and> distinct (map fst (snd st)) \<and>
    final \<le> baseline \<and> p1 = baseline \<and> p2 \<le> p1 \<and> (p2 \<noteq> -1 \<longrightarrow> final \<le> p2)"
proof -
  let ?on2 = "py_truth (cc_effective_updates_pruning_enabled (tc_common_config tc))"
  let ?on3 = "py_truth (cc_nondeterministic_pruning_enabled (tc_common_config tc))"
  let ?count = "\<lambda>vs. int (length vs) + int (length (eg_nk_writes g))"
  obtain ws2 ws3 st1 where ws2: "(if ?on2 then res_bind (effective_write_filtering_pass g (eg_writes g)) (\<lambda>ws1.
        res_bind (no_error_write_filtering_pass g ws1) (\<lambda>ws2. Inr (ws2, ?count ws2)))
        else Inr (eg_writes g, -1)) = Inr (ws2, p2)"
    and ws3: "(if ?on3 then intermediate_state_detectable_pass end_state g ws2 else Inr ws2) = Inr ws3"
    and st1: "res_fold (\<lambda>st v. res_bind (write_plan tc g v) (\<lambda>p. Inr (save_intermediate tc path st p))) (0, []) ws3 = Inr st1"
    and st: "res_fold (\<lambda>st v. res_bind (invocation_plan tc g v) (\<lambda>p. Inr (save_intermediate tc path st p))) st1
        (eg_nk_writes g) = Inr st"
    and n: "baseline = ?count (eg_writes g)" "p1 = ?count (eg_writes g)" "final = ?count ws3"
    using assms unfolding intermediate_state_analysis_def write_plan_def invocation_plan_def
    by (auto simp: Let_def res_bind_eq_Inr res_bind_assoc)
  have w3: "ws3 = filter (kept_write tc end_state g) (eg_writes g)"
  proof (cases ?on3)
    case True
    then have "res_filter (detectable_write_vertex end_state g) ws2 = Inr ws3"
      using ws3 by (simp add: intermediate_state_detectable_pass_def)
    from res_filter_Inr[OF this] show ?thesis
      unfolding pruned_writes(1)[OF ws2] filter_filter write_passes_sat(2)
      using True by (auto simp: kept_write_def intro!: filter_cong)
  qed (use ws3 pruned_writes(1)[OF ws2] in \<open>simp add: kept_write_def[abs_def]\<close>)
  obtain ps where ps: "res_map (write_plan tc g) ws3 = Inr ps"
      "st1 = saved tc path ''intermediate-state-test-plan-'' ps"
    using fold_saved[of "write_plan tc g" tc path "''intermediate-state-test-plan-''" "[]" ws3 st1] st1
    by (auto simp: saved_Nil save_intermediate_def)
  obtain qs where qs: "res_map (invocation_plan tc g) (eg_nk_writes g) = Inr qs"
      "st = saved tc path ''intermediate-state-test-plan-'' (ps @ qs)"
    using fold_saved[of "invocation_plan tc g" tc path "''intermediate-state-test-plan-''" ps "eg_nk_writes g" st] st
    by (auto simp: ps(2) save_intermediate_def)
  have "fst st = length ws3 + length (eg_nk_writes g)"
    using res_map_length[OF ps(1)] res_map_length[OF qs(1)] by (simp add: qs(2) saved_def)
  moreover have "distinct (map fst (snd st))" unfolding qs(2) by (rule saved_distinct) simp_all
  moreover have "length ws3 \<le> length (eg_writes g)" "length ws2 \<le> length (eg_writes g)"
    by (simp_all add: w3 pruned_writes(1)[OF ws2])
  moreover have "length ws3 \<le> length ws2"
    using ws3 res_filter_length by (auto simp: intermediate_state_detectable_pass_def split: if_splits)
  ultimately show ?thesis using ps qs w3 n pruned_writes(2)[OF ws2] by auto
qed


lemma sample_intermediate:
  "\<exists>g. build_controller_event_graph False False [] [] [] sample_log = Inr g \<and>
     map_sum id fst (intermediate_state_analysis (sample_tc False) (JObj []) g ''out'') = Inr (1, 1, -1, 1)"
proof (rule map_sum_Inr)
  show "map_sum id (\<lambda>g. map_sum id fst (intermediate_state_analysis (sample_tc False) (JObj []) g ''out''))
    (build_controller_event_graph False False [] [] [] sample_log) = Inr (Inr (1, 1, -1, 1))" by code_simp
qed


section \<open>Plans name one write\<close>

lemma same_plan_same_write:
  assumes "generate_intermediate_state_test_plan_for_controller_write tc w =
      generate_intermediate_state_test_plan_for_controller_write tc w'"
    and "cw_etype w = cw_etype w'"
  shows "generate_key (cw_rtype w) (cw_namespace w) (cw_name w) =
      generate_key (cw_rtype w') (cw_namespace w') (cw_name w')"
    "cw_signature_counter w = cw_signature_counter w'" "event_sig (Write w) = event_sig (Write w')"
  using assms
  by (auto simp: generate_intermediate_state_test_plan_for_controller_write_def plan_of_def restart_action_def
      trigger_of_def observed_def write_condition_def condition_of_def Let_def signature_of_def
      is_creation_or_deletion_def split: if_splits)

lemma counters_distinct:
  assumes "counters_ok g vs" "u \<in> set vs" "v \<in> set vs" "u \<noteq> v"
    "event_sig (content g u) = event_sig (content g v)"
  shows "event_counter (content g u) \<noteq> event_counter (content g v)"
proof -
  obtain i j where ij: "i < length vs" "vs ! i = u" "j < length vs" "vs ! j = v"
    using assms(2,3) by (auto simp: in_set_conv_nth)
  then have "i < j \<or> j < i" using assms(4) by (metis linorder_neqE_nat)
  then show ?thesis
    using counters_increase[OF assms(1), of i j] counters_increase[OF assms(1), of j i] ij assms(5) by auto
qed

text \<open>
  The test plan of a write names it. Two different writes of one kind (create, update, patch
  and so on) in the event graph of a log never have the same test plan, since key, difference and
  occurrence tell them apart.
\<close>

theorem intermediate_plan_names_write:
  assumes "build_controller_event_graph loosen compress field_key_mask field_path_mask learned lines = Inr g"
    and "u < length (eg_vertices g)" "content g u = Write w"
    and "v < length (eg_vertices g)" "content g v = Write w'"
    and "cw_etype w = cw_etype w'"
    and "generate_intermediate_state_test_plan_for_controller_write tc w =
      generate_intermediate_state_test_plan_for_controller_write tc w'"
  shows "u = v"
proof (rule ccontr)
  assume "u \<noteq> v"
  note same = same_plan_same_write[OF assms(7,6)]
  have "event_ok (Write w)" "event_ok (Write w')"
    using built_event_ok[OF assms(1,2)] built_event_ok[OF assms(1,4)] assms(3,5)
    by (simp_all add: sat_defs del: event_ok.simps)
  then have key: "cw_key w = cw_key w'" using same(1) by simp
  have "u \<in> set (verts g (write_sat (\<lambda>x. cw_key x = cw_key w)))" "v \<in> set (verts g (write_sat (\<lambda>x. cw_key x = cw_key w)))"
    using assms(2-5) key by (simp_all add: verts_props sat_defs)
  moreover have "counters_ok g (verts g (write_sat (\<lambda>x. cw_key x = cw_key w)))"
    using built_counters[OF assms(1)] by blast
  ultimately have "event_counter (content g u) \<noteq> event_counter (content g v)"
    using counters_distinct \<open>u \<noteq> v\<close> same(3) assms(3,5) by metis
  then show False using same(2) assms(3,5) by simp
qed

theorem intermediate_plan_names_write_witness:
  "\<exists>g w. build_controller_event_graph False False [] [] [] sample_log = Inr g \<and> content g 3 = Write w \<and>
     (\<forall>v w'. v < length (eg_vertices g) \<and> content g v = Write w' \<and> cw_etype w' = cw_etype w \<and>
        generate_intermediate_state_test_plan_for_controller_write (sample_tc True) w =
        generate_intermediate_state_test_plan_for_controller_write (sample_tc True) w' \<longrightarrow> v = 3)"
proof -
  obtain g where g: "build_controller_event_graph False False [] [] [] sample_log = Inr g"
    "length (eg_vertices g) = 4" "may_cause (content g 0) (content g 3)" "eg_writes g = [3]"
    using sample_graph by (elim exE conjE) simp
  have "graph_ok g" using build_inv[OF g(1)] connected_finalize(1) by blast
  then have "verts g (write_sat (\<lambda>_. True)) = [3]" using g(4) by (simp add: graph_ok_def lists_ok_def)
  then have "3 \<in> set (verts g (write_sat (\<lambda>_. True)))" by simp
  then obtain w where w: "content g 3 = Write w" by (auto simp: verts_props sat_defs split: event.splits)
  have "v = 3" if "v < length (eg_vertices g)" "content g v = Write w'" "cw_etype w' = cw_etype w"
    "generate_intermediate_state_test_plan_for_controller_write (sample_tc True) w =
     generate_intermediate_state_test_plan_for_controller_write (sample_tc True) w'" for v w'
    using intermediate_plan_names_write[OF g(1) _ w that(1,2) that(3)[symmetric] that(4)] g(2) by simp
  with g(1) w show ?thesis by blast
qed

section \<open>Which writes have an effect\<close>

lemma no_status_diff:
  assumes "diff_event_as_map p c = d" "wf_json (JObj p)" "wf_json (JObj c)" "d \<noteq> None"
  shows "no_status (map_option fst d) \<and> no_status (map_option snd d) \<longleftrightarrow>
    rel_option json_eq (map_of p ''status'') (map_of c ''status'')"
proof -
  obtain dp dc where d: "diff_event_as_map p c = Some (dp, dc)" "d = Some (dp, dc)" using assms(1,4) by auto
  have "dict_ok c" using assms(3) by simp
  note look = diff_map_lookup[OF d(1) this]
  show ?thesis
  proof (cases "map_of p ''status''"; cases "map_of c ''status''")
    fix w v assume wv: "map_of p ''status'' = Some w" "map_of c ''status'' = Some v"
    have "wf_json w" "wf_json v" using assms(2,3) wv by (auto dest!: map_of_SomeD)
    from diff_value_None[OF this] show ?thesis by (simp add: d(2) no_status_def look wv)
  qed (simp_all add: d(2) no_status_def look)
qed

lemma trim_status: "map_of (trim_kind_apiversion e) ''status'' = map_of e ''status''"
  by (simp add: trim_kind_apiversion_def AList.delete_conv')

text \<open>
  C37: a write passes \<open>effective_write_filtering_pass\<close> exactly when it can change the cluster: a
  status write when the status it writes differs from the one read before, another update or patch
  when the object differs in anything but \<open>kind\<close> and \<open>apiVersion\<close>, and a creation, deletion or
  any other write always.
\<close>

theorem effective_write_exact:
  assumes "cw_prev_obj_map w = Some (JObj prev)" "cw_obj_map w = JObj cur"
    and "wf_json (JObj prev)" "wf_json (JObj cur)"
  shows "effective_write w = Inr (
    if is_status_write (cw_etype w) then \<not> rel_option json_eq (map_of prev ''status'') (map_of cur ''status'')
    else if is_update_or_patch (cw_etype w)
    then \<not> json_eq (JObj (trim_kind_apiversion prev)) (JObj (trim_kind_apiversion cur))
    else True)"
proof -
  let ?p = "trim_kind_apiversion prev" and ?c = "trim_kind_apiversion cur"
  define d where "d = diff_event_as_map ?p ?c"
  have wf: "wf_json (JObj ?p)" "wf_json (JObj ?c)" by (intro wf_trim assms)+
  have eq: "same_diff (map_option fst d) (map_option snd d) \<longleftrightarrow> json_eq (JObj ?p) (JObj ?c)"
  proof (cases d)
    case None
    then show ?thesis using diff_event_as_map_None_iff[OF wf] by (simp add: d_def same_diff_def slim_json_def)
  next
    case (Some ab)
    obtain a b where ab: "d = Some (a, b)" using Some by (cases ab) simp
    have "\<not> json_eq (JObj a) (JObj b)"
      using diff_halves_differ[OF wf, of "JObj a" "JObj b"] ab by (simp add: d_def)
    moreover have "\<not> json_eq (JObj ?p) (JObj ?c)" using diff_event_as_map_None_iff[OF wf] ab by (simp add: d_def)
    ultimately show ?thesis by (simp add: ab same_diff_def slim_json_def del: json_eq.simps)
  qed
  have st: "(json_eq (JObj ?p) (JObj ?c) \<or> no_status (map_option fst d) \<and> no_status (map_option snd d)) \<longleftrightarrow>
      rel_option json_eq (map_of prev ''status'') (map_of cur ''status'')"
  proof (cases d)
    case None
    then have "json_eq (JObj ?p) (JObj ?c)" using diff_event_as_map_None_iff[OF wf] by (simp add: d_def)
    then have "rel_option json_eq (map_of ?p ''status'') (map_of ?c ''status'')"
      using json_eq_JObj[of ?p ?c] wf by (simp only: wf_json.simps) blast
    then show ?thesis using \<open>json_eq (JObj ?p) (JObj ?c)\<close> by (simp add: trim_status)
  next
    case (Some ab)
    then have "\<not> json_eq (JObj ?p) (JObj ?c)" using diff_event_as_map_None_iff[OF wf] by (simp add: d_def)
    then show ?thesis using no_status_diff[OF d_def[symmetric] wf] Some by (simp add: trim_status del: json_eq.simps)
  qed
  have "diff_event prev cur {} {} True False = d" by (simp add: diff_event_def d_def)
  then have "effective_write w = Inr (is_creation_or_deletion (cw_etype w) \<or>
      \<not> (json_eq (JObj ?p) (JObj ?c) \<and> is_update_or_patch (cw_etype w) \<or>
         no_status (map_option fst d) \<and> no_status (map_option snd d) \<and> is_status_write (cw_etype w)))"
    using assms(1,2) eq by (simp add: effective_write_def as_dict_def Let_def del: json_eq.simps)
  then show ?thesis using st
    by (auto simp del: json_eq.simps simp: is_status_write_def is_update_or_patch_def is_creation_or_deletion_def)
qed

text \<open>A status update that changes only the specification is not effective.\<close>

definition sample_status_write :: controller_write where
  "sample_status_write = (projr (ControllerWrite ''1'' ''StatusUpdate'' ''rec'' ''NoError'' ''pod'' ''default'' ''a''
     (dumps (JObj [(''spec'', JInt 2), (''status'', JInt 1)]))))\<lparr>
       cw_prev_obj_map := Some (JObj [(''spec'', JInt 1), (''status'', JInt 1)]) \<rparr>"

theorem effective_write_exact_witness:
  "effective_write sample_status_write = Inr False"
proof -
  have obj: "cw_obj_map sample_status_write = JObj [(''spec'', JInt 2), (''status'', JInt 1)]"
    "cw_etype sample_status_write = WRITE_STATUS_UPDATE" by code_simp+
  show ?thesis
    using effective_write_exact[of sample_status_write "[(''spec'', JInt 1), (''status'', JInt 1)]", OF _ obj(1)] obj(2)
    by (simp add: sample_status_write_def is_status_write_def dict_ok_def)
qed

end
