(* ===== verification/Stale_State.thy ===== *)
theory Stale_State
  imports Intermediate_State
begin

text \<open>
  The stale-state policy, \<^verbatim>\<open>sieve_perturbation_policies/stale_state.py\<close>: the controller is
  reconnected to an API server that lags behind, so that it sees an object again as it was before
  a deletion. The candidates are pairs of a hear and a deletion that follows it.
\<close>

section \<open>Passes\<close>

definition detectable_pair :: "json \<Rightarrow> event_graph \<Rightarrow> nat \<times> nat \<Rightarrow> bool res" where
  "detectable_pair end_state g pair = (case pair of (h, w) \<Rightarrow>
     res_bind (as_hear (content g h)) (\<lambda>hear.
     res_bind (nondeterministic_hear end_state hear) (\<lambda>b.
       if b then Inr False
       else res_bind (as_write (content g w)) (\<lambda>write.
         res_bind (nondeterministic_write end_state write) (\<lambda>b'.
           if b' then Inr False else detectable_hear hear)))))"

definition stale_state_detectable_pass ::
  "json \<Rightarrow> event_graph \<Rightarrow> (nat \<times> nat) list \<Rightarrow> (nat \<times> nat) list res" where
  "stale_state_detectable_pass end_state g event_pairs = res_filter (detectable_pair end_state g) event_pairs"

definition baseline_pair ::
  "event_graph \<Rightarrow> nat \<Rightarrow> (nat \<times> nat) list \<Rightarrow> nat \<Rightarrow> (nat \<times> nat) list res" where
  "baseline_pair g w candidate_pairs h =
     res_bind (as_write (content g w)) (\<lambda>write.
       if \<not> cw_etype write = WRITE_DELETE then Inr candidate_pairs
       else res_bind (as_hear (content g h)) (\<lambda>hear.
         Inr (if cw_start_timestamp write > ch_start_timestamp hear
              then candidate_pairs @ [(h, w)] else candidate_pairs)))"

definition get_stale_state_baseline :: "event_graph \<Rightarrow> (nat \<times> nat) list res" where
  "get_stale_state_baseline g =
     res_fold (\<lambda>pairs w. res_fold (baseline_pair g w) pairs (eg_hears g)) [] (eg_writes g)"

definition causality_pair_filtering_pass :: "event_graph \<Rightarrow> (nat \<times> nat) list \<Rightarrow> (nat \<times> nat) list" where
  "causality_pair_filtering_pass g event_pairs =
     filter (\<lambda>(source, sink). event_vertices_connected g source sink) event_pairs"

text \<open>A hear of the deleted object after the write, which brings it back.\<close>

definition brings_back :: "event_graph \<Rightarrow> controller_write \<Rightarrow> bool \<Rightarrow> nat \<Rightarrow> bool res" where
  "brings_back g write reversed_effect h =
     res_bind (as_hear (content g h)) (\<lambda>hear.
       if ch_start_timestamp hear \<le> cw_end_timestamp write then Inr reversed_effect
       else Inr (reversed_effect \<or> ch_etype hear = HEAR_ADDED \<or> ch_etype hear = HEAR_UPDATED))"

definition has_reversed_effect :: "event_graph \<Rightarrow> nat \<times> nat \<Rightarrow> bool res" where
  "has_reversed_effect g pair =
     res_bind (as_write (content g (snd pair))) (\<lambda>write.
     res_bind (py_assert (cw_etype write = WRITE_DELETE)) (\<lambda>_.
       if cw_error write \<notin> set ALLOWED_ERROR_TYPE then Inr False
       else (case map_of (eg_hear_key g) (cw_key write) of
           Some vs \<Rightarrow> res_fold (brings_back g write) False vs
         | None \<Rightarrow> Inr True)))"

definition reversed_effect_filtering_pass ::
  "event_graph \<Rightarrow> (nat \<times> nat) list \<Rightarrow> (nat \<times> nat) list res" where
  "reversed_effect_filtering_pass g event_pairs = res_filter (has_reversed_effect g) event_pairs"

section \<open>When to pause\<close>

text \<open>
  The loop of \<open>decide_stale_state_timing\<close>. It follows the edges inside the reconcilers; when the
  current vertex has not exactly one it looks at those of the sink, as the source does. The loop
  has no bound in the source; it takes fuel here, and never runs out of it on the graphs that are
  built from a log.
\<close>

fun timing_loop :: "nat \<Rightarrow> event_graph \<Rightarrow> nat \<Rightarrow> string \<Rightarrow> nat \<Rightarrow> nat \<Rightarrow> string res" where
  "timing_loop 0 g sink key reconcile_cnt cur = Inl OutOfFuel"
| "timing_loop (Suc fuel) g sink key reconcile_cnt cur =
     (case ev_out_intra (vertex g cur) of
        [edge] \<Rightarrow>
          (let next_vertex = ee_sink edge in
           if is_reconcile_end (vertex g next_vertex) then
             if Suc reconcile_cnt = 2 then Inr ''after''
             else timing_loop fuel g sink key (Suc reconcile_cnt) next_vertex
           else if is_controller_write (vertex g next_vertex) then
             res_bind (as_write (content g next_vertex)) (\<lambda>w.
               if cw_etype w = WRITE_CREATE \<and> cw_key w = key
               then Inr (if reconcile_cnt = 0 then ''before'' else ''both'')
               else timing_loop fuel g sink key reconcile_cnt next_vertex)
           else timing_loop fuel g sink key reconcile_cnt next_vertex)
      | _ \<Rightarrow> if length (ev_out_intra (vertex g sink)) = 0 then Inr ''after'' else Inl AssertionError)"

definition decide_stale_state_timing :: "event_graph \<Rightarrow> nat \<Rightarrow> nat \<Rightarrow> string res" where
  "decide_stale_state_timing g source sink =
     res_bind (py_assert (is_controller_hear (vertex g source))) (\<lambda>_.
     res_bind (py_assert (is_controller_write (vertex g sink))) (\<lambda>_.
     res_bind (as_hear (content g source)) (\<lambda>hear.
     res_bind (as_write (content g sink)) (\<lambda>write.
     res_bind (py_assert (cw_etype write = WRITE_DELETE)) (\<lambda>_.
       case ch_slim_prev_obj_map hear of
         None \<Rightarrow> Inr ''after''
       | Some p \<Rightarrow> res_bind (from_option AttributeError (ch_slim_cur_obj_map hear)) (\<lambda>c.
           if \<not> same_key p c then Inr ''after''
           else timing_loop (Suc (length (eg_vertices g))) g sink (cw_key write) 0 sink))))))"

section \<open>Plans\<close>

definition hear_condition :: "test_context \<Rightarrow> controller_hear \<Rightarrow> json res" where
  "hear_condition tc h =
     (let resource_key1 = generate_key (ch_rtype h) (ch_namespace h) (ch_name h);
          n = ch_signature_counter h in
      if ch_etype h = HEAR_ADDED then Inr (condition_of ''onObjectCreate'' resource_key1 n)
      else if ch_etype h = HEAR_DELETED then Inr (condition_of ''onObjectDelete'' resource_key1 n)
      else res_bind (py_in (ch_rtype h) (kc_custom_resource_definitions (tc_controller_config tc))) (\<lambda>custom.
        Inr (JObj ([(''conditionType'', JStr ''onObjectUpdate''), (''resourceKey'', JStr resource_key1),
            (''prevStateDiff'', JStr (dumps (slim_json (ch_slim_prev_obj_map h)))),
            (''curStateDiff'', JStr (dumps (slim_json (ch_slim_cur_obj_map h))))] @
          (if custom then [] else [(''convertStateToAPIForm'', JBool True)]) @
          [(''occurrence'', JInt (int n))]))))"

definition generate_stale_state_test_plan ::
  "test_context \<Rightarrow> controller_hear \<Rightarrow> controller_write \<Rightarrow> string \<Rightarrow> json res" where
  "generate_stale_state_test_plan tc h w pause_timing =
     (let resource_key1 = generate_key (ch_rtype h) (ch_namespace h) (ch_name h);
          resource_key2 = generate_key (cw_rtype w) (cw_namespace w) (cw_name w);
          following_api = cc_following_api (tc_common_config tc) in
      res_bind (hear_condition tc h) (\<lambda>condition.
        Inr (plan_of tc
          [JObj [(''actionType'', JStr ''pauseAPIServer''), (''apiServerName'', following_api),
             (''pauseScope'', JStr resource_key1),
             (''trigger'', trigger_of [observed ''trigger1'' condition
                (if pause_timing = ''after'' then ''afterAPIServerRecv'' else ''beforeAPIServerRecv'')
                following_api] ''trigger1'')],
           JObj [(''actionType'', JStr ''reconnectController''),
             (''controllerLabel'', kc_controller_pod_label (tc_controller_config tc)),
             (''reconnectAPIServer'', following_api), (''async'', JBool True), (''waitBefore'', JInt 10),
             (''trigger'', trigger_of [observed ''trigger2'' (condition_of ''onObjectCreate'' resource_key2 1)
                ''afterAPIServerRecv'' (cc_leading_api (tc_common_config tc))] ''trigger2'')],
           JObj [(''actionType'', JStr ''resumeAPIServer''), (''apiServerName'', following_api),
             (''pauseScope'', JStr resource_key1),
             (''trigger'', trigger_of [JObj [(''triggerName'', JStr ''trigger3''),
                (''condition'', JObj [(''conditionType'', JStr ''onTimeout''), (''timeoutValue'', JInt 20)])]]
                ''trigger3'')]])))"

section \<open>The analysis\<close>

definition save_stale :: "test_context \<Rightarrow> string \<Rightarrow> plan_files \<Rightarrow> json \<Rightarrow> plan_files" where
  "save_stale tc path = save_plan tc path ''stale-state-test-plan-''"

text \<open>
  The body of the loop over the candidates: one plan, or two when the timing is \<open>both\<close>, and then
  all four numbers go up. The state is the files and how often that happened.
\<close>

definition stale_plan_step ::
  "test_context \<Rightarrow> event_graph \<Rightarrow> string \<Rightarrow> plan_files \<times> nat \<Rightarrow> nat \<times> nat \<Rightarrow> (plan_files \<times> nat) res" where
  "stale_plan_step tc g path st pair = (case st of (files, both) \<Rightarrow> case pair of (source, sink) \<Rightarrow>
     res_bind (py_assert (is_controller_hear (vertex g source))) (\<lambda>_.
     res_bind (py_assert (is_controller_write (vertex g sink))) (\<lambda>_.
     res_bind (as_hear (content g source)) (\<lambda>hear.
     res_bind (as_write (content g sink)) (\<lambda>write.
     res_bind (decide_stale_state_timing g source sink) (\<lambda>timing.
       if timing = ''after'' \<or> timing = ''before'' then
         res_bind (generate_stale_state_test_plan tc hear write timing) (\<lambda>plan.
           Inr (save_stale tc path files plan, both))
       else
         res_bind (generate_stale_state_test_plan tc hear write ''after'') (\<lambda>plan1.
         res_bind (generate_stale_state_test_plan tc hear write ''before'') (\<lambda>plan2.
           Inr (save_stale tc path (save_stale tc path files plan1) plan2, Suc both)))))))))"

definition stale_state_analysis ::
  "test_context \<Rightarrow> json \<Rightarrow> event_graph \<Rightarrow> string \<Rightarrow> (spec_numbers \<times> plan_files) res" where
  "stale_state_analysis tc end_state g path =
     res_bind (get_stale_state_baseline g) (\<lambda>pairs0.
     let common = tc_common_config tc;
         baseline_spec_number = int (length pairs0);
         on1 = py_truth (cc_causality_pruning_enabled common);
         pairs1 = (if on1 then causality_pair_filtering_pass g pairs0 else pairs0);
         after_p1_spec_number = (if on1 then int (length pairs1) else -1)
     in res_bind (if py_truth (cc_effective_updates_pruning_enabled common)
          then res_bind (reversed_effect_filtering_pass g pairs1) (\<lambda>pairs2. Inr (pairs2, int (length pairs2)))
          else Inr (pairs1, -1)) (\<lambda>(pairs2, after_p2_spec_number).
        res_bind (if py_truth (cc_nondeterministic_pruning_enabled common)
          then stale_state_detectable_pass end_state g pairs2 else Inr pairs2) (\<lambda>pairs3.
        res_bind (res_fold (stale_plan_step tc g path) ((0, []), 0) pairs3) (\<lambda>(files, both).
          Inr ((baseline_spec_number + int both, after_p1_spec_number + int both,
                after_p2_spec_number + int both, int (length pairs3) + int both), files)))))"

section \<open>The timing is decided by what follows in the log\<close>

text \<open>
  The reference: a scan of the events after the deletion. The object is created again in the same
  round (\<open>before\<close>) or in the next one (\<open>both\<close>), or two rounds end first (\<open>after\<close>); \<open>None\<close> when
  the log ends before any of these.
\<close>

fun timing_scan :: "string \<Rightarrow> nat \<Rightarrow> event list \<Rightarrow> string option" where
  "timing_scan key n [] = None"
| "timing_scan key n (ReconcileEnd rc # es) = (if n = 1 then Some ''after'' else timing_scan key (Suc n) es)"
| "timing_scan key n (Write w # es) =
     (if cw_etype w = WRITE_CREATE \<and> cw_key w = key
      then Some (if n = 0 then ''before'' else ''both'') else timing_scan key n es)"
| "timing_scan key n (e # es) = timing_scan key n es"

lemma timing_loop_scan:
  assumes "intra_chain a g" "a \<le> cur" "cur < length (eg_vertices g)" "length (eg_vertices g) - cur \<le> fuel"
  shows "timing_loop fuel g sink key n cur =
    (case timing_scan key n (map ev_content (drop (Suc cur) (eg_vertices g))) of
       Some t \<Rightarrow> Inr t
     | None \<Rightarrow> if ev_out_intra (vertex g sink) = [] then Inr ''after'' else Inl AssertionError)"
  using assms(2-4)
proof (induction fuel arbitrary: cur n)
  case (Suc fuel)
  show ?case
  proof (cases "Suc cur < length (eg_vertices g)")
    case True
    then have e: "ev_out_intra (vertex g cur) = [intra_edge cur]"
      using assms(1) Suc.prems by (simp add: intra_chain_def)
    have d: "drop (Suc cur) (eg_vertices g) = vertex g (Suc cur) # drop (Suc (Suc cur)) (eg_vertices g)"
      using Cons_nth_drop_Suc[OF True] by simp
    note IH = Suc.IH[of "Suc cur"]
    show ?thesis using IH Suc.prems True
      by (cases "content g (Suc cur)")
         (simp_all add: e d intra_edge_def Let_def vertex_kinds as_write_def del: drop_Suc_Cons)
  next
    case False
    then have "ev_out_intra (vertex g cur) = []" "drop (Suc cur) (eg_vertices g) = []"
      using assms(1) Suc.prems by (simp_all add: intra_chain_def)
    then show ?thesis by simp
  qed
qed simp

text \<open>A log in which the controller hears of a change, deletes the object, and stops.\<close>

definition stale_obj :: "int \<Rightarrow> string" where
  "stale_obj n = dumps (JObj [(''metadata'', JObj [(''name'', JStr ''a'')]), (''spec'', JInt n)])"

definition stale_log :: "string list" where
  "stale_log =
    [log_line [] SIEVE_BEFORE_RECONCILE_MARK [''rec'', ''1''],
     log_line [] SIEVE_BEFORE_HEAR_MARK [''1'', ''Added'', ''pod'', stale_obj 1],
     log_line [] SIEVE_AFTER_HEAR_MARK [''1''],
     log_line [] SIEVE_BEFORE_HEAR_MARK [''2'', ''Updated'', ''pod'', stale_obj 2],
     log_line [] SIEVE_AFTER_HEAR_MARK [''2''],
     log_line [] SIEVE_AFTER_CACHE_READ_MARK
       [''Get'', ''pod'', ''default'', ''a'', ''rec'', ''NoError'', stale_obj 2],
     log_line [] SIEVE_BEFORE_REST_WRITE_MARK [''7''],
     log_line [] SIEVE_AFTER_REST_WRITE_MARK
       [''7'', ''Delete'', ''rec'', ''NoError'', ''pod'', ''default'', ''a'', stale_obj 2],
     log_line [] SIEVE_AFTER_RECONCILE_MARK [''rec'', ''1'']]"

text \<open>
  C25: \<open>decide_stale_state_timing\<close> agrees with a scan of the events that follow the deletion in the
  log, when the hear changes values but no keys: it never runs forever, and it answers by the
  first of a creation of the same object or the second end of a round. When the log ends before
  either of them the code fails its last assertion, unless the deletion is the very last event,
  since it tests the edges of the deletion where it should test those of the current event.
\<close>

theorem stale_timing_exact:
  assumes "build_controller_event_graph loosen compress fk fp lm lines = Inr g"
    and "sink < length (eg_vertices g)" "content g source = Hear hear" "content g sink = Write write"
    and "cw_etype write = WRITE_DELETE"
    and "ch_slim_prev_obj_map hear = Some p" "ch_slim_cur_obj_map hear = Some c" "same_key p c"
  shows "decide_stale_state_timing g source sink =
    (case timing_scan (cw_key write) 0 (map ev_content (drop (Suc sink) (eg_vertices g))) of
       Some t \<Rightarrow> Inr t
     | None \<Rightarrow> if Suc sink = length (eg_vertices g) then Inr ''after'' else Inl AssertionError)"
proof -
  obtain a where a: "intra_chain a g" "a \<le> sink"
    using built_chain[OF assms(1)] assms(2,4) by (auto simp: sat_defs)
  have last: "ev_out_intra (vertex g sink) = [] \<longleftrightarrow> Suc sink = length (eg_vertices g)"
    using a assms(2) by (auto simp: intra_chain_def)
  have "decide_stale_state_timing g source sink =
      timing_loop (Suc (length (eg_vertices g))) g sink (cw_key write) 0 sink"
    using assms(3-8) by (simp add: decide_stale_state_timing_def vertex_kinds as_hear_def as_write_def)
  also have "\<dots> = (case timing_scan (cw_key write) 0 (map ev_content (drop (Suc sink) (eg_vertices g))) of
       Some t \<Rightarrow> Inr t
     | None \<Rightarrow> if ev_out_intra (vertex g sink) = [] then Inr ''after'' else Inl AssertionError)"
    using timing_loop_scan[OF a assms(2), of "Suc (length (eg_vertices g))" sink] by simp
  finally show ?thesis unfolding last .
qed

lemma as_kind_eq_Inr [res_simps]:
  "as_hear e = Inr h \<longleftrightarrow> e = Hear h" "as_write e = Inr w \<longleftrightarrow> e = Write w"
  by (cases e; auto simp: as_hear_def as_write_def)+

lemma stale_graph:
  "\<exists>g. build_controller_event_graph False False [] [] [] stale_log = Inr g \<and>
     (length (eg_vertices g), map_sum id (\<lambda>h. (ch_slim_prev_obj_map h, ch_slim_cur_obj_map h)) (as_hear (content g 1)),
      map_sum id (\<lambda>w. (cw_etype w, cw_key w)) (as_write (content g 4)),
      timing_scan ''pod/default/a'' 0 (map ev_content (drop 5 (eg_vertices g)))) =
     (6, Inr (Some [(''spec'', JInt 1)], Some [(''spec'', JInt 2)]), Inr (WRITE_DELETE, ''pod/default/a''), None)"
proof (rule map_sum_Inr)
  show "map_sum id (\<lambda>g. (length (eg_vertices g),
      map_sum id (\<lambda>h. (ch_slim_prev_obj_map h, ch_slim_cur_obj_map h)) (as_hear (content g 1)),
      map_sum id (\<lambda>w. (cw_etype w, cw_key w)) (as_write (content g 4)),
      timing_scan ''pod/default/a'' 0 (map ev_content (drop 5 (eg_vertices g)))))
    (build_controller_event_graph False False [] [] [] stale_log) =
    Inr (6, Inr (Some [(''spec'', JInt 1)], Some [(''spec'', JInt 2)]), Inr (WRITE_DELETE, ''pod/default/a''), None)"
    by code_simp
qed

theorem stale_timing_exact_witness:
  "\<exists>g. build_controller_event_graph False False [] [] [] stale_log = Inr g \<and>
     length (eg_vertices g) = 6 \<and> decide_stale_state_timing g 1 4 = Inl AssertionError"
proof -
  obtain g where g: "build_controller_event_graph False False [] [] [] stale_log = Inr g"
    "length (eg_vertices g) = 6" "timing_scan ''pod/default/a'' 0 (map ev_content (drop 5 (eg_vertices g))) = None"
    and hw: "map_sum id (\<lambda>h. (ch_slim_prev_obj_map h, ch_slim_cur_obj_map h)) (as_hear (content g 1)) =
        Inr (Some [(''spec'', JInt 1)], Some [(''spec'', JInt 2)])"
      "map_sum id (\<lambda>w. (cw_etype w, cw_key w)) (as_write (content g 4)) = Inr (WRITE_DELETE, ''pod/default/a'')"
    using stale_graph by (elim exE conjE) (simp only: prod.inject)
  obtain h where h: "content g 1 = Hear h" "ch_slim_prev_obj_map h = Some [(''spec'', JInt 1)]"
    "ch_slim_cur_obj_map h = Some [(''spec'', JInt 2)]"
    using map_sum_Inr[OF hw(1)] by (auto simp: res_simps)
  obtain w where w: "content g 4 = Write w" "cw_etype w = WRITE_DELETE" "cw_key w = ''pod/default/a''"
    using map_sum_Inr[OF hw(2)] by (auto simp: res_simps)
  have "same_key [(''spec'', JInt 1)] [(''spec'', JInt 2)]" by (simp add: same_key.simps)
  from stale_timing_exact[OF g(1) _ h(1) w(1,2) h(2,3) this] g w(3) show ?thesis by simp
qed

section \<open>The candidates\<close>

fun stale_candidate :: "event \<Rightarrow> event \<Rightarrow> bool" where
  "stale_candidate (Hear h) (Write w) \<longleftrightarrow>
     cw_etype w = WRITE_DELETE \<and> ch_start_timestamp h < cw_start_timestamp w"
| "stale_candidate e f \<longleftrightarrow> False"

lemma baseline_row:
  assumes "\<forall>h\<in>set hs. hear_sat (\<lambda>_. True) (content g h)" "write_sat (\<lambda>_. True) (content g w)"
  shows "res_fold (baseline_pair g w) ps hs =
    Inr (ps @ map (\<lambda>h. (h, w)) (filter (\<lambda>h. stale_candidate (content g h) (content g w)) hs))"
  using assms(1)
proof (induction hs arbitrary: ps)
  case (Cons h hs)
  have "baseline_pair g w ps h = Inr (ps @ (if stale_candidate (content g h) (content g w) then [(h, w)] else []))"
    using Cons.prems assms(2) by (cases "content g h"; cases "content g w")
      (auto simp: baseline_pair_def as_hear_def as_write_def sat_defs)
  then show ?case using Cons by simp
qed simp

lemma baseline_exact:
  assumes "graph_ok g"
  shows "\<exists>pairs. get_stale_state_baseline g = Inr pairs \<and> distinct pairs \<and>
    set pairs = {(h, w). h < length (eg_vertices g) \<and> w < length (eg_vertices g) \<and>
      stale_candidate (content g h) (content g w)}"
proof -
  have H: "eg_hears g = verts g (hear_sat (\<lambda>_. True))" and W: "eg_writes g = verts g (write_sat (\<lambda>_. True))"
    using assms by (simp_all add: graph_ok_def lists_ok_def)
  define row where "row w = map (\<lambda>h. (h, w)) (filter (\<lambda>h. stale_candidate (content g h) (content g w)) (eg_hears g))" for w
  have "res_fold (\<lambda>pairs w. res_fold (baseline_pair g w) pairs (eg_hears g)) ps ws = Inr (ps @ concat (map row ws))"
    if "\<forall>w\<in>set ws. write_sat (\<lambda>_. True) (content g w)" for ws ps
    using that by (induction ws arbitrary: ps) (simp_all add: baseline_row H verts_props row_def)
  from this[of "eg_writes g" "[]"] have b: "get_stale_state_baseline g = Inr (concat (map row (eg_writes g)))"
    by (simp add: get_stale_state_baseline_def W verts_props)
  have kinds: "hear_sat (\<lambda>_. True) e \<and> write_sat (\<lambda>_. True) f" if "stale_candidate e f" for e f
    using that by (cases e; cases f) (simp_all add: sat_defs)
  have "set (concat (map row (eg_writes g))) = {(h, w). h < length (eg_vertices g) \<and> w < length (eg_vertices g) \<and>
      stale_candidate (content g h) (content g w)}"
    using kinds by (fastforce simp: row_def H W verts_props)
  moreover have "distinct (concat (map row (eg_writes g)))"
  proof -
    have "distinct (concat (map row ws))" if "distinct ws" for ws
      using that by (induction ws) (auto simp: row_def H verts_props distinct_map inj_on_def)
    then show ?thesis by (simp add: W verts_props)
  qed
  ultimately show ?thesis using b by blast
qed

lemma brings_back_fold:
  assumes "\<forall>h\<in>set vs. hear_sat (\<lambda>_. True) (content g h)"
  shows "res_fold (brings_back g write) b vs = Inr (b \<or> (\<exists>h\<in>set vs. hear_sat (\<lambda>x.
    cw_end_timestamp write < ch_start_timestamp x \<and> (ch_etype x = HEAR_ADDED \<or> ch_etype x = HEAR_UPDATED)) (content g h)))"
  using assms
proof (induction vs arbitrary: b)
  case (Cons h vs)
  obtain x where "content g h = Hear x" using Cons.prems by (auto simp: sat_defs split: event.splits)
  then show ?case using Cons by (auto simp: brings_back_def as_hear_def hear_sat_Hear)
qed simp

text \<open>
  C31: a pair survives \<open>reversed_effect_filtering_pass\<close> exactly when the deletion succeeded and its
  effect was undone: the controller hears of an addition or update of the deleted object after the
  deletion ended, or does not watch the object at all.
\<close>

theorem reversed_effect_exact:
  assumes "build_controller_event_graph loosen compress field_key_mask field_path_mask learned lines = Inr g"
    and "content g w = Write write" "cw_etype write = WRITE_DELETE"
  shows "has_reversed_effect g (h, w) = Inr (cw_error write \<in> set ALLOWED_ERROR_TYPE \<and>
    (map_of (eg_hear_key g) (cw_key write) = None \<or>
     (\<exists>v < length (eg_vertices g). hear_sat (\<lambda>x. ch_key x = cw_key write \<and>
        cw_end_timestamp write < ch_start_timestamp x \<and>
        (ch_etype x = HEAR_ADDED \<or> ch_etype x = HEAR_UPDATED)) (content g v))))"
proof -
  have "graph_ok g" using build_inv[OF assms(1)] connected_finalize(1) by blast
  then have grp: "vs = verts g (hear_sat (\<lambda>x. ch_key x = cw_key write))"
    if "map_of (eg_hear_key g) (cw_key write) = Some vs" for vs
    using that unfolding graph_ok_def keys_ok_def dict_group_def by (metis option.simps(5))
  have both_sat: "hear_sat P e \<and> hear_sat Q e \<longleftrightarrow> hear_sat (\<lambda>x. P x \<and> Q x) e" for P Q e
    by (cases e) (simp_all add: sat_defs)
  have "\<forall>v\<in>set (verts g (hear_sat (\<lambda>x. ch_key x = cw_key write))). hear_sat (\<lambda>_. True) (content g v)"
    by (auto simp: verts_props sat_defs split: event.splits)
  from brings_back_fold[OF this, where b = False] have
    "res_fold (brings_back g write) False (verts g (hear_sat (\<lambda>x. ch_key x = cw_key write))) =
      Inr (\<exists>v < length (eg_vertices g). hear_sat (\<lambda>x. ch_key x = cw_key write \<and>
        cw_end_timestamp write < ch_start_timestamp x \<and>
        (ch_etype x = HEAR_ADDED \<or> ch_etype x = HEAR_UPDATED)) (content g v))"
    unfolding both_sat[symmetric] by (auto simp: verts_props)
  then show ?thesis using assms(2,3) grp
    by (cases "map_of (eg_hear_key g) (cw_key write)") (auto simp: has_reversed_effect_def as_write_def)
qed

theorem reversed_effect_exact_witness:
  "\<exists>g. build_controller_event_graph False False [] [] [] stale_log = Inr g \<and>
     has_reversed_effect g (0, 4) = Inr False"
proof -
  have "\<exists>g. build_controller_event_graph False False [] [] [] stale_log = Inr g \<and>
     (map_sum id (\<lambda>w. (cw_etype w, map_of (eg_hear_key g) (cw_key w) = None, cw_end_timestamp w)) (as_write (content g 4)),
      list_ex (\<lambda>v. hear_sat (\<lambda>x. 7 < ch_start_timestamp x) (ev_content v)) (eg_vertices g)) =
     (Inr (WRITE_DELETE, False, 7), False)"
  proof (rule map_sum_Inr)
    show "map_sum id (\<lambda>g. (map_sum id (\<lambda>w. (cw_etype w, map_of (eg_hear_key g) (cw_key w) = None, cw_end_timestamp w))
          (as_write (content g 4)),
        list_ex (\<lambda>v. hear_sat (\<lambda>x. 7 < ch_start_timestamp x) (ev_content v)) (eg_vertices g)))
      (build_controller_event_graph False False [] [] [] stale_log) = Inr (Inr (WRITE_DELETE, False, 7), False)"
      by code_simp
  qed
  then obtain g where g: "build_controller_event_graph False False [] [] [] stale_log = Inr g"
    "map_sum id (\<lambda>w. (cw_etype w, map_of (eg_hear_key g) (cw_key w) = None, cw_end_timestamp w)) (as_write (content g 4)) =
      Inr (WRITE_DELETE, False, 7)"
    "\<not> list_ex (\<lambda>v. hear_sat (\<lambda>x. 7 < ch_start_timestamp x) (ev_content v)) (eg_vertices g)"
    by (elim exE conjE) (simp only: prod.inject simp_thms)
  obtain w where w: "content g 4 = Write w" "cw_etype w = WRITE_DELETE" "map_of (eg_hear_key g) (cw_key w) \<noteq> None"
    "cw_end_timestamp w = 7" using map_sum_Inr[OF g(2)] by (auto simp: res_simps)
  have "\<not> hear_sat (\<lambda>x. P x \<and> 7 < ch_start_timestamp x \<and> Q x) (content g v)" if "v < length (eg_vertices g)" for v P Q
    using g(3) nth_mem[OF that] by (auto simp: list_ex_iff sat_defs split: event.splits)
  with reversed_effect_exact[OF g(1) w(1,2), of 0] w(3,4) g(1) show ?thesis by auto
qed

section \<open>What is generated\<close>

definition kept_pair :: "test_context \<Rightarrow> json \<Rightarrow> event_graph \<Rightarrow> nat \<times> nat \<Rightarrow> bool" where
  "kept_pair tc end_state g pair \<longleftrightarrow>
     (py_truth (cc_causality_pruning_enabled (tc_common_config tc)) \<longrightarrow>
        event_vertices_connected g (fst pair) (snd pair)) \<and>
     (py_truth (cc_effective_updates_pruning_enabled (tc_common_config tc)) \<longrightarrow>
        has_reversed_effect g pair = Inr True) \<and>
     (py_truth (cc_nondeterministic_pruning_enabled (tc_common_config tc)) \<longrightarrow>
        detectable_pair end_state g pair = Inr True)"

text \<open>The pairs that get two plans, and the pauses of the plans of a pair, in the order they are saved.\<close>

definition paused_twice :: "event_graph \<Rightarrow> nat \<times> nat \<Rightarrow> bool" where
  "paused_twice g pair \<longleftrightarrow> decide_stale_state_timing g (fst pair) (snd pair) \<notin> {Inr ''after'', Inr ''before''}"

definition pauses_of :: "event_graph \<Rightarrow> nat \<times> nat \<Rightarrow> string list" where
  "pauses_of g pair = (case decide_stale_state_timing g (fst pair) (snd pair) of
       Inr timing \<Rightarrow> if timing = ''both'' then [''after'', ''before''] else [timing]
     | Inl e \<Rightarrow> [])"

definition pair_pauses :: "event_graph \<Rightarrow> (nat \<times> nat) list \<Rightarrow> ((nat \<times> nat) \<times> string) list" where
  "pair_pauses g pairs = concat (map (\<lambda>pair. map (Pair pair) (pauses_of g pair)) pairs)"

text \<open>The plan for one pair and one pause.\<close>

definition stale_plan :: "test_context \<Rightarrow> event_graph \<Rightarrow> (nat \<times> nat) \<times> string \<Rightarrow> json res" where
  "stale_plan tc g item = (case item of ((source, sink), timing) \<Rightarrow>
     res_bind (as_hear (content g source)) (\<lambda>hear.
     res_bind (as_write (content g sink)) (\<lambda>write.
       generate_stale_state_test_plan tc hear write timing)))"

lemma timing_loop_values:
  "timing_loop fuel g sink key n cur = Inr t \<Longrightarrow> t \<in> {''after'', ''before'', ''both''}"
  by (induction fuel arbitrary: n cur) (auto simp: Let_def res_simps split: list.splits if_splits)

lemma timing_values:
  "decide_stale_state_timing g source sink = Inr t \<Longrightarrow> t \<in> {''after'', ''before'', ''both''}"
  by (auto simp: decide_stale_state_timing_def res_simps simp del: timing_loop.simps
      dest!: timing_loop_values split: option.splits if_splits)

lemma stale_step_plans:
  assumes "stale_plan_step tc g path (saved tc path ''stale-state-test-plan-'' plans, n) pair = Inr st"
  shows "\<exists>qs. res_map (stale_plan tc g) (map (Pair pair) (pauses_of g pair)) = Inr qs \<and>
    st = (saved tc path ''stale-state-test-plan-'' (plans @ qs), n + (if paused_twice g pair then 1 else 0)) \<and>
    length qs = 1 + (if paused_twice g pair then 1 else 0)"
proof -
  obtain h w t where f: "as_hear (content g (fst pair)) = Inr h" "as_write (content g (snd pair)) = Inr w"
      "decide_stale_state_timing g (fst pair) (snd pair) = Inr t"
    and rest: "(if t = ''after'' \<or> t = ''before'' then
         res_bind (generate_stale_state_test_plan tc h w t) (\<lambda>plan.
           Inr (save_stale tc path (saved tc path ''stale-state-test-plan-'' plans) plan, n))
       else
         res_bind (generate_stale_state_test_plan tc h w ''after'') (\<lambda>plan1.
         res_bind (generate_stale_state_test_plan tc h w ''before'') (\<lambda>plan2.
           Inr (save_stale tc path (save_stale tc path (saved tc path ''stale-state-test-plan-'' plans) plan1) plan2,
             Suc n)))) = Inr st"
    using assms by (cases pair) (auto simp: stale_plan_step_def res_bind_eq_Inr)
  have plan: "stale_plan tc g (pair, x) = generate_stale_state_test_plan tc h w x" for x
    using f by (simp add: stale_plan_def split_beta)
  show ?thesis
  proof (cases "t = ''both''")
    case True
    then show ?thesis using rest f(3)
      by (auto simp: pauses_of_def paused_twice_def plan res_simps save_stale_def save_plan_saved)
  next
    case False
    then have t: "t = ''after'' \<or> t = ''before''" using timing_values[OF f(3)] by simp
    then obtain p where "generate_stale_state_test_plan tc h w t = Inr p"
      "st = (saved tc path ''stale-state-test-plan-'' (plans @ [p]), n)"
      using rest by (auto simp: res_simps save_stale_def save_plan_saved)
    moreover have "pauses_of g pair = [t]" "\<not> paused_twice g pair"
      using t f(3) by (auto simp: pauses_of_def paused_twice_def)
    ultimately show ?thesis by (simp add: plan)
  qed
qed

lemma res_map_append:
  "res_map f (xs @ ys) = res_bind (res_map f xs) (\<lambda>us. res_bind (res_map f ys) (\<lambda>vs. Inr (us @ vs)))"
  by (induction xs) (auto simp: res_bind_assoc res_bind_def split: sum.splits)

lemma stale_fold:
  assumes "res_fold (stale_plan_step tc g path) (saved tc path ''stale-state-test-plan-'' plans, n) pairs = Inr (files, both)"
  shows "\<exists>ps. res_map (stale_plan tc g) (pair_pauses g pairs) = Inr ps \<and>
    files = saved tc path ''stale-state-test-plan-'' (plans @ ps) \<and>
    length ps = length pairs + length (filter (paused_twice g) pairs) \<and>
    both = n + length (filter (paused_twice g) pairs)"
  using assms
proof (induction pairs arbitrary: plans n)
  case (Cons pair pairs)
  obtain st where st: "stale_plan_step tc g path (saved tc path ''stale-state-test-plan-'' plans, n) pair = Inr st"
    "res_fold (stale_plan_step tc g path) st pairs = Inr (files, both)"
    using Cons.prems by (auto simp: res_bind_eq_Inr)
  obtain qs where qs: "res_map (stale_plan tc g) (map (Pair pair) (pauses_of g pair)) = Inr qs"
    "st = (saved tc path ''stale-state-test-plan-'' (plans @ qs), n + (if paused_twice g pair then 1 else 0))"
    "length qs = 1 + (if paused_twice g pair then 1 else 0)"
    using stale_step_plans[OF st(1)] by blast
  from Cons.IH[OF st(2)[unfolded qs(2)]] obtain ps where
    "res_map (stale_plan tc g) (pair_pauses g pairs) = Inr ps"
    "files = saved tc path ''stale-state-test-plan-'' ((plans @ qs) @ ps)"
    "length ps = length pairs + length (filter (paused_twice g) pairs)"
    "both = n + (if paused_twice g pair then 1 else 0) + length (filter (paused_twice g) pairs)" by blast
  then show ?case using qs by (intro exI[of _ "qs @ ps"]) (simp add: pair_pauses_def res_map_append)
qed (simp add: pair_pauses_def)

text \<open>The pairs left by the first and by the second pruning.\<close>

definition causal_pairs :: "test_context \<Rightarrow> event_graph \<Rightarrow> (nat \<times> nat) list \<Rightarrow> (nat \<times> nat) list" where
  "causal_pairs tc g pairs = filter (\<lambda>p. py_truth (cc_causality_pruning_enabled (tc_common_config tc)) \<longrightarrow>
     event_vertices_connected g (fst p) (snd p)) pairs"

definition reversed_pairs :: "test_context \<Rightarrow> event_graph \<Rightarrow> (nat \<times> nat) list \<Rightarrow> (nat \<times> nat) list" where
  "reversed_pairs tc g pairs = filter (\<lambda>p. py_truth (cc_effective_updates_pruning_enabled (tc_common_config tc)) \<longrightarrow>
     has_reversed_effect g p = Inr True) (causal_pairs tc g pairs)"

lemma stale_state_analysis_plans:
  assumes "build_controller_event_graph loosen compress field_key_mask field_path_mask learned lines = Inr g"
    and "stale_state_analysis tc end_state g path = Inr ((baseline, p1, p2, final), st)"
  shows "\<exists>pairs kept twice plans. get_stale_state_baseline g = Inr pairs \<and>
    set pairs = {(h, w). h < length (eg_vertices g) \<and> w < length (eg_vertices g) \<and>
      stale_candidate (content g h) (content g w)} \<and> distinct pairs \<and>
    kept = filter (kept_pair tc end_state g) pairs \<and> twice = length (filter (paused_twice g) kept) \<and>
    res_map (stale_plan tc g) (pair_pauses g kept) = Inr plans \<and>
    st = saved tc path ''stale-state-test-plan-'' plans \<and> length plans = length kept + twice \<and>
    final = int (fst st) \<and> baseline = int (length pairs) + int twice \<and> final \<le> baseline \<and>
    p1 = (if py_truth (cc_causality_pruning_enabled (tc_common_config tc))
          then int (length (causal_pairs tc g pairs)) else -1) + int twice \<and>
    p2 = (if py_truth (cc_effective_updates_pruning_enabled (tc_common_config tc))
          then int (length (reversed_pairs tc g pairs)) else -1) + int twice \<and>
    distinct (map fst (snd st))"
proof -
  let ?on1 = "py_truth (cc_causality_pruning_enabled (tc_common_config tc))"
  let ?on2 = "py_truth (cc_effective_updates_pruning_enabled (tc_common_config tc))"
  let ?on3 = "py_truth (cc_nondeterministic_pruning_enabled (tc_common_config tc))"
  have "graph_ok g" using build_inv[OF assms(1)] connected_finalize(1) by blast
  from baseline_exact[OF this] obtain pairs where pairs: "get_stale_state_baseline g = Inr pairs" "distinct pairs"
    "set pairs = {(h, w). h < length (eg_vertices g) \<and> w < length (eg_vertices g) \<and>
      stale_candidate (content g h) (content g w)}" by blast
  let ?ps1 = "if ?on1 then causality_pair_filtering_pass g pairs else pairs"
  obtain ps2 k ps3 both where ps2: "(if ?on2 then res_bind (reversed_effect_filtering_pass g ?ps1)
        (\<lambda>pairs2. Inr (pairs2, int (length pairs2))) else Inr (?ps1, -1)) = Inr (ps2, k)"
    and ps3: "(if ?on3 then stale_state_detectable_pass end_state g ps2 else Inr ps2) = Inr ps3"
    and fold: "res_fold (stale_plan_step tc g path) ((0, []), 0) ps3 = Inr (st, both)"
    and n: "baseline = int (length pairs) + int both" "p1 = (if ?on1 then int (length ?ps1) else -1) + int both"
      "p2 = k + int both" "final = int (length ps3) + int both"
    using assms(2) unfolding stale_state_analysis_def
    by (auto simp: pairs(1) Let_def res_bind_eq_Inr)
  have 1: "?ps1 = causal_pairs tc g pairs"
    by (auto simp: causality_pair_filtering_pass_def causal_pairs_def intro!: filter_cong)
  have 2: "ps2 = reversed_pairs tc g pairs" "k = (if ?on2 then int (length ps2) else -1)"
    using ps2 res_filter_Inr[of "has_reversed_effect g" ?ps1 ps2]
    by (auto simp: reversed_effect_filtering_pass_def res_bind_eq_Inr reversed_pairs_def 1 split: if_splits)
  have 3: "ps3 = filter (\<lambda>p. ?on3 \<longrightarrow> detectable_pair end_state g p = Inr True) ps2"
    using ps3 res_filter_Inr[of "detectable_pair end_state g" ps2 ps3]
    by (auto simp: stale_state_detectable_pass_def split: if_splits)
  have kept: "ps3 = filter (kept_pair tc end_state g) pairs"
    unfolding 3 2(1) reversed_pairs_def causal_pairs_def filter_filter kept_pair_def by (rule filter_cong) auto
  obtain plans where plans: "res_map (stale_plan tc g) (pair_pauses g ps3) = Inr plans"
    "st = saved tc path ''stale-state-test-plan-'' plans"
    "length plans = length ps3 + length (filter (paused_twice g) ps3)" "both = length (filter (paused_twice g) ps3)"
    using stale_fold[of tc g path "[]" 0 ps3 st both] fold by (auto simp: saved_Nil)
  have d: "distinct (map fst (snd st))" unfolding plans(2) by (rule saved_distinct) simp_all
  have f: "fst st = length plans" by (simp add: plans(2) saved_def)
  have l: "length ps3 \<le> length pairs" by (simp add: kept)
  have p1: "p1 = (if ?on1 then int (length (causal_pairs tc g pairs)) else -1) + int both"
    using n(2) unfolding 1 .
  have p2: "p2 = (if ?on2 then int (length (reversed_pairs tc g pairs)) else -1) + int both"
    using n(3) unfolding 2 .
  show ?thesis
    by (intro exI[of _ pairs] exI[of _ ps3] exI[of _ both] exI[of _ plans] conjI)
       (fact pairs kept plans d p1 p2 n(1) | simp add: f l n plans(3,4))+
qed

text \<open>
  C7: \<open>stale_state_analysis\<close> starts from exactly the pairs of a hear and a deletion that follows it
  and keeps those that pass the enabled prunings. What it saves, in this order and under distinct
  names, are the plans of exactly the kept pairs: \<open>generate_stale_state_test_plan\<close> applied to the hear
  and the write of the pair with the timing that was decided for it, first \<open>after\<close> and then \<open>before\<close>
  when the timing is \<open>both\<close>. The number it reports last is the number of plans, and the baseline is
  never smaller. The numbers after the first and the second pruning are those of the pairs that are left
  plus the additional plans; the latter are added also when the pruning is disabled, where the numbers
  no longer read -1.
\<close>

theorem stale_state_plans:
  assumes "build_controller_event_graph loosen compress field_key_mask field_path_mask learned lines = Inr g"
    and "stale_state_analysis tc end_state g path = Inr ((baseline, p1, p2, final), st)"
  shows "\<exists>pairs kept twice plans. get_stale_state_baseline g = Inr pairs \<and>
    set pairs = {(h, w). h < length (eg_vertices g) \<and> w < length (eg_vertices g) \<and>
      stale_candidate (content g h) (content g w)} \<and> distinct pairs \<and>
    kept = filter (kept_pair tc end_state g) pairs \<and> twice = length (filter (paused_twice g) kept) \<and>
    res_map (stale_plan tc g) (pair_pauses g kept) = Inr plans \<and>
    st = saved tc path ''stale-state-test-plan-'' plans \<and> length plans = length kept + twice \<and>
    final = int (fst st) \<and> baseline = int (length pairs) + int twice \<and> final \<le> baseline \<and>
    p1 = (if py_truth (cc_causality_pruning_enabled (tc_common_config tc))
          then int (length (causal_pairs tc g pairs)) else -1) + int twice \<and>
    p2 = (if py_truth (cc_effective_updates_pruning_enabled (tc_common_config tc))
          then int (length (reversed_pairs tc g pairs)) else -1) + int twice \<and>
    distinct (map fst (snd st))"
  by (rule stale_state_analysis_plans[OF assms])

text \<open>Without its last line the sample log ends with the deletion.\<close>

lemma stale_sample_analysis:
  "\<exists>g. build_controller_event_graph False False [] [] [] (butlast stale_log) = Inr g \<and>
     map_sum id fst (stale_state_analysis (sample_tc False) (JObj []) g ''out'') = Inr (2, -1, -1, 2)"
proof (rule map_sum_Inr)
  show "map_sum id (\<lambda>g. map_sum id fst (stale_state_analysis (sample_tc False) (JObj []) g ''out''))
    (build_controller_event_graph False False [] [] [] (butlast stale_log)) = Inr (Inr (2, -1, -1, 2))" by code_simp
qed

theorem stale_state_plans_witness:
  "\<exists>g st pairs plans. build_controller_event_graph False False [] [] [] (butlast stale_log) = Inr g \<and>
     stale_state_analysis (sample_tc False) (JObj []) g ''out'' = Inr ((2, -1, -1, 2), st) \<and>
     get_stale_state_baseline g = Inr pairs \<and>
     res_map (stale_plan (sample_tc False) g)
       (pair_pauses g (filter (kept_pair (sample_tc False) (JObj []) g) pairs)) = Inr plans \<and>
     st = saved (sample_tc False) ''out'' ''stale-state-test-plan-'' plans \<and> fst st = 2"
proof -
  obtain g where g: "build_controller_event_graph False False [] [] [] (butlast stale_log) = Inr g"
    "map_sum id fst (stale_state_analysis (sample_tc False) (JObj []) g ''out'') = Inr (2, -1, -1, 2)"
    using stale_sample_analysis by (elim exE conjE)
  obtain r where r: "stale_state_analysis (sample_tc False) (JObj []) g ''out'' = Inr r" "fst r = (2, -1, -1, 2)"
    using map_sum_Inr[OF g(2)] by blast
  then have a: "stale_state_analysis (sample_tc False) (JObj []) g ''out'' = Inr ((2, -1, -1, 2), snd r)"
    by (cases r) simp
  obtain pairs plans where p: "get_stale_state_baseline g = Inr pairs"
    "res_map (stale_plan (sample_tc False) g)
       (pair_pauses g (filter (kept_pair (sample_tc False) (JObj []) g) pairs)) = Inr plans"
    "snd r = saved (sample_tc False) ''out'' ''stale-state-test-plan-'' plans" "2 = int (fst (snd r))"
    using stale_state_plans[OF g(1) a] by (elim exE conjE) simp
  from p(4) have "fst (snd r) = 2" by simp
  with g(1) a p show ?thesis by (intro exI conjI)
qed

end
