(* ===== verification/Unobserved_State.thy ===== *)
theory Unobserved_State
  imports Stale_State
begin

text \<open>
  The unobserved-state policy, \<^verbatim>\<open>sieve_perturbation_policies/unobserved_state.py\<close>: the controller is
  paused so that it misses a state that a later event overwrites. The candidates are the hears that
  some later hear cancels.
\<close>

section \<open>Passes\<close>

definition detectable_hear_vertex :: "json \<Rightarrow> event_graph \<Rightarrow> nat \<Rightarrow> bool res" where
  "detectable_hear_vertex end_state g v =
     res_bind (as_hear (content g v)) (\<lambda>hear.
     res_bind (nondeterministic_hear end_state hear) (\<lambda>skip.
       if skip then Inr False else detectable_hear hear))"

definition unobserved_state_detectable_pass :: "json \<Rightarrow> event_graph \<Rightarrow> nat list \<Rightarrow> nat list res" where
  "unobserved_state_detectable_pass end_state g event_vertices =
     res_filter (detectable_hear_vertex end_state g) event_vertices"

definition causality_hear_filtering_pass :: "event_graph \<Rightarrow> nat list \<Rightarrow> nat list" where
  "causality_hear_filtering_pass g event_vertices =
     filter (\<lambda>v. length (ev_out_inter (vertex g v)) > 0) event_vertices"

text \<open>
  \<open>impact_filtering_pass\<close> reads the attribute \<open>error\<close> of the sinks, which only writes to the API
  server have.
\<close>

definition impact_filtering_pass :: "event_graph \<Rightarrow> nat list \<Rightarrow> nat list res" where
  "impact_filtering_pass g event_vertices =
     res_filter (\<lambda>v. res_fold (\<lambda>at_least_one_successful_write out_inter_edge.
         res_bind (as_write (content g (ee_sink out_inter_edge))) (\<lambda>resulted_write.
           Inr (at_least_one_successful_write \<or> cw_error resulted_write \<in> set ALLOWED_ERROR_TYPE)))
       False (ev_out_inter (vertex g v))) event_vertices"

definition overwrite_filtering_pass :: "event_graph \<Rightarrow> nat list \<Rightarrow> nat list res" where
  "overwrite_filtering_pass g event_vertices =
     res_filter (\<lambda>v. res_bind (as_hear (content g v)) (\<lambda>h. Inr (length (ch_cancelled_by h) > 0))) event_vertices"

section \<open>Plans\<close>

text \<open>The second trigger: whatever ends the state that must not be observed.\<close>

definition resume_definition :: "string \<Rightarrow> json \<Rightarrow> json" where
  "resume_definition name condition = observed name condition ''afterControllerRecv'' (JStr ''informer'')"

definition unobserved_conditions :: "controller_hear \<Rightarrow> json \<times> json list" where
  "unobserved_conditions h =
     (let resource_key = generate_key (ch_rtype h) (ch_namespace h) (ch_name h);
          n = ch_signature_counter h in
      if ch_etype h = HEAR_ADDED then
        (condition_of ''onObjectCreate'' resource_key n,
         [resume_definition ''trigger2'' (condition_of ''onObjectUpdate'' resource_key 1),
          resume_definition ''trigger3'' (condition_of ''onObjectDelete'' resource_key 1)])
      else if ch_etype h = HEAR_DELETED then
        (condition_of ''onObjectDelete'' resource_key n,
         [resume_definition ''trigger2'' (condition_of ''onObjectCreate'' resource_key 1),
          resume_definition ''trigger3'' (condition_of ''onObjectUpdate'' resource_key 1)])
      else
        (JObj [(''conditionType'', JStr ''onObjectUpdate''), (''resourceKey'', JStr resource_key),
           (''prevStateDiff'', JStr (dumps (slim_json (ch_slim_prev_obj_map h)))),
           (''curStateDiff'', JStr (dumps (slim_json (ch_slim_cur_obj_map h)))),
           (''occurrence'', JInt (int n))],
         [resume_definition ''trigger2'' (JObj [(''conditionType'', JStr ''onAnyFieldModification''),
            (''resourceKey'', JStr resource_key),
            (''prevStateDiff'', JStr (dumps (slim_json (ch_slim_cur_obj_map h)))),
            (''occurrence'', JInt 1)]),
          resume_definition ''trigger3'' (condition_of ''onObjectDelete'' resource_key 1)]))"

definition generate_unobserved_state_test_plan :: "test_context \<Rightarrow> controller_hear \<Rightarrow> json" where
  "generate_unobserved_state_test_plan tc h =
     (let resource_key = generate_key (ch_rtype h) (ch_namespace h) (ch_name h) in
      case unobserved_conditions h of (condition_for_trigger1, definitions) \<Rightarrow>
      plan_of tc
        [JObj [(''actionType'', JStr ''pauseController''), (''pauseAt'', JStr ''beforeControllerRead''),
           (''pauseScope'', JStr resource_key), (''avoidOngoingRead'', JBool True),
           (''trigger'', trigger_of [observed ''trigger1'' condition_for_trigger1 ''beforeControllerRecv''
              (JStr ''informer'')] ''trigger1'')],
         JObj [(''actionType'', JStr ''resumeController''), (''pauseAt'', JStr ''beforeControllerRead''),
           (''pauseScope'', JStr resource_key),
           (''trigger'', trigger_of definitions ''trigger2|trigger3'')]])"

section \<open>The analysis\<close>

definition save_unobserved :: "test_context \<Rightarrow> string \<Rightarrow> plan_files \<Rightarrow> json \<Rightarrow> plan_files" where
  "save_unobserved tc path = save_plan tc path ''unobserved-state-test-plan-''"

definition unobserved_state_analysis ::
  "test_context \<Rightarrow> json \<Rightarrow> event_graph \<Rightarrow> string \<Rightarrow> (spec_numbers \<times> plan_files) res" where
  "unobserved_state_analysis tc end_state g path =
     res_bind (overwrite_filtering_pass g (eg_hears g)) (\<lambda>vs0.
     let baseline_spec_number = int (length vs0);
         on1 = py_truth (cc_causality_pruning_enabled (tc_common_config tc));
         vs1 = (if on1 then causality_hear_filtering_pass g vs0 else vs0);
         after_spec_number = (if on1 then int (length vs1) else -1)
     in res_bind (if py_truth (cc_nondeterministic_pruning_enabled (tc_common_config tc))
          then unobserved_state_detectable_pass end_state g vs1 else Inr vs1) (\<lambda>vs2.
        res_bind (res_fold (\<lambda>st v.
            res_bind (py_assert (is_controller_hear (vertex g v))) (\<lambda>_.
            res_bind (as_hear (content g v)) (\<lambda>h.
              Inr (save_unobserved tc path st (generate_unobserved_state_test_plan tc h))))) (0, []) vs2) (\<lambda>st.
          Inr ((baseline_spec_number, after_spec_number, after_spec_number, int (length vs2)), st))))"

section \<open>What is generated\<close>

definition kept_hear :: "test_context \<Rightarrow> json \<Rightarrow> event_graph \<Rightarrow> nat \<Rightarrow> bool" where
  "kept_hear tc end_state g v \<longleftrightarrow>
     hear_sat (\<lambda>h. ch_cancelled_by h \<noteq> []) (content g v) \<and>
     (py_truth (cc_causality_pruning_enabled (tc_common_config tc)) \<longrightarrow> ev_out_inter (vertex g v) \<noteq> []) \<and>
     (py_truth (cc_nondeterministic_pruning_enabled (tc_common_config tc)) \<longrightarrow>
        detectable_hear_vertex end_state g v = Inr True)"

definition hear_plan :: "test_context \<Rightarrow> event_graph \<Rightarrow> nat \<Rightarrow> json res" where
  "hear_plan tc g v = res_bind (as_hear (content g v)) (\<lambda>h. Inr (generate_unobserved_state_test_plan tc h))"

lemma unobserved_state_analysis_plans:
  assumes "unobserved_state_analysis tc end_state g path = Inr ((baseline, p1, p2, final), st)"
  shows "\<exists>plans. res_map (hear_plan tc g) (filter (kept_hear tc end_state g) (eg_hears g)) = Inr plans \<and>
    st = saved tc path ''unobserved-state-test-plan-'' plans \<and> final = int (fst st) \<and>
    distinct (map fst (snd st)) \<and> final \<le> baseline \<and> p2 = p1 \<and> (p1 \<noteq> -1 \<longrightarrow> final \<le> p1 \<and> p1 \<le> baseline)"
proof -
  let ?on1 = "py_truth (cc_causality_pruning_enabled (tc_common_config tc))"
  let ?on2 = "py_truth (cc_nondeterministic_pruning_enabled (tc_common_config tc))"
  obtain vs0 where vs0: "overwrite_filtering_pass g (eg_hears g) = Inr vs0"
    using assms by (auto simp: unobserved_state_analysis_def res_bind_eq_Inr)
  let ?vs1 = "if ?on1 then causality_hear_filtering_pass g vs0 else vs0"
  obtain vs2 where vs2: "(if ?on2 then unobserved_state_detectable_pass end_state g ?vs1 else Inr ?vs1) = Inr vs2"
    and fold: "res_fold (\<lambda>st v. res_bind (py_assert (is_controller_hear (vertex g v))) (\<lambda>_.
            res_bind (as_hear (content g v)) (\<lambda>h.
              Inr (save_unobserved tc path st (generate_unobserved_state_test_plan tc h))))) (0, []) vs2 = Inr st"
    and n: "baseline = int (length vs0)" "p1 = (if ?on1 then int (length ?vs1) else -1)" "p2 = p1"
      "final = int (length vs2)"
    using assms unfolding unobserved_state_analysis_def
    by (auto simp: vs0 Let_def res_bind_eq_Inr)
  have h0: "vs0 = filter (\<lambda>v. hear_sat (\<lambda>h. ch_cancelled_by h \<noteq> []) (content g v)) (eg_hears g)"
    unfolding res_filter_Inr[OF vs0[unfolded overwrite_filtering_pass_def]]
    by (intro filter_cong) (auto simp: res_simps sat_defs as_hear_def split: event.splits)
  have h1: "?vs1 = filter (\<lambda>v. ?on1 \<longrightarrow> ev_out_inter (vertex g v) \<noteq> []) vs0"
    by (auto simp: causality_hear_filtering_pass_def)
  have h2: "vs2 = filter (\<lambda>v. ?on2 \<longrightarrow> detectable_hear_vertex end_state g v = Inr True) ?vs1"
    using vs2 res_filter_Inr[of "detectable_hear_vertex end_state g" ?vs1 vs2]
    by (auto simp: unobserved_state_detectable_pass_def split: if_splits)
  have kept: "vs2 = filter (kept_hear tc end_state g) (eg_hears g)"
    unfolding h2[unfolded h1, unfolded h0] filter_filter kept_hear_def by (rule filter_cong) auto
  have "res_bind (py_assert (is_controller_hear (vertex g v))) (\<lambda>_. res_bind (as_hear (content g v)) (\<lambda>h.
      Inr (save_unobserved tc path st (generate_unobserved_state_test_plan tc h)))) =
      res_bind (hear_plan tc g v) (\<lambda>p. Inr (save_unobserved tc path st p))"
    if "v \<in> set vs2" for st v
    using that by (cases "content g v") (auto simp: kept kept_hear_def hear_plan_def vertex_kinds as_hear_def sat_defs)
  then have "res_fold (\<lambda>st v. res_bind (hear_plan tc g v) (\<lambda>p. Inr (save_unobserved tc path st p))) (0, []) vs2 = Inr st"
    using fold res_fold_cong[of vs2] by (metis (no_types, lifting))
  then obtain plans where p: "res_map (hear_plan tc g) vs2 = Inr plans"
    and st: "st = saved tc path ''unobserved-state-test-plan-'' plans"
    using fold_saved[of "hear_plan tc g" tc path "''unobserved-state-test-plan-''" "[]" vs2 st]
    by (auto simp: saved_Nil save_unobserved_def)
  have "fst st = length vs2" using res_map_length[OF p] by (simp add: st saved_def)
  moreover have "distinct (map fst (snd st))" unfolding st by (rule saved_distinct) simp_all
  moreover have "length vs2 \<le> length ?vs1" unfolding h2 by (rule length_filter_le)
  moreover have "length ?vs1 \<le> length vs0" unfolding h1 by (rule length_filter_le)
  ultimately show ?thesis using n p st unfolding kept[symmetric] by (cases ?on1) auto
qed

text \<open>
  C12: \<open>unobserved_state_analysis\<close> generates one plan for every hear that a later hear cancels and
  that passes the enabled prunings, in the order of the log, and reports their number last; the
  number before pruning is never smaller and the files have distinct names.
\<close>

theorem unobserved_state_plans:
  assumes "unobserved_state_analysis tc end_state g path = Inr ((baseline, p1, p2, final), st)"
  shows "\<exists>plans. res_map (hear_plan tc g) (filter (kept_hear tc end_state g) (eg_hears g)) = Inr plans \<and>
    st = saved tc path ''unobserved-state-test-plan-'' plans \<and> final = int (fst st) \<and>
    distinct (map fst (snd st)) \<and> final \<le> baseline \<and> p2 = p1 \<and> (p1 \<noteq> -1 \<longrightarrow> final \<le> p1 \<and> p1 \<le> baseline)"
  by (rule unobserved_state_analysis_plans[OF assms])

lemma unobserved_sample:
  "\<exists>g. build_controller_event_graph False False [] [] [] stale_log = Inr g \<and>
     map_sum id fst (unobserved_state_analysis (sample_tc True) (JObj []) g ''out'') = Inr (1, 1, 1, 1)"
proof (rule map_sum_Inr)
  show "map_sum id (\<lambda>g. map_sum id fst (unobserved_state_analysis (sample_tc True) (JObj []) g ''out''))
    (build_controller_event_graph False False [] [] [] stale_log) = Inr (Inr (1, 1, 1, 1))" by code_simp
qed

theorem unobserved_state_plans_witness:
  "\<exists>g st. unobserved_state_analysis (sample_tc True) (JObj []) g ''out'' = Inr ((1, 1, 1, 1), st) \<and> fst st = 1"
proof -
  obtain g where g: "map_sum id fst (unobserved_state_analysis (sample_tc True) (JObj []) g ''out'') = Inr (1, 1, 1, 1)"
    using unobserved_sample by (elim exE conjE)
  obtain r where r: "unobserved_state_analysis (sample_tc True) (JObj []) g ''out'' = Inr r" "fst r = (1, 1, 1, 1)"
    using map_sum_Inr[OF g] by blast
  then have a: "unobserved_state_analysis (sample_tc True) (JObj []) g ''out'' = Inr ((1, 1, 1, 1), snd r)"
    by (cases r) simp
  have "1 = int (fst (snd r))" using unobserved_state_plans[OF a] by (elim exE conjE)
  then have "fst (snd r) = 1" by simp
  with a show ?thesis by (intro exI conjI)
qed

end
