(* ===== verification/Test_Plans.thy ===== *)
theory Test_Plans
  imports Unobserved_State
begin

text \<open>
  From a learning run to test plans: \<open>generate_test_plans\<close> and \<open>generate_test_plans_from_learn_run\<close> of
  \<^verbatim>\<open>sieve_analyzer/analyze.py\<close>. The lines of \<open>sieve-server.log\<close>, the value of \<open>mask.json\<close> (\<open>None\<close>
  when the file is missing) and that of \<open>state.json\<close> are arguments; the directory of each policy is
  emptied first, so that it holds the returned files.
\<close>

definition STALE_STATE :: string where "STALE_STATE = ''stale-state''"
definition UNOBSERVED_STATE :: string where "UNOBSERVED_STATE = ''unobserved-state''"
definition INTERMEDIATE_STATE :: string where "INTERMEDIATE_STATE = ''intermediate-state''"

text \<open>The function returns \<open>None\<close> for a mode that is none of the three.\<close>

definition generate_test_plans ::
  "test_context \<Rightarrow> json \<Rightarrow> string \<Rightarrow> event_graph \<Rightarrow> (spec_numbers \<times> plan_files) option res" where
  "generate_test_plans tc end_state analysis_mode g =
     (let generated_config_dir = path_join (tc_result_dir tc) analysis_mode in
      if analysis_mode = STALE_STATE
      then res_bind (stale_state_analysis tc end_state g generated_config_dir) (\<lambda>r. Inr (Some r))
      else if analysis_mode = UNOBSERVED_STATE
      then res_bind (unobserved_state_analysis tc end_state g generated_config_dir) (\<lambda>r. Inr (Some r))
      else if analysis_mode = INTERMEDIATE_STATE
      then res_bind (intermediate_state_analysis tc end_state g generated_config_dir) (\<lambda>r. Inr (Some r))
      else Inr None)"

text \<open>\<open>build_controller_event_graph\<close> called with the test context.\<close>

definition build_graph_of_context :: "test_context \<Rightarrow> json \<Rightarrow> string list \<Rightarrow> event_graph res" where
  "build_graph_of_context tc learned_mask lines =
     res_bind (as_mask_map learned_mask) (\<lambda>learned_masked_paths.
     res_bind (as_mask_map (cc_field_key_mask (tc_common_config tc))) (\<lambda>field_key_mask.
     res_bind (as_mask_map (cc_field_path_mask (tc_common_config tc))) (\<lambda>field_path_mask.
       build_controller_event_graph
         (py_truth (kc_loosen_reconciler_boundary (tc_controller_config tc)))
         (py_truth (cc_compress_trivial_reconcile_enabled (tc_common_config tc)))
         field_key_mask field_path_mask learned_masked_paths lines)))"

definition numbers_json :: "spec_numbers \<Rightarrow> json" where
  "numbers_json ns = (case ns of (baseline, after_p1, after_p2, final) \<Rightarrow>
     JObj [(''baseline'', JInt baseline), (''after_p1'', JInt after_p1), (''after_p2'', JInt after_p2),
       (''final'', JInt final)])"

record learn_result =
  lr_file :: string
  lr_result :: json
  lr_plans :: "(string \<times> plan_files) list"

definition run_mode ::
  "test_context \<Rightarrow> json \<Rightarrow> event_graph \<Rightarrow> (string \<times> spec_numbers \<times> plan_files) list \<Rightarrow> string \<Rightarrow>
   (string \<times> spec_numbers \<times> plan_files) list res" where
  "run_mode tc end_state g results analysis_mode =
     res_bind (generate_test_plans tc end_state analysis_mode g) (\<lambda>r.
     res_bind (from_option TypeError r) (\<lambda>(numbers, files).
       Inr (results @ [(analysis_mode, numbers, files)])))"

definition generate_test_plans_from_learn_run ::
  "test_context \<Rightarrow> json \<Rightarrow> json option \<Rightarrow> string list \<Rightarrow> learn_result res" where
  "generate_test_plans_from_learn_run tc end_state learned_mask lines =
     res_bind (sanity_check_sieve_server_log lines) (\<lambda>_.
     res_bind (from_option AssertionError learned_mask) (\<lambda>mask_json.
     res_bind (build_graph_of_context tc mask_json lines) (\<lambda>g.
     res_bind (res_fold (run_mode tc end_state g) [] [STALE_STATE, UNOBSERVED_STATE, INTERMEDIATE_STATE]) (\<lambda>results.
       Inr \<lparr> lr_file = tc_result_root_dir tc @ ''/'' @ tc_controller tc @ ''-'' @ tc_test_workload tc @ ''.json'',
             lr_result = JObj ([(''controller'', JStr (tc_controller tc)), (''test'', JStr (tc_test_workload tc))] @
               map (\<lambda>(mode, numbers, _). (mode, numbers_json numbers)) results),
             lr_plans = map (\<lambda>(mode, _, files). (mode, files)) results \<rparr>))))"

section \<open>The result file reports the plans\<close>

lemma learn_run_policies:
  assumes "generate_test_plans_from_learn_run tc end_state learned_mask lines = Inr r"
  obtains m g ns1 s ns2 u ns3 i where "sanity_check_sieve_server_log lines = Inr ()" "learned_mask = Some m"
    "build_graph_of_context tc m lines = Inr g"
    "stale_state_analysis tc end_state g (path_join (tc_result_dir tc) STALE_STATE) = Inr (ns1, s)"
    "unobserved_state_analysis tc end_state g (path_join (tc_result_dir tc) UNOBSERVED_STATE) = Inr (ns2, u)"
    "intermediate_state_analysis tc end_state g (path_join (tc_result_dir tc) INTERMEDIATE_STATE) = Inr (ns3, i)"
    "lr_plans r = [(STALE_STATE, s), (UNOBSERVED_STATE, u), (INTERMEDIATE_STATE, i)]"
    "lr_result r = JObj [(''controller'', JStr (tc_controller tc)), (''test'', JStr (tc_test_workload tc)),
      (STALE_STATE, numbers_json ns1), (UNOBSERVED_STATE, numbers_json ns2), (INTERMEDIATE_STATE, numbers_json ns3)]"
proof -
  obtain m g rs where sane: "sanity_check_sieve_server_log lines = Inr ()" and m: "learned_mask = Some m"
    and g: "build_graph_of_context tc m lines = Inr g"
    and rs: "res_fold (run_mode tc end_state g) [] [STALE_STATE, UNOBSERVED_STATE, INTERMEDIATE_STATE] = Inr rs"
    and r: "lr_result r = JObj ([(''controller'', JStr (tc_controller tc)), (''test'', JStr (tc_test_workload tc))] @
               map (\<lambda>(mode, numbers, _). (mode, numbers_json numbers)) rs)"
      "lr_plans r = map (\<lambda>(mode, _, files). (mode, files)) rs"
    using assms by (auto simp: generate_test_plans_from_learn_run_def res_simps)
  obtain ns1 s ns2 u ns3 i where
    "stale_state_analysis tc end_state g (path_join (tc_result_dir tc) STALE_STATE) = Inr (ns1, s)"
    "unobserved_state_analysis tc end_state g (path_join (tc_result_dir tc) UNOBSERVED_STATE) = Inr (ns2, u)"
    "intermediate_state_analysis tc end_state g (path_join (tc_result_dir tc) INTERMEDIATE_STATE) = Inr (ns3, i)"
    and "rs = [(STALE_STATE, ns1, s), (UNOBSERVED_STATE, ns2, u), (INTERMEDIATE_STATE, ns3, i)]"
    using rs by (auto simp: run_mode_def generate_test_plans_def res_simps Let_def STALE_STATE_def
        UNOBSERVED_STATE_def INTERMEDIATE_STATE_def)
  then show thesis using that sane m g r by simp
qed

text \<open>
  C32: a learning run that returns has a log that passes the sanity check and a mask file, and its
  result file reports, under each of the three policies, as final number exactly the number of test
  plans that were generated in that policy's directory, under distinct file names, and never more
  than the baseline.
\<close>

theorem learn_run_reports_plans:
  assumes "generate_test_plans_from_learn_run tc end_state learned_mask lines = Inr r"
  shows "sanity_check_sieve_server_log lines = Inr () \<and> learned_mask \<noteq> None \<and>
    map fst (lr_plans r) = [STALE_STATE, UNOBSERVED_STATE, INTERMEDIATE_STATE] \<and>
    (\<forall>(mode, files)\<in>set (lr_plans r). distinct (map fst (snd files)) \<and>
       (\<exists>baseline p1 p2. py_getitem (lr_result r) mode =
          Inr (numbers_json (baseline, p1, p2, int (fst files))) \<and> int (fst files) \<le> baseline))"
proof -
  obtain m g ns1 s ns2 u ns3 i where sane: "sanity_check_sieve_server_log lines = Inr ()" and m: "learned_mask = Some m"
    and g: "build_graph_of_context tc m lines = Inr g"
    and runs: "stale_state_analysis tc end_state g (path_join (tc_result_dir tc) STALE_STATE) = Inr (ns1, s)"
      "unobserved_state_analysis tc end_state g (path_join (tc_result_dir tc) UNOBSERVED_STATE) = Inr (ns2, u)"
      "intermediate_state_analysis tc end_state g (path_join (tc_result_dir tc) INTERMEDIATE_STATE) = Inr (ns3, i)"
    and r: "lr_plans r = [(STALE_STATE, s), (UNOBSERVED_STATE, u), (INTERMEDIATE_STATE, i)]"
      "lr_result r = JObj [(''controller'', JStr (tc_controller tc)), (''test'', JStr (tc_test_workload tc)),
        (STALE_STATE, numbers_json ns1), (UNOBSERVED_STATE, numbers_json ns2), (INTERMEDIATE_STATE, numbers_json ns3)]"
    using learn_run_policies[OF assms] .
  obtain loosen compress fk fp lm where b: "build_controller_event_graph loosen compress fk fp lm lines = Inr g"
    using g by (auto simp: build_graph_of_context_def res_simps)
  obtain a1 a2 a3 a4 b1 b2 b3 b4 c1 c2 c3 c4 where ns: "ns1 = (a1, a2, a3, a4)" "ns2 = (b1, b2, b3, b4)" "ns3 = (c1, c2, c3, c4)"
    by (metis surj_pair)
  have "a4 = int (fst s) \<and> a4 \<le> a1 \<and> distinct (map fst (snd s))"
    using stale_state_analysis_plans[OF b runs(1)[unfolded ns]] by blast
  moreover have "b4 = int (fst u) \<and> b4 \<le> b1 \<and> distinct (map fst (snd u))"
    using unobserved_state_analysis_plans[OF runs(2)[unfolded ns]] by blast
  moreover have "c4 = int (fst i) \<and> c4 \<le> c1 \<and> distinct (map fst (snd i))"
    using intermediate_state_analysis_plans[OF runs(3)[unfolded ns]] by blast
  ultimately show ?thesis using sane m
    by (auto simp: r ns STALE_STATE_def UNOBSERVED_STATE_def INTERMEDIATE_STATE_def)
qed

text \<open>A context with empty masks, for the sample log.\<close>

definition learn_tc :: test_context where
  "learn_tc = (sample_tc False)\<lparr> tc_common_config := (tc_common_config (sample_tc False))\<lparr>
     cc_field_key_mask := JObj [], cc_field_path_mask := JObj [] \<rparr> \<rparr>"

lemma learn_sample:
  "\<exists>r. generate_test_plans_from_learn_run learn_tc (JObj []) (Some (JObj [])) sample_log = Inr r \<and>
     map (\<lambda>x. (fst (snd x), length (snd (snd x)))) (lr_plans r) = [(0, 0), (0, 0), (1, 1)]"
proof (rule map_sum_Inr)
  show "map_sum id (\<lambda>r. map (\<lambda>x. (fst (snd x), length (snd (snd x)))) (lr_plans r))
    (generate_test_plans_from_learn_run learn_tc (JObj []) (Some (JObj [])) sample_log) = Inr [(0, 0), (0, 0), (1, 1)]"
    by code_simp
qed

theorem learn_run_reports_plans_witness:
  "\<exists>r. generate_test_plans_from_learn_run learn_tc (JObj []) (Some (JObj [])) sample_log = Inr r \<and>
     map (\<lambda>x. fst (snd x)) (lr_plans r) = [0, 0, 1] \<and>
     map fst (lr_plans r) = [STALE_STATE, UNOBSERVED_STATE, INTERMEDIATE_STATE]"
proof -
  obtain r where r: "generate_test_plans_from_learn_run learn_tc (JObj []) (Some (JObj [])) sample_log = Inr r"
    "map (\<lambda>x. (fst (snd x), length (snd (snd x)))) (lr_plans r) = [(0, 0), (0, 0), (1, 1)]"
    using learn_sample by (elim exE conjE)
  have n: "map (\<lambda>x. fst (snd x)) (lr_plans r) = [0, 0, 1]"
    using arg_cong[OF r(2), of "map fst"] by (simp add: comp_def)
  show ?thesis by (intro exI conjI, rule r(1), rule n) (use learn_run_reports_plans[OF r(1)] in \<open>elim conjE\<close>)
qed

end
