(* ===== verification/Plan_Description.thy ===== *)
theory Plan_Description
  imports Test_Plans Py_Repr
begin

text \<open>
  The description of a test plan in words, \<open>generate_perturbation_description\<close> of
  \<^verbatim>\<open>sieve_oracle/checker_common.py\<close>. The value of the plan's YAML file is an argument.
\<close>

definition convert_occurrence :: "string \<Rightarrow> string" where
  "convert_occurrence occurrence = occurrence @
     (if py_endswith occurrence ''1'' then ''st''
      else if py_endswith occurrence ''2'' then ''nd''
      else if py_endswith occurrence ''3'' then ''rd''
      else ''th'')"

definition is_str :: "json \<Rightarrow> string \<Rightarrow> bool" where
  "is_str j s \<longleftrightarrow> json_eq j (JStr s)"

text \<open>\<open>"...{}".format(j[k])\<close>.\<close>

definition format_item :: "json \<Rightarrow> string \<Rightarrow> string res" where
  "format_item j k = res_bind (py_getitem j k) (\<lambda>v. Inr (py_format v))"

definition pause_description :: "json \<Rightarrow> string res" where
  "pause_description action =
     res_bind (py_getitem action ''pauseAt'') (\<lambda>pause_at.
     res_bind (if is_str pause_at ''beforeControllerRead'' then Inr ''before the controller reads ''
               else if is_str pause_at ''afterControllerRead'' then Inr ''after the controller reads ''
               else if is_str pause_at ''beforeControllerWrite'' then Inr ''before the controller writes ''
               else if is_str pause_at ''afterControllerWrite'' then Inr ''after the controller writes ''
               else Inl AssertionError) (\<lambda>point.
     res_bind (py_in ''pauseScope'' action) (\<lambda>scoped.
       if \<not> scoped then Inr (point @ ''any object'')
       else res_bind (py_getitem action ''pauseScope'') (\<lambda>scope.
         if is_str scope ''all'' then Inr (point @ ''any object'')
         else res_bind (as_str scope) (\<lambda>s. Inr (point @ s))))))"

definition action_description :: "test_context \<Rightarrow> json \<Rightarrow> string res" where
  "action_description tc action =
     (let controller_pod_label = py_format (kc_controller_pod_label (tc_controller_config tc)) in
      res_bind (py_getitem action ''actionType'') (\<lambda>action_type.
        if is_str action_type ''pauseAPIServer'' then
          res_bind (format_item action ''apiServerName'') (\<lambda>s. Inr (''pauses the API server '' @ s))
        else if is_str action_type ''resumeAPIServer'' then
          res_bind (format_item action ''apiServerName'') (\<lambda>s. Inr (''resumes the API server '' @ s))
        else if is_str action_type ''pauseController'' then
          res_bind (pause_description action) (\<lambda>s.
            Inr (''pauses the controller '' @ controller_pod_label @ '' '' @ s))
        else if is_str action_type ''resumeController'' then
          Inr (''resumes the controller '' @ controller_pod_label)
        else if is_str action_type ''restartController'' then
          Inr (''restarts the controller '' @ controller_pod_label)
        else if is_str action_type ''reconnectController'' then
          res_bind (format_item action ''reconnectAPIServer'') (\<lambda>s.
            Inr (''reconnects the controller '' @ controller_pod_label @ '' from API server '' @
              py_format (cc_leading_api (tc_common_config tc)) @ '' to API server '' @ s))
        else Inl AssertionError))"

definition newline :: string where "newline = [CHR 0x0A]"

definition annotated_description :: "json \<Rightarrow> json \<Rightarrow> string res" where
  "annotated_description trigger condition =
     res_bind (format_item condition ''module'') (\<lambda>module.
     res_bind (format_item condition ''filePath'') (\<lambda>file_path.
     res_bind (format_item condition ''receiverType'') (\<lambda>receiver_type.
     res_bind (format_item condition ''funName'') (\<lambda>fun_name.
     res_bind (format_item condition ''occurrence'') (\<lambda>occurrence.
     res_bind (py_getitem trigger ''observationPoint'') (\<lambda>point.
     res_bind (py_getitem point ''when'') (\<lambda>observed_when.
     res_bind (if is_str observed_when ''beforeAnnotatedAPICall'' then Inr ''before''
               else if is_str observed_when ''afterAnnotatedAPICall'' then Inr ''after''
               else Inl AssertionError) (\<lambda>side.
       Inr (side @ '' the annotated API '' @ receiver_type @ ''.'' @ fun_name @ '' (in '' @ file_path @
         '' from module '' @ module @ '')'' @ '' is called with the '' @ convert_occurrence occurrence @
         '' occurrence.'' @ newline)))))))))"

definition observer_description :: "test_context \<Rightarrow> json \<Rightarrow> json \<Rightarrow> string res" where
  "observer_description tc point observed_when =
     (let controller_pod_label = py_format (kc_controller_pod_label (tc_controller_config tc));
          api = (\<lambda>side. res_bind (format_item point ''by'') (\<lambda>s.
            Inr (side @ '' the API server '' @ s @ '' receives the event:'' @ newline)));
          controller = (\<lambda>side what. Inr (side @ '' the controller '' @ controller_pod_label @ what @ newline)) in
      if is_str observed_when ''beforeAPIServerRecv'' then api ''before''
      else if is_str observed_when ''afterAPIServerRecv'' then api ''after''
      else if is_str observed_when ''beforeControllerRecv'' then controller ''before'' '' receives the event:''
      else if is_str observed_when ''afterControllerRecv'' then controller ''after'' '' receives the event:''
      else if is_str observed_when ''beforeControllerWrite'' then controller ''before'' '' issues:''
      else if is_str observed_when ''afterControllerWrite'' then controller ''after'' '' issues:''
      else Inr [])"

definition change_description :: "json \<Rightarrow> json \<Rightarrow> string \<Rightarrow> string res" where
  "change_description condition cond_type resource_key =
     (if is_str cond_type ''onObjectCreate'' then Inr (''create '' @ resource_key @ '' '')
      else if is_str cond_type ''onObjectDelete'' then Inr (''delete '' @ resource_key @ '' '')
      else if is_str cond_type ''onObjectUpdate'' then
        res_bind (py_in ''prevStateDiff'' condition) (\<lambda>b.
          if b then res_bind (format_item condition ''prevStateDiff'') (\<lambda>prev.
            res_bind (format_item condition ''curStateDiff'') (\<lambda>cur.
              Inr (''update '' @ resource_key @ '' '' @ ''from'' @ newline @ prev @ newline @ ''to'' @ newline @ cur @ newline)))
          else Inr (''update '' @ resource_key @ '' ''))
      else if is_str cond_type ''onAnyFieldModification'' then
        res_bind (format_item condition ''prevStateDiff'') (\<lambda>prev.
          Inr (''update '' @ resource_key @ '' so that any field in'' @ newline @ prev @ newline @ ''is modified ''))
      else Inr [])"

definition trigger_description :: "test_context \<Rightarrow> json \<Rightarrow> string res" where
  "trigger_description tc trigger =
     res_bind (format_item trigger ''triggerName'') (\<lambda>trigger_name.
     res_bind (py_getitem trigger ''condition'') (\<lambda>condition.
     res_bind (py_getitem condition ''conditionType'') (\<lambda>cond_type.
     res_bind
       (if is_str cond_type ''onTimeout'' then
          res_bind (format_item condition ''timeoutValue'') (\<lambda>s. Inr (''by a '' @ s @ ''-second timeout.'' @ newline))
        else if is_str cond_type ''onAnnotatedAPICall'' then annotated_description trigger condition
        else
          res_bind (py_getitem trigger ''observationPoint'') (\<lambda>point.
          res_bind (py_getitem point ''when'') (\<lambda>observed_when.
          res_bind (format_item condition ''resourceKey'') (\<lambda>resource_key.
          res_bind (format_item condition ''occurrence'') (\<lambda>occurrence.
          res_bind (observer_description tc point observed_when) (\<lambda>observer.
          res_bind (change_description condition cond_type resource_key) (\<lambda>change.
            Inr (observer @ change @ ''with the '' @ convert_occurrence occurrence @ '' occurrence.'' @ newline))))))))
       (\<lambda>s. Inr (trigger_name @ '' is satisfied '' @ s)))))"

definition step_description :: "test_context \<Rightarrow> json \<Rightarrow> string res" where
  "step_description tc action =
     res_bind (action_description tc action) (\<lambda>s.
     res_bind (py_getitem action ''trigger'') (\<lambda>trigger.
     res_bind (format_item trigger ''expression'') (\<lambda>expression.
     res_bind (py_getitem trigger ''definitions'') (\<lambda>definitions.
     res_bind (py_iter definitions) (\<lambda>ds.
     res_bind (res_map (trigger_description tc) ds) (\<lambda>ts.
       Inr (''Sieve '' @ s @ '' when the trigger expression '' @ expression @ '' is satisfied, where'' @ newline @
         concat ts)))))))"

definition generate_perturbation_description :: "test_context \<Rightarrow> json \<Rightarrow> string res" where
  "generate_perturbation_description tc test_plan_content =
     res_bind (py_getitem test_plan_content ''actions'') (\<lambda>actions.
       if actions = JNull then Inr ''Sieve does not perform any actions.''
       else res_bind (py_iter actions) (\<lambda>as.
         res_bind (res_map (step_description tc) as) (\<lambda>ds. Inr (concat ds))))"

section \<open>Every generated plan can be described and run\<close>

lemma is_str_JStr [simp]: "is_str (JStr a) b \<longleftrightarrow> a = b"
  by (auto simp: is_str_def)

lemma format_item_JObj [simp]: "format_item (JObj m) k = (case map_of m k of None \<Rightarrow> Inl KeyError | Some v \<Rightarrow> Inr (py_format v))"
  by (simp add: format_item_def split: option.splits)

definition total_res :: "'a res \<Rightarrow> bool" where
  "total_res m \<longleftrightarrow> (\<exists>x. m = Inr x)"

lemma total_res_simps [simp]:
  "total_res (Inr x)" "\<not> total_res (Inl e)"
  "total_res (res_bind m f) \<longleftrightarrow> (\<exists>x. m = Inr x \<and> total_res (f x))"
  by (auto simp: total_res_def res_simps)

lemma total_res_map: "total_res (res_map f xs) \<longleftrightarrow> (\<forall>x\<in>set xs. total_res (f x))"
  by (induction xs) (auto simp: total_res_def res_simps)

text \<open>The conditions the policies write, and the points at which they are observed.\<close>

definition describable :: "json \<Rightarrow> bool" where
  "describable condition \<longleftrightarrow> total_res (format_item condition ''resourceKey'') \<and>
     total_res (format_item condition ''occurrence'') \<and>
     (\<exists>c. py_getitem condition ''conditionType'' = Inr (JStr c) \<and>
        (\<forall>k. total_res (change_description condition (JStr c) k)) \<and> c \<noteq> ''onTimeout'' \<and> c \<noteq> ''onAnnotatedAPICall'')"

lemma describable_condition: "c \<notin> {''onTimeout'', ''onAnnotatedAPICall'', ''onAnyFieldModification''} \<Longrightarrow>
    describable (condition_of c key n)"
  by (simp add: describable_def condition_of_def change_description_def)

lemma describable_hear: "hear_condition tc h = Inr c \<Longrightarrow> describable c"
  by (auto simp: hear_condition_def describable_condition res_simps Let_def split: if_splits)
     (auto simp: describable_def change_description_def)

lemma describable_write: "describable (write_condition w)"
  by (auto simp: write_condition_def describable_condition Let_def)
     (auto simp: describable_def change_description_def)

lemma trigger_described:
  assumes "describable c"
  shows "total_res (trigger_description tc (observed name c point by_whom))"
proof -
  have "total_res (observer_description tc (JObj [(''when'', JStr point), (''by'', by_whom)]) (JStr point))"
    by (simp add: observer_description_def Let_def)
  then obtain s1 where "observer_description tc (JObj [(''when'', JStr point), (''by'', by_whom)]) (JStr point) = Inr s1"
    unfolding total_res_def by blast
  moreover obtain key n t where c: "format_item c ''resourceKey'' = Inr key" "format_item c ''occurrence'' = Inr n"
    "py_getitem c ''conditionType'' = Inr (JStr t)" "\<forall>k. total_res (change_description c (JStr t) k)"
    "t \<noteq> ''onTimeout''" "t \<noteq> ''onAnnotatedAPICall''"
    using assms unfolding describable_def total_res_def by blast
  moreover obtain s2 where "change_description c (JStr t) key = Inr s2" using c(4) unfolding total_res_def by blast
  ultimately show ?thesis by (simp add: observed_def trigger_description_def)
qed

lemma resume_described: "describable c \<Longrightarrow> total_res (trigger_description tc (resume_definition name c))"
  unfolding resume_definition_def by (rule trigger_described)

lemma describable_update:
  "describable (JObj [(''conditionType'', JStr ''onObjectUpdate''), (''resourceKey'', k), (''prevStateDiff'', p),
     (''curStateDiff'', c), (''occurrence'', n)])"
  "describable (JObj [(''conditionType'', JStr ''onAnyFieldModification''), (''resourceKey'', k), (''prevStateDiff'', p),
     (''occurrence'', n)])"
  by (simp_all add: describable_def change_description_def)

lemma describable_unobserved:
  "unobserved_conditions h = (c, ds) \<Longrightarrow> describable c \<and> (\<forall>d\<in>set ds. total_res (trigger_description tc d))"
  unfolding unobserved_conditions_def Let_def
  by (auto simp: resume_described describable_condition describable_update split: if_splits)

text \<open>A plan that can be described and whose actions a test run can read.\<close>

definition usable_plan :: "json list \<Rightarrow> json \<Rightarrow> bool" where
  "usable_plan action_types plan \<longleftrightarrow> plan_action_types plan = Inr action_types \<and>
     (\<forall>tc. total_res (generate_perturbation_description tc plan))"

lemma step_described:
  assumes "total_res (action_description tc a)" "py_getitem a ''trigger'' = Inr (trigger_of ds e)"
    "\<forall>d\<in>set ds. total_res (trigger_description tc d)"
  shows "total_res (step_description tc a)"
proof -
  obtain ts where "res_map (trigger_description tc) ds = Inr ts"
    using assms(3) total_res_map unfolding total_res_def by metis
  then show ?thesis using assms(1,2) by (auto simp: step_description_def trigger_of_def py_iter_def total_res_def)
qed

definition described_trigger :: "test_context \<Rightarrow> json \<Rightarrow> bool" where
  "described_trigger tc t \<longleftrightarrow> (\<exists>ds e. t = trigger_of ds e \<and> (\<forall>d\<in>set ds. total_res (trigger_description tc d)))"

lemma described_trigger_of [simp]:
  "described_trigger tc (trigger_of ds e) \<longleftrightarrow> (\<forall>d\<in>set ds. total_res (trigger_description tc d))"
  by (auto simp: described_trigger_def trigger_of_def)

lemma action_described:
  assumes "total_res (action_description tc (JObj m))" "\<exists>t. map_of m ''trigger'' = Some t \<and> described_trigger tc t"
  shows "total_res (step_description tc (JObj m))"
  using assms(2) step_described[OF assms(1)] by (auto simp: described_trigger_def)

lemmas action_steps = action_description_def pause_description_def as_str_def

lemma plan_described:
  assumes "\<And>tc a. a \<in> set actions \<Longrightarrow> total_res (step_description tc a)"
    and "res_map (\<lambda>action. py_getitem action ''actionType'') actions = Inr types"
  shows "usable_plan types (plan_of tc actions)"
proof -
  have "\<exists>ds. res_map (step_description tc') actions = Inr ds" for tc'
    using assms(1) total_res_map unfolding total_res_def by metis
  then show ?thesis using assms(2)
    by (auto simp: usable_plan_def plan_of_def plan_action_types_def generate_perturbation_description_def py_iter_def)
qed

lemma restart_described:
  "total_res (trigger_description tc' d) \<Longrightarrow> total_res (step_description tc' (restart_action tc d))"
  by (rule step_described[where ds = "[d]"]) (simp_all add: restart_action_def action_description_def)

lemma write_plan_usable:
  "usable_plan [JStr ''restartController''] (generate_intermediate_state_test_plan_for_controller_write tc w)"
  unfolding generate_intermediate_state_test_plan_for_controller_write_def
  using restart_described trigger_described[OF describable_write]
  by (intro plan_described) (auto simp: restart_action_def)

lemma invocation_plan_usable:
  "usable_plan [JStr ''restartController''] (generate_intermediate_state_test_plan_for_annotated_api_invocation tc a)"
proof -
  let ?d = "observed ''trigger1''
       (JObj [(''conditionType'', JStr ''onAnnotatedAPICall''), (''module'', JStr (cn_module a)),
          (''filePath'', JStr (cn_file_path a)), (''receiverType'', JStr (cn_recv_type a)),
          (''funName'', JStr (cn_fun_name a)), (''occurrence'', JInt (int (cn_signature_counter a)))])
       ''afterAnnotatedAPICall'' (JStr (cn_reconcile_fun a))"
  have "total_res (trigger_description tc' ?d)" for tc'
    by (simp add: observed_def trigger_description_def annotated_description_def)
  then show ?thesis unfolding generate_intermediate_state_test_plan_for_annotated_api_invocation_def
    using restart_described by (intro plan_described) (auto simp: restart_action_def)
qed

lemma stale_plan_usable:
  assumes "generate_stale_state_test_plan tc h w timing = Inr plan"
  shows "usable_plan [JStr ''pauseAPIServer'', JStr ''reconnectController'', JStr ''resumeAPIServer''] plan"
proof -
  obtain c where c: "hear_condition tc h = Inr c"
    using assms by (auto simp: generate_stale_state_test_plan_def res_simps Let_def)
  have "total_res (trigger_description tc' (observed n c p b))" for tc' n p b
    using c describable_hear trigger_described by blast
  moreover have "total_res (trigger_description tc' (observed n (condition_of ''onObjectCreate'' k m) p b))" for tc' n k m p b
    by (rule trigger_described) (simp add: describable_condition)
  moreover have "total_res (trigger_description tc' (JObj [(''triggerName'', JStr n),
      (''condition'', JObj [(''conditionType'', JStr ''onTimeout''), (''timeoutValue'', JInt i)])]))" for tc' n i
    by (simp add: trigger_description_def)
  ultimately show ?thesis using assms c unfolding generate_stale_state_test_plan_def Let_def c res_bind_Inr
    by (auto intro!: plan_described action_described simp: action_steps)
qed

lemma unobserved_plan_usable:
  "usable_plan [JStr ''pauseController'', JStr ''resumeController''] (generate_unobserved_state_test_plan tc h)"
proof -
  obtain c ds where c: "unobserved_conditions h = (c, ds)" by fastforce
  have "total_res (trigger_description tc' (observed n c p b))" for tc' n p b
    using c describable_unobserved trigger_described by blast
  moreover have "\<forall>d\<in>set ds. total_res (trigger_description tc' d)" for tc' using c describable_unobserved by blast
  ultimately show ?thesis unfolding generate_unobserved_state_test_plan_def Let_def c prod.case
    by (auto intro!: plan_described action_described simp: action_steps)
qed

text \<open>All files of a policy hold usable plans with the same actions.\<close>

definition usable_files :: "string list \<Rightarrow> plan_files \<Rightarrow> bool" where
  "usable_files types files \<longleftrightarrow> (\<forall>(name, plan)\<in>set (snd files). usable_plan (map JStr types) plan)"

lemma usable_files_saved:
  "\<forall>plan\<in>set plans. usable_plan (map JStr types) plan \<Longrightarrow> usable_files types (saved tc path prefix plans)"
  by (auto simp: usable_files_def saved_def in_set_enumerate_eq)

lemma usable_files_save_plan:
  "usable_files types files \<Longrightarrow> usable_plan (map JStr types) plan \<Longrightarrow> usable_files types (save_plan tc path prefix files plan)"
  by (auto simp: usable_files_def save_plan_def Let_def split: prod.splits)

lemma usable_files_map:
  assumes "res_map f vs = Inr plans" "\<And>v plan. f v = Inr plan \<Longrightarrow> usable_plan (map JStr types) plan"
  shows "\<forall>plan\<in>set plans. usable_plan (map JStr types) plan"
  using assms(1) unfolding res_map_Inr by (induction rule: list_all2_induct) (auto dest: assms(2))

lemma stale_files_usable:
  assumes "stale_state_analysis tc end_state g path = Inr (ns, st)"
  shows "usable_files [''pauseAPIServer'', ''reconnectController'', ''resumeAPIServer''] st"
proof -
  let ?ok = "usable_files [''pauseAPIServer'', ''reconnectController'', ''resumeAPIServer'']"
  obtain pairs both where fold: "res_fold (stale_plan_step tc g path) ((0, []), 0) pairs = Inr (st, both)"
    using assms unfolding stale_state_analysis_def by (auto simp: Let_def res_bind_eq_Inr)
  have "?ok (fst s')" if "stale_plan_step tc g path s x = Inr s'" "?ok (fst s)" for s x s'
    using that stale_plan_usable
    by (auto simp: stale_plan_step_def save_stale_def res_bind_eq_Inr split: prod.splits if_splits
        intro!: usable_files_save_plan)
  then show ?thesis
    using res_fold_invariant[OF fold, of "\<lambda>s. ?ok (fst s)"] by (auto simp: usable_files_def)
qed

lemma unobserved_files_usable:
  assumes "unobserved_state_analysis tc end_state g path = Inr (ns, st)"
  shows "usable_files [''pauseController'', ''resumeController''] st"
proof -
  obtain baseline p1 p2 final where ns: "ns = (baseline, p1, p2, final)" by (cases ns) auto
  obtain plans where "res_map (hear_plan tc g) (filter (kept_hear tc end_state g) (eg_hears g)) = Inr plans"
    "st = saved tc path ''unobserved-state-test-plan-'' plans"
    using unobserved_state_analysis_plans[OF assms[unfolded ns]] by blast
  moreover have "\<forall>plan\<in>set plans. usable_plan (map JStr [''pauseController'', ''resumeController'']) plan"
    using calculation(1) by (rule usable_files_map) (auto simp: hear_plan_def res_bind_eq_Inr unobserved_plan_usable)
  ultimately show ?thesis using usable_files_saved by blast
qed

lemma intermediate_files_usable:
  assumes "intermediate_state_analysis tc end_state g path = Inr (ns, st)"
  shows "usable_files [''restartController''] st"
proof -
  obtain baseline p1 p2 final where ns: "ns = (baseline, p1, p2, final)" by (cases ns) auto
  obtain plans invocations where maps:
    "res_map (write_plan tc g) (filter (kept_write tc end_state g) (eg_writes g)) = Inr plans"
    "res_map (invocation_plan tc g) (eg_nk_writes g) = Inr invocations"
    and st: "st = saved tc path ''intermediate-state-test-plan-'' (plans @ invocations)"
    using intermediate_state_analysis_plans[OF assms[unfolded ns]] by blast
  have "\<forall>plan\<in>set plans. usable_plan (map JStr [''restartController'']) plan"
    using maps(1) by (rule usable_files_map) (auto simp: write_plan_def res_bind_eq_Inr write_plan_usable)
  moreover have "\<forall>plan\<in>set invocations. usable_plan (map JStr [''restartController'']) plan"
    using maps(2) by (rule usable_files_map) (auto simp: invocation_plan_def res_bind_eq_Inr invocation_plan_usable)
  ultimately show ?thesis unfolding st by (intro usable_files_saved) auto
qed

text \<open>
  C13: every plan file that a learning run writes, under any of the three policies, can be used: it can
  be described in words without an error, and a test run can be set up from it, on at least three API
  servers when the plan makes the controller look at a stale one.
\<close>

theorem generated_plans_usable:
  assumes "generate_test_plans_from_learn_run tc end_state learned_mask lines = Inr r"
    and "(mode, files) \<in> set (lr_plans r)" "(name, plan) \<in> set (snd files)"
  shows "(\<exists>desc. generate_perturbation_description tc' plan = Inr desc) \<and>
    (\<exists>tc''. TestContext args plan = Inr tc'' \<and>
       (mode = STALE_STATE \<and> tc_mode args = TEST \<longrightarrow> 3 \<le> tc_num_apiservers tc''))"
proof -
  obtain m g ns1 s ns2 u ns3 i where
    runs: "stale_state_analysis tc end_state g (path_join (tc_result_dir tc) STALE_STATE) = Inr (ns1, s)"
      "unobserved_state_analysis tc end_state g (path_join (tc_result_dir tc) UNOBSERVED_STATE) = Inr (ns2, u)"
      "intermediate_state_analysis tc end_state g (path_join (tc_result_dir tc) INTERMEDIATE_STATE) = Inr (ns3, i)"
    and r: "lr_plans r = [(STALE_STATE, s), (UNOBSERVED_STATE, u), (INTERMEDIATE_STATE, i)]"
    using learn_run_policies[OF assms(1)] .
  have "\<exists>types. usable_files types files \<and> (mode = STALE_STATE \<longrightarrow> ''reconnectController'' \<in> set types)"
    using assms(2) stale_files_usable[OF runs(1)] unobserved_files_usable[OF runs(2)] intermediate_files_usable[OF runs(3)]
    unfolding r by (fastforce simp: STALE_STATE_def UNOBSERVED_STATE_def INTERMEDIATE_STATE_def)
  then obtain types where t: "usable_plan (map JStr types) plan" "mode = STALE_STATE \<longrightarrow> ''reconnectController'' \<in> set types"
    using assms(3) by (auto simp: usable_files_def)
  then have "list_ex (json_eq (JStr ''reconnectController'')) (map JStr types)" if "mode = STALE_STATE"
    using that by (auto simp: list_ex_iff)
  then show ?thesis using t(1) unfolding usable_plan_def total_res_def TestContext_def Let_def by auto
qed

theorem generated_plans_usable_witness:
  "\<exists>r mode files name plan. generate_test_plans_from_learn_run learn_tc (JObj []) (Some (JObj [])) sample_log = Inr r \<and>
     (mode, files) \<in> set (lr_plans r) \<and> (name, plan) \<in> set (snd files) \<and>
     (\<exists>desc. generate_perturbation_description learn_tc plan = Inr desc)"
proof -
  obtain r where r: "generate_test_plans_from_learn_run learn_tc (JObj []) (Some (JObj [])) sample_log = Inr r"
    "map (\<lambda>x. (fst (snd x), length (snd (snd x)))) (lr_plans r) = [(0, 0), (0, 0), (1, 1)]"
    using learn_sample by (elim exE conjE)
  from r(2) have "length (snd (snd (lr_plans r ! 2))) = 1" "2 < length (lr_plans r)"
    by (auto simp: map_eq_Cons_conv numeral_2_eq_2)
  then obtain mode files name plan where f: "(mode, files) \<in> set (lr_plans r)" "(name, plan) \<in> set (snd files)"
    by (metis length_0_conv list.set_sel(1) nth_mem one_neq_zero prod.collapse)
  from generated_plans_usable[OF r(1) f, of learn_tc learn_tc] r(1) f show ?thesis by blast
qed

end
