(* ===== verification/Oracle.thy ===== *)
theory Oracle
  imports Compare_States Plan_Description
begin

text \<open>
  The oracles put together, \<^verbatim>\<open>sieve_oracle/oracle.py\<close> and \<^verbatim>\<open>customized_safety_checker.py\<close>, with the rest
  of \<^verbatim>\<open>checker_common.py\<close>: what a learning run leaves as the reference, and what the check of a test
  run reports. The files of the result and oracle directories are fields of a record; \<open>DeepDiff\<close> is an
  argument, in the two shapes in which the code reads its result.
\<close>

section \<open>Messages and validation\<close>

definition readable_resource_diff :: "string \<Rightarrow> string \<Rightarrow> string" where
  "readable_resource_diff event_type diff_content =
     (if event_type \<in> {WRITE_CREATE, WRITE_DELETE, API_ADDED, API_DELETED} then [] else '' : '' @ diff_content)"

definition generate_warn :: "string \<Rightarrow> string" where
  "generate_warn msg = ''[WARN] '' @ msg"

definition generate_fatal :: "string \<Rightarrow> string" where
  "generate_fatal msg = ''[FATAL] '' @ msg"

definition is_injection_finished :: "string list \<Rightarrow> bool" where
  "is_injection_finished server_log = py_contains ''Sieve test coordinator finishes all actions'' (concat server_log)"

definition is_test_workload_finished :: "string list \<Rightarrow> bool" where
  "is_test_workload_finished workload_log = py_contains ''FINISH-SIEVE-TEST'' (concat workload_log)"

definition test_run_validation :: "string list \<Rightarrow> string list \<Rightarrow> bool \<times> bool" where
  "test_run_validation server_log workload_log =
     (is_injection_finished server_log, is_test_workload_finished workload_log)"

section \<open>Learning\<close>

text \<open>The lines of a file are its text, cut after every newline.\<close>

record result_files =
  rf_history :: "history_event list"
  rf_digest :: jdict
  rf_state :: jdict
  rf_family :: "string list"

definition digest_json :: "digest \<Rightarrow> jdict" where
  "digest_json d = map (\<lambda>(k, m). (k, JObj (map (\<lambda>(t, n). (t, JInt (int n))) m))) d"

definition save_history :: "test_context \<Rightarrow> string list \<Rightarrow> result_files \<Rightarrow> result_files res" where
  "save_history tc lines files =
     res_bind (generate_history lines) (\<lambda>history.
     res_bind (generate_history_digest tc lines) (\<lambda>d.
       Inr (files\<lparr> rf_history := history, rf_digest := digest_json d \<rparr>)))"

definition save_state :: "string list \<Rightarrow> result_files \<Rightarrow> result_files res" where
  "save_state lines files = res_bind (generate_state lines) (\<lambda>state. Inr (files\<lparr> rf_state := state \<rparr>))"

definition save_controller_related_object_list :: "string list \<Rightarrow> result_files \<Rightarrow> result_files res" where
  "save_controller_related_object_list lines files =
     res_bind (generate_controller_related_list lines) (\<lambda>family. Inr (files\<lparr> rf_family := family \<rparr>))"

record oracle_files =
  of_digest :: jdict
  of_state :: jdict
  of_mask :: mask_map
  of_family :: "string list"

type_synonym path_diff = "json \<Rightarrow> json \<Rightarrow> path_step list list \<times> path_step list list"

text \<open>Without \<open>update_oracle_file_enabled\<close> the oracle directory is left as it is.\<close>

definition create_differential_oracles ::
  "path_diff \<Rightarrow> test_context \<Rightarrow> result_files \<Rightarrow> result_files \<Rightarrow> oracle_files \<Rightarrow> oracle_files res" where
  "create_differential_oracles deep_diff tc first second old =
     (if \<not> py_truth (cc_update_oracle_file_enabled (tc_common_config tc)) then Inr old
      else res_bind (py_assert (tc_mode tc = LEARN \<and> tc_build_oracle tc)) (\<lambda>_.
        res_bind (canonicalize_history_digest deep_diff tc (JObj (rf_digest first)) (JObj (rf_digest second))) (\<lambda>can_history_digest.
        res_bind (canonicalize_state deep_diff tc (JObj (rf_state first)) (JObj (rf_state second))) (\<lambda>can_state.
        case can_state of
          JObj can \<Rightarrow> res_bind (generate_state_mask can) (\<lambda>state_mask.
            Inr \<lparr> of_digest = can_history_digest, of_state = can, of_mask = state_mask, of_family = rf_family second \<rparr>)
        | _ \<Rightarrow> Inl OutOfModel))))"

section \<open>Checking a test run\<close>

definition controller_panic_checker :: "string list \<Rightarrow> string list" where
  "controller_panic_checker controller_log = sort (map (\<lambda>line.
       generate_alarm ''Exception from controller:'' (strip_while py_space (from_mark ''Observed a panic'' line)))
     (filter (py_contains ''Observed a panic'') controller_log))"

text \<open>The loop over the lines of \<open>workload.log\<close>, with its \<open>break\<close> and \<open>continue\<close>.\<close>

fun workload_errors :: "bool \<Rightarrow> string list \<Rightarrow> string list \<Rightarrow> string list" where
  "workload_errors pauses messages [] = messages"
| "workload_errors pauses messages (line # lines) =
     (if py_startswith line ''FINISH-SIEVE-TEST'' then messages
      else if pauses \<and> py_startswith line ''Conditional wait timeout'' then workload_errors pauses messages lines
      else workload_errors pauses (messages @ [generate_alarm ''Error:'' (strip_while py_space line)]) lines)"

definition workload_error_checker :: "test_context \<Rightarrow> string list \<Rightarrow> string list" where
  "workload_error_checker tc workload_log =
     sort (workload_errors (list_ex (json_eq (JStr ''pauseController'')) (tc_action_types tc)) [] workload_log)"

text \<open>What a test run leaves, and the reference it is compared with.\<close>

record test_files = result_files +
  tf_server_log :: "string list"
  tf_workload_log :: "string list"
  tf_controller_log :: "string list"

definition textbook_checker :: "test_context \<Rightarrow> test_files \<Rightarrow> string list" where
  "textbook_checker tc files =
     (if py_truth (cc_controller_exception_check_enabled (tc_common_config tc))
      then controller_panic_checker (tf_controller_log files) else []) @
     (if py_truth (cc_workload_error_check_enabled (tc_common_config tc))
      then workload_error_checker tc (tf_workload_log files) else [])"

record SafetyCheckerSuite =
  scs_resource_keys :: "string list"
  scs_checker_name :: string
  scs_checker_function :: "(string, string) dict \<Rightarrow> bool"

text \<open>The example of a checker; comparing what is no number raises.\<close>

definition example_rabbitmq_safety_checker :: "(string, string) dict \<Rightarrow> bool res" where
  "example_rabbitmq_safety_checker state =
     (case map_of state ''statefulset/default/rabbitmq-cluster-server'' of
        None \<Rightarrow> Inr True
      | Some s \<Rightarrow> res_bind (loads s) (\<lambda>object_state.
          res_bind (py_getitem object_state ''Spec'') (\<lambda>spec.
          res_bind (py_getitem spec ''Replicas'') (\<lambda>replicas.
            case num_of replicas of Some n \<Rightarrow> Inr (\<not> n > 1) | None \<Rightarrow> Inl TypeError))))"

definition customized_safety_checker_suites :: "SafetyCheckerSuite list" where
  "customized_safety_checker_suites = []"

text \<open>The plan starts by pausing the controller before it reads.\<close>

definition pauses_before_read :: "json option \<Rightarrow> bool res" where
  "pauses_before_read test_plan_content =
     res_bind (from_option TypeError test_plan_content) (\<lambda>plan.
     res_bind (py_getitem plan ''actions'') (\<lambda>actions.
       if actions = JNull then Inr False
       else res_bind (step_get actions (PIdx 0)) (\<lambda>action.
         res_bind (py_getitem action ''actionType'') (\<lambda>action_type.
           if \<not> is_str action_type ''pauseController'' then Inr False
           else res_bind (py_getitem action ''pauseAt'') (\<lambda>pause_at.
             Inr (is_str pause_at ''beforeControllerRead''))))))"

definition safety_checker ::
  "SafetyCheckerSuite list \<Rightarrow> test_context \<Rightarrow> oracle_files \<Rightarrow> test_files \<Rightarrow> string list res" where
  "safety_checker suites tc ref files =
     res_bind (if py_truth (cc_state_update_summary_check_enabled (tc_common_config tc)) then
         res_bind (pauses_before_read (tc_test_plan_content tc)) (\<lambda>b.
           if b then Inr []
           else compare_history_digests tc (of_digest ref) (rf_digest files) (rf_family files))
       else Inr []) (\<lambda>messages.
     Inr (messages @ concat (map (\<lambda>s. apply_safety_checker (rf_history files) (scs_resource_keys s)
       (scs_checker_name s) (scs_checker_function s)) suites)))"

definition liveness_checker ::
  "(json \<Rightarrow> json \<Rightarrow> tree_diff) \<Rightarrow> test_context \<Rightarrow> oracle_files \<Rightarrow> test_files \<Rightarrow> string list res" where
  "liveness_checker deep_diff tc ref files =
     (if py_truth (cc_end_state_check_enabled (tc_common_config tc)) \<and>
         \<not> (tc_use_csi_driver_for_ref tc \<and> \<not> tc_use_csi_driver tc)
      then compare_states deep_diff tc (rf_family files) (of_family ref) (of_state ref) (rf_state files)
      else Inr [])"

definition check ::
  "(json \<Rightarrow> json \<Rightarrow> tree_diff) \<Rightarrow> test_context \<Rightarrow> oracle_files \<Rightarrow> test_files \<Rightarrow> test_result res" where
  "check deep_diff tc ref files =
     (let (injection_completed, workload_completed) = test_run_validation (tf_server_log files) (tf_workload_log files);
          common_errors = textbook_checker tc files in
      res_bind (safety_checker customized_safety_checker_suites tc ref files) (\<lambda>history_errors.
      res_bind (liveness_checker deep_diff tc ref files) (\<lambda>end_state_errors.
        Inr \<lparr> tr_injection_completed = injection_completed, tr_workload_completed = workload_completed,
              tr_common_errors = common_errors, tr_end_state_errors = end_state_errors,
              tr_history_errors = history_errors, tr_no_exception = True, tr_exception_message = [] \<rparr>)))"

section \<open>Reporting\<close>

definition bcolors_WARNING :: string where "bcolors_WARNING = [CHR 0x1B] @ ''[93m''"
definition bcolors_FAIL :: string where "bcolors_FAIL = [CHR 0x1B] @ ''[91m''"
definition bcolors_ENDC :: string where "bcolors_ENDC = [CHR 0x1B] @ ''[0m''"

text \<open>What is printed, as lines.\<close>

definition cprint :: "string \<Rightarrow> string \<Rightarrow> string" where
  "cprint message colour = colour @ message @ bcolors_ENDC"

definition print_errors :: "string \<Rightarrow> string list \<Rightarrow> string list" where
  "print_errors what errors =
     (if errors = [] then []
      else [cprint (nat_str (length errors) @ '' detected '' @ what @ '' as follows'') bcolors_FAIL,
        cprint (py_join newline errors @ newline) bcolors_FAIL])"

definition print_error_and_debugging_info :: "test_context \<Rightarrow> json \<Rightarrow> test_result \<Rightarrow> string list res" where
  "print_error_and_debugging_info tc test_plan_content r =
     res_bind (if py_truth (cc_generate_debugging_information_enabled (tc_common_config tc))
       then res_bind (generate_perturbation_description tc test_plan_content) (\<lambda>desc.
         Inr [''[PERTURBATION DESCRIPTION]'' @ newline @ desc])
       else Inr []) (\<lambda>debugging.
     Inr ((if tr_injection_completed r then [] else [cprint ''injection is not completed'' bcolors_WARNING]) @
       (if tr_workload_completed r then [] else [cprint ''workload is not completed'' bcolors_WARNING]) @
       print_errors ''errors'' (tr_common_errors r) @
       print_errors ''end state inconsistencies'' (tr_end_state_errors r) @
       print_errors ''history inconsistencies'' (tr_history_errors r) @ debugging))"

section \<open>A reproduced run raises no alarm\<close>

lemma same_learning_runs:
  assumes "create_differential_oracles path_diff tc first second old = Inr ref"
    and "\<And>x. path_diff x x = ([], [])" "py_truth (cc_update_oracle_file_enabled (tc_common_config tc))"
    and "rf_digest second = rf_digest first" "rf_state second = rf_state first" "dict_ok (rf_digest first)"
  shows "of_state ref = rf_state first" "map_of (of_digest ref) \<subseteq>\<^sub>m map_of (rf_digest first)"
proof -
  have same: "second_pass_learn_trim path_diff x x = Inr x" for x
    by (simp add: second_pass_learn_trim_def assms(2))
  obtain d where d: "remove_ignored_value (rf_digest first) = Inr d" "of_digest ref = d" "of_state ref = rf_state first"
    using assms(1,3,4,5)
    by (auto simp: create_differential_oracles_def canonicalize_history_digest_def canonicalize_state_def same res_simps)
  show "of_state ref = rf_state first" by (rule d(3))
  have "d = filter (\<lambda>x. (case x of (k, v) \<Rightarrow> res_bind (ignored_entry v) (\<lambda>b. Inr (\<not> b))) = Inr True) (rf_digest first)"
    using d(1) unfolding remove_ignored_value_def by (rule res_filter_Inr)
  then have sub: "set d \<subseteq> set (rf_digest first)" by auto
  show "map_of (of_digest ref) \<subseteq>\<^sub>m map_of (rf_digest first)" unfolding map_le_def
  proof
    fix k assume "k \<in> dom (map_of (of_digest ref))"
    then obtain v where v: "map_of d k = Some v" by (auto simp: d(2))
    then have "(k, v) \<in> set (rf_digest first)" using sub map_of_SomeD by fastforce
    then show "map_of (of_digest ref) k = map_of (rf_digest first) k"
      using v assms(6) by (simp add: dict_ok_map_of d(2))
  qed
qed

text \<open>
  C10: when both learning runs and the test run end with the same digest and the same state, the
  check raises no alarm: neither on the summaries of state updates nor on the end state. Of
  \<open>DeepDiff\<close> it is used that it reports nothing on equal values.
\<close>

theorem reproduced_run_raises_no_alarm:
  assumes "\<And>x. path_diff x x = ([], [])" "\<And>x. tree_diff x x = []"
    and "create_differential_oracles path_diff ltc first second old = Inr ref"
    and "py_truth (cc_update_oracle_file_enabled (tc_common_config ltc))"
    and "rf_digest second = rf_digest first" "rf_state second = rf_state first"
    and "wf_json (JObj (rf_digest first))" "dict_ok (rf_state first)"
    and "check tree_diff tc ref files = Inr r"
    and "rf_digest files = rf_digest first" "rf_state files = rf_state first"
  shows "tr_history_errors r = [] \<and> tr_end_state_errors r = []"
proof -
  have digest: "dict_ok (rf_digest first)" using assms(7) by simp
  note ref = same_learning_runs[OF assms(3,1,4,5,6) digest]
  obtain hs es where st: "safety_checker customized_safety_checker_suites tc ref files = Inr hs"
    "liveness_checker tree_diff tc ref files = Inr es" "r = \<lparr> tr_injection_completed = is_injection_finished (tf_server_log files),
        tr_workload_completed = is_test_workload_finished (tf_workload_log files),
        tr_common_errors = textbook_checker tc files, tr_end_state_errors = es, tr_history_errors = hs,
        tr_no_exception = True, tr_exception_message = [] \<rparr>"
    using assms(9) by (auto simp: check_def test_run_validation_def res_simps)
  have "messages = []" if "compare_history_digests tc (of_digest ref) (rf_digest files) (rf_family files) = Inr messages" for messages
    using compare_history_digests_exact[OF that] ref(2) assms(7,10) by simp
  then have "hs = []"
    using st(1) by (auto simp: safety_checker_def customized_safety_checker_suites_def res_simps split: if_splits)
  moreover have "messages = []" if "compare_states tree_diff tc (rf_family files) (of_family ref) (of_state ref) (rf_state files) = Inr messages"
    for messages
    using compare_states_exact[OF that] assms(2,8,11) ref(1) by simp
  then have "es = []" using st(2) by (auto simp: liveness_checker_def split: if_splits)
  ultimately show ?thesis by (simp add: st(3))
qed

text \<open>One pod that was added once, in all three runs.\<close>

definition sample_run :: test_files where
  "sample_run = \<lparr> rf_history = [], rf_digest = [(''pod/default/a'', JObj [(''ADDED'', JInt 1), (''DELETED'', JInt 0)])],
     rf_state = [(''pod/default/a'', JObj [(''Spec'', JInt 1)])], rf_family = [],
     tf_server_log = [], tf_workload_log = [], tf_controller_log = [] \<rparr>"

definition oracle_tc :: test_context where
  "oracle_tc = state_tc\<lparr> tc_mode := LEARN, tc_build_oracle := True,
     tc_test_plan_content := Some (JObj [(''actions'', JNull)]),
     tc_common_config := (tc_common_config state_tc)\<lparr> cc_update_oracle_file_enabled := JBool True,
       cc_state_update_summary_check_enabled := JBool True, cc_end_state_check_enabled := JBool True \<rparr>,
     tc_controller_config := (tc_controller_config state_tc)\<lparr> kc_state_update_summary_checker_mask := JObj [] \<rparr> \<rparr>"

definition no_oracle :: oracle_files where
  "no_oracle = \<lparr> of_digest = [], of_state = [], of_mask = [], of_family = [] \<rparr>"

lemma reproduced_sample:
  "res_bind (create_differential_oracles (\<lambda>_ _. ([], [])) oracle_tc (result_files.truncate sample_run)
      (result_files.truncate sample_run) no_oracle) (\<lambda>ref. map_sum id (\<lambda>_. ref) (check (\<lambda>_ _. []) oracle_tc ref sample_run)) =
    Inr \<lparr> of_digest = rf_digest sample_run, of_state = rf_state sample_run, of_mask = [(''pod/default/a'', [])], of_family = [] \<rparr>"
  by code_simp

theorem reproduced_run_raises_no_alarm_witness:
  "\<exists>ref r. create_differential_oracles (\<lambda>_ _. ([], [])) oracle_tc (result_files.truncate sample_run)
      (result_files.truncate sample_run) no_oracle = Inr ref \<and> check (\<lambda>_ _. []) oracle_tc ref sample_run = Inr r \<and>
    of_digest ref = rf_digest sample_run \<and> tr_history_errors r = [] \<and> tr_end_state_errors r = []"
proof -
  obtain ref r where st: "create_differential_oracles (\<lambda>_ _. ([], [])) oracle_tc (result_files.truncate sample_run)
      (result_files.truncate sample_run) no_oracle = Inr ref" "check (\<lambda>_ _. []) oracle_tc ref sample_run = Inr r"
    "of_digest ref = rf_digest sample_run"
  proof -
    obtain ref where ref: "create_differential_oracles (\<lambda>_ _. ([], [])) oracle_tc (result_files.truncate sample_run)
      (result_files.truncate sample_run) no_oracle = Inr ref" "map_sum id (\<lambda>_. ref) (check (\<lambda>_ _. []) oracle_tc ref sample_run) =
      Inr \<lparr> of_digest = rf_digest sample_run, of_state = rf_state sample_run, of_mask = [(''pod/default/a'', [])], of_family = [] \<rparr>"
      using reproduced_sample unfolding res_bind_eq_Inr by (elim exE conjE)
    obtain r where "check (\<lambda>_ _. []) oracle_tc ref sample_run = Inr r"
      using ref(2) by (cases "check (\<lambda>_ _. []) oracle_tc ref sample_run") simp_all
    with ref that show thesis by simp
  qed
  have "py_truth (cc_update_oracle_file_enabled (tc_common_config oracle_tc))" by (simp add: oracle_tc_def py_truth_def)
  then have "tr_history_errors r = [] \<and> tr_end_state_errors r = []"
    by (intro reproduced_run_raises_no_alarm[where tree_diff = "\<lambda>_ _. []", OF _ _ st(1) _ _ _ _ _ st(2)])
       (simp_all add: sample_run_def result_files.truncate_def dict_ok_def)
  with st show ?thesis by blast
qed

section \<open>Errors of the workload\<close>

lemma workload_errors_append:
  "workload_errors pauses messages log = messages @ map (\<lambda>l. generate_alarm ''Error:'' (strip_while py_space l))
     (filter (\<lambda>l. \<not> (pauses \<and> py_startswith l ''Conditional wait timeout''))
       (takeWhile (\<lambda>l. \<not> py_startswith l ''FINISH-SIEVE-TEST'') log))"
  by (induction log arbitrary: messages) auto

lemma set_takeWhile_prefix: "set (takeWhile P xs) = {xs ! i | i. i < length xs \<and> (\<forall>j\<le>i. P (xs ! j))}"
proof (intro equalityI subsetI)
  fix x assume "x \<in> set (takeWhile P xs)"
  then obtain i where i: "i < length (takeWhile P xs)" "x = takeWhile P xs ! i" by (auto simp: in_set_conv_nth)
  then have "x = xs ! i" "i < length xs" by (simp_all add: takeWhile_nth length_takeWhile_le order_less_le_trans)
  moreover have "P (xs ! j)" if "j \<le> i" for j
    using that i(1) by (metis le_less_trans nth_length_takeWhile nth_mem set_takeWhileD takeWhile_nth)
  ultimately show "x \<in> {xs ! i | i. i < length xs \<and> (\<forall>j\<le>i. P (xs ! j))}" by blast
next
  fix x assume "x \<in> {xs ! i | i. i < length xs \<and> (\<forall>j\<le>i. P (xs ! j))}"
  then obtain i where i: "i < length xs" "\<forall>j\<le>i. P (xs ! j)" "x = xs ! i" by blast
  have "i < length (takeWhile P xs)"
  proof (rule ccontr)
    assume "\<not> i < length (takeWhile P xs)"
    then have "length (takeWhile P xs) \<le> i" "length (takeWhile P xs) < length xs" using i(1) by auto
    then show False using i(2) nth_length_takeWhile by blast
  qed
  then show "x \<in> set (takeWhile P xs)" using i(3) by (metis nth_mem takeWhile_nth)
qed

text \<open>
  The errors of the workload are, sorted, one alarm for every line of its log before the first
  that announces the end of the test, except that a timeout of a conditional wait is tolerated when
  the plan pauses the controller.
\<close>

theorem workload_errors_exact:
  "sorted (workload_error_checker tc log) \<and>
   set (workload_error_checker tc log) = {generate_alarm ''Error:'' (strip_while py_space (log ! i)) | i. i < length log \<and>
     (\<forall>j\<le>i. \<not> py_startswith (log ! j) ''FINISH-SIEVE-TEST'') \<and>
     \<not> (JStr ''pauseController'' \<in> set (tc_action_types tc) \<and> py_startswith (log ! i) ''Conditional wait timeout'')}"
proof -
  have "list_ex (json_eq (JStr s)) xs \<longleftrightarrow> JStr s \<in> set xs" for s xs
    by (induction xs) (auto elim: json_eq.elims)
  then show ?thesis
    by (auto simp: workload_error_checker_def workload_errors_append set_takeWhile_prefix)
qed

theorem workload_errors_exact_witness:
  "generate_alarm ''Error:'' ''boom'' \<in> set (workload_error_checker oracle_tc [''boom '', ''FINISH-SIEVE-TEST''])"
proof -
  have "strip_while py_space ''boom '' = ''boom''" "\<not> py_startswith ''boom '' ''FINISH-SIEVE-TEST''"
    "\<not> py_startswith ''boom '' ''Conditional wait timeout''" by code_simp+
  then show ?thesis unfolding workload_errors_exact[THEN conjunct2]
    by (intro CollectI exI[of _ 0]) simp
qed

end
