(* ===== verification/Shell.thy ===== *)
theory Shell
  imports Oracle "HOL-Library.Sublist"
begin

text \<open>
  Scripts that run commands and work on files, as the drivers of Sieve do through \<open>os\<close>, \<open>shutil\<close> and
  \<open>subprocess\<close>. A script is a function of what is outside (the effect of commands, the answers of the
  Kubernetes and docker clients, the YAML and \<open>deepdiff\<close> libraries) and of the world (the current directory, the tree
  of files, the actions done so far); it returns a value or an exception with the new world, or never
  returns (\<open>None\<close>). What is printed is left out, and so are the modes and times of files.
\<close>

section \<open>Paths\<close>

text \<open>A resolved path is the list of its components from the root; links are not followed.\<close>

type_synonym path = "string list"

definition path_walk :: "path \<Rightarrow> string \<Rightarrow> path" where
  "path_walk base x = (if x = [] \<or> x = ''.'' then base else if x = ''..'' then butlast base else base @ [x])"

definition resolve :: "path \<Rightarrow> string \<Rightarrow> path" where
  "resolve cwd p = foldl path_walk (if py_startswith p ''/'' then [] else cwd) (py_split CHR ''/'' p)"

definition path_str :: "path \<Rightarrow> string" where
  "path_str p = ''/'' @ py_join ''/'' p"

definition clean_path :: "path \<Rightarrow> bool" where
  "clean_path p \<longleftrightarrow> (\<forall>x\<in>set p. x \<noteq> [] \<and> x \<noteq> ''.'' \<and> x \<noteq> ''..'' \<and> CHR ''/'' \<notin> set x)"

text \<open>\<open>os.path.basename\<close>, \<open>os.path.dirname\<close> and the first part of \<open>os.path.splitext\<close> of a base name.\<close>

definition basename :: "string \<Rightarrow> string" where
  "basename p = rev (takeWhile (\<lambda>c. c \<noteq> CHR ''/'') (rev p))"

definition dirname :: "string \<Rightarrow> string" where
  "dirname p = (let head = rev (dropWhile (\<lambda>c. c \<noteq> CHR ''/'') (rev p)) in
     if list_all (\<lambda>c. c = CHR ''/'') head then head else rev (dropWhile (\<lambda>c. c = CHR ''/'') (rev head)))"

definition splitext_root :: "string \<Rightarrow> string" where
  "splitext_root b = (if CHR ''.'' \<notin> set b then b
     else let root = rev (tl (dropWhile (\<lambda>c. c \<noteq> CHR ''.'') (rev b))) in
       if list_all (\<lambda>c. c = CHR ''.'') root then b else root)"

text \<open>\<open>str.replace\<close> for a non-empty first argument.\<close>

function py_replace :: "string \<Rightarrow> string \<Rightarrow> string \<Rightarrow> string" where
  "py_replace old new [] = []"
| "py_replace old new (c # s) =
     (if old \<noteq> [] \<and> py_startswith (c # s) old then new @ py_replace old new (drop (length old) (c # s))
      else c # py_replace old new s)"
  by pat_completeness auto
termination
proof (relation "measure (\<lambda>(old, new, s). length s)")
  fix old new :: string and c s assume "old \<noteq> [] \<and> py_startswith (c # s) old"
  then have "0 < length old" by simp
  then show "((old, new, drop (length old) (c # s)), old, new, c # s) \<in> measure (\<lambda>(old, new, s). length s)" by simp
qed auto

section \<open>The world\<close>

text \<open>A file holds a text, or the value that \<open>json.dump\<close> or \<open>yaml.dump\<close> wrote into it.\<close>

datatype content = Text string | Doc json

datatype node = Folder | File content | Link string

type_synonym files = "(path \<times> node) list"

text \<open>
  What a script does to the outside: commands with the wait status they ended with, processes started
  in the background and killed, pauses, and questions to the cluster.
\<close>

datatype action =
    Ran path string nat
  | Started string
  | Killed string
  | Slept int
  | Asked string
  | Changed_mode path

record world =
  w_cwd :: path
  w_files :: files
  w_log :: "action list"

text \<open>
  The outside. A command ends with a wait status and may change any file; it, and every answer, may
  depend on all that was done before. A file the outside rewrites may hold a text where it held a
  value: \<open>ou_yaml\<close> and \<open>ou_json\<close> read texts, \<open>ou_doc\<close> is the text of a value.
\<close>

record outside =
  ou_system :: "action list \<Rightarrow> path \<Rightarrow> string \<Rightarrow> files \<Rightarrow> nat \<times> files"
  ou_kill :: "action list \<Rightarrow> string \<Rightarrow> unit res"
  ou_kube :: "action list \<Rightarrow> unit res"
  ou_pods :: "action list \<Rightarrow> string \<Rightarrow> string \<Rightarrow> (string \<times> string) list res"
  ou_port :: "action list \<Rightarrow> string \<Rightarrow> string res"
  ou_yaml :: "string \<Rightarrow> json res"
  ou_json :: "string \<Rightarrow> json res"
  ou_doc :: "json \<Rightarrow> string"
  ou_path_diff :: path_diff
  ou_tree_diff :: "json \<Rightarrow> json \<Rightarrow> tree_diff"
  ou_environ :: "string \<Rightarrow> string option"
  ou_darwin :: bool
  ou_hostname :: string
  ou_traceback :: "py_error \<Rightarrow> string"

type_synonym 'a shell = "outside \<Rightarrow> world \<Rightarrow> ('a res \<times> world) option"

section \<open>Statements\<close>

definition sh_return :: "'a \<Rightarrow> 'a shell" where
  "sh_return x out w = (Some (Inr x, w))"

definition sh_raise :: "py_error \<Rightarrow> 'a shell" where
  "sh_raise e out w = (Some (Inl e, w))"

definition sh_of :: "'a res \<Rightarrow> 'a shell" where
  "sh_of r out w = (Some (r, w))"

definition sh_bind :: "'a shell \<Rightarrow> ('a \<Rightarrow> 'b shell) \<Rightarrow> 'b shell" where
  "sh_bind m f out w = (case m out w of
       None \<Rightarrow> None
     | Some (Inl e, w') \<Rightarrow> Some (Inl e, w')
     | Some (Inr x, w') \<Rightarrow> f x out w')"

primrec in_order :: "unit shell list \<Rightarrow> unit shell" where
  "in_order [] = sh_return ()"
| "in_order (m # ms) = sh_bind m (\<lambda>_. in_order ms)"

primrec sh_for :: "'a list \<Rightarrow> ('a \<Rightarrow> unit shell) \<Rightarrow> unit shell" where
  "sh_for [] f = sh_return ()"
| "sh_for (x # xs) f = sh_bind (f x) (\<lambda>_. sh_for xs f)"

primrec sh_map :: "('a \<Rightarrow> 'b shell) \<Rightarrow> 'a list \<Rightarrow> 'b list shell" where
  "sh_map f [] = sh_return []"
| "sh_map f (x # xs) = sh_bind (f x) (\<lambda>y. sh_bind (sh_map f xs) (\<lambda>ys. sh_return (y # ys)))"

definition sh_when :: "bool \<Rightarrow> unit shell \<Rightarrow> unit shell" where
  "sh_when b m = (if b then m else sh_return ())"

text \<open>
  \<open>try: m except Exception as e: handler(e)\<close>: an exit of the script is no \<open>Exception\<close>, and neither is what the
  model leaves out.
\<close>

definition caught :: "py_error \<Rightarrow> bool" where
  "caught e \<longleftrightarrow> e \<noteq> SystemExit \<and> e \<noteq> OutOfModel \<and> e \<noteq> OutOfFuel"

definition sh_try :: "'a shell \<Rightarrow> (py_error \<Rightarrow> 'a shell) \<Rightarrow> 'a shell" where
  "sh_try m handler out w = (case m out w of
       Some (Inl e, w') \<Rightarrow> if caught e then handler e out w' else Some (Inl e, w')
     | r \<Rightarrow> r)"

definition sh_assert :: "bool \<Rightarrow> unit shell" where
  "sh_assert b = sh_of (py_assert b)"

definition sh_outside :: "(outside \<Rightarrow> 'a) \<Rightarrow> 'a shell" where
  "sh_outside f out w = (Some (Inr (f out), w))"

text \<open>An action that only leaves a trace.\<close>

definition sh_log :: "action \<Rightarrow> unit shell" where
  "sh_log a out w = (Some (Inr (), w\<lparr> w_log := w_log w @ [a] \<rparr>))"

text \<open>A question to the cluster: the answer may be an exception.\<close>

definition sh_ask :: "string \<Rightarrow> (outside \<Rightarrow> action list \<Rightarrow> 'a res) \<Rightarrow> 'a shell" where
  "sh_ask question answer out w = (Some (answer out (w_log w), w\<lparr> w_log := w_log w @ [Asked question] \<rparr>))"

section \<open>Commands\<close>

text \<open>
  \<open>os.system\<close> and the helper on top of it. \<open>os.WEXITSTATUS\<close> reads the high byte of the wait status; the
  low byte, which tells of a signal, is not looked at.
\<close>

definition system :: "string \<Rightarrow> nat shell" where
  "system cmd out w = (case ou_system out (w_log w) (w_cwd w) cmd (w_files w) of (status, files) \<Rightarrow>
     Some (Inr status, w\<lparr> w_files := files, w_log := w_log w @ [Ran (w_cwd w) cmd status] \<rparr>))"

definition WEXITSTATUS :: "nat \<Rightarrow> nat" where
  "WEXITSTATUS status = (status div 256) mod 256"

definition os_system :: "string \<Rightarrow> bool \<Rightarrow> nat shell" where
  "os_system cmd early_exit = sh_bind (system cmd) (\<lambda>status.
     let return_code = WEXITSTATUS status in
     if return_code \<noteq> 0 \<and> early_exit
     then sh_raise (PyException (''Failed to execute '' @ cmd @ '' with return code '' @ nat_str return_code))
     else sh_return return_code)"

text \<open>The statement \<open>os_system(cmd)\<close>.\<close>

definition sh_cmd :: "string \<Rightarrow> unit shell" where
  "sh_cmd cmd = sh_bind (os_system cmd True) (\<lambda>_. sh_return ())"

definition sleep :: "int \<Rightarrow> unit shell" where
  "sleep seconds = sh_log (Slept seconds)"

section \<open>Files\<close>

definition node_at :: "files \<Rightarrow> path \<Rightarrow> node option" where
  "node_at fs p = (if p = [] then Some Folder else map_of fs p)"

definition sh_files :: "(path \<Rightarrow> files \<Rightarrow> 'a res) \<Rightarrow> 'a shell" where
  "sh_files f out w = (Some (f (w_cwd w) (w_files w), w))"

definition sh_update :: "(path \<Rightarrow> files \<Rightarrow> files res) \<Rightarrow> unit shell" where
  "sh_update f out w = (case f (w_cwd w) (w_files w) of
       Inl e \<Rightarrow> Some (Inl e, w)
     | Inr fs \<Rightarrow> Some (Inr (), w\<lparr> w_files := fs \<rparr>))"

definition getcwd :: "string shell" where
  "getcwd out w = (Some (Inr (path_str (w_cwd w)), w))"

definition chdir :: "string \<Rightarrow> unit shell" where
  "chdir p out w = (let q = resolve (w_cwd w) p in
     case node_at (w_files w) q of
       Some Folder \<Rightarrow> Some (Inr (), w\<lparr> w_cwd := q \<rparr>)
     | Some _ \<Rightarrow> Some (Inl OSError, w)
     | None \<Rightarrow> Some (Inl FileNotFoundError, w))"

definition path_exists :: "string \<Rightarrow> bool shell" where
  "path_exists p = sh_files (\<lambda>cwd fs. Inr (node_at fs (resolve cwd p) \<noteq> None))"

definition is_dir :: "string \<Rightarrow> bool shell" where
  "is_dir p = sh_files (\<lambda>cwd fs. Inr (node_at fs (resolve cwd p) = Some Folder))"

definition read_node :: "files \<Rightarrow> path \<Rightarrow> content res" where
  "read_node fs q = (case node_at fs q of
       Some (File c) \<Rightarrow> Inr c
     | Some _ \<Rightarrow> Inl OSError
     | None \<Rightarrow> Inl FileNotFoundError)"

text \<open>Opening a file to write it needs its folder, and raises when the path is no file.\<close>

definition put_file :: "path \<Rightarrow> content \<Rightarrow> files \<Rightarrow> files res" where
  "put_file q c fs = (case node_at fs (butlast q) of
       Some Folder \<Rightarrow> (case node_at fs q of
           None \<Rightarrow> Inr (AList.update q (File c) fs)
         | Some (File _) \<Rightarrow> Inr (AList.update q (File c) fs)
         | Some _ \<Rightarrow> Inl OSError)
     | Some _ \<Rightarrow> Inl OSError
     | None \<Rightarrow> Inl FileNotFoundError)"

definition read_content :: "string \<Rightarrow> content shell" where
  "read_content p = sh_files (\<lambda>cwd fs. read_node fs (resolve cwd p))"

definition write_content :: "string \<Rightarrow> content \<Rightarrow> unit shell" where
  "write_content p c = sh_update (\<lambda>cwd. put_file (resolve cwd p) c)"

definition text_of :: "outside \<Rightarrow> content \<Rightarrow> string" where
  "text_of out c = (case c of Text s \<Rightarrow> s | Doc v \<Rightarrow> ou_doc out v)"

definition read_text :: "string \<Rightarrow> string shell" where
  "read_text p = sh_bind (read_content p) (\<lambda>c. sh_outside (\<lambda>out. text_of out c))"

definition write_text :: "string \<Rightarrow> string \<Rightarrow> unit shell" where
  "write_text p s = write_content p (Text s)"

definition append_text :: "string \<Rightarrow> string \<Rightarrow> unit shell" where
  "append_text p s = sh_bind (path_exists p) (\<lambda>b.
     sh_bind (if b then read_text p else sh_return []) (\<lambda>old. write_text p (old @ s)))"

definition dump_doc :: "json \<Rightarrow> string \<Rightarrow> unit shell" where
  "dump_doc v p = write_content p (Doc v)"

definition load_yaml :: "string \<Rightarrow> json shell" where
  "load_yaml p = sh_bind (read_content p) (\<lambda>c. case c of
       Doc v \<Rightarrow> sh_return v
     | Text s \<Rightarrow> sh_bind (sh_outside (\<lambda>out. ou_yaml out s)) sh_of)"

definition load_json :: "string \<Rightarrow> json shell" where
  "load_json p = sh_bind (read_content p) (\<lambda>c. case c of
       Doc v \<Rightarrow> sh_return v
     | Text s \<Rightarrow> sh_bind (sh_outside (\<lambda>out. ou_json out s)) sh_of)"

text \<open>\<open>os.makedirs\<close>: every missing folder of the path is made.\<close>

definition makedirs_at :: "path \<Rightarrow> bool \<Rightarrow> files \<Rightarrow> files res" where
  "makedirs_at q exist_ok fs =
     (if node_at fs q = Some Folder \<and> exist_ok then Inr fs
      else if node_at fs q \<noteq> None then Inl FileExistsError
      else res_fold (\<lambda>fs p. case node_at fs p of
          None \<Rightarrow> Inr (AList.update p Folder fs)
        | Some Folder \<Rightarrow> Inr fs
        | Some _ \<Rightarrow> Inl OSError) fs (map (\<lambda>i. take (Suc i) q) [0..<length q]))"

definition makedirs :: "string \<Rightarrow> bool \<Rightarrow> unit shell" where
  "makedirs p exist_ok = sh_update (\<lambda>cwd. makedirs_at (resolve cwd p) exist_ok)"

definition rmtree_at :: "path \<Rightarrow> files \<Rightarrow> files res" where
  "rmtree_at q fs = (case node_at fs q of
       Some Folder \<Rightarrow> Inr (filter (\<lambda>(p, _). \<not> prefix q p) fs)
     | Some _ \<Rightarrow> Inl OSError
     | None \<Rightarrow> Inl FileNotFoundError)"

definition rmtree :: "string \<Rightarrow> unit shell" where
  "rmtree p = sh_update (\<lambda>cwd. rmtree_at (resolve cwd p))"

definition remove_file :: "string \<Rightarrow> unit shell" where
  "remove_file p = sh_update (\<lambda>cwd fs. case node_at fs (resolve cwd p) of
       Some (File _) \<Rightarrow> Inr (filter (\<lambda>(q, _). q \<noteq> resolve cwd p) fs)
     | Some (Link _) \<Rightarrow> Inr (filter (\<lambda>(q, _). q \<noteq> resolve cwd p) fs)
     | Some Folder \<Rightarrow> Inl OSError
     | None \<Rightarrow> Inl FileNotFoundError)"

text \<open>\<open>shutil.copyfile\<close>, and \<open>shutil.copy\<close>, which copies into a folder.\<close>

definition copyfile_at :: "path \<Rightarrow> path \<Rightarrow> files \<Rightarrow> files res" where
  "copyfile_at src dst fs = res_bind (read_node fs src) (\<lambda>c. put_file dst c fs)"

definition copyfile :: "string \<Rightarrow> string \<Rightarrow> unit shell" where
  "copyfile src dst = sh_update (\<lambda>cwd. copyfile_at (resolve cwd src) (resolve cwd dst))"

definition inside_folder :: "files \<Rightarrow> path \<Rightarrow> string \<Rightarrow> path" where
  "inside_folder fs dst name = (if node_at fs dst = Some Folder then dst @ [name] else dst)"

definition copy :: "string \<Rightarrow> string \<Rightarrow> unit shell" where
  "copy src dst = sh_update (\<lambda>cwd fs.
     copyfile_at (resolve cwd src) (inside_folder fs (resolve cwd dst) (basename src)) fs)"

text \<open>The files of one tree at another place.\<close>

definition graft :: "path \<Rightarrow> path \<Rightarrow> files \<Rightarrow> files" where
  "graft src dst fs = map (\<lambda>(p, n). (dst @ drop (length src) p, n)) (filter (\<lambda>(p, _). prefix src p) fs)"

definition copytree_at :: "path \<Rightarrow> path \<Rightarrow> files \<Rightarrow> files res" where
  "copytree_at src dst fs = (case node_at fs src of
       Some Folder \<Rightarrow> res_bind (makedirs_at dst False fs) (\<lambda>fs1. Inr (graft src dst fs @ fs1))
     | Some _ \<Rightarrow> Inl OSError
     | None \<Rightarrow> Inl FileNotFoundError)"

definition copytree :: "string \<Rightarrow> string \<Rightarrow> unit shell" where
  "copytree src dst = sh_update (\<lambda>cwd. copytree_at (resolve cwd src) (resolve cwd dst))"

text \<open>
  \<open>shutil.move\<close>: into the folder when the destination is one. A folder is renamed, or copied and removed
  when the folder of the destination is missing; a file replaces a file.
\<close>

definition move_at :: "path \<Rightarrow> path \<Rightarrow> files \<Rightarrow> files res" where
  "move_at src dst fs = (case node_at fs src of
       None \<Rightarrow> Inl FileNotFoundError
     | Some Folder \<Rightarrow>
         if prefix src dst then Inl OSError
         else if node_at fs dst \<noteq> None then Inl FileExistsError
         else res_bind (makedirs_at (butlast dst) True fs) (\<lambda>fs1.
           Inr (graft src dst fs @ filter (\<lambda>(p, _). \<not> prefix src p) fs1))
     | Some n \<Rightarrow>
         if node_at fs (butlast dst) \<noteq> Some Folder then Inl FileNotFoundError
         else Inr (AList.update dst n (filter (\<lambda>(p, _). p \<noteq> src) fs)))"

definition move :: "string \<Rightarrow> string \<Rightarrow> unit shell" where
  "move src dst = sh_update (\<lambda>cwd fs.
     let q = resolve cwd dst; real = inside_folder fs q (last (resolve cwd src)) in
     if node_at fs q = Some Folder \<and> node_at fs real \<noteq> None then Inl OSError
     else move_at (resolve cwd src) real fs)"

text \<open>The helpers of \<^verbatim>\<open>sieve_common/common.py\<close>.\<close>

definition rmtree_if_exists :: "string \<Rightarrow> unit shell" where
  "rmtree_if_exists dir_name = sh_bind (path_exists dir_name) (\<lambda>b. sh_when b (rmtree dir_name))"

definition first_pass_learn_result_dir :: "string \<Rightarrow> string" where
  "first_pass_learn_result_dir learn_result_dir = path_join (dirname learn_result_dir) (LEARN @ ''_prev'')"

definition dump_json_file :: "string \<Rightarrow> json \<Rightarrow> string \<Rightarrow> unit shell" where
  "dump_json_file dir data json_file_name = dump_doc (sort_keys data) (path_join dir json_file_name)"

definition dump_to_yaml :: "json \<Rightarrow> string \<Rightarrow> unit shell" where
  "dump_to_yaml file_content file_name = dump_doc file_content file_name"

end
