(* ===== verification/Shell_Frame.thy ===== *)
theory Shell_Frame
  imports Shell
begin

text \<open>
  How scripts are reasoned about: what a sequence of statements that returned went through, and which
  files it left alone.
\<close>

section \<open>Sequencing\<close>

lemma sh_bind_returns:
  "sh_bind m f out w = Some (Inr y, w') \<longleftrightarrow> (\<exists>x w1. m out w = Some (Inr x, w1) \<and> f x out w1 = Some (Inr y, w'))"
  by (auto simp: sh_bind_def split: option.splits sum.splits prod.splits)

lemma sh_bind_raises:
  "sh_bind m f out w = Some (Inl e, w') \<longleftrightarrow>
     m out w = Some (Inl e, w') \<or> (\<exists>x w1. m out w = Some (Inr x, w1) \<and> f x out w1 = Some (Inl e, w'))"
  by (auto simp: sh_bind_def split: option.splits sum.splits prod.splits)

lemma sh_bind_assoc: "sh_bind (sh_bind m f) g = sh_bind m (\<lambda>x. sh_bind (f x) g)"
  by (auto simp: sh_bind_def fun_eq_iff split: option.splits sum.splits prod.splits)

lemma sh_bind_return [simp]: "sh_bind (sh_return x) f = f x"
  by (simp add: sh_bind_def sh_return_def fun_eq_iff)

lemma sh_bind_of [simp]: "sh_bind (sh_of (Inr x)) f = f x" "sh_bind (sh_of (Inl e)) f = sh_raise e"
  by (simp_all add: sh_bind_def sh_of_def sh_raise_def fun_eq_iff)

lemma sh_return_returns: "sh_return x out w = Some (Inr y, w') \<longleftrightarrow> y = x \<and> w' = w"
  by (auto simp: sh_return_def)

lemma sh_of_returns: "sh_of r out w = Some (Inr y, w') \<longleftrightarrow> r = Inr y \<and> w' = w"
  by (auto simp: sh_of_def)

lemma sh_outside_returns: "sh_outside f out w = Some (Inr y, w') \<longleftrightarrow> y = f out \<and> w' = w"
  by (auto simp: sh_outside_def)

lemma sh_assert_returns: "sh_assert b out w = Some (Inr y, w') \<longleftrightarrow> b \<and> w' = w"
  by (auto simp: sh_assert_def sh_of_def py_assert_def)

lemma sh_files_returns: "sh_files f out w = Some (Inr y, w') \<longleftrightarrow> f (w_cwd w) (w_files w) = Inr y \<and> w' = w"
  by (auto simp: sh_files_def)

lemma sh_update_returns: "sh_update f out w = Some (Inr y, w') \<longleftrightarrow>
    (\<exists>fs. f (w_cwd w) (w_files w) = Inr fs \<and> w' = w\<lparr> w_files := fs \<rparr>)"
  by (auto simp: sh_update_def split: sum.splits)

lemmas sh_returns = sh_bind_returns sh_return_returns sh_of_returns sh_outside_returns sh_assert_returns
  sh_files_returns sh_update_returns

lemma in_order_append: "in_order (ms @ ns) = sh_bind (in_order ms) (\<lambda>_. in_order ns)"
  by (induction ms) (simp_all add: sh_bind_assoc)

section \<open>Resolving paths\<close>

lemma py_split_join: "py_split c (a @ c # b) = py_split c a @ py_split c b"
  by (induction a) (auto simp: Let_def split: list.splits)

definition plain :: "string \<Rightarrow> bool" where
  "plain x \<longleftrightarrow> x \<noteq> [] \<and> x \<noteq> ''.'' \<and> x \<noteq> ''..'' \<and> CHR ''/'' \<notin> set x"

lemma resolve_plain: "plain x \<Longrightarrow> resolve c x = c @ [x]"
  by (auto simp: plain_def resolve_def path_walk_def py_split_no_sep py_startswith_iff)

lemma resolve_Nil: "resolve c [] = c"
  by (simp add: resolve_def path_walk_def py_startswith_iff)

lemma path_walk_Nil [simp]: "path_walk c [] = c"
  by (simp add: path_walk_def)

lemma resolve_join:
  assumes "\<not> py_startswith b ''/''" shows "resolve c (path_join a b) = resolve (resolve c a) b"
proof -
  consider "a = []" | a' where "a = a' @ ''/''" | "a \<noteq> []" "\<not> py_endswith a ''/''"
    by (cases a rule: rev_cases) (auto simp: py_endswith_def)
  then show ?thesis
  proof cases
    case 2
    have "py_split CHR ''/'' (a @ b) = py_split CHR ''/'' a' @ py_split CHR ''/'' b"
      "py_split CHR ''/'' a = py_split CHR ''/'' a' @ [[]]"
      using py_split_join[of "CHR ''/''" a' b] py_split_join[of "CHR ''/''" a' "[]"] by (simp_all add: 2)
    moreover have "py_startswith (a @ b) ''/'' \<longleftrightarrow> py_startswith a ''/''" by (cases a') (auto simp: 2 py_startswith_iff)
    ultimately show ?thesis using assms
      by (auto simp: resolve_def path_join_def 2 py_endswith_def)
  next
    case 3
    have "py_split CHR ''/'' (a @ ''/'' @ b) = py_split CHR ''/'' a @ py_split CHR ''/'' b"
      using py_split_join[of "CHR ''/''" a b] by simp
    moreover have "py_startswith (a @ ''/'' @ b) ''/'' \<longleftrightarrow> py_startswith a ''/''"
      using 3(1) by (cases a) (auto simp: py_startswith_iff)
    ultimately show ?thesis using assms 3 by (simp add: resolve_def path_join_def)
  qed (use assms in \<open>auto simp: path_join_def resolve_Nil\<close>)
qed

lemma plain_relative: "plain x \<Longrightarrow> \<not> py_startswith x ''/''"
  by (auto simp: plain_def py_startswith_iff)

lemma resolve_file: "plain x \<Longrightarrow> resolve c (path_join a x) = resolve c a @ [x]"
  by (simp add: resolve_join plain_relative resolve_plain)

lemma walk_clean: "clean_path xs \<Longrightarrow> foldl path_walk acc xs = acc @ xs"
  by (induction xs arbitrary: acc) (auto simp: clean_path_def path_walk_def)

lemma resolve_path_str: "clean_path c \<Longrightarrow> resolve d (path_str c) = c"
proof -
  assume c: "clean_path c"
  have "py_split CHR ''/'' (path_str c) = [] # (if c = [] then [[]] else c)"
  proof (cases "c = []")
    case False
    then have "py_split CHR ''/'' (py_join ''/'' c) = c" using c py_split_py_join[of c "CHR ''/''"]
      by (auto simp: clean_path_def)
    then show ?thesis using False by (simp add: path_str_def)
  qed (simp add: path_str_def)
  moreover have "py_startswith (path_str c) ''/''" by (simp add: path_str_def py_startswith_iff)
  ultimately show ?thesis using walk_clean[OF c, of "[]"] by (auto simp: resolve_def)
qed

section \<open>What is left alone\<close>

text \<open>
  The contract of a statement: when it returns, its start and its end are in a relation that is
  reflexive and transitive. What sequences and loops satisfy follows once for all.
\<close>

definition ensures :: "(world \<Rightarrow> world \<Rightarrow> bool) \<Rightarrow> outside \<Rightarrow> 'a shell \<Rightarrow> bool" where
  "ensures rel out m \<longleftrightarrow> (\<forall>w x w'. m out w = Some (Inr x, w') \<longrightarrow> rel w w')"

text \<open>The same, also when an exception is raised.\<close>

definition always :: "(world \<Rightarrow> world \<Rightarrow> bool) \<Rightarrow> outside \<Rightarrow> 'a shell \<Rightarrow> bool" where
  "always rel out m \<longleftrightarrow> (\<forall>w r w'. m out w = Some (r, w') \<longrightarrow> rel w w')"

lemma alwaysD: "always rel out m \<Longrightarrow> m out w = Some (r, w') \<Longrightarrow> rel w w'"
  by (auto simp: always_def)

lemma always_ensures: "always rel out m \<Longrightarrow> ensures rel out m"
  by (auto simp: always_def ensures_def)

lemma ensuresD: "ensures rel out m \<Longrightarrow> m out w = Some (Inr x, w') \<Longrightarrow> rel w w'"
  by (auto simp: ensures_def)

locale world_relation =
  fixes rel :: "world \<Rightarrow> world \<Rightarrow> bool"
  assumes rel_refl: "rel w w"
    and rel_trans: "rel w w1 \<Longrightarrow> rel w1 w2 \<Longrightarrow> rel w w2"
begin

lemma ensures_bind: "ensures rel out m \<Longrightarrow> (\<And>x. ensures rel out (f x)) \<Longrightarrow> ensures rel out (sh_bind m f)"
  unfolding ensures_def sh_bind_returns by (blast intro: rel_trans)

lemma ensures_return: "ensures rel out (sh_return x)"
  by (simp add: ensures_def sh_return_returns rel_refl)

lemma ensures_in_order: "(\<And>m. m \<in> set ms \<Longrightarrow> ensures rel out m) \<Longrightarrow> ensures rel out (in_order ms)"
proof (induction ms)
  case Nil
  then show ?case by (simp add: ensures_return)
next
  case (Cons m ms)
  then show ?case unfolding in_order.simps by (intro ensures_bind) auto
qed

lemma ensures_Nil: "ensures rel out (in_order [])"
  by (simp add: ensures_return)

lemma ensures_Cons: "ensures rel out m \<Longrightarrow> ensures rel out (in_order ms) \<Longrightarrow> ensures rel out (in_order (m # ms))"
  unfolding in_order.simps by (intro ensures_bind)

lemma ensures_for: "(\<And>x. x \<in> set xs \<Longrightarrow> ensures rel out (f x)) \<Longrightarrow> ensures rel out (sh_for xs f)"
proof (induction xs)
  case Nil
  then show ?case by (simp add: ensures_return)
next
  case (Cons x xs)
  then show ?case unfolding sh_for.simps by (intro ensures_bind) auto
qed

lemma ensures_map: "(\<And>x. x \<in> set xs \<Longrightarrow> ensures rel out (f x)) \<Longrightarrow> ensures rel out (sh_map f xs)"
proof (induction xs)
  case Nil
  then show ?case by (simp add: ensures_return)
next
  case (Cons x xs)
  then show ?case unfolding sh_map.simps by (intro ensures_bind ensures_return) auto
qed

lemma always_bind: "always rel out m \<Longrightarrow> (\<And>x. always rel out (f x)) \<Longrightarrow> always rel out (sh_bind m f)"
  unfolding always_def sh_bind_def by (auto split: option.splits sum.splits) (meson rel_trans)+

lemma always_still: "always rel out (sh_return x)" "always rel out (sh_raise e)"
  by (auto simp: always_def sh_return_def sh_raise_def rel_refl)

lemma always_in_order: "(\<And>m. m \<in> set ms \<Longrightarrow> always rel out m) \<Longrightarrow> always rel out (in_order ms)"
proof (induction ms)
  case Nil
  then show ?case by (simp add: always_still)
next
  case (Cons m ms)
  then show ?case unfolding in_order.simps by (intro always_bind) auto
qed

lemma ensures_try:
  assumes "always rel out m" "\<And>e. ensures rel out (h e)" shows "ensures rel out (sh_try m h)"
  using assms unfolding always_def ensures_def sh_try_def
  by (auto split: option.splits sum.splits) (meson rel_trans)

lemma ensures_still:
  "ensures rel out (sh_return x)" "ensures rel out (sh_of r)" "ensures rel out (sh_outside g)"
  "ensures rel out (sh_assert b)" "ensures rel out (sh_files h)" "ensures rel out getcwd" "ensures rel out (sh_raise e)"
  by (auto simp: ensures_def sh_returns getcwd_def sh_raise_def rel_refl)

lemma ensures_when: "(b \<Longrightarrow> ensures rel out m) \<Longrightarrow> ensures rel out (sh_when b m)"
  by (auto simp: sh_when_def ensures_still)

lemma ensures_if: "(b \<Longrightarrow> ensures rel out m) \<Longrightarrow> (\<not> b \<Longrightarrow> ensures rel out m') \<Longrightarrow> ensures rel out (if b then m else m')"
  by simp

lemma ensures_reads:
  "ensures rel out (path_exists p)" "ensures rel out (is_dir p)" "ensures rel out (read_content p)"
  by (simp_all add: path_exists_def is_dir_def read_content_def ensures_still)

lemma ensures_read_text: "ensures rel out (read_text p)"
  unfolding read_text_def by (intro ensures_bind ensures_reads ensures_still)

lemma ensures_load: "ensures rel out (load_yaml p)" "ensures rel out (load_json p)"
  unfolding load_yaml_def load_json_def
  by (intro ensures_bind ensures_reads; auto simp: ensures_still split: content.split intro!: ensures_bind ensures_still)+

end

text \<open>
  The relation used: from the directory \<open>c\<close> the statement comes back to it, and the nodes at the
  paths in \<open>S\<close> are what they were.
\<close>

definition frame :: "path \<Rightarrow> (path \<Rightarrow> bool) \<Rightarrow> world \<Rightarrow> world \<Rightarrow> bool" where
  "frame c S w w' \<longleftrightarrow> (w_cwd w = c \<longrightarrow> w_cwd w' = c \<and> (\<forall>q. S q \<longrightarrow> node_at (w_files w') q = node_at (w_files w) q))"

interpretation fr: world_relation "frame c S" for c S
  by unfold_locales (auto simp: frame_def)

definition commands_keep :: "outside \<Rightarrow> (path \<Rightarrow> bool) \<Rightarrow> bool" where
  "commands_keep out S \<longleftrightarrow> (\<forall>log cwd command fs q. S q \<longrightarrow>
     node_at (snd (ou_system out log cwd command fs)) q = node_at fs q)"

lemma frame_system: "commands_keep out S \<Longrightarrow> ensures (frame c S) out (system command)"
  unfolding ensures_def system_def frame_def commands_keep_def
  by (auto split: prod.splits) (metis snd_conv)

lemma frame_os_system: "commands_keep out S \<Longrightarrow> ensures (frame c S) out (os_system command early)"
  unfolding os_system_def by (intro fr.ensures_bind frame_system) (auto simp: Let_def fr.ensures_still)

lemma frame_system_always: "commands_keep out S \<Longrightarrow> always (frame c S) out (system command)"
  unfolding always_def system_def frame_def commands_keep_def by (auto split: prod.splits) (metis snd_conv)

lemma frame_cmd_always: "commands_keep out S \<Longrightarrow> always (frame c S) out (sh_cmd command)"
  unfolding sh_cmd_def os_system_def
  by (intro fr.always_bind frame_system_always) (simp_all add: Let_def fr.always_still)

lemma frame_cmd: "commands_keep out S \<Longrightarrow> ensures (frame c S) out (sh_cmd command)"
  by (intro always_ensures frame_cmd_always)

lemma frame_log: "ensures (frame c S) out (sh_log a)" "ensures (frame c S) out (sleep n)" "ensures (frame c S) out (sh_ask x g)"
  by (auto simp: ensures_def sh_log_def sleep_def sh_ask_def frame_def)

text \<open>A change of the files alone.\<close>

lemma frame_update:
  assumes "\<And>fs fs' q. f c fs = Inr fs' \<Longrightarrow> S q \<Longrightarrow> node_at fs' q = node_at fs q"
  shows "ensures (frame c S) out (sh_update f)"
  using assms by (auto simp: ensures_def sh_update_returns frame_def)

lemma node_at_update: "node_at (AList.update p n fs) q = (if q = [] then Some Folder else if q = p then Some n else node_at fs q)"
  by (auto simp: node_at_def)

lemma put_file_other: "put_file p x fs = Inr fs' \<Longrightarrow> q \<noteq> p \<Longrightarrow> node_at fs' q = node_at fs q"
  by (auto simp: put_file_def node_at_def split: option.splits node.splits if_splits)

lemma put_file_same: "put_file p x fs = Inr fs' \<Longrightarrow> node_at fs' p = Some (File x)"
  by (auto simp: put_file_def node_at_def split: option.splits node.splits if_splits)

lemma frame_write: "\<not> S (resolve c p) \<Longrightarrow> ensures (frame c S) out (write_content p x)"
  unfolding write_content_def by (rule frame_update) (metis put_file_other)

lemma frame_write_text: "\<not> S (resolve c p) \<Longrightarrow> ensures (frame c S) out (write_text p s)"
  unfolding write_text_def by (rule frame_write)

lemma frame_dump: "\<not> S (resolve c p) \<Longrightarrow> ensures (frame c S) out (dump_doc v p)"
  unfolding dump_doc_def by (rule frame_write)

lemma frame_copyfile: "\<not> S (resolve c dst) \<Longrightarrow> ensures (frame c S) out (copyfile src dst)"
  unfolding copyfile_def copyfile_at_def by (rule frame_update) (auto simp: res_simps intro: put_file_other)

lemma frame_copy:
  assumes "\<not> S (resolve c dst)" "\<not> S (resolve c dst @ [basename src])" shows "ensures (frame c S) out (copy src dst)"
  unfolding copy_def copyfile_at_def inside_folder_def
  by (rule frame_update) (use assms in \<open>auto simp: res_simps split: if_splits intro: put_file_other\<close>)

lemma makedirs_fold_other:
  assumes "res_fold (\<lambda>fs p. case node_at fs p of None \<Rightarrow> Inr (AList.update p Folder fs) | Some Folder \<Rightarrow> Inr fs
      | Some _ \<Rightarrow> Inl OSError) fs ps = Inr fs'" "q \<notin> set ps"
  shows "node_at fs' q = node_at fs q"
proof -
  have "node_at fs' q = node_at fs q \<and> True"
    by (rule res_fold_invariant[where I = "\<lambda>s. node_at s q = node_at fs q \<and> True", OF assms(1)])
      (use assms(2) in \<open>auto simp: node_at_def split: option.splits node.splits if_splits\<close>)
  then show ?thesis ..
qed

lemma makedirs_other:
  assumes "makedirs_at p exist_ok fs = Inr fs'" "\<not> prefix q p" shows "node_at fs' q = node_at fs q"
proof -
  have "q \<notin> set (map (\<lambda>i. take (Suc i) p) [0..<length p])" using assms(2) by (auto simp: take_is_prefix)
  then show ?thesis using assms(1) makedirs_fold_other unfolding makedirs_at_def by (auto split: if_splits)
qed

lemma frame_makedirs:
  assumes "\<And>q. prefix q (resolve c p) \<Longrightarrow> \<not> S q" shows "ensures (frame c S) out (makedirs p exist_ok)"
  unfolding makedirs_def by (rule frame_update) (use assms makedirs_other in metis)

lemma map_of_filter_keys: "map_of (filter (\<lambda>(p, _). P p) fs) q = (if P q then map_of fs q else None)"
  by (induction fs) auto

lemma rmtree_other: "rmtree_at p fs = Inr fs' \<Longrightarrow> \<not> prefix p q \<Longrightarrow> node_at fs' q = node_at fs q"
  by (auto simp: rmtree_at_def node_at_def map_of_filter_keys split: option.splits node.splits if_splits)

lemma frame_rmtree:
  assumes "\<And>q. prefix (resolve c p) q \<Longrightarrow> \<not> S q"
  shows "ensures (frame c S) out (rmtree p)" "ensures (frame c S) out (rmtree_if_exists p)"
proof -
  show rm: "ensures (frame c S) out (rmtree p)"
    unfolding rmtree_def by (rule frame_update) (use assms rmtree_other in metis)
  show "ensures (frame c S) out (rmtree_if_exists p)"
    unfolding rmtree_if_exists_def by (intro fr.ensures_bind fr.ensures_reads fr.ensures_when rm)
qed

lemma frame_remove: "\<not> S (resolve c p) \<Longrightarrow> ensures (frame c S) out (remove_file p)"
  unfolding remove_file_def
  by (rule frame_update) (auto simp: node_at_def map_of_filter_keys split: option.splits node.splits if_splits)

text \<open>A stretch of commands in another directory.\<close>

lemma frame_inside:
  assumes "clean_path c" "\<And>d. ensures (frame d S) out (in_order ms)" "ensures (frame c S) out (in_order ns)"
  shows "ensures (frame c S) out (sh_bind getcwd (\<lambda>org. in_order ([chdir d] @ ms @ [chdir org] @ ns)))"
proof -
  have "frame c S w w'" if run: "sh_bind getcwd (\<lambda>org. in_order ([chdir d] @ ms @ [chdir org] @ ns)) out w = Some (Inr u, w')" for w u w'
  proof (cases "w_cwd w = c")
    case True
    obtain w1 w2 w3 where w1: "chdir d out w = Some (Inr (), w1)" and w2: "in_order ms out w1 = Some (Inr (), w2)"
      and w3: "chdir (path_str c) out w2 = Some (Inr (), w3)" and w': "in_order ns out w3 = Some (Inr (), w')"
      using run True by (auto simp: in_order_append sh_bind_assoc sh_bind_returns getcwd_def)
    have fs1: "w_files w1 = w_files w" using w1 by (auto simp: chdir_def Let_def split: option.splits node.splits)
    have "frame (w_cwd w1) S w1 w2" using ensuresD[OF assms(2) w2] .
    then have fs2: "\<forall>q. S q \<longrightarrow> node_at (w_files w2) q = node_at (w_files w1) q" by (auto simp: frame_def)
    have fs3: "w_files w3 = w_files w2" "w_cwd w3 = c"
      using w3 assms(1) by (auto simp: chdir_def Let_def resolve_path_str split: option.splits node.splits)
    have "frame c S w3 w'" using ensuresD[OF assms(3) w'] .
    then show ?thesis using fs1 fs2 fs3 by (auto simp: frame_def)
  qed (simp add: frame_def)
  then show ?thesis by (auto simp: ensures_def)
qed

section \<open>Running a script step by step\<close>

text \<open>
  From a directory and files a statement returns a value and leads to a directory and files, whatever was
  done before.
\<close>

definition goes :: "outside \<Rightarrow> path \<Rightarrow> files \<Rightarrow> 'a shell \<Rightarrow> 'a \<Rightarrow> path \<Rightarrow> files \<Rightarrow> bool" where
  "goes out c fs m x c' fs' \<longleftrightarrow> (\<forall>log. \<exists>log'. m out \<lparr> w_cwd = c, w_files = fs, w_log = log \<rparr> =
     Some (Inr x, \<lparr> w_cwd = c', w_files = fs', w_log = log' \<rparr>))"

text \<open>An equation whose left side is to be evaluated.\<close>

definition evals :: "'a \<Rightarrow> 'a \<Rightarrow> bool" where
  "evals a b \<longleftrightarrow> a = b"

declare evals_def [code del]

lemma evals_refl: "evals a a"
  by (simp add: evals_def)

lemma evals_now: "evals a b \<Longrightarrow> evals a b"
  by assumption

declare goes_def [code del]

lemma goes_bind: "goes out c fs m x c1 fs1 \<Longrightarrow> goes out c1 fs1 (f x) y c2 fs2 \<Longrightarrow> goes out c fs (sh_bind m f) y c2 fs2"
  unfolding goes_def by (metis sh_bind_returns)

lemma goes_return: "goes out c fs (sh_return x) x c fs"
  by (simp add: evals_def goes_def sh_return_def)

lemma goes_of: "evals r (Inr x) \<Longrightarrow> goes out c fs (sh_of r) x c fs"
  by (simp add: evals_def goes_def sh_of_def)

lemma goes_assert: "evals b True \<Longrightarrow> goes out c fs (sh_assert b) () c fs"
  by (simp add: evals_def goes_def sh_assert_def sh_of_def)

lemma goes_outside: "evals (f out) x \<Longrightarrow> goes out c fs (sh_outside f) x c fs"
  by (simp add: evals_def goes_def sh_outside_def)

lemma goes_getcwd: "goes out c fs getcwd (path_str c) c fs"
  by (simp add: evals_def goes_def getcwd_def)

lemma goes_chdir: "evals (resolve c p) q \<Longrightarrow> evals (node_at fs q) (Some Folder) \<Longrightarrow> goes out c fs (chdir p) () q fs"
  by (simp add: evals_def goes_def chdir_def)

lemma goes_files: "evals (f c fs) (Inr x) \<Longrightarrow> goes out c fs (sh_files f) x c fs"
  by (simp add: evals_def goes_def sh_files_def)

lemma goes_update: "evals (f c fs) (Inr fs') \<Longrightarrow> goes out c fs (sh_update f) () c fs'"
  by (simp add: evals_def goes_def sh_update_def)

lemma goes_log: "goes out c fs (sh_log a) () c fs"
  by (simp add: evals_def goes_def sh_log_def)

lemma goes_ask: "(\<And>log. evals (answer out log) (Inr x)) \<Longrightarrow> goes out c fs (sh_ask q answer) x c fs"
  by (simp add: evals_def goes_def sh_ask_def)

lemma goes_system: "(\<And>log. evals (ou_system out log c command fs) (status, fs')) \<Longrightarrow> goes out c fs (system command) status c fs'"
  by (simp add: evals_def goes_def system_def)

lemma goes_os_system:
  assumes "\<And>log. evals (ou_system out log c command fs) (status, fs')" "evals (WEXITSTATUS status) 0"
  shows "goes out c fs (os_system command early) 0 c fs'"
  unfolding os_system_def by (rule goes_bind[OF goes_system[OF assms(1)]]) (use assms(2) in \<open>simp add: evals_def Let_def goes_return\<close>)

lemma goes_cmd:
  assumes "\<And>log. evals (ou_system out log c command fs) (status, fs')" "evals (WEXITSTATUS status) 0"
  shows "goes out c fs (sh_cmd command) () c fs'"
  unfolding sh_cmd_def by (rule goes_bind[OF goes_os_system[OF assms] goes_return])

lemma goes_Nil: "goes out c fs (in_order []) () c fs"
  by (simp add: goes_return)

lemma goes_Cons: "goes out c fs m () c1 fs1 \<Longrightarrow> goes out c1 fs1 (in_order ms) () c2 fs2 \<Longrightarrow> goes out c fs (in_order (m # ms)) () c2 fs2"
  unfolding in_order.simps by (rule goes_bind)

lemma goes_for_Nil: "goes out c fs (sh_for [] f) () c fs"
  by (simp add: goes_return)

lemma goes_for_Cons:
  "goes out c fs (f x) () c1 fs1 \<Longrightarrow> goes out c1 fs1 (sh_for xs f) () c2 fs2 \<Longrightarrow> goes out c fs (sh_for (x # xs) f) () c2 fs2"
  unfolding sh_for.simps by (rule goes_bind)

lemma goes_for: "evals xs ys \<Longrightarrow> goes out c fs (sh_for ys f) () c' fs' \<Longrightarrow> goes out c fs (sh_for xs f) () c' fs'"
  by (simp add: evals_def)

lemma goes_map_Nil: "goes out c fs (sh_map f []) [] c fs"
  by (simp add: goes_return)

lemma goes_map_Cons:
  "goes out c fs (f x) y c1 fs1 \<Longrightarrow> goes out c1 fs1 (sh_map f xs) ys c2 fs2 \<Longrightarrow> goes out c fs (sh_map f (x # xs)) (y # ys) c2 fs2"
  unfolding sh_map.simps by (rule goes_bind, assumption, rule goes_bind, assumption, rule goes_return)

lemma goes_map: "evals xs ys \<Longrightarrow> goes out c fs (sh_map f ys) zs c' fs' \<Longrightarrow> goes out c fs (sh_map f xs) zs c' fs'"
  by (simp add: evals_def)

lemma goes_when: "b \<Longrightarrow> goes out c fs m () c' fs' \<Longrightarrow> goes out c fs (sh_when b m) () c' fs'"
  by (simp add: sh_when_def)

lemma goes_when_not: "\<not> b \<Longrightarrow> goes out c fs (sh_when b m) () c fs"
  by (simp add: sh_when_def goes_return)

lemma goes_if: "b \<Longrightarrow> goes out c fs m x c' fs' \<Longrightarrow> goes out c fs (if b then m else m') x c' fs'"
  by simp

lemma goes_if_not: "\<not> b \<Longrightarrow> goes out c fs m' x c' fs' \<Longrightarrow> goes out c fs (if b then m else m') x c' fs'"
  by simp

lemma goes_try: "goes out c fs m x c' fs' \<Longrightarrow> goes out c fs (sh_try m h) x c' fs'"
  unfolding goes_def sh_try_def by (metis (no_types, lifting) option.simps(5) prod.simps(2) sum.simps(6))

lemma goes_prod: "goes out c fs (f a b) x c' fs' \<Longrightarrow> goes out c fs (case (a, b) of (a, b) \<Rightarrow> f a b) x c' fs'"
  by simp

lemma goes_content: "evals (node_at fs (resolve c p)) (Some (File x)) \<Longrightarrow> goes out c fs (read_content p) x c fs"
  unfolding read_content_def by (rule goes_files) (simp add: evals_def read_node_def)

lemma goes_read_text: "evals (node_at fs (resolve c p)) (Some (File x)) \<Longrightarrow> evals (text_of out x) s \<Longrightarrow> goes out c fs (read_text p) s c fs"
  unfolding read_text_def by (rule goes_bind[OF goes_content], assumption, rule goes_outside)

lemma goes_load: "evals (node_at fs (resolve c p)) (Some (File (Doc v))) \<Longrightarrow> goes out c fs (load_json p) v c fs"
  "evals (node_at fs (resolve c p)) (Some (File (Doc v))) \<Longrightarrow> goes out c fs (load_yaml p) v c fs"
  unfolding load_json_def load_yaml_def by (rule goes_bind[OF goes_content], assumption, simp add: goes_return)+

lemmas goes_steps = goes_return goes_getcwd goes_log goes_Nil goes_for_Nil goes_map_Nil goes_bind goes_Cons goes_for_Cons goes_map_Cons
  goes_prod goes_try goes_of goes_assert goes_outside goes_chdir goes_content goes_read_text goes_load goes_files goes_update goes_ask
  goes_system goes_os_system goes_cmd

lemmas goes_choices = goes_when goes_when_not goes_if goes_if_not

lemmas frame_structure = fr.ensures_bind fr.ensures_Nil fr.ensures_Cons fr.ensures_for fr.ensures_map
  fr.ensures_when fr.ensures_if fr.ensures_still fr.ensures_reads fr.ensures_read_text fr.ensures_load frame_log

text \<open>With no path to keep, the relation says that the directory is kept: only changes of the directory need care.\<close>

lemma stays_update: "ensures (frame c (\<lambda>_. False)) out (sh_update f)"
  by (rule frame_update) simp

lemma any_commands: "commands_keep out (\<lambda>_. False)"
  by (simp add: commands_keep_def)

lemmas stays_rules = frame_structure stays_update frame_cmd[OF any_commands] frame_system[OF any_commands]

section \<open>Scripts that always end\<close>

definition ends :: "outside \<Rightarrow> 'a shell \<Rightarrow> bool" where
  "ends out m \<longleftrightarrow> (\<forall>w. m out w \<noteq> None)"

lemma endsD: "ends out m \<Longrightarrow> \<exists>r w'. m out w = Some (r, w')"
  by (metis ends_def option.exhaust prod.exhaust)

lemma ends_bind: "ends out m \<Longrightarrow> (\<And>x. ends out (f x)) \<Longrightarrow> ends out (sh_bind m f)"
  unfolding ends_def sh_bind_def by (auto split: option.splits sum.splits)

lemma ends_steps:
  "ends out (sh_return x)" "ends out (sh_of r)" "ends out (sh_raise e)" "ends out (sh_outside g)" "ends out (sh_files h)"
  "ends out (sh_update u)" "ends out (system command)" "ends out (sh_log a)" "ends out getcwd" "ends out (chdir p)"
  by (auto simp: ends_def sh_return_def sh_of_def sh_raise_def sh_outside_def sh_files_def sh_update_def system_def sh_log_def
      getcwd_def chdir_def Let_def split: sum.splits prod.splits option.splits node.splits)

lemma ends_when: "(b \<Longrightarrow> ends out m) \<Longrightarrow> ends out (sh_when b m)"
  by (simp add: sh_when_def ends_steps)

lemma ends_if: "(b \<Longrightarrow> ends out m) \<Longrightarrow> (\<not> b \<Longrightarrow> ends out n) \<Longrightarrow> ends out (if b then m else n)"
  by simp

lemma ends_cmd: "ends out (sh_cmd command)"
  unfolding sh_cmd_def os_system_def Let_def by (intro ends_bind ends_if ends_steps)

lemma ends_Nil: "ends out (in_order [])"
  by (simp add: ends_steps)

lemma ends_Cons: "ends out m \<Longrightarrow> ends out (in_order ms) \<Longrightarrow> ends out (in_order (m # ms))"
  unfolding in_order.simps by (intro ends_bind)

lemma ends_for: "(\<And>x. x \<in> set xs \<Longrightarrow> ends out (f x)) \<Longrightarrow> ends out (sh_for xs f)"
  by (induction xs) (auto simp: ends_steps intro!: ends_bind)

lemma ends_load: "ends out (load_json p)" "ends out (read_text p)"
  by (auto simp: load_json_def read_text_def read_content_def ends_steps split: content.split intro!: ends_bind)

lemmas ends_rules = ends_bind ends_when ends_if ends_cmd ends_Nil ends_Cons ends_for ends_load ends_steps

declare in_order.simps(2) [simp del]

declare sh_for.simps(2) [simp del]

declare sh_map.simps(2) [simp del]

end
