(* ===== verification/Test_Driver.thy ===== *)
theory Test_Driver
  imports Config Py_Repr
begin

text \<open>
  The workloads that drive a test, \<^verbatim>\<open>sieve_test_driver/test_framework.py\<close>. The cluster is an argument: what
  the Kubernetes client or \<open>kubectl\<close> returns at each poll, what a shell command exits with, and how much
  time has passed at each poll.
\<close>

section \<open>What a poll sees\<close>

text \<open>
  The attributes of the client's objects that are read. A list of container statuses or of volume
  claim templates may be absent, and so may the entry for storage in a template.
\<close>

record pod_view =
  pv_name :: string
  pv_phase :: string
  pv_ready :: "bool list option"

record pvc_view =
  vc_name :: string
  vc_phase :: string

record sts_view =
  sv_name :: string
  sv_storage :: "string option list option"

text \<open>The answers for one namespace; a call of the client may raise. \<open>kubectl\<close> may print no JSON.\<close>

record cluster_view =
  kv_pods :: "pod_view list res"
  kv_pvcs :: "pvc_view list res"
  kv_sts :: "sts_view list res"
  kv_secrets :: "string list res"
  kv_services :: "string list res"
  kv_custom :: "string \<Rightarrow> string \<Rightarrow> json option"

type_synonym cluster = "string \<Rightarrow> cluster_view"

definition name_matches :: "string \<Rightarrow> string \<Rightarrow> bool" where
  "name_matches resource_name name \<longleftrightarrow> name = resource_name \<or>
     py_endswith resource_name ''*'' \<and> py_startswith name (butlast resource_name)"

definition get_pod :: "string \<Rightarrow> pod_view list \<Rightarrow> pod_view option" where
  "get_pod resource_name pods = find (\<lambda>pod. name_matches resource_name (pv_name pod)) pods"

definition get_pods :: "string \<Rightarrow> pod_view list \<Rightarrow> pod_view list" where
  "get_pods resource_name_prefix pods = filter (\<lambda>pod. py_startswith (pv_name pod) resource_name_prefix) pods"

text \<open>This loop has no \<open>break\<close>: the last match counts.\<close>

definition get_sts :: "string \<Rightarrow> sts_view list \<Rightarrow> sts_view option" where
  "get_sts resource_name statefulsets =
     foldl (\<lambda>target sts. if sv_name sts = resource_name then Some sts else target) None statefulsets"

definition get_pvc :: "string \<Rightarrow> pvc_view list \<Rightarrow> pvc_view option" where
  "get_pvc resource_name pvcs = find (\<lambda>pvc. name_matches resource_name (vc_name pvc)) pvcs"

definition get_secret :: "string \<Rightarrow> string list \<Rightarrow> string option" where
  "get_secret resource_name secrets = find (\<lambda>name. name = resource_name) secrets"

definition get_service :: "string \<Rightarrow> string list \<Rightarrow> string option" where
  "get_service resource_name services = find (\<lambda>name. name = resource_name) services"

section \<open>The work items\<close>

definition POD :: string where "POD = ''pod''"
definition PVC :: string where "PVC = ''persistentvolumeclaim''"
definition STS :: string where "STS = ''statefulset''"
definition SECRET :: string where "SECRET = ''secret''"
definition SERVICE :: string where "SERVICE = ''service''"
definition RUNNING :: string where "RUNNING = ''Running''"
definition TERMINATED :: string where "TERMINATED = ''Terminated''"
definition BOUND :: string where "BOUND = ''Bound''"

text \<open>A condition on a custom resource is a path, with slashes, and the value expected there.\<close>

datatype test_work =
    TestCmd (tw_cmd: string) (tw_timeout: int)
  | TestWait int
  | TestWaitForStatus string string string int string
  | TestWaitForNumber string string int int string
  | TestWaitForStorage string string string int string
  | TestWaitForExistence string string bool int string
  | TestWaitForCRConditions string string "(string \<times> json) list" int string

text \<open>A failing call of the client counts as a condition that does not hold yet.\<close>

definition check_pod_status :: "string \<Rightarrow> string \<Rightarrow> cluster_view \<Rightarrow> bool res" where
  "check_pod_status resource_name status view = (case kv_pods view of
       Inl err \<Rightarrow> Inr False
     | Inr pods \<Rightarrow>
         let pod = get_pod resource_name pods in
         if status = TERMINATED then Inr (pod = None)
         else if status = RUNNING then (case pod of
             None \<Rightarrow> Inr False
           | Some p \<Rightarrow> if pv_phase p = status
               then res_bind (from_option TypeError (pv_ready p)) (\<lambda>ready. Inr (list_all id ready))
               else Inr False)
         else Inl AssertionError)"

definition check_pvc_status :: "string \<Rightarrow> string \<Rightarrow> cluster_view \<Rightarrow> bool res" where
  "check_pvc_status resource_name status view = (case kv_pvcs view of
       Inl err \<Rightarrow> Inr False
     | Inr pvcs \<Rightarrow>
         let pvc = get_pvc resource_name pvcs in
         if status = TERMINATED then Inr (pvc = None)
         else if status = BOUND then Inr (case pvc of None \<Rightarrow> False | Some p \<Rightarrow> vc_phase p = status)
         else Inl AssertionError)"

definition check_pod_number :: "string \<Rightarrow> int \<Rightarrow> cluster_view \<Rightarrow> bool res" where
  "check_pod_number resource_name_prefix number view = (case kv_pods view of
       Inl err \<Rightarrow> Inr False
     | Inr pods \<Rightarrow> Inr (int (length (filter (\<lambda>pod. pv_phase pod = RUNNING)
         (get_pods resource_name_prefix pods))) = number))"

text \<open>Here a failing call is not caught.\<close>

definition check_sts :: "string \<Rightarrow> string \<Rightarrow> cluster_view \<Rightarrow> bool res" where
  "check_sts resource_name storage_size view = res_bind (kv_sts view) (\<lambda>statefulsets.
     case get_sts resource_name statefulsets of
       None \<Rightarrow> Inr False
     | Some sts \<Rightarrow> res_bind (from_option TypeError (sv_storage sts)) (\<lambda>templates.
         res_any (\<lambda>t. res_bind (from_option KeyError t) (\<lambda>size. Inr (size = storage_size))) templates))"

definition check_secret :: "string \<Rightarrow> bool \<Rightarrow> cluster_view \<Rightarrow> bool res" where
  "check_secret resource_name exist view = Inr (case kv_secrets view of
       Inl err \<Rightarrow> False
     | Inr secrets \<Rightarrow> (get_secret resource_name secrets \<noteq> None) = exist)"

definition check_service :: "string \<Rightarrow> bool \<Rightarrow> cluster_view \<Rightarrow> bool res" where
  "check_service resource_name exist view = Inr (case kv_services view of
       Inl err \<Rightarrow> False
     | Inr services \<Rightarrow> (get_service resource_name services \<noteq> None) = exist)"

fun condition_holds :: "json \<Rightarrow> string list \<Rightarrow> json \<Rightarrow> bool res" where
  "condition_holds inner_resource [] desired_value = Inr (json_eq inner_resource desired_value)"
| "condition_holds inner_resource (token # tokens) desired_value =
     res_bind (py_in token inner_resource) (\<lambda>b.
       if b then res_bind (py_getitem inner_resource token) (\<lambda>inner. condition_holds inner tokens desired_value)
       else Inr False)"

definition check_cr_conditions :: "(string \<times> json) list \<Rightarrow> json \<Rightarrow> bool res" where
  "check_cr_conditions conditions custom_resource =
     res_bind (res_any (\<lambda>(key_path, desired_value).
       res_bind (condition_holds custom_resource (py_split CHR ''/'' key_path) desired_value) (\<lambda>b. Inr (\<not> b)))
       conditions) (\<lambda>violated. Inr (\<not> violated))"

section \<open>Waiting\<close>

text \<open>
  What a work item meets: the exit code of its command, or none when it does not finish in time, and
  for each poll the seconds passed and the cluster.
\<close>

record work_env =
  we_exit :: "int option"
  we_elapsed :: "nat \<Rightarrow> int"
  we_cluster :: "nat \<Rightarrow> cluster"

text \<open>The loop of the waits: poll until the condition holds, an exception is raised or time is up.\<close>

partial_function (option) wait_loop :: "(nat \<Rightarrow> int) \<Rightarrow> (nat \<Rightarrow> bool res) \<Rightarrow> int \<Rightarrow> nat \<Rightarrow> bool res option" where
  "wait_loop elapsed holds timeout k =
     (if elapsed k > timeout then Some (Inr False)
      else case holds k of
          Inl e \<Rightarrow> Some (Inl e)
        | Inr b \<Rightarrow> if b then Some (Inr True) else wait_loop elapsed holds timeout (Suc k))"

declare wait_loop.simps [code]

text \<open>The return code and the error message.\<close>

type_synonym outcome = "(int \<times> string) res option"

definition conditional_wait :: "work_env \<Rightarrow> int \<Rightarrow> (cluster \<Rightarrow> bool res) \<Rightarrow> string \<Rightarrow> outcome" where
  "conditional_wait env timeout holds error_message =
     map_option (\<lambda>r. res_bind r (\<lambda>ok. Inr (if ok then (0, []) else (1, error_message))))
       (wait_loop (we_elapsed env) (\<lambda>k. holds (we_cluster env k)) timeout 0)"

definition run_cmd :: "work_env \<Rightarrow> string \<Rightarrow> int \<Rightarrow> outcome" where
  "run_cmd env cmd timeout = Some (Inr (case we_exit env of
       None \<Rightarrow> (2, ''Command timeout: '' @ [CHR 0x27] @ cmd @ [CHR 0x27] @ '' does not finish within '' @
         int_str timeout @ '' seconds'')
     | Some returncode \<Rightarrow> if returncode \<noteq> 0
         then (1, ''Command error code: '' @ [CHR 0x27] @ cmd @ [CHR 0x27] @ '' returns '' @ int_str returncode @ '' '')
         else (0, [])))"

definition not_become :: "string \<Rightarrow> string \<Rightarrow> int \<Rightarrow> string" where
  "not_become resource_name what timeout = ''Conditional wait timeout: '' @ resource_name @ '' does not become '' @
     what @ '' within '' @ int_str timeout @ '' seconds''"

definition run_wait_for_status :: "work_env \<Rightarrow> string \<Rightarrow> string \<Rightarrow> string \<Rightarrow> int \<Rightarrow> string \<Rightarrow> outcome" where
  "run_wait_for_status env resource_type resource_name status timeout namespace =
     conditional_wait env timeout (\<lambda>cluster.
       if resource_type = POD then check_pod_status resource_name status (cluster namespace)
       else if resource_type = PVC then check_pvc_status resource_name status (cluster namespace)
       else Inl AssertionError)
     (not_become resource_name status timeout)"

definition run_wait_for_number :: "work_env \<Rightarrow> string \<Rightarrow> string \<Rightarrow> int \<Rightarrow> int \<Rightarrow> string \<Rightarrow> outcome" where
  "run_wait_for_number env resource_type resource_name_prefix number timeout namespace =
     conditional_wait env timeout (\<lambda>cluster.
       if resource_type = POD then check_pod_number resource_name_prefix number (cluster namespace)
       else Inl AssertionError)
     (not_become resource_name_prefix (int_str number) timeout)"

definition run_wait_for_storage :: "work_env \<Rightarrow> string \<Rightarrow> string \<Rightarrow> string \<Rightarrow> int \<Rightarrow> string \<Rightarrow> outcome" where
  "run_wait_for_storage env resource_type resource_name storage_size timeout namespace =
     conditional_wait env timeout (\<lambda>cluster.
       if resource_type = STS then check_sts resource_name storage_size (cluster namespace)
       else Inl AssertionError)
     (''Conditional wait timeout: '' @ resource_name @ '' does not have storage size '' @ storage_size @
      '' within '' @ int_str timeout @ '' seconds'')"

definition run_wait_for_existence :: "work_env \<Rightarrow> string \<Rightarrow> string \<Rightarrow> bool \<Rightarrow> int \<Rightarrow> string \<Rightarrow> outcome" where
  "run_wait_for_existence env resource_type resource_name exist timeout namespace =
     conditional_wait env timeout (\<lambda>cluster.
       if resource_type = SECRET then check_secret resource_name exist (cluster namespace)
       else if resource_type = SERVICE then check_service resource_name exist (cluster namespace)
       else Inl AssertionError)
     (not_become resource_name (if exist then ''created'' else ''deleted'') timeout)"

text \<open>The conditions are printed as the list of lists they are written as.\<close>

definition conditions_repr :: "(string \<times> json) list \<Rightarrow> string" where
  "conditions_repr conditions = py_repr (JList (map (\<lambda>(key_path, v). JList [JStr key_path, v]) conditions))"

text \<open>A resource that cannot be read is polled again at once, without the pause of the other waits.\<close>

definition run_wait_for_cr_conditions ::
  "work_env \<Rightarrow> string \<Rightarrow> string \<Rightarrow> (string \<times> json) list \<Rightarrow> int \<Rightarrow> string \<Rightarrow> outcome" where
  "run_wait_for_cr_conditions env custom_resource_type resource_name conditions timeout namespace =
     conditional_wait env timeout (\<lambda>cluster.
       case kv_custom (cluster namespace) custom_resource_type resource_name of
         None \<Rightarrow> Inr False
       | Some custom_resource \<Rightarrow> check_cr_conditions conditions custom_resource)
     (''Conditional wait timeout: '' @ resource_name @ '' does not achieve '' @ conditions_repr conditions @
      '' within '' @ int_str timeout @ '' seconds'')"

fun run_work :: "work_env \<Rightarrow> test_work \<Rightarrow> outcome" where
  "run_work env (TestCmd cmd timeout) = run_cmd env cmd timeout"
| "run_work env (TestWait timeout) = Some (Inr (0, []))"
| "run_work env (TestWaitForStatus t n s timeout ns) = run_wait_for_status env t n s timeout ns"
| "run_work env (TestWaitForNumber t p n timeout ns) = run_wait_for_number env t p n timeout ns"
| "run_work env (TestWaitForStorage t n s timeout ns) = run_wait_for_storage env t n s timeout ns"
| "run_work env (TestWaitForExistence t n e timeout ns) = run_wait_for_existence env t n e timeout ns"
| "run_work env (TestWaitForCRConditions t n cs timeout ns) = run_wait_for_cr_conditions env t n cs timeout ns"

section \<open>Workloads\<close>

record workload =
  wl_work_list :: "test_work list"
  wl_final_grace_period :: int

text \<open>The default timeouts and the default namespace come from the common configuration.\<close>

record workload_defaults =
  wd_command_timeout :: int
  wd_conditional_timeout :: int
  wd_namespace :: string

definition workload_defaults_of :: "common_config \<Rightarrow> workload_defaults res" where
  "workload_defaults_of c =
     (case (cc_workload_command_wait_timeout c, cc_workload_conditional_wait_timeout c, cc_namespace c) of
        (JInt cmd, JInt wait, JStr ns) \<Rightarrow> Inr \<lparr> wd_command_timeout = cmd, wd_conditional_timeout = wait, wd_namespace = ns \<rparr>
      | _ \<Rightarrow> Inl OutOfModel)"

definition append_work :: "test_work \<Rightarrow> workload \<Rightarrow> workload" where
  "append_work w wl = wl\<lparr> wl_work_list := wl_work_list wl @ [w] \<rparr>"

definition given :: "'a option \<Rightarrow> 'a \<Rightarrow> 'a" where
  "given arg d = (case arg of None \<Rightarrow> d | Some x \<Rightarrow> x)"

definition cmd :: "workload_defaults \<Rightarrow> string \<Rightarrow> workload \<Rightarrow> workload" where
  "cmd d c = append_work (TestCmd c (wd_command_timeout d))"

definition wait_for_pod_number ::
  "workload_defaults \<Rightarrow> string \<Rightarrow> int \<Rightarrow> int option \<Rightarrow> string option \<Rightarrow> workload \<Rightarrow> workload" where
  "wait_for_pod_number d pod_name_prefix number timeout namespace = append_work (TestWaitForNumber POD
     pod_name_prefix number (given timeout (wd_conditional_timeout d)) (given namespace (wd_namespace d)))"

definition wait_for_pod_status ::
  "workload_defaults \<Rightarrow> string \<Rightarrow> string \<Rightarrow> int option \<Rightarrow> string option \<Rightarrow> workload \<Rightarrow> workload" where
  "wait_for_pod_status d pod_name status timeout namespace = append_work (TestWaitForStatus POD
     pod_name status (given timeout (wd_conditional_timeout d)) (given namespace (wd_namespace d)))"

definition wait_for_pvc_status ::
  "workload_defaults \<Rightarrow> string \<Rightarrow> string \<Rightarrow> int option \<Rightarrow> string option \<Rightarrow> workload \<Rightarrow> workload" where
  "wait_for_pvc_status d pvc_name status timeout namespace = append_work (TestWaitForStatus PVC
     pvc_name status (given timeout (wd_conditional_timeout d)) (given namespace (wd_namespace d)))"

definition wait_for_secret_existence ::
  "workload_defaults \<Rightarrow> string \<Rightarrow> bool \<Rightarrow> int option \<Rightarrow> string option \<Rightarrow> workload \<Rightarrow> workload" where
  "wait_for_secret_existence d secret_name exist timeout namespace = append_work (TestWaitForExistence SECRET
     secret_name exist (given timeout (wd_conditional_timeout d)) (given namespace (wd_namespace d)))"

definition wait_for_service_existence ::
  "workload_defaults \<Rightarrow> string \<Rightarrow> bool \<Rightarrow> int option \<Rightarrow> string option \<Rightarrow> workload \<Rightarrow> workload" where
  "wait_for_service_existence d service_name exist timeout namespace = append_work (TestWaitForExistence SERVICE
     service_name exist (given timeout (wd_conditional_timeout d)) (given namespace (wd_namespace d)))"

definition wait_for_sts_storage_size ::
  "workload_defaults \<Rightarrow> string \<Rightarrow> string \<Rightarrow> int option \<Rightarrow> string option \<Rightarrow> workload \<Rightarrow> workload" where
  "wait_for_sts_storage_size d sts_name storage_size timeout namespace = append_work (TestWaitForStorage STS
     sts_name storage_size (given timeout (wd_conditional_timeout d)) (given namespace (wd_namespace d)))"

definition wait_for_cr_condition ::
  "workload_defaults \<Rightarrow> string \<Rightarrow> string \<Rightarrow> (string \<times> json) list \<Rightarrow> int option \<Rightarrow> string option \<Rightarrow> workload \<Rightarrow> workload" where
  "wait_for_cr_condition d custom_resource_type resource_name conditions timeout namespace =
     append_work (TestWaitForCRConditions custom_resource_type resource_name conditions
       (given timeout (wd_conditional_timeout d)) (given namespace (wd_namespace d)))"

definition wait_seconds :: "int \<Rightarrow> workload \<Rightarrow> workload" where
  "wait_seconds time = append_work (TestWait time)"

definition new_built_in_workload :: "int \<Rightarrow> workload" where
  "new_built_in_workload final_grace_period = \<lparr> wl_work_list = [], wl_final_grace_period = final_grace_period \<rparr>"

text \<open>How a run ends: after the last item, after a command timed out, or by an exception.\<close>

datatype run_end = Finished | Stopped | Raised py_error

definition line_end :: string where "line_end = [CHR 0x0A]"

text \<open>
  The text written to the output file and how the run ended, \<open>None\<close> when an item never returns; the
  work item with index \<open>i\<close> meets the environment \<open>envs i\<close>.
\<close>

fun run_items :: "(nat \<Rightarrow> work_env) \<Rightarrow> nat \<Rightarrow> test_work list \<Rightarrow> (string \<times> run_end) option" where
  "run_items envs i [] = Some (''FINISH-SIEVE-TEST'' @ line_end, Finished)"
| "run_items envs i (work # rest) = (case run_work (envs i) work of
       None \<Rightarrow> None
     | Some (Inl e) \<Rightarrow> Some ([], Raised e)
     | Some (Inr (return_code, error_message)) \<Rightarrow>
         if return_code \<noteq> 0 then
           if return_code = 2 then Some (error_message @ line_end, Stopped)
           else map_option (\<lambda>(text, how). (error_message @ line_end @ text, how)) (run_items envs (Suc i) rest)
         else run_items envs (Suc i) rest)"

definition run_workload :: "(nat \<Rightarrow> work_env) \<Rightarrow> workload \<Rightarrow> (string \<times> run_end) option" where
  "run_workload envs wl = run_items envs 0 (wl_work_list wl)"

section \<open>Waiting ends, for a reason\<close>

text \<open>What the loop of a wait is to decide, from the poll \<open>k\<close> on.\<close>

definition wait_result :: "(nat \<Rightarrow> int) \<Rightarrow> (nat \<Rightarrow> bool res) \<Rightarrow> int \<Rightarrow> nat \<Rightarrow> bool res \<Rightarrow> bool" where
  "wait_result elapsed holds timeout k r \<longleftrightarrow> (\<exists>n\<ge>k. (\<forall>j. k \<le> j \<and> j < n \<longrightarrow> elapsed j \<le> timeout \<and> holds j = Inr False) \<and>
     (if elapsed n > timeout then r = Inr False else holds n = r \<and> r \<noteq> Inr False))"

lemma wait_result_unique:
  assumes "wait_result elapsed holds timeout k r" "wait_result elapsed holds timeout k r'"
  shows "r' = r"
proof -
  obtain n n' where n: "k \<le> n" "\<forall>j. k \<le> j \<and> j < n \<longrightarrow> elapsed j \<le> timeout \<and> holds j = Inr False"
    "if elapsed n > timeout then r = Inr False else holds n = r \<and> r \<noteq> Inr False"
    and n': "k \<le> n'" "\<forall>j. k \<le> j \<and> j < n' \<longrightarrow> elapsed j \<le> timeout \<and> holds j = Inr False"
    "if elapsed n' > timeout then r' = Inr False else holds n' = r' \<and> r' \<noteq> Inr False"
    using assms unfolding wait_result_def by blast
  have "n = n'"
  proof (rule ccontr)
    assume "n \<noteq> n'"
    then consider "n < n'" | "n' < n" by linarith
    then show False using n n' by cases (force split: if_splits)+
  qed
  then show ?thesis using n(3) n'(3) by (auto split: if_splits)
qed

lemma wait_loop_result:
  assumes "k \<le> n" "elapsed n > timeout"
  shows "\<exists>r. wait_loop elapsed holds timeout k = Some r \<and> wait_result elapsed holds timeout k r"
  using assms(1)
proof (induction k rule: inc_induct)
  case base
  then show ?case using assms(2) by (intro exI[of _ "Inr False"]) (auto simp: wait_loop.simps wait_result_def intro!: exI[of _ n])
next
  case (step k)
  show ?case
  proof (cases "elapsed k > timeout \<or> holds k \<noteq> Inr False")
    case True
    then show ?thesis
      by (subst wait_loop.simps) (auto simp: wait_result_def split: sum.splits intro!: exI[of _ k])
  next
    case False
    then obtain r m where r: "wait_loop elapsed holds timeout (Suc k) = Some r" "Suc k \<le> m"
      "\<forall>j. Suc k \<le> j \<and> j < m \<longrightarrow> elapsed j \<le> timeout \<and> holds j = Inr False"
      "if elapsed m > timeout then r = Inr False else holds m = r \<and> r \<noteq> Inr False"
      using step.IH unfolding wait_result_def by blast
    have "\<forall>j. k \<le> j \<and> j < m \<longrightarrow> elapsed j \<le> timeout \<and> holds j = Inr False"
      using False r(3) by (metis Suc_leI le_neq_implies_less not_le)
    then have "wait_result elapsed holds timeout k r" unfolding wait_result_def using r(2,4) by (meson Suc_leD)
    then show ?thesis using False r(1) by (subst wait_loop.simps) auto
  qed
qed

text \<open>
  C16: a conditional wait returns as soon as the clock passes its timeout, if not before, and its result
  says why it ended: success exactly when some poll within the time finds the condition, the timeout
  message exactly when no poll within the time does, an exception exactly when a poll raises it first.
\<close>

theorem conditional_wait_exact:
  assumes "we_elapsed env k > timeout"
  shows "\<exists>out. conditional_wait env timeout holds msg = Some out \<and>
    (\<exists>n. (\<forall>j<n. we_elapsed env j \<le> timeout \<and> holds (we_cluster env j) = Inr False) \<and>
      (case out of
         Inr (code, error_message) \<Rightarrow>
           if code = 0 then we_elapsed env n \<le> timeout \<and> holds (we_cluster env n) = Inr True \<and> error_message = []
           else we_elapsed env n > timeout \<and> code = 1 \<and> error_message = msg
       | Inl e \<Rightarrow> we_elapsed env n \<le> timeout \<and> holds (we_cluster env n) = Inl e))"
proof -
  let ?holds = "\<lambda>k. holds (we_cluster env k)"
  obtain r where r: "wait_loop (we_elapsed env) ?holds timeout 0 = Some r" "wait_result (we_elapsed env) ?holds timeout 0 r"
    using wait_loop_result[of 0 k timeout "we_elapsed env" ?holds] assms by auto
  then obtain n where n: "\<forall>j<n. we_elapsed env j \<le> timeout \<and> ?holds j = Inr False"
    "if we_elapsed env n > timeout then r = Inr False else ?holds n = r \<and> r \<noteq> Inr False"
    unfolding wait_result_def by blast
  have "conditional_wait env timeout holds msg = Some (res_bind r (\<lambda>ok. Inr (if ok then (0, []) else (1, msg))))"
    using r(1) by (simp add: conditional_wait_def)
  moreover have "case res_bind r (\<lambda>ok. Inr (if ok then (0::int, []) else (1, msg))) of
         Inr (code, error_message) \<Rightarrow>
           if code = 0 then we_elapsed env n \<le> timeout \<and> ?holds n = Inr True \<and> error_message = []
           else we_elapsed env n > timeout \<and> code = 1 \<and> error_message = msg
       | Inl e \<Rightarrow> we_elapsed env n \<le> timeout \<and> ?holds n = Inl e"
  proof (cases r)
    case (Inr ok)
    then show ?thesis using n(2) by (cases ok) (auto split: if_splits)
  qed (use n(2) in \<open>auto split: if_splits\<close>)
  ultimately show ?thesis using n(1) by blast
qed

text \<open>A pod that runs at the third poll.\<close>

definition pod_cluster :: "nat \<Rightarrow> cluster" where
  "pod_cluster k = (\<lambda>ns. \<lparr> kv_pods = Inr (if k < 2 then [] else [\<lparr> pv_name = ''p-0'', pv_phase = ''Running'', pv_ready = Some [True] \<rparr>]),
     kv_pvcs = Inr [], kv_sts = Inl ValueError, kv_secrets = Inr [], kv_services = Inr [], kv_custom = (\<lambda>t n. None) \<rparr>)"

definition sample_env :: work_env where
  "sample_env = \<lparr> we_exit = Some 1, we_elapsed = (\<lambda>k. 5 * int k), we_cluster = pod_cluster \<rparr>"

theorem conditional_wait_exact_witness:
  "\<exists>out. conditional_wait sample_env 12 (\<lambda>c. check_pod_status ''p-*'' RUNNING (c ''default'')) ''late'' = Some out \<and>
     out \<noteq> Inr (1, ''late'')"
proof -
  let ?holds = "\<lambda>c. check_pod_status ''p-*'' RUNNING (c ''default'')"
  have "we_elapsed sample_env 3 > 12" by (simp add: sample_env_def)
  from conditional_wait_exact[OF this, of ?holds "''late''"] obtain out n where
    out: "conditional_wait sample_env 12 ?holds ''late'' = Some out"
    and n: "\<forall>j<n. we_elapsed sample_env j \<le> 12 \<and> ?holds (we_cluster sample_env j) = Inr False"
    and c: "case out of Inr (code, m) \<Rightarrow> if code = 0 then we_elapsed sample_env n \<le> 12 \<and>
        ?holds (we_cluster sample_env n) = Inr True \<and> m = [] else we_elapsed sample_env n > 12 \<and> code = 1 \<and> m = ''late''
      | Inl e \<Rightarrow> we_elapsed sample_env n \<le> 12 \<and> ?holds (we_cluster sample_env n) = Inl e" by blast
  have "?holds (we_cluster sample_env 2) = Inr True" by code_simp
  then have "\<not> 2 < n" using n by fastforce
  then have "we_elapsed sample_env n \<le> 12" by (auto simp: sample_env_def)
  then have "out \<noteq> Inr (1, ''late'')" using c by auto
  with out show ?thesis by blast
qed

section \<open>What a run writes\<close>

text \<open>The messages of the items that failed.\<close>

definition failures :: "(int \<times> string) list \<Rightarrow> string list" where
  "failures results = map snd (filter (\<lambda>(code, m). code \<noteq> 0) results)"

definition written :: "string list \<Rightarrow> string" where
  "written lines = concat (map (\<lambda>l. l @ line_end) lines)"

text \<open>A run and the results of the items it ran.\<close>

definition run_explained :: "(nat \<Rightarrow> work_env) \<Rightarrow> nat \<Rightarrow> test_work list \<Rightarrow> string \<times> run_end \<Rightarrow> (int \<times> string) list \<Rightarrow> bool" where
  "run_explained envs i works result rs \<longleftrightarrow> (case result of (text, how) \<Rightarrow>
     length rs \<le> length works \<and> (\<forall>j<length rs. run_work (envs (i + j)) (works ! j) = Some (Inr (rs ! j))) \<and>
     (\<forall>r\<in>set (butlast rs). fst r \<noteq> 2) \<and>
     text = written (failures rs @ (if how = Finished then [''FINISH-SIEVE-TEST''] else [])) \<and>
     (case how of
        Finished \<Rightarrow> length rs = length works \<and> (\<forall>r\<in>set rs. fst r \<noteq> 2)
      | Stopped \<Rightarrow> rs \<noteq> [] \<and> fst (last rs) = 2
      | Raised e \<Rightarrow> length rs < length works \<and> (\<forall>r\<in>set rs. fst r \<noteq> 2) \<and>
          run_work (envs (i + length rs)) (works ! length rs) = Some (Inl e)))"

lemma run_explained_Cons:
  assumes "run_explained envs (Suc i) works (text, how) rs" "run_work (envs i) w = Some (Inr (code, m))" "code \<noteq> 2"
  shows "run_explained envs i (w # works) (if code = 0 then text else m @ line_end @ text, how) ((code, m) # rs)"
proof -
  have "\<forall>j<length ((code, m) # rs). run_work (envs (i + j)) ((w # works) ! j) = Some (Inr (((code, m) # rs) ! j))"
    using assms(1,2) by (auto simp: run_explained_def nth_Cons split: nat.splits)
  then show ?thesis using assms(1,3)
    by (auto simp: run_explained_def failures_def written_def split: run_end.splits if_splits)
qed

lemma run_items_explained:
  "run_items envs i works = Some result \<Longrightarrow> \<exists>rs. run_explained envs i works result rs"
proof (induction works arbitrary: i result)
  case Nil
  then show ?case by (intro exI[of _ "[]"]) (auto simp: run_explained_def failures_def written_def)
next
  case (Cons w works)
  from Cons.prems obtain out where out: "run_work (envs i) w = Some out" by (auto split: option.splits)
  show ?case
  proof (cases out)
    case (Inl e)
    then have "run_explained envs i (w # works) result []"
      using Cons.prems out by (auto simp: run_explained_def failures_def written_def)
    then show ?thesis ..
  next
    case (Inr r)
    obtain code m where r: "r = (code, m)" by fastforce
    show ?thesis
    proof (cases "code = 2")
      case True
      then have "run_explained envs i (w # works) result [(code, m)]"
        using Cons.prems out Inr r by (auto simp: run_explained_def failures_def written_def)
      then show ?thesis ..
    next
      case False
      then obtain log how where rest: "run_items envs (Suc i) works = Some (log, how)"
        "result = (if code = 0 then log else m @ line_end @ log, how)"
        using Cons.prems out Inr r by (cases result) (auto split: if_splits)
      from Cons.IH[OF rest(1)] obtain rs where "run_explained envs (Suc i) works (log, how) rs" by blast
      from run_explained_Cons[OF this] show ?thesis using out Inr r False rest(2) by blast
    qed
  qed
qed

lemma run_work_returns:
  assumes "\<And>bound. \<exists>k. we_elapsed env k > bound"
  shows "\<exists>out. run_work env w = Some out"
proof -
  have "\<exists>out. conditional_wait env timeout holds msg = Some out" for timeout holds msg
    using wait_loop_result[of 0 _ timeout "we_elapsed env" "\<lambda>k. holds (we_cluster env k)"] assms[of timeout]
    by (auto simp: conditional_wait_def)
  then show ?thesis
    by (cases w) (simp_all add: run_cmd_def run_wait_for_status_def run_wait_for_number_def run_wait_for_storage_def
        run_wait_for_existence_def run_wait_for_cr_conditions_def)
qed

lemma run_items_returns:
  assumes "\<And>i bound. \<exists>k. we_elapsed (envs i) k > bound"
  shows "\<exists>result. run_items envs i works = Some result"
proof (induction works arbitrary: i)
  case (Cons w works)
  obtain out where "run_work (envs i) w = Some out" using run_work_returns[OF assms] by blast
  then show ?case using Cons.IH[of "Suc i"] by (auto split: sum.splits)
qed simp

end
