(* ===== verification/Workload_Log.thy ===== *)
theory Workload_Log
  imports Test_Driver Oracle
begin

text \<open>
  From the driver of a test to its oracle: what a workload writes to \<open>workload.log\<close> and what
  \<open>workload_error_checker\<close> and \<open>is_test_workload_finished\<close> read from it.
\<close>

lemma concat_readlines [simp]: "concat (readlines s) = s"
  by (induction s) (auto split: list.splits)

lemma readlines_line: "CHR 0x0A \<notin> set l \<Longrightarrow> readlines (l @ line_end @ s) = (l @ line_end) # readlines s"
  by (induction l) (auto simp: line_end_def)

lemma readlines_written:
  "\<forall>l\<in>set ls. CHR 0x0A \<notin> set l \<Longrightarrow> readlines (written ls) = map (\<lambda>l. l @ line_end) ls"
  by (induction ls) (auto simp: written_def readlines_line)

text \<open>The alarm the checker makes of a line.\<close>

definition workload_alarm :: "string \<Rightarrow> string" where
  "workload_alarm m = generate_alarm ''Error:'' (strip_while py_space (m @ line_end))"

definition tolerated :: "test_context \<Rightarrow> string \<Rightarrow> bool" where
  "tolerated tc m \<longleftrightarrow> list_ex (json_eq (JStr ''pauseController'')) (tc_action_types tc) \<and>
     py_startswith m ''Conditional wait timeout''"

lemma startswith_line:
  assumes "CHR 0x0A \<notin> set p" shows "py_startswith (l @ line_end) p \<longleftrightarrow> py_startswith l p"
proof
  assume "py_startswith (l @ line_end) p"
  then obtain t where t: "l @ line_end = p @ t" by (auto simp: py_startswith_iff)
  show "py_startswith l p"
  proof (cases t rule: rev_cases)
    case Nil
    then have "CHR 0x0A \<in> set p" using t by (metis append_Nil2 in_set_conv_decomp line_end_def)
    then show ?thesis using assms by simp
  next
    case (snoc t' c)
    then show ?thesis using t by (auto simp: py_startswith_iff line_end_def)
  qed
qed (auto simp: py_startswith_iff)

text \<open>The messages of the driver.\<close>

lemma failure_message:
  assumes "run_work env w = Some (Inr (code, m))" "code \<noteq> 0"
  shows "py_startswith m ''Con'' \<or> py_startswith m ''Com''"
proof -
  show ?thesis using assms
    by (cases w) (auto simp: run_cmd_def run_wait_for_status_def run_wait_for_number_def run_wait_for_storage_def
        run_wait_for_existence_def run_wait_for_cr_conditions_def not_become_def py_startswith_def conditional_wait_def
        res_simps split: option.splits if_splits)
qed

lemma contains_line:
  assumes "CHR 0x0A \<notin> set p"
  shows "py_contains p (l @ line_end @ s) \<longleftrightarrow> py_contains p l \<or> p \<noteq> [] \<and> py_contains p s \<or> p = []"
proof
  assume "py_contains p (l @ line_end @ s)"
  then obtain a b where ab: "l @ CHR 0x0A # s = a @ p @ b" by (auto simp: py_contains_iff line_end_def)
  consider (left) "length a + length p \<le> length l" | (mid) "length a \<le> length l" "length l < length a + length p"
    | (right) "length l < length a" by linarith
  then show "py_contains p l \<or> p \<noteq> [] \<and> py_contains p s \<or> p = []"
  proof cases
    case left
    have "l = take (length l) (a @ p @ b)" by (simp flip: ab)
    also have "\<dots> = a @ p @ take (length l - length a - length p) b" using left by simp
    finally show ?thesis by (auto simp: py_contains_iff)
  next
    case mid
    have "(l @ CHR 0x0A # s) ! length l = CHR 0x0A" by simp
    then have "(p @ b) ! (length l - length a) = CHR 0x0A" unfolding ab using mid by (simp add: nth_append)
    then have "p ! (length l - length a) = CHR 0x0A" using mid by (simp add: nth_append less_diff_conv2 add.commute split: if_splits)
    then have "CHR 0x0A \<in> set p" using mid by (metis less_diff_conv2 nth_mem add.commute)
    then show ?thesis using assms by simp
  next
    case right
    have "s = drop (Suc (length l)) (l @ CHR 0x0A # s)" by simp
    also have "\<dots> = drop (Suc (length l)) a @ p @ b" unfolding ab using right by simp
    finally show ?thesis by (cases "p = []") (auto simp: py_contains_iff)
  qed
next
  assume "py_contains p l \<or> p \<noteq> [] \<and> py_contains p s \<or> p = []"
  then show "py_contains p (l @ line_end @ s)" by (auto simp: py_contains_iff) (metis append.assoc)+
qed

lemma contains_written:
  assumes "p \<noteq> []" "CHR 0x0A \<notin> set p"
  shows "py_contains p (written ls) \<longleftrightarrow> (\<exists>l\<in>set ls. py_contains p l)"
proof (induction ls)
  case Nil
  then show ?case using assms by (simp add: written_def py_contains_iff)
next
  case (Cons l ls)
  have "written (l # ls) = l @ line_end @ written ls" by (simp add: written_def)
  then show ?case using Cons.IH assms contains_line[OF assms(2), of l "written ls"] by simp
qed

text \<open>What the messages of a workload must not contain for its log to be readable line by line.\<close>

definition readable_messages :: "(nat \<Rightarrow> work_env) \<Rightarrow> workload \<Rightarrow> bool" where
  "readable_messages envs wl \<longleftrightarrow> (\<forall>i w code m. w \<in> set (wl_work_list wl) \<and> run_work (envs i) w = Some (Inr (code, m)) \<longrightarrow>
     CHR 0x0A \<notin> set m \<and> \<not> py_contains ''FINISH-SIEVE-TEST'' m)"

lemma failures_from_items:
  assumes "run_explained envs 0 works (log, how) rs" "m \<in> set (failures rs)"
  shows "\<exists>i w code. w \<in> set works \<and> code \<noteq> 0 \<and> run_work (envs i) w = Some (Inr (code, m))"
proof -
  obtain j where j: "j < length rs" "fst (rs ! j) \<noteq> 0" "snd (rs ! j) = m"
    using assms(2) by (auto simp: failures_def in_set_conv_nth)
  then have "run_work (envs j) (works ! j) = Some (Inr (fst (rs ! j), m))" "j < length works"
    using assms(1) by (auto simp: run_explained_def)
  then show ?thesis using j(2) nth_mem by blast
qed

lemma starts_contains: "py_startswith l p \<Longrightarrow> py_contains p l"
  by (auto simp: py_startswith_iff py_contains_iff)

text \<open>
  C4: the oracle reads from the log of a workload exactly what happened. When every clock goes on, the run
  returns; the errors the check then reports are the messages of the work items that failed, but for
  the tolerated ones; and the workload counts as completed exactly when it came to its end, not when a
  command timed out or an exception was raised.
\<close>

theorem workload_log_read_back:
  assumes "\<And>i bound. \<exists>k. we_elapsed (envs i) k > bound" "readable_messages envs wl"
  shows "\<exists>log how rs. run_workload envs wl = Some (log, how) \<and> run_explained envs 0 (wl_work_list wl) (log, how) rs \<and>
    workload_error_checker tc (readlines log) = sort (map workload_alarm (filter (\<lambda>m. \<not> tolerated tc m) (failures rs))) \<and>
    (is_test_workload_finished (readlines log) \<longleftrightarrow> how = Finished)"
proof -
  obtain log how where run: "run_items envs 0 (wl_work_list wl) = Some (log, how)"
    using run_items_returns[OF assms(1)] by fastforce
  then obtain rs where rs: "run_explained envs 0 (wl_work_list wl) (log, how) rs" using run_items_explained by blast
  let ?tail = "if how = Finished then [''FINISH-SIEVE-TEST''] else []"
  have log: "log = written (failures rs @ ?tail)" using rs by (simp add: run_explained_def)
  have clean: "CHR 0x0A \<notin> set m" "\<not> py_contains ''FINISH-SIEVE-TEST'' m" if "m \<in> set (failures rs)" for m
    using failures_from_items[OF rs that] assms(2) unfolding readable_messages_def by blast+
  have "\<forall>l\<in>set (failures rs @ ?tail). CHR 0x0A \<notin> set l" using clean by auto
  then have lines: "readlines log = map (\<lambda>l. l @ line_end) (failures rs @ ?tail)" unfolding log by (rule readlines_written)
  have no_end: "\<not> py_startswith (m @ line_end) ''FINISH-SIEVE-TEST''" if "m \<in> set (failures rs)" for m
    using clean(2)[OF that] starts_contains by (auto simp: startswith_line)
  have "takeWhile (\<lambda>l. \<not> py_startswith l ''FINISH-SIEVE-TEST'') (map (\<lambda>l. l @ line_end) (failures rs @ ?tail)) =
      map (\<lambda>l. l @ line_end) (failures rs)"
  proof -
    have end_cut: "takeWhile (\<lambda>l. \<not> py_startswith l ''FINISH-SIEVE-TEST'') (map (\<lambda>l. l @ line_end) ?tail) = []"
      by (simp add: py_startswith_iff)
    have kept: "\<not> py_startswith l ''FINISH-SIEVE-TEST''" if "l \<in> set (map (\<lambda>l. l @ line_end) (failures rs))" for l
      using that no_end by auto
    show ?thesis unfolding map_append
      by (subst takeWhile_append2) (erule kept, simp only: end_cut append_Nil2)
  qed
  then have "workload_error_checker tc (readlines log) = sort (map workload_alarm (filter (\<lambda>m. \<not> tolerated tc m) (failures rs)))"
    unfolding workload_error_checker_def workload_errors_append lines
    by (simp add: filter_map comp_def workload_alarm_def [abs_def] tolerated_def startswith_line)
  moreover have "is_test_workload_finished (readlines log) \<longleftrightarrow> how = Finished"
  proof -
    have "py_contains ''FINISH-SIEVE-TEST'' log \<longleftrightarrow> (\<exists>l\<in>set (failures rs @ ?tail). py_contains ''FINISH-SIEVE-TEST'' l)"
      unfolding log by (rule contains_written) auto
    moreover have "py_contains ''FINISH-SIEVE-TEST'' ''FINISH-SIEVE-TEST''" by code_simp
    ultimately show ?thesis using clean(2) by (auto simp: is_test_workload_finished_def)
  qed
  ultimately show ?thesis using run rs by (auto simp: run_workload_def)
qed

text \<open>A command that fails, a pod that is awaited in vain and one that comes up, with the log they leave.\<close>

definition sample_workload :: workload where
  "sample_workload = \<lparr> wl_work_list = [TestCmd ''mkdir x'' 30, TestWaitForStatus POD ''p-0'' RUNNING 3 ''default'',
     TestWaitForStatus POD ''p-0'' RUNNING 60 ''default''], wl_final_grace_period = 60 \<rparr>"

lemma sample_results:
  "run_work sample_env (TestCmd ''mkdir x'' 30) =
     Some (Inr (1, ''Command error code: '' @ [CHR 0x27] @ ''mkdir x'' @ [CHR 0x27] @ '' returns 1 ''))"
  "run_work sample_env (TestWaitForStatus POD ''p-0'' RUNNING 3 ''default'') =
     Some (Inr (1, ''Conditional wait timeout: p-0 does not become Running within 3 seconds''))"
  "run_work sample_env (TestWaitForStatus POD ''p-0'' RUNNING 60 ''default'') = Some (Inr (0, []))"
  by code_simp+

lemma sample_readable: "readable_messages (\<lambda>i. sample_env) sample_workload"
proof -
  let ?fin = "''FINISH-SIEVE-TEST''"
  have clean: "CHR 0x0A \<notin> set m \<and> \<not> py_contains ?fin m"
    if "m \<in> {''Command error code: '' @ [CHR 0x27] @ ''mkdir x'' @ [CHR 0x27] @ '' returns 1 '',
      ''Conditional wait timeout: p-0 does not become Running within 3 seconds'', []}" for m
  proof -
    have "list_all (\<lambda>m. CHR 0x0A \<notin> set m \<and> \<not> py_contains ?fin m)
      [''Command error code: '' @ [CHR 0x27] @ ''mkdir x'' @ [CHR 0x27] @ '' returns 1 '',
       ''Conditional wait timeout: p-0 does not become Running within 3 seconds'', []]" by code_simp
    then show ?thesis using that by (auto simp: list_all_iff)
  qed
  show ?thesis unfolding readable_messages_def
  proof (intro allI impI)
    fix i :: nat and w code m
    assume w: "w \<in> set (wl_work_list sample_workload) \<and> run_work sample_env w = Some (Inr (code, m))"
    then have "w \<in> {TestCmd ''mkdir x'' 30, TestWaitForStatus POD ''p-0'' RUNNING 3 ''default'',
      TestWaitForStatus POD ''p-0'' RUNNING 60 ''default''}" by (simp add: sample_workload_def)
    then show "CHR 0x0A \<notin> set m \<and> \<not> py_contains ?fin m"
      using w clean by (elim insertE emptyE) (simp_all only: sample_results option.inject sum.inject prod.inject, auto)
  qed
qed

lemma sample_run: "map_option snd (run_workload (\<lambda>i. sample_env) sample_workload) = Some Finished"
  by code_simp

theorem workload_log_read_back_witness:
  "\<exists>log rs. run_workload (\<lambda>i. sample_env) sample_workload = Some (log, Finished) \<and>
     workload_error_checker oracle_tc (readlines log) = sort (map workload_alarm (filter (\<lambda>m. \<not> tolerated oracle_tc m) (failures rs))) \<and>
     is_test_workload_finished (readlines log)"
proof -
  have "\<exists>k. we_elapsed sample_env k > bound" for bound
    by (intro exI[of _ "nat (abs bound) + 1"]) (simp add: sample_env_def)
  from workload_log_read_back[OF this sample_readable, of oracle_tc] sample_run show ?thesis by auto
qed

end
