(* ===== verification/Sieve_Run.thy ===== *)
theory Sieve_Run
  imports Shell_Frame Workload_Log
begin

text \<open>
  A run of Sieve, \<^verbatim>\<open>sieve.py\<close>: the cluster is set up, the controller deployed, the workload run, the files of
  the run saved and, by the mode, test plans and oracles generated or the errors reported.
\<close>

section \<open>Setting up the cluster\<close>

definition create_configmap :: "string \<Rightarrow> string shell" where
  "create_configmap test_plan =
     sh_bind (read_text test_plan) (\<lambda>test_plan_content.
     let configmap = JObj [(''apiVersion'', JStr ''v1''), (''kind'', JStr ''ConfigMap''),
           (''metadata'', JObj [(''name'', JStr ''sieve-testing-global-config'')]),
           (''data'', JObj [(''sieveTestPlan'', JStr test_plan_content)])];
         configmap_path = take (length test_plan - 5) test_plan @ ''-configmap.yaml''
     in sh_bind (dump_doc configmap configmap_path) (\<lambda>_. sh_return configmap_path))"

definition create_kind_config :: "int \<Rightarrow> int \<Rightarrow> string shell" where
  "create_kind_config num_apiservers num_workers =
     (let kind_config_dir = ''kind_configs'';
          kind_config_filename = path_join kind_config_dir
            (''kind-'' @ int_str num_apiservers @ ''a-'' @ int_str num_workers @ ''w.yaml'') in
      sh_bind (makedirs kind_config_dir True) (\<lambda>_.
      sh_bind (write_text kind_config_filename
        (''kind: Cluster'' @ newline @ ''apiVersion: kind.x-k8s.io/v1alpha4'' @ newline @ ''nodes:'' @ newline @
         concat (replicate (nat num_apiservers) (''- role: control-plane'' @ newline)) @
         concat (replicate (nat num_workers) (''- role: worker'' @ newline)))) (\<lambda>_.
      sh_return kind_config_filename)))"

definition numbered :: "string \<Rightarrow> nat \<Rightarrow> string" where
  "numbered name i = name @ (if i > 0 then nat_str (i + 1) else [])"

definition redirect_workers :: "test_context \<Rightarrow> unit shell" where
  "redirect_workers tc = sh_for [0..<nat (tc_num_workers tc)] (\<lambda>i. in_order
     [sh_cmd (''docker exec '' @ numbered ''kind-worker'' i @ '' bash -c '' @ [CHR 0x22] @ ''sed -i '' @ [CHR 0x27] @
        ''s/kind-external-load-balancer/'' @ py_format (cc_leading_api (tc_common_config tc)) @ ''/g'' @ [CHR 0x27] @
        '' /etc/kubernetes/kubelet.conf'' @ [CHR 0x22]),
      sh_cmd (''docker exec '' @ numbered ''kind-worker'' i @ '' bash -c '' @ [CHR 0x22] @ ''systemctl restart kubelet'' @ [CHR 0x22])])"

definition container_port :: "string \<Rightarrow> string shell" where
  "container_port name = sh_ask name (\<lambda>out log. ou_port out log name)"

definition redirect_kubectl :: "unit shell" where
  "redirect_kubectl =
     sh_bind (container_port ''kind-control-plane'') (\<lambda>cp_port.
     sh_bind (container_port ''kind-external-load-balancer'') (\<lambda>balancer_port.
     sh_bind (sh_outside (\<lambda>out. from_option TypeError (ou_environ out ''KUBECONFIG''))) (\<lambda>env.
     sh_bind (sh_of env) (\<lambda>kube_config.
     let target_prefix = ''    server: https://127.0.0.1:'' in
     sh_bind (read_text kube_config) (\<lambda>data.
       write_text kube_config (py_replace (target_prefix @ balancer_port) (target_prefix @ cp_port) data))))))"

definition get_apiserver_ports :: "int \<Rightarrow> string list shell" where
  "get_apiserver_ports num_api = sh_map (\<lambda>i. container_port (numbered ''kind-control-plane'' i)) [0..<nat num_api]"

definition prepare_sieve_server :: "test_context \<Rightarrow> unit shell" where
  "prepare_sieve_server tc =
     sh_bind (sh_when (tc_mode tc = TEST) (in_order
       [dump_doc (sort_keys (cc_field_key_mask (tc_common_config tc))) ''configured_field_key_mask.json'',
        dump_doc (sort_keys (cc_field_path_mask (tc_common_config tc))) ''configured_field_path_mask.json'',
        move ''configured_field_key_mask.json'' ''sieve_server/configured_field_key_mask.json'',
        move ''configured_field_path_mask.json'' ''sieve_server/configured_field_path_mask.json'',
        copy (path_join (tc_oracle_dir tc) ''mask.json'') ''sieve_server/learned_field_path_mask.json''])) (\<lambda>_.
     sh_bind (copy (tc_test_plan tc) ''sieve_server/server.yaml'') (\<lambda>_.
     sh_bind getcwd (\<lambda>org_dir. in_order
       [chdir ''sieve_server'',
        sh_cmd ''go mod tidy'',
        sh_cmd ''env GOOS=linux GOARCH=amd64 go build'',
        chdir org_dir,
        sh_cmd ''docker cp sieve_server kind-control-plane:/sieve_server''])))"

definition start_sieve_server :: "test_context \<Rightarrow> unit shell" where
  "start_sieve_server tc = sh_cmd (''docker exec kind-control-plane bash -c '' @ [CHR 0x27] @
     ''cd /sieve_server && ./sieve-server '' @ (if tc_mode tc = TEST then tc_mode tc else LEARN) @
     '' &> sieve-server.log &'' @ [CHR 0x27])"

definition stop_sieve_server :: "unit shell" where
  "stop_sieve_server = sh_cmd (''docker exec kind-control-plane bash -c '' @ [CHR 0x27] @ ''pkill sieve-server'' @ [CHR 0x27])"

text \<open>
  The loop that creates the cluster. An exception ends the attempt, whatever it is; the counter has been
  increased by then only when the deletion of the old cluster went well.
\<close>

definition delete_old_cluster :: "nat \<Rightarrow> unit shell" where
  "delete_old_cluster retry_cnt = in_order [sh_cmd ''kind delete cluster'', sleep (10 * int retry_cnt)]"

definition create_new_cluster :: "string \<Rightarrow> unit shell" where
  "create_new_cluster create = in_order
     [sh_cmd create,
      sh_cmd (''docker exec kind-control-plane bash -c '' @ [CHR 0x27] @
        ''mkdir -p /root/.kube/ && cp /etc/kubernetes/admin.conf /root/.kube/config'' @ [CHR 0x27])]"

partial_function (option) kind_attempts :: "string \<Rightarrow> nat \<Rightarrow> outside \<Rightarrow> world \<Rightarrow> (unit res \<times> world) option" where
  "kind_attempts create retry_cnt out w =
     (if retry_cnt \<ge> 5 then Some (Inr (), w)
      else case delete_old_cluster retry_cnt out w of
          None \<Rightarrow> None
        | Some (Inl e, w1) \<Rightarrow> kind_attempts create retry_cnt out w1
        | Some (Inr _, w1) \<Rightarrow> (case create_new_cluster create out w1 of
              None \<Rightarrow> None
            | Some (Inl e, w2) \<Rightarrow> kind_attempts create (Suc retry_cnt) out w2
            | Some (Inr _, w2) \<Rightarrow> Some (Inr (), w2)))"

declare kind_attempts.simps [code]

definition setup_kind_cluster :: "test_context \<Rightarrow> unit shell" where
  "setup_kind_cluster tc =
     sh_bind (create_kind_config (tc_num_apiservers tc) (tc_num_workers tc)) (\<lambda>kind_config.
     sh_bind (sh_outside (\<lambda>out. if ou_darwin out then ''macos-'' else [])) (\<lambda>platform.
     sh_bind (sh_of (as_str (kc_kubernetes_version (tc_controller_config tc)))) (\<lambda>version.
     let k8s_image_tag = version @ ''-'' @ platform @ tc_image_tag tc in
     kind_attempts (''kind create cluster --image '' @ tc_container_registry tc @ ''/node:'' @ k8s_image_tag @
       '' --config '' @ kind_config) 0)))"

definition load_kube_config :: "unit shell" where
  "load_kube_config = sh_ask ''kube config'' ou_kube"

definition list_namespaced_pod :: "string \<Rightarrow> string \<Rightarrow> (string \<times> string) list shell" where
  "list_namespaced_pod namespace label_selector =
     sh_ask label_selector (\<lambda>out log. ou_pods out log namespace label_selector)"

text \<open>The loop has no other exit than its \<open>break\<close>: after the last tick the script goes on.\<close>

primrec wait_for_apiservers :: "nat \<Rightarrow> nat \<Rightarrow> unit shell" where
  "wait_for_apiservers num 0 = sh_return ()"
| "wait_for_apiservers num (Suc ticks) =
     sh_bind (list_namespaced_pod ''kube-system'' ''component=kube-apiserver'') (\<lambda>created.
       if length created = num \<and> list_all (\<lambda>(name, phase). phase = ''Running'') created then sh_return ()
       else sh_bind (sleep 1) (\<lambda>_. wait_for_apiservers num ticks))"

definition setup_cluster :: "test_context \<Rightarrow> unit shell" where
  "setup_cluster tc =
     (let image = tc_container_registry tc @ ''/'' @ tc_controller tc @ '':'' @ tc_image_tag tc;
          kind_load_cmd = ''kind load docker-image '' @ image in
      in_order
        [setup_kind_cluster tc,
         sh_when (list_ex (json_eq (JStr ''reconnectController'')) (tc_action_types tc))
           (in_order [redirect_workers tc, redirect_kubectl]),
         load_kube_config,
         wait_for_apiservers (nat (tc_num_apiservers tc)) 600,
         sh_when (tc_mode tc \<noteq> VANILLA) (in_order [prepare_sieve_server tc, start_sieve_server tc]),
         sleep 3,
         sh_bind (create_configmap (tc_test_plan tc)) (\<lambda>configmap. sh_cmd (''kubectl apply -f '' @ configmap)),
         sh_bind (os_system kind_load_cmd False) (\<lambda>code. sh_when (code \<noteq> 0)
           (in_order [sh_cmd (''docker pull '' @ image), sh_cmd kind_load_cmd]))])"

section \<open>Deploying the controller\<close>

definition deploy_controller :: "test_context \<Rightarrow> unit shell" where
  "deploy_controller tc =
     sh_bind (sh_when (tc_use_csi_driver tc) (sh_bind getcwd (\<lambda>org_dir. in_order
       [chdir ''sieve_aux/csi-driver'', sh_cmd ''./install.sh'', chdir org_dir]))) (\<lambda>_.
     sh_bind (sh_of (as_str (kc_controller_deployment_file_path (tc_controller_config tc)))) (\<lambda>deployment_file.
     let backup_deployment_file = deployment_file @ ''.bkp'' in
     sh_bind (copyfile deployment_file backup_deployment_file) (\<lambda>_.
     sh_bind (read_text deployment_file) (\<lambda>data.
     let data = py_replace ''${SIEVE-DR}'' (tc_container_registry tc) data;
         data = py_replace ''${SIEVE-DT}'' (tc_image_tag tc) data in
     sh_bind (write_text deployment_file data) (\<lambda>_.
     sh_bind getcwd (\<lambda>org_dir. in_order
       [chdir (deploy_directory tc),
        sh_cmd ''./deploy.sh'',
        chdir org_dir,
        copyfile backup_deployment_file deployment_file,
        remove_file backup_deployment_file]))))))"

text \<open>Whether the first pod of the controller runs within the given number of ticks.\<close>

definition first_running :: "(string \<times> string) list \<Rightarrow> bool" where
  "first_running pods = (case pods of [] \<Rightarrow> False | (name, phase) # _ \<Rightarrow> phase = ''Running'')"

primrec wait_for_controller :: "string \<Rightarrow> string \<Rightarrow> nat \<Rightarrow> bool shell" where
  "wait_for_controller namespace label_selector 0 = sh_return False"
| "wait_for_controller namespace label_selector (Suc ticks) =
     sh_bind (list_namespaced_pod namespace label_selector) (\<lambda>controller_pod.
       if first_running controller_pod then sh_return True
       else sh_bind (sleep 1) (\<lambda>_. wait_for_controller namespace label_selector ticks))"

definition sieve_label :: "test_context \<Rightarrow> string" where
  "sieve_label tc = ''sievetag='' @ tc_controller tc"

definition config_namespace :: "test_context \<Rightarrow> string" where
  "config_namespace tc = py_format (cc_namespace (tc_common_config tc))"

definition start_controller :: "test_context \<Rightarrow> unit shell" where
  "start_controller tc = in_order
     [deploy_controller tc,
      load_kube_config,
      sh_bind (wait_for_controller (config_namespace tc) (sieve_label tc) 600) (\<lambda>pod_ready.
        sh_when (\<not> pod_ready) (sh_raise (PyException ''Wait timeout after 600 seconds''))),
      sh_bind (get_apiserver_ports (tc_num_apiservers tc)) (\<lambda>apiserver_ports.
        sh_for (map (\<lambda>port. ''https://127.0.0.1:'' @ port) apiserver_ports) (\<lambda>addr.
          sh_bind (sh_of (py_iter (kc_custom_resource_definitions (tc_controller_config tc)))) (\<lambda>crds.
            sh_for crds (\<lambda>crd. sh_cmd (''kubectl get '' @ py_format crd @ '' -s '' @ addr @ '' --ignore-not-found=true'')))))]"

section \<open>Running the workload\<close>

definition controller_pod_name :: "test_context \<Rightarrow> string shell" where
  "controller_pod_name tc = sh_bind (list_namespaced_pod (config_namespace tc) (sieve_label tc)) (\<lambda>items.
     sh_of (case items of [] \<Rightarrow> Inl IndexError | (name, phase) # _ \<Rightarrow> Inr name))"

text \<open>A process in the background that writes its output to a file, emptied first.\<close>

definition start_streaming :: "string \<Rightarrow> string \<Rightarrow> unit shell" where
  "start_streaming command log_file = in_order [write_text log_file [], sh_log (Started command)]"

definition killpg :: "string \<Rightarrow> unit shell" where
  "killpg command out w = (Some (ou_kill out (w_log w) command, w\<lparr> w_log := w_log w @ [Killed command] \<rparr>))"

definition run_workload_in_cluster :: "test_context \<Rightarrow> unit shell" where
  "run_workload_in_cluster tc =
     (let select_container_from_pod = (if kc_container_name (tc_controller_config tc) \<noteq> JNull
            then '' -c '' @ py_format (kc_container_name (tc_controller_config tc)) @ '' '' else []);
          streaming_api_server = ''kubectl logs kube-apiserver-kind-control-plane -n kube-system -f'';
          dir = tc_result_dir tc in
      sh_bind (start_controller tc) (\<lambda>_.
      sh_bind load_kube_config (\<lambda>_.
      sh_bind (controller_pod_name tc) (\<lambda>pod_name.
      let streaming = ''kubectl logs '' @ pod_name @ '' '' @ select_container_from_pod @ '' -f'' in
      sh_bind (start_streaming streaming (path_join dir ''streamed-controller.log'')) (\<lambda>_.
      sh_bind (start_streaming streaming_api_server (path_join dir ''apiserver1.log'')) (\<lambda>_.
      sh_bind (system (py_format (kc_test_command (tc_controller_config tc)) @ '' '' @ tc_test_workload tc @ '' '' @
        path_join dir ''workload.log'')) (\<lambda>_.
      sh_bind (controller_pod_name tc) (\<lambda>pod_name. in_order
        [sh_for [1..<nat (tc_num_apiservers tc)] (\<lambda>i.
           sh_cmd (''kubectl logs '' @ numbered ''kube-apiserver-kind-control-plane'' i @ '' -n kube-system > '' @
             dir @ ''/apiserver'' @ nat_str (i + 1) @ ''.log'')),
         sh_when (tc_mode tc \<noteq> VANILLA)
           (sh_cmd (''docker cp kind-control-plane:/sieve_server/sieve-server.log '' @ dir @ ''/sieve-server.log'')),
         sh_cmd (''kubectl logs '' @ pod_name @ '' '' @ select_container_from_pod @ '' > '' @ dir @ ''/controller.log''),
         sh_try (killpg streaming) (\<lambda>e. sh_return ()),
         killpg streaming_api_server,
         sh_when (tc_mode tc \<noteq> VANILLA) stop_sieve_server]))))))))"

end
