(* ===== verification/Sieve_Main.thy ===== *)
theory Sieve_Main
  imports Sieve_Run
begin

text \<open>
  What a run of \<^verbatim>\<open>sieve.py\<close> leaves in the directories of results and oracles, and how it is started: the
  stages after the workload, \<open>run_test\<close>, \<open>run\<close>, \<open>run_batch\<close> and the options of the command line.
\<close>

section \<open>Saving what happened\<close>

definition read_lines :: "string \<Rightarrow> string list shell" where
  "read_lines p = sh_bind (read_text p) (\<lambda>s. sh_return (readlines s))"

definition result_file :: "test_context \<Rightarrow> string \<Rightarrow> string" where
  "result_file tc name = path_join (tc_result_dir tc) name"

definition strings_json :: "string list \<Rightarrow> json" where
  "strings_json xs = JList (map JStr xs)"

definition history_json :: "history_event list \<Rightarrow> json" where
  "history_json h = JList (map (\<lambda>e. JObj [(''number'', JInt (int (he_number e))), (''etype'', JStr (he_etype e)),
     (''key'', JStr (he_key e)), (''state'', JStr (he_state e))]) h)"

definition save_controller_family :: "test_context \<Rightarrow> unit shell" where
  "save_controller_family tc =
     sh_bind (read_lines (result_file tc ''apiserver1.log'')) (\<lambda>lines.
     sh_bind (sh_of (generate_controller_related_list lines)) (\<lambda>l.
       dump_json_file (tc_result_dir tc) (strings_json l) ''controller_family.json''))"

definition save_run_history :: "test_context \<Rightarrow> unit shell" where
  "save_run_history tc =
     sh_bind (read_lines (result_file tc ''apiserver1.log'')) (\<lambda>lines.
     sh_bind (sh_of (generate_history lines)) (\<lambda>history.
     sh_bind (sh_of (generate_history_digest tc lines)) (\<lambda>d. in_order
       [dump_json_file (tc_result_dir tc) (history_json history) ''history.json'',
        dump_json_file (tc_result_dir tc) (JObj (digest_json d)) ''event.json''])))"

definition save_end_state :: "test_context \<Rightarrow> unit shell" where
  "save_end_state tc =
     sh_bind (read_lines (result_file tc ''apiserver1.log'')) (\<lambda>lines.
     sh_bind (sh_of (generate_state lines)) (\<lambda>state.
       dump_json_file (tc_result_dir tc) (JObj state) ''state.json''))"

definition save_history_and_end_state :: "test_context \<Rightarrow> unit shell" where
  "save_history_and_end_state tc = in_order [save_controller_family tc, save_run_history tc, save_end_state tc]"

section \<open>After the run\<close>

definition as_dict :: "json \<Rightarrow> jdict res" where
  "as_dict j = (case j of JObj m \<Rightarrow> Inr m | _ \<Rightarrow> Inl OutOfModel)"

definition load_dict :: "string \<Rightarrow> jdict shell" where
  "load_dict p = sh_bind (load_json p) (\<lambda>j. sh_of (as_dict j))"

definition mask_json :: "mask_map \<Rightarrow> json" where
  "mask_json mm = JObj (map (\<lambda>(k, ps). (k, JList (map strings_json ps))) mm)"

text \<open>The oracle is made from the files of the first pass, in the neighbouring directory, and the second.\<close>

definition create_oracle_files :: "test_context \<Rightarrow> unit shell" where
  "create_oracle_files tc =
     (let first = path_join (first_pass_learn_result_dir (tc_result_dir tc)) in
      if \<not> py_truth (cc_update_oracle_file_enabled (tc_common_config tc)) then sh_return ()
      else
      sh_bind (sh_assert (tc_mode tc = LEARN \<and> tc_build_oracle tc)) (\<lambda>_.
      sh_bind (sh_outside ou_path_diff) (\<lambda>deep_diff.
      sh_bind (load_json (first ''event.json'')) (\<lambda>prev_digest.
      sh_bind (load_json (result_file tc ''event.json'')) (\<lambda>cur_digest.
      sh_bind (sh_of (canonicalize_history_digest deep_diff tc prev_digest cur_digest)) (\<lambda>can_history_digest.
      sh_bind (dump_json_file (tc_oracle_dir tc) (JObj can_history_digest) ''event.json'') (\<lambda>_.
      sh_bind (load_json (first ''state.json'')) (\<lambda>prev_state.
      sh_bind (load_json (result_file tc ''state.json'')) (\<lambda>cur_state.
      sh_bind (sh_of (canonicalize_state deep_diff tc prev_state cur_state)) (\<lambda>can_state.
      sh_bind (dump_json_file (tc_oracle_dir tc) can_state ''state.json'') (\<lambda>_.
      sh_bind (sh_of (res_bind (as_dict can_state) generate_state_mask)) (\<lambda>state_mask. in_order
        [dump_json_file (tc_oracle_dir tc) (mask_json state_mask) ''mask.json'',
         copy (result_file tc ''controller_family.json'') (path_join (tc_oracle_dir tc) ''controller_family.json'')]))))))))))))"

text \<open>
  The test plans of a learning run. The end state, which the pruning opens for each event it asks about, is
  read once; the plans of a policy are written after its analysis.
\<close>

definition save_plans_of_policy ::
  "test_context \<Rightarrow> json \<Rightarrow> event_graph \<Rightarrow> string \<Rightarrow> (string \<times> json) shell" where
  "save_plans_of_policy tc end_state g analysis_mode =
     (let generated_config_dir = path_join (tc_result_dir tc) analysis_mode in
      sh_bind (rmtree_if_exists generated_config_dir) (\<lambda>_.
      sh_bind (makedirs generated_config_dir False) (\<lambda>_.
      sh_bind (sh_of (res_bind (generate_test_plans tc end_state analysis_mode g) (from_option TypeError))) (\<lambda>(numbers, files).
      sh_bind (sh_for (snd files) (\<lambda>(file_name, plan). dump_to_yaml plan file_name)) (\<lambda>_.
        sh_return (analysis_mode, numbers_json numbers))))))"

definition save_test_plans :: "test_context \<Rightarrow> unit shell" where
  "save_test_plans tc =
     sh_bind (read_lines (result_file tc ''sieve-server.log'')) (\<lambda>lines.
     sh_bind (sh_of (sanity_check_sieve_server_log lines)) (\<lambda>_.
     sh_bind (path_exists (path_join (tc_oracle_dir tc) ''mask.json'')) (\<lambda>b.
     sh_bind (sh_assert b) (\<lambda>_.
     sh_bind (load_json (path_join (tc_oracle_dir tc) ''mask.json'')) (\<lambda>learned_mask.
     sh_bind (sh_of (build_graph_of_context tc learned_mask lines)) (\<lambda>g.
     sh_bind (load_json (path_join (tc_oracle_dir tc) ''state.json'')) (\<lambda>end_state.
     sh_bind (sh_map (save_plans_of_policy tc end_state g) [STALE_STATE, UNOBSERVED_STATE, INTERMEDIATE_STATE]) (\<lambda>numbers.
       dump_doc (JObj ([(''controller'', JStr (tc_controller tc)), (''test'', JStr (tc_test_workload tc))] @ numbers))
         (tc_result_root_dir tc @ ''/'' @ tc_controller tc @ ''-'' @ tc_test_workload tc @ ''.json'')))))))))"

text \<open>The check reads the files that its enabled parts need.\<close>

definition sh_if :: "bool \<Rightarrow> 'a shell \<Rightarrow> 'a \<Rightarrow> 'a shell" where
  "sh_if b m d = (if b then m else sh_return d)"

definition load_strings :: "string \<Rightarrow> string list shell" where
  "load_strings p = sh_bind (load_json p) (\<lambda>j. sh_of (as_string_list j))"

definition check_run :: "test_context \<Rightarrow> test_result shell" where
  "check_run tc =
     (let cc = tc_common_config tc;
          digests = py_truth (cc_state_update_summary_check_enabled cc) \<and> pauses_before_read (tc_test_plan_content tc) = Inr False;
          states = py_truth (cc_end_state_check_enabled cc) \<and> \<not> (tc_use_csi_driver_for_ref tc \<and> \<not> tc_use_csi_driver tc) in
      sh_bind (read_lines (result_file tc ''sieve-server.log'')) (\<lambda>server_log.
      sh_bind (read_lines (result_file tc ''workload.log'')) (\<lambda>workload_log.
      sh_bind (sh_if (py_truth (cc_controller_exception_check_enabled cc))
        (read_lines (result_file tc ''streamed-controller.log'')) []) (\<lambda>controller_log.
      sh_bind (sh_if digests (load_dict (path_join (tc_oracle_dir tc) ''event.json'')) []) (\<lambda>ref_digest.
      sh_bind (sh_if digests (load_dict (result_file tc ''event.json'')) []) (\<lambda>run_digest.
      sh_bind (sh_if (digests \<or> states) (load_strings (result_file tc ''controller_family.json'')) []) (\<lambda>family.
      sh_bind (sh_if states (load_strings (path_join (tc_oracle_dir tc) ''controller_family.json'')) []) (\<lambda>ref_family.
      sh_bind (sh_if states (load_dict (path_join (tc_oracle_dir tc) ''state.json'')) []) (\<lambda>ref_state.
      sh_bind (sh_if states (load_dict (result_file tc ''state.json'')) []) (\<lambda>run_state.
      sh_bind (sh_outside ou_tree_diff) (\<lambda>deep_diff.
        sh_of (check deep_diff tc
          \<lparr> of_digest = ref_digest, of_state = ref_state, of_mask = [], of_family = ref_family \<rparr>
          \<lparr> rf_history = [], rf_digest = run_digest, rf_state = run_state, rf_family = family,
            tf_server_log = server_log, tf_workload_log = workload_log, tf_controller_log = controller_log \<rparr>))))))))))))"

text \<open>What is printed at the end of a test run: it reads the plan that was run.\<close>

definition print_run_errors :: "test_context \<Rightarrow> test_result \<Rightarrow> unit shell" where
  "print_run_errors tc r =
     sh_bind (sh_if (py_truth (cc_generate_debugging_information_enabled (tc_common_config tc)))
       (load_yaml (tc_test_plan tc)) JNull) (\<lambda>plan.
     sh_bind (sh_of (print_error_and_debugging_info tc plan r)) (\<lambda>_. sh_return ()))"

definition post_process :: "test_context \<Rightarrow> test_result option shell" where
  "post_process tc =
     (if tc_mode tc = LEARN then
        sh_bind (sh_when (tc_build_oracle tc) (create_oracle_files tc)) (\<lambda>_.
        sh_bind (save_test_plans tc) (\<lambda>_. sh_return None))
      else if tc_mode tc = VANILLA then sh_return None
      else
        sh_bind (sh_assert (tc_mode tc = TEST)) (\<lambda>_.
        sh_bind (check_run tc) (\<lambda>test_result.
        sh_bind (print_run_errors tc test_result) (\<lambda>_. sh_return (Some test_result)))))"

definition teardown_cluster :: "unit shell" where
  "teardown_cluster = sh_cmd ''kind delete cluster''"

definition save_previous_learn_results :: "test_context \<Rightarrow> unit shell" where
  "save_previous_learn_results tc =
     (let learn_prev_res_dir = first_pass_learn_result_dir (tc_result_dir tc) in in_order
       [sh_assert (tc_mode tc = LEARN \<and> tc_build_oracle tc),
        sh_bind (is_dir (tc_result_dir tc)) sh_assert,
        rmtree_if_exists learn_prev_res_dir,
        move (tc_result_dir tc) learn_prev_res_dir])"

section \<open>The plan of a run\<close>

definition stack_frames :: "test_context \<Rightarrow> json res" where
  "stack_frames tc = (case kc_annotated_reconcile_functions (tc_controller_config tc) of
       JObj m \<Rightarrow> Inr (JList (map snd m))
     | _ \<Rightarrow> Inl AttributeError)"

text \<open>Setting a key of what the plan file holds: only a dict takes a string key.\<close>

definition set_key :: "string \<Rightarrow> json \<Rightarrow> json \<Rightarrow> json res" where
  "set_key k v j = (case j of JObj m \<Rightarrow> Inr (JObj (AList.update k v m)) | _ \<Rightarrow> Inl TypeError)"

definition create_plan_for_test_mode :: "test_context \<Rightarrow> unit shell" where
  "create_plan_for_test_mode tc =
     sh_bind (load_yaml (tc_original_test_plan tc)) (\<lambda>test_plan_content.
     sh_bind (sh_of (res_bind (stack_frames tc) (\<lambda>frames.
       set_key ''annotatedReconcileStackFrame'' frames test_plan_content))) (\<lambda>content.
       dump_doc content (tc_test_plan tc)))"

definition create_plan_for_learn_mode :: "test_context \<Rightarrow> unit shell" where
  "create_plan_for_learn_mode tc =
     sh_bind (sh_of (stack_frames tc)) (\<lambda>frames.
       dump_doc (JObj [(''crdList'', kc_custom_resource_definitions (tc_controller_config tc)),
         (''rateLimiterEnabled'', JBool False), (''rateLimiterInterval'', JInt 3),
         (''annotatedReconcileStackFrame'', frames)]) (tc_test_plan tc))"

definition create_plan_for_vanilla_mode :: "test_context \<Rightarrow> unit shell" where
  "create_plan_for_vanilla_mode tc = dump_doc (JObj []) (tc_test_plan tc)"

definition prepare_test_plan :: "test_context \<Rightarrow> unit shell" where
  "prepare_test_plan tc = in_order
     [rmtree_if_exists (tc_result_dir tc),
      makedirs (tc_result_dir tc) False,
      if tc_mode tc = LEARN then create_plan_for_learn_mode tc
      else if tc_mode tc = VANILLA then create_plan_for_vanilla_mode tc
      else in_order [sh_assert (tc_mode tc = TEST), create_plan_for_test_mode tc]]"

definition get_test_workload_from_test_plan :: "string \<Rightarrow> json shell" where
  "get_test_workload_from_test_plan test_plan_file =
     sh_bind (load_yaml test_plan_file) (\<lambda>test_plan. sh_of (py_getitem test_plan ''workload''))"

section \<open>A run\<close>

definition failed_result :: "string \<Rightarrow> test_result" where
  "failed_result message = \<lparr> tr_injection_completed = False, tr_workload_completed = False, tr_common_errors = [],
     tr_end_state_errors = [], tr_history_errors = [], tr_no_exception = False, tr_exception_message = message \<rparr>"

text \<open>One pass over the cluster, from the plan to the saved files.\<close>

definition run_pass :: "test_context \<Rightarrow> unit shell" where
  "run_pass tc = in_order
     [prepare_test_plan tc, setup_cluster tc, run_workload_in_cluster tc, teardown_cluster, save_history_and_end_state tc]"

definition run_test :: "test_context \<Rightarrow> test_result option shell" where
  "run_test tc = sh_try
     (if tc_postprocess tc then post_process tc
      else
        sh_bind (run_pass tc) (\<lambda>_.
        sh_bind (sh_when (tc_mode tc = LEARN \<and> tc_build_oracle tc)
          (in_order [save_previous_learn_results tc, run_pass tc])) (\<lambda>_.
        post_process tc)))
     (\<lambda>e. sh_bind (sh_outside (\<lambda>out. ou_traceback out e)) (\<lambda>message. sh_return (Some (failed_result message))))"

text \<open>Looking up the settings of a workload; a number that is no integer is not represented.\<close>

definition setting_int :: "json \<Rightarrow> string \<Rightarrow> int \<Rightarrow> int res" where
  "setting_int settings k d = res_bind (get_or settings k (JInt d)) (\<lambda>v.
     case v of JInt i \<Rightarrow> Inr i | _ \<Rightarrow> Inl OutOfModel)"

definition generate_testing_cluster_config :: "controller_config \<Rightarrow> string \<Rightarrow> (int \<times> int \<times> bool) res" where
  "generate_testing_cluster_config kc test_workload =
     res_bind (py_in test_workload (kc_test_setting kc)) (\<lambda>b.
       if \<not> b then Inr (1, 2, False)
       else res_bind (py_getitem (kc_test_setting kc) test_workload) (\<lambda>settings.
         res_bind (setting_int settings ''num_apiservers'' 1) (\<lambda>num_apiservers.
         res_bind (setting_int settings ''num_workers'' 2) (\<lambda>num_workers.
         res_bind (get_or settings ''use_csi_driver'' (JBool False)) (\<lambda>use_csi_driver.
           Inr (num_apiservers, num_workers, py_truth use_csi_driver))))))"

record run_options =
  ro_controller_config_dir :: "string option"
  ro_test_workload :: "string option"
  ro_dir :: "string option"
  ro_mode :: "string option"
  ro_test_plan :: "string option"
  ro_registry :: string
  ro_batch :: bool
  ro_postprocess :: bool
  ro_build_oracle :: bool

definition run :: "common_config \<Rightarrow> run_options \<Rightarrow> string \<Rightarrow> (test_result option \<times> test_context) shell" where
  "run common_config opts test_plan =
     sh_bind (sh_of (from_option TypeError (ro_controller_config_dir opts))) (\<lambda>controller_config_dir.
     sh_bind (load_json (path_join controller_config_dir ''config.json'')) (\<lambda>config.
     sh_bind (sh_of (load_controller_config config)) (\<lambda>controller_config.
     sh_bind (case ro_test_workload opts of
         Some wl \<Rightarrow> sh_return wl
       | None \<Rightarrow> sh_bind (sh_assert (ro_mode opts = Some TEST)) (\<lambda>_.
           sh_bind (get_test_workload_from_test_plan test_plan) (\<lambda>wl. sh_of (as_str wl)))) (\<lambda>test_workload.
     sh_bind (sh_of (generate_testing_cluster_config controller_config test_workload))
       (\<lambda>(num_apiservers, num_workers, use_csi_driver).
     let oracle_dir = path_join (path_join controller_config_dir ''oracle'') test_workload in
     sh_bind (is_dir oracle_dir) (\<lambda>b.
     sh_bind (sh_assert (b \<or> (ro_mode opts = Some LEARN \<and> ro_build_oracle opts) \<or> ro_mode opts = Some VANILLA)) (\<lambda>_.
     sh_bind (makedirs oracle_dir True) (\<lambda>_.
     sh_bind (sh_of (from_option TypeError (ro_dir opts))) (\<lambda>result_root_dir.
     sh_bind (sh_of (as_str (kc_controller_name controller_config))) (\<lambda>controller_name.
     sh_bind (sh_of (from_option TypeError (ro_mode opts))) (\<lambda>mode.
     let mode_dir = path_join (path_join (path_join result_root_dir controller_name) test_workload) mode;
         result_dir = (if mode = TEST then path_join mode_dir (splitext_root (basename test_plan)) else mode_dir);
         args = \<lparr> tc_controller = controller_name, tc_controller_config_dir = controller_config_dir,
           tc_test_workload = test_workload, tc_mode = mode, tc_postprocess = ro_postprocess opts,
           tc_build_oracle = ro_build_oracle opts, tc_original_test_plan = test_plan,
           tc_test_plan = path_join result_dir (basename test_plan), tc_result_root_dir = result_root_dir,
           tc_result_dir = result_dir, tc_oracle_dir = oracle_dir, tc_container_registry = ro_registry opts,
           tc_image_tag = mode, tc_num_apiservers = num_apiservers, tc_num_workers = num_workers,
           tc_use_csi_driver_for_ref = use_csi_driver, tc_use_csi_driver = use_csi_driver,
           tc_common_config = common_config, tc_controller_config = controller_config,
           tc_test_plan_content = None, tc_action_types = [] \<rparr> in
     sh_bind (sh_if (mode = TEST) (load_yaml test_plan) JNull) (\<lambda>plan.
     sh_bind (sh_of (TestContext args plan)) (\<lambda>test_context.
     sh_bind (run_test test_context) (\<lambda>test_result.
       sh_return (test_result, test_context)))))))))))))))"

section \<open>The result file\<close>

definition detected_errors :: "test_result \<Rightarrow> string list" where
  "detected_errors r = tr_common_errors r @ tr_end_state_errors r @ tr_history_errors r"

definition result_map :: "test_context \<Rightarrow> test_result \<Rightarrow> json \<Rightarrow> string \<Rightarrow> string \<Rightarrow> json" where
  "result_map tc r duration test_plan_content host =
     JObj [(tc_controller tc, JObj [(tc_test_workload tc, JObj [(tc_mode tc, JObj [(tc_original_test_plan tc, JObj
       [(''duration'', duration),
        (''injection_completed'', JBool (tr_injection_completed r)),
        (''workload_completed'', JBool (tr_workload_completed r)),
        (''number_errors'', JInt (int (length (tr_common_errors r)) + int (length (tr_end_state_errors r)) +
           int (length (tr_history_errors r)))),
        (''detected_errors'', strings_json (detected_errors r)),
        (''no_exception'', JBool (tr_no_exception r)),
        (''exception_message'', JStr (tr_exception_message r)),
        (''test_plan_content'', JStr test_plan_content),
        (''host'', JStr host)])])])])]"

definition result_filename :: "test_context \<Rightarrow> string" where
  "result_filename tc = tc_result_root_dir tc @ ''/'' @ tc_controller tc @ ''-'' @ tc_test_workload tc @ ''-'' @
     basename (tc_original_test_plan tc) @ ''.json''"

text \<open>The duration is what the clock says, as the JSON value it is printed as.\<close>

definition save_run_result :: "test_context \<Rightarrow> test_result option \<Rightarrow> json \<Rightarrow> unit shell" where
  "save_run_result tc test_result duration =
     (if tc_mode tc \<noteq> TEST then sh_return ()
      else sh_bind (sh_of (from_option AssertionError test_result)) (\<lambda>r.
      sh_bind (read_text (tc_original_test_plan tc)) (\<lambda>test_plan_content.
      sh_bind (sh_outside ou_hostname) (\<lambda>host.
      sh_bind (path_exists (dirname (result_filename tc))) (\<lambda>b.
      sh_bind (sh_when (\<not> b) (sh_try (makedirs (dirname (result_filename tc)) False)
        (\<lambda>e. if e = FileExistsError then sh_return () else sh_raise e))) (\<lambda>_.
        dump_doc (result_map tc r duration test_plan_content host) (result_filename tc)))))))"

section \<open>The command line\<close>

text \<open>\<open>glob.glob\<close> for all names with an ending in a folder whose name is no pattern.\<close>

definition glob_ending :: "string \<Rightarrow> string \<Rightarrow> string list shell" where
  "glob_ending folder ending = sh_files (\<lambda>cwd fs.
     if list_ex (\<lambda>c. c \<in> set ''*?['') folder then Inl OutOfModel
     else Inr (map (path_join folder) (filter (\<lambda>name. \<not> py_startswith name ''.'' \<and> py_endswith name ending)
       (remdups (map last (filter (\<lambda>p. p \<noteq> [] \<and> butlast p = resolve cwd folder) (map fst fs)))))))"

definition run_batch :: "common_config \<Rightarrow> run_options \<Rightarrow> (nat \<Rightarrow> json) \<Rightarrow> string \<Rightarrow> unit shell" where
  "run_batch common_config opts durations test_plan_folder =
     sh_bind (sh_assert (ro_mode opts = Some TEST)) (\<lambda>_.
     sh_bind (is_dir test_plan_folder) (\<lambda>b.
     sh_bind (sh_assert b) (\<lambda>_.
     sh_bind (glob_ending test_plan_folder ''.yaml'') (\<lambda>test_plans.
     sh_for (enumerate 0 test_plans) (\<lambda>(i, test_plan).
       sh_bind (run common_config opts test_plan) (\<lambda>(test_result, test_context).
         save_run_result test_context test_result (durations i)))))))"

text \<open>What the options are changed to, or the refusal of the parser.\<close>

definition accept_options :: "run_options \<Rightarrow> run_options res" where
  "accept_options opts =
     (let or_dir = (\<lambda>d. case ro_dir opts of None \<Rightarrow> Some d | Some x \<Rightarrow> Some x) in
      if ro_controller_config_dir opts = None then Inl SystemExit
      else res_bind
        (if ro_mode opts = Some LEARN then Inr (opts\<lparr> ro_test_plan := Some ''learn.yaml'', ro_dir := or_dir ''sieve_learn_results'' \<rparr>)
         else if ro_mode opts = Some VANILLA
         then Inr (opts\<lparr> ro_test_plan := Some ''vanilla.yaml'', ro_dir := or_dir ''sieve_vanilla_results'' \<rparr>)
         else if ro_test_plan opts = None then Inl SystemExit
         else Inr (opts\<lparr> ro_dir := or_dir ''sieve_test_results'' \<rparr>)) (\<lambda>opts.
      if ro_test_workload opts = None \<and> ro_mode opts \<noteq> Some TEST then Inl SystemExit
      else if ro_mode opts \<noteq> Some LEARN \<and> ro_build_oracle opts then Inl SystemExit
      else if ro_postprocess opts \<and> ro_build_oracle opts then Inl SystemExit
      else Inr opts))"

definition load_common_config :: "common_config shell" where
  "load_common_config =
     sh_bind (load_json ''config.json'') (\<lambda>config.
     sh_bind (sh_files (\<lambda>cwd fs. Inr (case node_at fs (resolve cwd ''sieve_config.json'') of Some (File _) \<Rightarrow> True | _ \<Rightarrow> False))) (\<lambda>b.
     sh_bind (if b then sh_bind (load_json ''sieve_config.json'') (\<lambda>j. sh_return (Some j)) else sh_return None) (\<lambda>override.
     sh_of (get_common_config config override))))"

text \<open>
  The script, on parsed options: the registry given on the command line, or none for the default of the
  configuration.
\<close>

definition sieve_main :: "run_options \<Rightarrow> string option \<Rightarrow> (nat \<Rightarrow> json) \<Rightarrow> unit shell" where
  "sieve_main parsed registry durations =
     sh_bind load_common_config (\<lambda>common_config.
     sh_bind (sh_of (case registry of
         Some r \<Rightarrow> Inr r
       | None \<Rightarrow> (case cc_container_registry common_config of JStr r \<Rightarrow> Inr r | _ \<Rightarrow> Inl OutOfModel))) (\<lambda>registry.
     sh_bind (sh_of (accept_options (parsed\<lparr> ro_registry := registry \<rparr>))) (\<lambda>opts.
     sh_bind (sh_of (from_option TypeError (ro_test_plan opts))) (\<lambda>test_plan.
       if ro_batch opts then run_batch common_config opts durations test_plan
       else sh_bind (run common_config opts test_plan) (\<lambda>(test_result, test_context).
         save_run_result test_context test_result (durations 0))))))"

end
