(* ===== verification/Learn_Run.thy ===== *)
theory Learn_Run
  imports Sieve_Main
begin

text \<open>
  The learning run that builds the oracle, from the command to the files: which paths its stages write,
  and how the files of both passes come together in the oracle.
\<close>

section \<open>What the stages leave alone\<close>

text \<open>No path above or below \<open>p\<close> is one of those that are kept.\<close>

definition clear_of :: "(path \<Rightarrow> bool) \<Rightarrow> path \<Rightarrow> bool" where
  "clear_of S p \<longleftrightarrow> (\<forall>q. prefix q p \<or> prefix p q \<longrightarrow> \<not> S q)"

lemma clear_ofD:
  assumes "clear_of S p"
  shows "\<not> S p" "\<not> S (p @ r)" "prefix q p \<Longrightarrow> \<not> S q" "prefix p q \<Longrightarrow> \<not> S q"
  using assms by (auto simp: clear_of_def)

lemma clear_below: "clear_of S p \<Longrightarrow> prefix q (p @ r) \<Longrightarrow> \<not> S q"
  by (auto simp: clear_of_def prefix_append)

lemma int_str_no_slash: "CHR ''/'' \<notin> set (int_str i)"
proof -
  have "CHR ''/'' \<notin> set (nat_str n)" for n using nat_str_digits[of n] by (auto simp: is_digit_def)
  then show ?thesis by (simp add: int_str_def)
qed

lemma frame_kind_config:
  assumes "clear_of S (c @ [''kind_configs''])" shows "ensures (frame c S) out (create_kind_config a b)"
proof -
  let ?name = "''kind-'' @ int_str a @ ''a-'' @ int_str b @ ''w.yaml''"
  have "plain ''kind_configs''" by (simp add: plain_def)
  then have dir: "resolve c ''kind_configs'' = c @ [''kind_configs'']" by (rule resolve_plain)
  have "plain ?name" using int_str_no_slash by (auto simp: plain_def)
  then have "resolve c (path_join ''kind_configs'' ?name) = (c @ [''kind_configs'']) @ [?name]" by (simp only: resolve_file dir)
  then have "\<not> S (resolve c (path_join ''kind_configs'' ?name))" using clear_ofD(2)[OF assms] by metis
  then show ?thesis unfolding create_kind_config_def Let_def
    by (intro fr.ensures_bind frame_makedirs frame_write_text fr.ensures_still) (auto simp: dir clear_ofD(3)[OF assms])
qed

lemma frame_cluster_commands:
  assumes "commands_keep out S"
  shows "always (frame c S) out (delete_old_cluster n)" "always (frame c S) out (create_new_cluster create)"
proof -
  have "always (frame c S) out (sleep k)" for k by (auto simp: always_def sleep_def sh_log_def frame_def)
  then show "always (frame c S) out (delete_old_cluster n)" "always (frame c S) out (create_new_cluster create)"
    using frame_cmd_always[OF assms] unfolding delete_old_cluster_def create_new_cluster_def
    by (intro fr.always_in_order; auto)+
qed

lemma frame_kind_attempts:
  assumes keep: "commands_keep out S"
  shows "ensures (frame c S) out (kind_attempts create n)"
proof -
  have "frame c S w (snd y)" if "kind_attempts create n out' w = Some y" "out' = out" for create n out' w y
    using that
  proof (induction create n out' w y rule: kind_attempts.raw_induct[rotated, consumes 1, case_names step])
    case (step f create n out' w y)
    show ?case
    proof (cases "n \<ge> 5")
      case True
      then show ?thesis using step.hyps by (auto simp: fr.rel_refl)
    next
      case False
      then obtain r w1 where r: "delete_old_cluster n out w = Some (r, w1)"
        using step.hyps step.prems by (auto split: option.splits)
      have w1: "frame c S w w1" using alwaysD[OF frame_cluster_commands(1)[OF keep] r] .
      show ?thesis
      proof (cases r)
        case (Inl e)
        then have "frame c S w1 (snd y)" using step r False by auto
        then show ?thesis using w1 fr.rel_trans by blast
      next
        case (Inr u)
        then obtain r2 w2 where r2: "create_new_cluster create out w1 = Some (r2, w2)"
          using step.hyps step.prems r False by (auto split: option.splits)
        have "frame c S w2 (snd y)" using step r r2 Inr False by (auto simp: fr.rel_refl split: sum.splits)
        then show ?thesis using w1 alwaysD[OF frame_cluster_commands(2)[OF keep] r2] fr.rel_trans by blast
      qed
    qed
  qed
  then show ?thesis by (force simp: ensures_def)
qed

lemma take_config_map:
  "path_join dir (x @ ''.yaml'') \<noteq> [] \<Longrightarrow> take (length (path_join dir (x @ ''.yaml'')) - 5) (path_join dir (x @ ''.yaml'')) @ ''-configmap.yaml'' =
    path_join dir (x @ ''-configmap.yaml'')" if "plain x"
  using that by (cases x) (auto simp: path_join_def py_startswith_iff plain_def)

text \<open>The plan of a learning run lies in its result directory.\<close>

definition learn_plan :: "test_context \<Rightarrow> bool" where
  "learn_plan tc \<longleftrightarrow> tc_test_plan tc = path_join (tc_result_dir tc) ''learn.yaml''"

lemma plain_names: "plain ''learn.yaml''" "plain ''learn-configmap.yaml''" "plain ''sieve_server''" "plain ''server.yaml''"
  "plain ''kind_configs''" "plain ''apiserver1.log''" "plain ''streamed-controller.log''" "plain ''controller_family.json''"
  "plain ''history.json''" "plain ''event.json''" "plain ''state.json''" "plain ''mask.json''" "plain ''sieve-server.log''"
  by (simp_all add: plain_def)

lemma below_clear: "clear_of S (resolve c dir) \<Longrightarrow> plain x \<Longrightarrow> \<not> S (resolve c (path_join dir x))"
  using clear_ofD(2)[of S "resolve c dir" "[x]"] by (simp add: resolve_file)

lemma frame_configmap:
  assumes "learn_plan tc" "clear_of S (resolve c (tc_result_dir tc))"
  shows "ensures (frame c S) out (create_configmap (tc_test_plan tc))"
proof -
  have "take (length (tc_test_plan tc) - 5) (tc_test_plan tc) @ ''-configmap.yaml'' =
      path_join (tc_result_dir tc) ''learn-configmap.yaml''"
    using assms(1) take_config_map[of "''learn''" "tc_result_dir tc"]
    by (simp add: learn_plan_def plain_def path_join_def py_startswith_iff split: if_splits)
  then show ?thesis unfolding create_configmap_def Let_def using below_clear[OF assms(2) plain_names(2)]
    by (intro frame_structure frame_dump) simp_all
qed

lemma frame_wait_apiservers: "ensures (frame c S) out (wait_for_apiservers num ticks)"
proof (induction ticks)
  case (Suc ticks)
  then show ?case unfolding wait_for_apiservers.simps list_namespaced_pod_def by (intro frame_structure)
qed (simp add: fr.ensures_still)

lemma frame_wait_controller: "ensures (frame c S) out (wait_for_controller ns label ticks)"
proof (induction ticks)
  case (Suc ticks)
  then show ?case unfolding wait_for_controller.simps list_namespaced_pod_def by (intro frame_structure)
qed (simp add: fr.ensures_still)

lemma frame_sieve_server:
  assumes "tc_mode tc \<noteq> TEST" "commands_keep out S" "clean_path c" "clear_of S (c @ [''sieve_server''])"
  shows "ensures (frame c S) out (prepare_sieve_server tc)"
proof -
  have "resolve c (path_join ''sieve_server'' ''server.yaml'') = c @ [''sieve_server'', ''server.yaml'']"
    by (simp add: resolve_file resolve_plain plain_names)
  then have path: "resolve c ''sieve_server/server.yaml'' = c @ [''sieve_server''] @ [''server.yaml'']"
    by (simp add: path_join_def py_startswith_iff py_endswith_def)
  have "ensures (frame c S) out (copy (tc_test_plan tc) ''sieve_server/server.yaml'')"
    using clear_ofD(2)[OF assms(4)] unfolding path[symmetric] by (intro frame_copy) (simp_all add: path)
  moreover have "ensures (frame c S) out (sh_bind getcwd (\<lambda>org_dir. in_order ([chdir ''sieve_server''] @
      [sh_cmd ''go mod tidy'', sh_cmd ''env GOOS=linux GOARCH=amd64 go build''] @ [chdir org_dir] @
      [sh_cmd ''docker cp sieve_server kind-control-plane:/sieve_server''])))"
    by (rule frame_inside[OF assms(3)]) (intro frame_structure frame_cmd assms(2))+
  ultimately show ?thesis using assms(1) unfolding prepare_sieve_server_def append_Cons append_Nil
    by (auto simp: sh_when_def intro!: fr.ensures_bind fr.ensures_still)
qed

lemma frame_setup_cluster:
  assumes "tc_mode tc = LEARN" "tc_action_types tc = []" "learn_plan tc" "commands_keep out S" "clean_path c"
    "clear_of S (resolve c (tc_result_dir tc))" "clear_of S (c @ [''sieve_server''])" "clear_of S (c @ [''kind_configs''])"
  shows "ensures (frame c S) out (setup_cluster tc)"
proof -
  have "LEARN \<noteq> TEST" by (simp add: LEARN_def TEST_def)
  then have server: "ensures (frame c S) out (prepare_sieve_server tc)" using assms by (intro frame_sieve_server) auto
  have "ensures (frame c S) out (setup_kind_cluster tc)"
    unfolding setup_kind_cluster_def Let_def
    by (intro frame_structure frame_kind_config frame_kind_attempts assms)
  then show ?thesis using server assms(2) unfolding setup_cluster_def Let_def start_sieve_server_def load_kube_config_def
    by (intro frame_structure frame_cmd frame_os_system frame_configmap frame_wait_apiservers assms) simp_all
qed

lemma frame_deploy:
  assumes "commands_keep out S" "clean_path c"
    "kc_controller_deployment_file_path (tc_controller_config tc) = JStr file"
    "\<not> S (resolve c file)" "\<not> S (resolve c (file @ ''.bkp''))"
  shows "ensures (frame c S) out (deploy_controller tc)"
proof -
  have driver: "ensures (frame c S) out (sh_bind getcwd (\<lambda>org_dir. in_order ([chdir ''sieve_aux/csi-driver''] @
      [sh_cmd ''./install.sh''] @ [chdir org_dir] @ [])))"
    by (rule frame_inside[OF assms(2)]) (intro frame_structure frame_cmd assms(1))+
  have deploy: "ensures (frame c S) out (sh_bind getcwd (\<lambda>org_dir. in_order ([chdir (deploy_directory tc)] @
      [sh_cmd ''./deploy.sh''] @ [chdir org_dir] @
      [copyfile (file @ ''.bkp'') file, remove_file (file @ ''.bkp'')])))"
    by (rule frame_inside[OF assms(2)]) (intro frame_structure frame_cmd frame_copyfile frame_remove assms)+
  have name: "as_str (kc_controller_deployment_file_path (tc_controller_config tc)) = Inr file"
    by (simp add: assms(3) as_str_def)
  note bind = fr.ensures_bind
  show ?thesis unfolding deploy_controller_def Let_def name sh_bind_of
    by (rule bind, rule fr.ensures_when, rule driver[unfolded append_Cons append_Nil],
      rule bind, rule frame_copyfile, rule assms(5), rule bind, rule fr.ensures_read_text,
      rule bind, rule frame_write_text, rule assms(4), rule deploy[unfolded append_Cons append_Nil])
qed

lemma frame_ports: "ensures (frame c S) out (get_apiserver_ports n)"
  unfolding get_apiserver_ports_def container_port_def by (intro frame_structure)

lemma frame_start_controller:
  assumes "ensures (frame c S) out (deploy_controller tc)" "commands_keep out S"
  shows "ensures (frame c S) out (start_controller tc)"
  unfolding start_controller_def load_kube_config_def
  by (intro frame_structure assms(1) frame_wait_controller frame_ports frame_cmd assms(2))

lemma frame_run_workload:
  assumes "ensures (frame c S) out (deploy_controller tc)" "commands_keep out S" "clear_of S (resolve c (tc_result_dir tc))"
  shows "ensures (frame c S) out (run_workload_in_cluster tc)"
proof -
  have kill: "always (frame c S) out (killpg x)" for x by (auto simp: always_def killpg_def frame_def)
  have stream: "ensures (frame c S) out (start_streaming x (path_join (tc_result_dir tc) f))" if "plain f" for x f
    unfolding start_streaming_def using below_clear[OF assms(3) that] by (intro frame_structure frame_write_text)
  have pod: "ensures (frame c S) out (controller_pod_name tc)"
    unfolding controller_pod_name_def list_namespaced_pod_def by (intro frame_structure)
  show ?thesis
    unfolding run_workload_in_cluster_def Let_def load_kube_config_def stop_sieve_server_def
    by (intro frame_structure frame_start_controller assms(1,2) pod stream plain_names frame_system frame_cmd
        fr.ensures_try always_ensures[OF kill] kill)
qed

text \<open>The plan is written into the result directory, which is made anew.\<close>

lemma frame_prepare_plan:
  assumes "tc_mode tc = LEARN" "learn_plan tc" "clear_of S (resolve c (tc_result_dir tc))"
  shows "ensures (frame c S) out (prepare_test_plan tc)"
proof -
  have "ensures (frame c S) out (create_plan_for_learn_mode tc)"
    unfolding create_plan_for_learn_mode_def using assms(2) below_clear[OF assms(3) plain_names(1)]
    by (intro frame_structure frame_dump) (simp add: learn_plan_def)
  then show ?thesis using clear_ofD(3,4)[OF assms(3)] unfolding prepare_test_plan_def
    by (intro fr.ensures_Cons fr.ensures_Nil frame_rmtree frame_makedirs) (simp_all add: assms(1))
qed

lemma frame_dump_json:
  assumes "clear_of S (resolve c dir)" "plain f" shows "ensures (frame c S) out (dump_json_file dir v f)"
  unfolding dump_json_file_def by (rule frame_dump, rule below_clear[OF assms])

lemma frame_read_lines: "ensures (frame c S) out (read_lines p)"
  unfolding read_lines_def by (intro frame_structure)

lemma frame_save:
  assumes "clear_of S (resolve c (tc_result_dir tc))"
  shows "ensures (frame c S) out (save_history_and_end_state tc)"
  unfolding save_history_and_end_state_def save_controller_family_def save_run_history_def save_end_state_def
  by (intro frame_structure frame_dump_json assms plain_names frame_read_lines)

end
