(* ===== verification/Learn_Oracle.thy ===== *)
theory Learn_Oracle
  imports Learn_Run
begin

text \<open>
  The files of a learning run: what a pass saves is a function of the log of the API server, the results of
  the first pass are kept through the second, and the oracle is made of both.
\<close>

section \<open>Reading and writing below a directory\<close>

lemma read_content_returns: "read_content p out w = Some (Inr x, w') \<longleftrightarrow>
    w' = w \<and> node_at (w_files w) (resolve (w_cwd w) p) = Some (File x)"
  by (auto simp: read_content_def sh_files_returns read_node_def split: option.splits node.splits)

lemma read_lines_returns: "read_lines p out w = Some (Inr ls, w') \<longleftrightarrow>
    w' = w \<and> (\<exists>x. node_at (w_files w) (resolve (w_cwd w) p) = Some (File x) \<and> ls = readlines (text_of out x))"
  by (auto simp: read_lines_def read_text_def sh_returns read_content_returns)

lemma write_content_returns:
  assumes "write_content p x out w = Some (Inr u, w')"
  shows "w_cwd w' = w_cwd w \<and> node_at (w_files w') (resolve (w_cwd w) p) = Some (File x) \<and>
    (\<forall>q. q \<noteq> resolve (w_cwd w) p \<longrightarrow> node_at (w_files w') q = node_at (w_files w) q)"
  using assms put_file_same put_file_other by (fastforce simp: write_content_def sh_update_returns)

lemma dump_json_returns:
  assumes "dump_json_file dir v f out w = Some (Inr u, w')" "plain f"
  shows "w_cwd w' = w_cwd w" "node_at (w_files w') (resolve (w_cwd w) dir @ [f]) = Some (File (Doc (sort_keys v)))"
    "q \<noteq> resolve (w_cwd w) dir @ [f] \<Longrightarrow> node_at (w_files w') q = node_at (w_files w) q"
  using write_content_returns assms by (fastforce simp: dump_json_file_def dump_doc_def resolve_file)+

section \<open>What a pass saves\<close>

definition empty_result :: result_files where
  "empty_result = \<lparr> rf_history = [], rf_digest = [], rf_state = [], rf_family = [] \<rparr>"

text \<open>The files of a pass as a function of the log.\<close>

definition result_of_log :: "test_context \<Rightarrow> string list \<Rightarrow> result_files res" where
  "result_of_log tc lines = res_bind (save_controller_related_object_list lines empty_result) (\<lambda>f.
     res_bind (save_history tc lines f) (save_state lines))"

definition holds_result :: "files \<Rightarrow> path \<Rightarrow> result_files \<Rightarrow> bool" where
  "holds_result fs dir f \<longleftrightarrow>
     node_at fs (dir @ [''controller_family.json'']) = Some (File (Doc (sort_keys (strings_json (rf_family f))))) \<and>
     node_at fs (dir @ [''event.json'']) = Some (File (Doc (sort_keys (JObj (rf_digest f))))) \<and>
     node_at fs (dir @ [''state.json'']) = Some (File (Doc (sort_keys (JObj (rf_state f)))))"

text \<open>A directory holds a log and the files made from it.\<close>

definition result_saved :: "outside \<Rightarrow> test_context \<Rightarrow> files \<Rightarrow> path \<Rightarrow> result_files \<Rightarrow> bool" where
  "result_saved out tc fs dir f \<longleftrightarrow> (\<exists>log. node_at fs (dir @ [''apiserver1.log'']) = Some (File log) \<and>
     result_of_log tc (readlines (text_of out log)) = Inr f \<and> holds_result fs dir f)"

lemma result_saved_cong:
  assumes "result_saved out tc fs dir f" "\<And>x. node_at fs (dir @ [x]) \<noteq> None \<Longrightarrow> node_at fs' (dir' @ [x]) = node_at fs (dir @ [x])"
  shows "result_saved out tc fs' dir' f"
  using assms(1) unfolding result_saved_def holds_result_def by (auto simp: assms(2))

lemma save_pass_files:
  assumes "save_history_and_end_state tc out w = Some (Inr u, w')"
  shows "\<exists>f. result_saved out tc (w_files w') (resolve (w_cwd w) (tc_result_dir tc)) f"
proof -
  let ?R = "resolve (w_cwd w) (tc_result_dir tc)"
  obtain w1 w2 w3 where fam: "save_controller_family tc out w = Some (Inr (), w1)"
    and his: "save_run_history tc out w1 = Some (Inr (), w2)" and st: "save_end_state tc out w2 = Some (Inr (), w3)" "w' = w3"
    using assms by (auto simp: save_history_and_end_state_def in_order.simps sh_returns)
  obtain log l where log: "node_at (w_files w) (?R @ [''apiserver1.log'']) = Some (File log)"
    and l: "generate_controller_related_list (readlines (text_of out log)) = Inr l"
    and d1: "dump_json_file (tc_result_dir tc) (strings_json l) ''controller_family.json'' out w = Some (Inr (), w1)"
    using fam by (auto simp: save_controller_family_def sh_returns read_lines_returns result_file_def resolve_file plain_names)
  note w1 = dump_json_returns[OF d1 plain_names(8)]
  have log1: "node_at (w_files w1) (?R @ [''apiserver1.log'']) = Some (File log)" using log by (simp add: w1(3))
  obtain h d w15 where h: "generate_history (readlines (text_of out log)) = Inr h"
    and d: "generate_history_digest tc (readlines (text_of out log)) = Inr d"
    and d2: "dump_json_file (tc_result_dir tc) (history_json h) ''history.json'' out w1 = Some (Inr (), w15)"
    and d3: "dump_json_file (tc_result_dir tc) (JObj (digest_json d)) ''event.json'' out w15 = Some (Inr (), w2)"
    using his log1 w1(1)
    by (auto simp: save_run_history_def sh_returns read_lines_returns result_file_def resolve_file plain_names in_order.simps)
  note w15 = dump_json_returns[OF d2 plain_names(9)]
  note w2 = dump_json_returns[OF d3 plain_names(10)]
  have log2: "node_at (w_files w2) (?R @ [''apiserver1.log'']) = Some (File log)"
    using log1 by (simp add: w2(3) w15 w1(1))
  obtain s where s: "generate_state (readlines (text_of out log)) = Inr s"
    and d4: "dump_json_file (tc_result_dir tc) (JObj s) ''state.json'' out w2 = Some (Inr (), w3)"
    using st log2 w1(1) w15(1) w2(1)
    by (auto simp: save_end_state_def sh_returns read_lines_returns result_file_def resolve_file plain_names)
  note w3 = dump_json_returns[OF d4 plain_names(11)]
  let ?f = "\<lparr> rf_history = h, rf_digest = digest_json d, rf_state = s, rf_family = l \<rparr>"
  have "result_of_log tc (readlines (text_of out log)) = Inr ?f"
    using l h d s by (simp add: result_of_log_def save_controller_related_object_list_def save_history_def save_state_def empty_result_def)
  moreover have "holds_result (w_files w') ?R ?f"
    unfolding holds_result_def using w1 w15 w2 w3 by (simp add: st(2))
  moreover have "node_at (w_files w') (?R @ [''apiserver1.log'']) = Some (File log)"
    using log2 w1 w15 w2 w3 by (simp add: st(2))
  ultimately show ?thesis unfolding result_saved_def by blast
qed

section \<open>Moving the results of the first pass\<close>

lemma map_of_graft: "map_of (graft src dst fs) (dst @ r) = map_of fs (src @ r)"
proof (induction fs)
  case (Cons e fs)
  obtain p n where e: "e = (p, n)" by fastforce
  show ?case using Cons by (cases "prefix src p") (auto simp: graft_def e prefix_def)
qed (simp add: graft_def)

lemma map_of_graft_other: "\<not> prefix dst q \<Longrightarrow> map_of (graft src dst fs) q = None"
  by (auto simp: graft_def map_of_eq_None_iff prefix_def)

lemma previous_results_kept:
  assumes "save_previous_learn_results tc out w = Some (Inr u, w')"
    "resolve (w_cwd w) (first_pass_learn_result_dir (tc_result_dir tc)) = D" "resolve (w_cwd w) (tc_result_dir tc) = R"
    "parallel D R"
  shows "w_cwd w' = w_cwd w" "node_at (w_files w) (R @ x) \<noteq> None \<Longrightarrow> node_at (w_files w') (D @ x) = node_at (w_files w) (R @ x)"
    "parallel q D \<Longrightarrow> parallel q R \<Longrightarrow> node_at (w_files w') q = node_at (w_files w) q"
proof -
  have ne: "D \<noteq> []" "R \<noteq> []" using assms(4) by auto
  obtain w1 where rm: "rmtree_if_exists (first_pass_learn_result_dir (tc_result_dir tc)) out w = Some (Inr (), w1)"
    and mv: "move (tc_result_dir tc) (first_pass_learn_result_dir (tc_result_dir tc)) out w1 = Some (Inr (), w')"
    and dir: "node_at (w_files w) R = Some Folder"
    using assms by (auto simp: save_previous_learn_results_def Let_def in_order.simps sh_returns is_dir_def)
  have w1: "w_cwd w1 = w_cwd w" "node_at (w_files w1) D = None" "\<not> prefix D q \<Longrightarrow> node_at (w_files w1) q = node_at (w_files w) q" for q
    using rm ne(1) by (auto simp: rmtree_if_exists_def sh_when_def path_exists_def rmtree_def rmtree_at_def sh_returns assms(2)
        node_at_def map_of_filter_keys split: if_splits option.splits node.splits)
  have "\<not> prefix D R" "\<not> prefix R D" using assms(4) by auto
  then have R1: "node_at (w_files w1) R = Some Folder" using dir by (simp add: w1(3))
  obtain fs1 where fs1: "makedirs_at (butlast D) True (w_files w1) = Inr fs1"
    and w': "w' = w1\<lparr> w_files := graft R D (w_files w1) @ filter (\<lambda>(p, _). \<not> prefix R p) fs1 \<rparr>"
    using mv w1(1,2) R1 assms(2,3) \<open>\<not> prefix R D\<close>
    by (auto simp: move_def move_at_def sh_returns inside_folder_def Let_def res_simps split: if_splits)
  show "w_cwd w' = w_cwd w" by (simp add: w' w1(1))
  show "node_at (w_files w') (D @ x) = node_at (w_files w) (R @ x)" if "node_at (w_files w) (R @ x) \<noteq> None"
  proof -
    have "\<not> prefix D (R @ x)" using assms(4) by (auto simp: prefix_append)
    then have "node_at (w_files w) (R @ x) = node_at (w_files w1) (R @ x)" by (simp add: w1(3))
    then show ?thesis using that ne by (auto simp: node_at_def w' map_add_def map_of_graft)
  qed
  show "node_at (w_files w') q = node_at (w_files w) q" if q: "parallel q D" "parallel q R"
  proof -
    have "\<not> prefix q (butlast D)" using q(1) by (meson parallelE prefix_order.trans prefixeq_butlast)
    then have "node_at fs1 q = node_at (w_files w1) q" using makedirs_other[OF fs1] by blast
    moreover have "\<not> prefix D q" "\<not> prefix R q" using q by auto
    ultimately show ?thesis using q w1(3)[of q]
      by (auto simp: node_at_def w' map_add_def map_of_graft_other map_of_filter_keys split: if_splits)
  qed
qed

section \<open>The oracle is made of both passes\<close>

definition sorted_dict :: "jdict \<Rightarrow> jdict" where
  "sorted_dict m = (case sort_keys (JObj m) of JObj m' \<Rightarrow> m' | _ \<Rightarrow> [])"

lemma sorted_dict: "JObj (sorted_dict m) = sort_keys (JObj m)"
  by (simp add: sorted_dict_def)

text \<open>The files are read back with their keys in order.\<close>

definition sorted_files :: "result_files \<Rightarrow> result_files" where
  "sorted_files f = f\<lparr> rf_digest := sorted_dict (rf_digest f), rf_state := sorted_dict (rf_state f) \<rparr>"

definition holds_oracle :: "files \<Rightarrow> path \<Rightarrow> oracle_files \<Rightarrow> bool" where
  "holds_oracle fs dir ref \<longleftrightarrow>
     node_at fs (dir @ [''event.json'']) = Some (File (Doc (sort_keys (JObj (of_digest ref))))) \<and>
     node_at fs (dir @ [''state.json'']) = Some (File (Doc (sort_keys (JObj (of_state ref))))) \<and>
     node_at fs (dir @ [''mask.json'']) = Some (File (Doc (sort_keys (mask_json (of_mask ref))))) \<and>
     node_at fs (dir @ [''controller_family.json'']) = Some (File (Doc (sort_keys (strings_json (of_family ref)))))"

lemma load_json_doc:
  assumes "load_json p out w = Some (Inr j, w')" "node_at (w_files w) (resolve (w_cwd w) p) = Some (File (Doc v))"
  shows "j = v \<and> w' = w"
  using assms by (auto simp: load_json_def sh_returns read_content_returns)

lemma oracle_files_created:
  assumes "create_oracle_files tc out w = Some (Inr u, w')" "py_truth (cc_update_oracle_file_enabled (tc_common_config tc))"
    "resolve (w_cwd w) (first_pass_learn_result_dir (tc_result_dir tc)) = D" "resolve (w_cwd w) (tc_result_dir tc) = R"
    "resolve (w_cwd w) (tc_oracle_dir tc) = Or" "parallel Or D" "parallel Or R"
    "node_at (w_files w) (Or @ [''controller_family.json'']) \<noteq> Some Folder"
    "holds_result (w_files w) D first" "holds_result (w_files w) R second"
  shows "\<exists>ref. create_differential_oracles (ou_path_diff out) tc (sorted_files first) (sorted_files second) old = Inr ref \<and>
      holds_oracle (w_files w') Or ref"
    "w_cwd w' = w_cwd w" "\<not> prefix Or q \<Longrightarrow> node_at (w_files w') q = node_at (w_files w) q"
proof -
  have apart: "D @ x \<noteq> Or @ y" "R @ x \<noteq> Or @ y" for x y
    using assms(6,7) by (metis parallel_appendI parallel_def prefix_order.refl)+
  note first = assms(9)[unfolded holds_result_def] and second = assms(10)[unfolded holds_result_def]
  let ?deep = "ou_path_diff out"
  obtain prev_digest cur_digest prev_state cur_state can_state digest m w1 w2 w3 wa wb wc wd where
    mode: "tc_mode tc = LEARN \<and> tc_build_oracle tc" and
    r1: "load_json (path_join (first_pass_learn_result_dir (tc_result_dir tc)) ''event.json'') out w = Some (Inr prev_digest, wa)" and
    r2: "load_json (result_file tc ''event.json'') out wa = Some (Inr cur_digest, wb)" and
    dig: "canonicalize_history_digest ?deep tc prev_digest cur_digest = Inr digest" and
    d1: "dump_json_file (tc_oracle_dir tc) (JObj digest) ''event.json'' out wb = Some (Inr (), w1)" and
    r3: "load_json (path_join (first_pass_learn_result_dir (tc_result_dir tc)) ''state.json'') out w1 = Some (Inr prev_state, wc)" and
    r4: "load_json (result_file tc ''state.json'') out wc = Some (Inr cur_state, wd)" and
    can: "canonicalize_state ?deep tc prev_state cur_state = Inr can_state" and
    d2: "dump_json_file (tc_oracle_dir tc) can_state ''state.json'' out wd = Some (Inr (), w2)" and
    m: "res_bind (as_dict can_state) generate_state_mask = Inr m" and
    d3: "dump_json_file (tc_oracle_dir tc) (mask_json m) ''mask.json'' out w2 = Some (Inr (), w3)" and
    cp: "copy (result_file tc ''controller_family.json'') (path_join (tc_oracle_dir tc) ''controller_family.json'') out w3 = Some (Inr (), w')"
    using assms(1,2) by (auto simp: create_oracle_files_def Let_def sh_returns in_order.simps)
  have a: "prev_digest = sort_keys (JObj (rf_digest first)) \<and> wa = w"
    using load_json_doc[OF r1] first assms(3) by (simp add: resolve_file plain_names)
  have b: "cur_digest = sort_keys (JObj (rf_digest second)) \<and> wb = w"
    using load_json_doc[OF r2] second assms(4) a by (simp add: resolve_file plain_names result_file_def)
  note w1 = dump_json_returns[OF d1 plain_names(10), unfolded b[THEN conjunct2] assms(5)]
  have c: "prev_state = sort_keys (JObj (rf_state first)) \<and> wc = w1"
    using load_json_doc[OF r3] first w1(1,3) apart assms(3) by (simp add: resolve_file plain_names)
  have d: "cur_state = sort_keys (JObj (rf_state second)) \<and> wd = w1"
    using load_json_doc[OF r4] second w1(1,3) apart c assms(4) by (simp add: resolve_file plain_names result_file_def)
  note w2 = dump_json_returns[OF d2 plain_names(11), unfolded d[THEN conjunct2] w1(1) assms(5)]
  note w3 = dump_json_returns[OF d3 plain_names(12), unfolded w2(1) assms(5)]
  have fam: "node_at (w_files w3) (R @ [''controller_family.json'']) = Some (File (Doc (sort_keys (strings_json (rf_family second)))))"
    using second apart by (simp add: w3(3) w2(3) w1(3))
  have dst: "node_at (w_files w3) (Or @ [''controller_family.json'']) \<noteq> Some Folder"
    using assms(8) by (simp add: w3(3) w2(3) w1(3))
  obtain fs where put: "put_file (Or @ [''controller_family.json'']) (Doc (sort_keys (strings_json (rf_family second)))) (w_files w3) = Inr fs"
    and w': "w' = w3\<lparr> w_files := fs \<rparr>"
    using cp fam dst w3(1) w2(1) w1(1) assms(4,5)
    by (auto simp: copy_def sh_returns copyfile_at_def res_simps read_node_def inside_folder_def resolve_file plain_names result_file_def)
  obtain can_dict where can_dict: "can_state = JObj can_dict" "generate_state_mask can_dict = Inr m"
    using m by (auto simp: res_simps as_dict_def split: json.splits)
  let ?ref = "\<lparr> of_digest = digest, of_state = can_dict, of_mask = m, of_family = rf_family second \<rparr>"
  have "create_differential_oracles ?deep tc (sorted_files first) (sorted_files second) old = Inr ?ref"
    using mode dig can can_dict a b c d assms(2) by (simp add: create_differential_oracles_def sorted_files_def sorted_dict)
  moreover have "holds_oracle (w_files w') Or ?ref"
    using put_file_same[OF put] put_file_other[OF put] w1 w2 w3 can_dict(1) by (simp add: holds_oracle_def w')
  ultimately show "\<exists>ref. create_differential_oracles ?deep tc (sorted_files first) (sorted_files second) old = Inr ref \<and>
      holds_oracle (w_files w') Or ref" by blast
  show "w_cwd w' = w_cwd w" by (simp add: w' w1 w2 w3)
  show "node_at (w_files w') q = node_at (w_files w) q" if "\<not> prefix Or q"
  proof -
    have "q \<noteq> Or @ x" for x using that by auto
    then show ?thesis using put_file_other[OF put] by (simp add: w' w1(3) w2(3) w3(3))
  qed
qed

section \<open>Test plans do not touch the logs and the oracle\<close>

definition named_below :: "string \<Rightarrow> plan_files \<Rightarrow> bool" where
  "named_below path files \<longleftrightarrow> (\<forall>(name, plan)\<in>set (snd files). \<exists>x. plain x \<and> name = path_join path x)"

lemma nat_str_no_slash: "CHR ''/'' \<notin> set (nat_str n)"
  using nat_str_digits[of n] by (auto simp: is_digit_def)

lemma saved_below:
  assumes "plain pre" shows "named_below path (saved tc path pre plans)"
proof -
  have "plain (pre @ nat_str n @ ''.yaml'')" for n using assms nat_str_no_slash[of n] by (auto simp: plain_def append_eq_Cons_conv)
  then show ?thesis by (auto simp: named_below_def saved_def in_set_enumerate_eq)
qed

lemma plans_below:
  assumes "generate_test_plans tc end_state analysis_mode g = Inr (Some (numbers, files))"
  shows "named_below (path_join (tc_result_dir tc) analysis_mode) files"
proof -
  let ?path = "path_join (tc_result_dir tc) analysis_mode"
  obtain b p1 p2 f where numbers: "numbers = (b, p1, p2, f)" by (cases numbers) auto
  have prefixes: "plain ''stale-state-test-plan-''" "plain ''unobserved-state-test-plan-''" "plain ''intermediate-state-test-plan-''"
    by (simp_all add: plain_def)
  consider "stale_state_analysis tc end_state g ?path = Inr (numbers, files)"
    | "unobserved_state_analysis tc end_state g ?path = Inr (numbers, files)"
    | "intermediate_state_analysis tc end_state g ?path = Inr (numbers, files)"
    using assms by (auto simp: generate_test_plans_def Let_def res_simps split: if_splits)
  then show ?thesis
  proof cases
    case 1
    then obtain pairs both where "res_fold (stale_plan_step tc g ?path) ((0, []), 0) pairs = Inr (files, both)"
      unfolding stale_state_analysis_def by (auto simp: Let_def res_bind_eq_Inr)
    then obtain plans where "files = saved tc ?path ''stale-state-test-plan-'' plans"
      using stale_fold[of tc g ?path "[]" 0 pairs files both] by (auto simp: saved_Nil)
    then show ?thesis using saved_below[OF prefixes(1)] by simp
  next
    case 2
    then show ?thesis using unobserved_state_analysis_plans[OF 2[unfolded numbers]] saved_below[OF prefixes(2)] by blast
  next
    case 3
    then show ?thesis using intermediate_state_analysis_plans[OF 3[unfolded numbers]] saved_below[OF prefixes(3)] by blast
  qed
qed

lemma frame_policy_plans:
  assumes "plain analysis_mode" "clear_of S (resolve c (tc_result_dir tc) @ [analysis_mode])"
  shows "ensures (frame c S) out (save_plans_of_policy tc end_state g analysis_mode)"
proof -
  let ?dir = "path_join (tc_result_dir tc) analysis_mode"
  have dir: "clear_of S (resolve c ?dir)" using assms by (simp add: resolve_file)
  have "ensures (frame c S) out (sh_for (snd files) (\<lambda>(file_name, plan). dump_to_yaml plan file_name))"
    if "named_below ?dir files" for files
  proof (rule fr.ensures_for)
    fix x assume "x \<in> set (snd files)"
    then obtain y plan where x: "x = (path_join ?dir y, plan)" "plain y" using \<open>named_below ?dir files\<close> by (auto simp: named_below_def)
    then have "\<not> S (resolve c (path_join ?dir y))" using below_clear[OF dir] by blast
    then show "ensures (frame c S) out (case x of (file_name, plan) \<Rightarrow> dump_to_yaml plan file_name)"
      unfolding x(1) prod.case dump_to_yaml_def by (rule frame_dump)
  qed
  then have "ensures (frame c S) out (sh_bind (sh_for (snd files) (\<lambda>(file_name, plan). dump_to_yaml plan file_name)) f)"
    if "named_below ?dir files" "\<And>x. ensures (frame c S) out (f x)" for files f using that by (intro fr.ensures_bind)
  note writes = this
  have gen: "ensures (frame c S) out (sh_bind (sh_of (res_bind (generate_test_plans tc end_state analysis_mode g) (from_option TypeError)))
      (\<lambda>(numbers, files). sh_bind (sh_for (snd files) (\<lambda>(file_name, plan). dump_to_yaml plan file_name)) (\<lambda>_.
        sh_return (analysis_mode, numbers_json numbers))))"
  proof (cases "res_bind (generate_test_plans tc end_state analysis_mode g) (from_option TypeError)")
    case (Inl e)
    then show ?thesis by (simp add: fr.ensures_still)
  next
    case (Inr r)
    obtain numbers files where r: "r = (numbers, files)" by (rule prod.exhaust)
    have "generate_test_plans tc end_state analysis_mode g = Inr (Some (numbers, files))" using Inr r by (auto simp: res_simps)
    from plans_below[OF this] show ?thesis by (simp add: Inr r writes fr.ensures_still)
  qed
  show ?thesis using clear_ofD(3,4)[OF dir] unfolding save_plans_of_policy_def Let_def
    by (intro fr.ensures_bind[OF _ gen] fr.ensures_bind frame_rmtree frame_makedirs) simp_all
qed

lemma frame_test_plans:
  assumes "\<And>mode. mode \<in> {STALE_STATE, UNOBSERVED_STATE, INTERMEDIATE_STATE} \<Longrightarrow>
      clear_of S (resolve c (tc_result_dir tc) @ [mode])"
    "\<not> S (resolve c (tc_result_root_dir tc @ ''/'' @ tc_controller tc @ ''-'' @ tc_test_workload tc @ ''.json''))"
  shows "ensures (frame c S) out (save_test_plans tc)"
proof -
  have "plain mode" if "mode \<in> {STALE_STATE, UNOBSERVED_STATE, INTERMEDIATE_STATE}" for mode
    using that by (auto simp: plain_def STALE_STATE_def UNOBSERVED_STATE_def INTERMEDIATE_STATE_def)
  then have "ensures (frame c S) out (sh_map (save_plans_of_policy tc end_state g) [STALE_STATE, UNOBSERVED_STATE, INTERMEDIATE_STATE])"
    for end_state g using assms(1) by (intro fr.ensures_map frame_policy_plans) auto
  then show ?thesis unfolding save_test_plans_def
    by (intro fr.ensures_bind frame_read_lines fr.ensures_still fr.ensures_reads fr.ensures_load frame_dump assms(2))
qed

section \<open>The run as a whole\<close>

text \<open>
  The directories of a run: its results, the results of the first pass, the oracle. What has to survive
  the commands of a run is what lies below the last two.
\<close>

definition result_path :: "test_context \<Rightarrow> path \<Rightarrow> path" where
  "result_path tc c = resolve c (tc_result_dir tc)"

definition first_path :: "test_context \<Rightarrow> path \<Rightarrow> path" where
  "first_path tc c = resolve c (first_pass_learn_result_dir (tc_result_dir tc))"

definition oracle_path :: "test_context \<Rightarrow> path \<Rightarrow> path" where
  "oracle_path tc c = resolve c (tc_oracle_dir tc)"

definition kept :: "test_context \<Rightarrow> path \<Rightarrow> path \<Rightarrow> bool" where
  "kept tc c q \<longleftrightarrow> prefix (first_path tc c) q \<or> prefix (oracle_path tc c) q"

text \<open>The paths a run works on are apart from each other.\<close>

definition learn_file :: "test_context \<Rightarrow> string" where
  "learn_file tc = tc_result_root_dir tc @ ''/'' @ tc_controller tc @ ''-'' @ tc_test_workload tc @ ''.json''"

definition separate :: "test_context \<Rightarrow> path \<Rightarrow> bool" where
  "separate tc c \<longleftrightarrow> clean_path c \<and> parallel (oracle_path tc c) (first_path tc c) \<and>
     list_all (\<lambda>p. parallel (first_path tc c) p \<and> parallel (oracle_path tc c) p)
       [result_path tc c, c @ [''sieve_server''], c @ [''kind_configs'']] \<and>
     (case kc_controller_deployment_file_path (tc_controller_config tc) of
        JStr name \<Rightarrow> \<not> kept tc c (resolve c name) \<and> \<not> kept tc c (resolve c (name @ ''.bkp'')) | _ \<Rightarrow> False) \<and>
     \<not> kept tc c (resolve c (learn_file tc)) \<and> \<not> prefix (result_path tc c) (resolve c (learn_file tc))"

lemma parallel_below: "parallel a b \<Longrightarrow> prefix a q \<Longrightarrow> parallel q b"
  by (meson parallelD1 parallelD2 parallelI prefix_order.trans prefix_same_cases)

lemma parallel_clear:
  assumes "parallel (first_path tc c) p" "parallel (oracle_path tc c) p" shows "clear_of (kept tc c) p"
proof -
  have "\<not> prefix a q" if "parallel a p" "prefix q p \<or> prefix p q" for a q
    using that(2)
  proof
    assume "prefix q p"
    then show ?thesis using that(1) by (meson parallelD1 prefix_order.trans)
  next
    assume "prefix p q"
    then show ?thesis using that(1) by (meson parallelD1 parallelD2 prefix_same_cases)
  qed
  then show ?thesis using assms by (auto simp: clear_of_def kept_def)
qed

lemma separate_clear:
  assumes "separate tc c"
  shows "clear_of (kept tc c) (result_path tc c)" "clear_of (kept tc c) (c @ [''sieve_server''])"
    "clear_of (kept tc c) (c @ [''kind_configs''])"
  using assms by (auto simp: separate_def intro!: parallel_clear)

definition learning :: "test_context \<Rightarrow> bool" where
  "learning tc \<longleftrightarrow> tc_mode tc = LEARN \<and> tc_build_oracle tc \<and> \<not> tc_postprocess tc \<and> tc_action_types tc = [] \<and> learn_plan tc \<and>
     py_truth (cc_update_oracle_file_enabled (tc_common_config tc))"

lemma pass_saves:
  assumes "learning tc" "separate tc c" "commands_keep out (kept tc c)" "w_cwd w = c" "run_pass tc out w = Some (Inr u, w')"
  shows "w_cwd w' = c" "kept tc c q \<Longrightarrow> node_at (w_files w') q = node_at (w_files w) q"
    "\<exists>f. result_saved out tc (w_files w') (result_path tc c) f"
proof -
  let ?S = "kept tc c"
  note clear = separate_clear[OF assms(2), unfolded result_path_def]
  obtain name where name: "kc_controller_deployment_file_path (tc_controller_config tc) = JStr name"
    "\<not> ?S (resolve c name)" "\<not> ?S (resolve c (name @ ''.bkp''))" and clean: "clean_path c"
    using assms(2) by (auto simp: separate_def split: json.splits)
  have learn: "tc_mode tc = LEARN" "tc_action_types tc = []" "learn_plan tc" using assms(1) by (auto simp: learning_def)
  have "ensures (frame c ?S) out (deploy_controller tc)" by (rule frame_deploy[OF assms(3) clean name])
  then have stages: "ensures (frame c ?S) out (in_order [prepare_test_plan tc, setup_cluster tc, run_workload_in_cluster tc, teardown_cluster])"
    unfolding teardown_cluster_def
    by (intro frame_structure frame_prepare_plan frame_setup_cluster frame_run_workload frame_cmd
        learn assms(3) clean clear)
  obtain w1 where w1: "in_order [prepare_test_plan tc, setup_cluster tc, run_workload_in_cluster tc, teardown_cluster] out w =
      Some (Inr (), w1)" and save: "save_history_and_end_state tc out w1 = Some (Inr (), w')"
    using assms(5) in_order_append[of "[prepare_test_plan tc, setup_cluster tc, run_workload_in_cluster tc, teardown_cluster]"
        "[save_history_and_end_state tc]"] by (auto simp: run_pass_def sh_returns in_order.simps)
  have f1: "frame c ?S w w1" using ensuresD[OF stages w1] .
  then have f2: "frame c ?S w w'" using ensuresD[OF frame_save[OF clear(1)] save] fr.rel_trans by blast
  show "w_cwd w' = c" "kept tc c q \<Longrightarrow> node_at (w_files w') q = node_at (w_files w) q"
    using f2 assms(4) by (auto simp: frame_def)
  have "w_cwd w1 = c" using f1 assms(4) by (auto simp: frame_def)
  then show "\<exists>f. result_saved out tc (w_files w') (result_path tc c) f"
    using save_pass_files[OF save] by (simp add: result_path_def)
qed

lemma holds_result_files: "result_saved out tc fs dir f \<Longrightarrow> holds_result fs dir f"
  by (auto simp: result_saved_def)

lemma two_passes:
  assumes "learning tc" "separate tc c" "commands_keep out (kept tc c)" "w_cwd w = c"
    "in_order [run_pass tc, save_previous_learn_results tc, run_pass tc] out w = Some (Inr u, w')"
  shows "w_cwd w' = c" "prefix (oracle_path tc c) q \<Longrightarrow> node_at (w_files w') q = node_at (w_files w) q"
    "\<exists>first. result_saved out tc (w_files w') (first_path tc c) first"
    "\<exists>second. result_saved out tc (w_files w') (result_path tc c) second"
proof -
  let ?D = "first_path tc c" and ?R = "result_path tc c" and ?O = "oracle_path tc c"
  have apart: "parallel ?D ?R" "parallel ?O ?D" "parallel ?O ?R" using assms(2) by (auto simp: separate_def)
  obtain w1 w2 where p1: "run_pass tc out w = Some (Inr (), w1)" and mv: "save_previous_learn_results tc out w1 = Some (Inr (), w2)"
    and p2: "run_pass tc out w2 = Some (Inr (), w')"
    using assms(5) by (auto simp: in_order.simps sh_returns)
  note s1 = pass_saves[OF assms(1-4) p1]
  note moved = previous_results_kept[OF mv, unfolded s1(1), folded first_path_def result_path_def, OF refl refl apart(1)]
  note s2 = pass_saves[OF assms(1-3) moved(1) p2]
  show "w_cwd w' = c" by (rule s2(1))
  show "node_at (w_files w') q = node_at (w_files w) q" if q: "prefix ?O q"
  proof -
    have "parallel q ?D" "parallel q ?R" using parallel_below[OF apart(2) q] parallel_below[OF apart(3) q] .
    then show ?thesis using q by (simp add: s2(2) moved(3) s1(2) kept_def)
  qed
  obtain first where "result_saved out tc (w_files w1) ?R first" using s1(3) by blast
  then have "result_saved out tc (w_files w2) ?D first" by (rule result_saved_cong) (rule moved(2))
  then have "result_saved out tc (w_files w') ?D first" by (rule result_saved_cong) (simp add: s2(2) kept_def)
  then show "\<exists>first. result_saved out tc (w_files w') ?D first" ..
  show "\<exists>second. result_saved out tc (w_files w') ?R second" by (rule s2(3))
qed

lemma test_plans_leave:
  assumes "separate tc c" "save_test_plans tc out w = Some (Inr u, w')" "w_cwd w = c"
    "kept tc c q \<or> q \<in> (\<lambda>x. result_path tc c @ [x]) ` {''apiserver1.log'', ''controller_family.json'', ''event.json'', ''state.json''}"
  shows "node_at (w_files w') q = node_at (w_files w) q"
proof -
  let ?names = "{''apiserver1.log'', ''controller_family.json'', ''event.json'', ''state.json''}"
  let ?S = "\<lambda>q. kept tc c q \<or> q \<in> (\<lambda>x. result_path tc c @ [x]) ` ?names"
  have "clear_of ?S (result_path tc c @ [mode])" if "mode \<in> {STALE_STATE, UNOBSERVED_STATE, INTERMEDIATE_STATE}" for mode
  proof -
    have names: "mode \<notin> ?names" using that by (auto simp: STALE_STATE_def UNOBSERVED_STATE_def INTERMEDIATE_STATE_def)
    have "\<not> ?S p" if p: "prefix p (result_path tc c @ [mode]) \<or> prefix (result_path tc c @ [mode]) p" for p
    proof -
      have "\<not> kept tc c p" using p
      proof
        assume "prefix (result_path tc c @ [mode]) p"
        then have "prefix (result_path tc c) p" by (rule append_prefixD)
        then show ?thesis by (rule clear_ofD(4)[OF separate_clear(1)[OF assms(1)]])
      qed (rule clear_below[OF separate_clear(1)[OF assms(1)]])
      moreover have "p \<noteq> result_path tc c @ [x]" if "x \<in> ?names" for x
      proof
        assume "p = result_path tc c @ [x]"
        then have "prefix [x] [mode] \<or> prefix [mode] [x]" using p by (simp only: same_prefix_prefix)
        then have "x = mode" by auto
        then have "mode \<in> ?names" by (rule subst[where P = "\<lambda>y. y \<in> ?names"]) (rule that)
        with names show False by (rule notE)
      qed
      ultimately show ?thesis by blast
    qed
    then show ?thesis unfolding clear_of_def by blast
  qed
  moreover have "\<not> ?S (resolve c (learn_file tc))" using assms(1) by (auto simp: separate_def)
  ultimately have "ensures (frame c ?S) out (save_test_plans tc)"
    unfolding result_path_def learn_file_def by (intro frame_test_plans)
  from ensuresD[OF this assms(2)] assms(3)
  have "\<forall>q. ?S q \<longrightarrow> node_at (w_files w') q = node_at (w_files w) q" unfolding frame_def by blast
  from this[THEN spec, THEN mp, OF assms(4)] show ?thesis .
qed

text \<open>
  C3: after a learning run that builds the oracle and returns, the directory of the first pass and the
  result directory each hold the log of their pass and the files made from it, and the oracle
  directory holds exactly what the oracle construction makes of these two results. Of the
  commands it is used that they do not write into the oracle directory and the directory of the
  first pass, of the directories that none lies inside another.
\<close>

theorem oracle_from_both_passes:
  assumes "learning tc" "separate tc (w_cwd w)" "commands_keep out (kept tc (w_cwd w))"
    "node_at (w_files w) (oracle_path tc (w_cwd w) @ [''controller_family.json'']) \<noteq> Some Folder"
    "run_test tc out w = Some (Inr None, w')"
  shows "\<exists>first second ref.
    result_saved out tc (w_files w') (first_path tc (w_cwd w)) first \<and>
    result_saved out tc (w_files w') (result_path tc (w_cwd w)) second \<and>
    create_differential_oracles (ou_path_diff out) tc (sorted_files first) (sorted_files second) old = Inr ref \<and>
    holds_oracle (w_files w') (oracle_path tc (w_cwd w)) ref"
proof -
  define c where "c = w_cwd w"
  let ?D = "first_path tc c" and ?R = "result_path tc c" and ?O = "oracle_path tc c"
  have sep: "separate tc c" and keep: "commands_keep out (kept tc c)" using assms(2,3) by (simp_all add: c_def)
  have apart: "parallel ?D ?R" "parallel ?O ?D" "parallel ?O ?R" using sep by (auto simp: separate_def)
  have learn: "tc_mode tc = LEARN" "tc_build_oracle tc" "\<not> tc_postprocess tc"
    "py_truth (cc_update_oracle_file_enabled (tc_common_config tc))" using assms(1) by (auto simp: learning_def)
  obtain w2 w3 where both: "in_order [run_pass tc, save_previous_learn_results tc, run_pass tc] out w = Some (Inr (), w2)"
    and made: "create_oracle_files tc out w2 = Some (Inr (), w3)" and plans: "save_test_plans tc out w3 = Some (Inr (), w')"
    using assms(5) learn(1-3)
    by (auto simp: run_test_def sh_try_def post_process_def sh_when_def in_order.simps sh_returns split: option.splits sum.splits prod.splits if_splits)
  note p = two_passes[OF assms(1) sep keep c_def[symmetric] both]
  obtain first second where saved: "result_saved out tc (w_files w2) ?D first" "result_saved out tc (w_files w2) ?R second"
    using p(3,4) by blast
  have "node_at (w_files w2) (?O @ [''controller_family.json'']) \<noteq> Some Folder" using p(2) assms(4) by (simp add: c_def)
  note created = oracle_files_created[OF made learn(4), unfolded p(1), folded first_path_def result_path_def oracle_path_def,
      OF refl refl refl apart(2,3) this saved[THEN holds_result_files]]
  obtain ref where ref: "create_differential_oracles (ou_path_diff out) tc (sorted_files first) (sorted_files second) old = Inr ref"
    "holds_oracle (w_files w3) ?O ref" using created(1) by blast
  have keeps_other: "\<not> prefix ?O (dir @ x)" if "parallel ?O dir" for dir x
    using parallel_below[of ?O dir "dir @ x"] that by (auto simp: parallel_def)
  note left = test_plans_leave[OF sep plans created(2)]
  have "result_saved out tc (w_files w') ?D first" using saved(1)
    by (rule result_saved_cong) (simp add: left kept_def created(3)[OF keeps_other[OF apart(2)]])
  moreover have "result_saved out tc (w_files w') ?R second"
    using saved(2) by (simp add: result_saved_def holds_result_def left created(3)[OF keeps_other[OF apart(3)]])
  moreover have "holds_oracle (w_files w') ?O ref" using ref(2) by (simp add: holds_oracle_def left kept_def)
  ultimately show ?thesis using ref(1) unfolding c_def by blast
qed

section \<open>A sample run\<close>

definition run_config :: common_config where
  "run_config = \<lparr>
     cc_container_registry = JNull, cc_namespace = JStr ''default'', cc_leading_api = JNull, cc_following_api
     = JNull, cc_state_update_summary_check_enabled = JNull, cc_end_state_check_enabled = JNull,
     cc_workload_error_check_enabled = JNull, cc_controller_exception_check_enabled = JNull,
     cc_state_update_summary_check_event_list = JList [JStr ''ADDED'', JStr ''DELETED''],
     cc_compress_trivial_reconcile_enabled = JNull, cc_workload_conditional_wait_timeout = JNull,
     cc_workload_command_wait_timeout = JNull, cc_generate_debugging_information_enabled = JNull,
     cc_causality_pruning_enabled = JNull, cc_effective_updates_pruning_enabled = JNull,
     cc_nondeterministic_pruning_enabled = JNull, cc_persist_test_plans_enabled = JBool True,
     cc_field_key_mask = JObj [], cc_field_path_mask = JObj [], cc_state_update_summary_checker_mask = JNull,
     cc_update_oracle_file_enabled = JBool True \<rparr>"

definition run_controller :: controller_config where
  "run_controller = \<lparr>
     kc_controller_name = JNull, kc_github_link = JNull, kc_commit = JNull, kc_cherry_pick_commits = JNull,
     kc_kubernetes_version = JStr ''v1'', kc_client_go_version = JNull, kc_apimachinery_version = JNull,
     kc_go_mod = JNull, kc_vendored_controller_runtime_path = JNull, kc_vendored_client_go_path = JNull,
     kc_vendored_sieve_client_path = JNull, kc_dockerfile_path = JNull, kc_apis_to_instrument = JNull,
     kc_controller_image_name = JNull, kc_test_command = JStr ''run'', kc_loosen_reconciler_boundary = JNull,
     kc_custom_resource_definitions = JList [], kc_annotated_reconcile_functions = JObj [],
     kc_controller_pod_label = JNull, kc_container_name = JNull, kc_controller_deployment_file_path = JStr
     ''d'', kc_test_setting = JNull, kc_end_state_checker_mask = JNull, kc_state_update_summary_checker_mask =
     JNull \<rparr>"

definition run_tc :: test_context where
  "run_tc = \<lparr> tc_controller = ''c'', tc_controller_config_dir = ''f'', tc_test_workload = ''w'', tc_mode = LEARN,
     tc_postprocess = False, tc_build_oracle = True, tc_original_test_plan = ''learn.yaml'', tc_test_plan = ''r/learn/learn.yaml'',
     tc_result_root_dir = ''r'', tc_result_dir = ''r/learn'', tc_oracle_dir = ''o'', tc_container_registry = ''g'', tc_image_tag = LEARN,
     tc_num_apiservers = 1, tc_num_workers = 1, tc_use_csi_driver_for_ref = False, tc_use_csi_driver = False,
     tc_common_config = run_config, tc_controller_config = run_controller, tc_test_plan_content = None, tc_action_types = [] \<rparr>"

text \<open>The test writes one event into the log of the API server; the log of the Sieve server is empty.\<close>

definition run_outside :: outside where
  "run_outside = \<lparr> ou_system = (\<lambda>log cwd command fs. (0, if command = ''run w r/learn/workload.log''
       then [([''x'', ''r'', ''learn'', ''sieve-server.log''], File (Text []))] @
         AList.update [''x'', ''r'', ''learn'', ''apiserver1.log''] (File (Text (api_line ''ADDED'' ''pod'' ''b'' (JObj [])))) fs
       else fs)),
     ou_kill = (\<lambda>log p. Inr ()), ou_kube = (\<lambda>log. Inr ()), ou_pods = (\<lambda>log ns label. Inr [(''p'', ''Running'')]),
     ou_port = (\<lambda>log name. Inr ''1''), ou_yaml = (\<lambda>s. Inl ValueError), ou_json = loads, ou_doc = (\<lambda>v. []),
     ou_path_diff = (\<lambda>a b. ([], [])), ou_tree_diff = (\<lambda>a b. []), ou_environ = (\<lambda>v. None), ou_darwin = False,
     ou_hostname = ''h'', ou_traceback = (\<lambda>e. ''failed'') \<rparr>"

definition run_files :: files where
  "run_files = [([''x''], Folder), ([''x'', ''sieve_server''], Folder), ([''x'', ''f''], Folder),
       ([''x'', ''f'', ''deploy''], Folder), ([''x'', ''o''], Folder), ([''x'', ''d''], File (Text ''${SIEVE-DR}''))]"

lemma goes_kind:
  assumes "goes out c fs (delete_old_cluster 0) () c1 fs1" "goes out c1 fs1 (create_new_cluster create) () c2 fs2"
  shows "goes out c fs (kind_attempts create 0) () c2 fs2"
  unfolding goes_def
proof
  fix log
  obtain log1 where 1: "delete_old_cluster 0 out \<lparr> w_cwd = c, w_files = fs, w_log = log \<rparr> =
      Some (Inr (), \<lparr> w_cwd = c1, w_files = fs1, w_log = log1 \<rparr>)" using assms(1) by (auto simp: goes_def)
  obtain log2 where "create_new_cluster create out \<lparr> w_cwd = c1, w_files = fs1, w_log = log1 \<rparr> =
      Some (Inr (), \<lparr> w_cwd = c2, w_files = fs2, w_log = log2 \<rparr>)" using assms(2) by (auto simp: goes_def)
  with 1 show "\<exists>log'. kind_attempts create 0 out \<lparr> w_cwd = c, w_files = fs, w_log = log \<rparr> =
      Some (Inr (), \<lparr> w_cwd = c2, w_files = fs2, w_log = log' \<rparr>)" by (simp add: kind_attempts.simps)
qed

lemma goes_wait:
  assumes "\<And>log. evals (ou_pods out log ''kube-system'' ''component=kube-apiserver'') (Inr pods)"
    "evals (length pods = num \<and> list_all (\<lambda>(name, phase). phase = ''Running'') pods) True"
  shows "goes out c fs (wait_for_apiservers num 600) () c fs"
proof -
  have "goes out c fs (wait_for_apiservers num (Suc 599)) () c fs"
    unfolding wait_for_apiservers.simps list_namespaced_pod_def
    by (rule goes_bind, rule goes_ask, rule assms(1)) (simp only: assms(2)[unfolded evals_def] goes_return if_True simp_thms)
  then show ?thesis by simp
qed

lemma goes_wait_controller:
  assumes "\<And>log. evals (ou_pods out log ns label) (Inr pods)" "evals (first_running pods) True"
  shows "goes out c fs (wait_for_controller ns label 600) True c fs"
proof -
  have "goes out c fs (wait_for_controller ns label (Suc 599)) True c fs"
    unfolding wait_for_controller.simps list_namespaced_pod_def
    by (rule goes_bind, rule goes_ask, rule assms(1)) (simp only: assms(2)[unfolded evals_def] goes_return if_True)
  then show ?thesis by simp
qed

lemma goes_pods: "(\<And>log. evals (ou_pods out log ns label) (Inr pods)) \<Longrightarrow> goes out c fs (list_namespaced_pod ns label) pods c fs"
  unfolding list_namespaced_pod_def by (rule goes_ask)

lemma goes_kill: "(\<And>log. evals (ou_kill out log p) (Inr ())) \<Longrightarrow> goes out c fs (killpg p) () c fs"
  by (simp add: evals_def goes_def killpg_def)

lemmas stage_defs = result_file_def load_dict_def  run_test_def run_pass_def prepare_test_plan_def rmtree_if_exists_def path_exists_def is_dir_def makedirs_def rmtree_def move_def
    create_plan_for_learn_mode_def dump_doc_def write_content_def setup_cluster_def setup_kind_cluster_def Let_def create_kind_config_def
    write_text_def load_kube_config_def prepare_sieve_server_def copy_def start_sieve_server_def create_configmap_def sleep_def
    delete_old_cluster_def create_new_cluster_def run_workload_in_cluster_def start_controller_def deploy_controller_def copyfile_def
    remove_file_def get_apiserver_ports_def container_port_def controller_pod_name_def start_streaming_def stop_sieve_server_def
    teardown_cluster_def save_history_and_end_state_def save_controller_family_def save_run_history_def save_end_state_def
    read_lines_def dump_json_file_def save_previous_learn_results_def post_process_def create_oracle_files_def save_test_plans_def
    save_plans_of_policy_def dump_to_yaml_def

lemma sample_learning_run: "\<exists>c fs. goes run_outside [''x''] run_files (run_test run_tc) None c fs"
  by (intro exI, ((rule goes_kind goes_wait goes_wait_controller goes_pods goes_kill goes_steps goes_for goes_map) |
    (rule goes_choices, (code_simp; fail)) | (rule evals_now, (code_simp)?, rule evals_refl) | (simp only: stage_defs))+)

lemma sample_paths: "first_path run_tc [''x''] = [''x'', ''r'', ''learn_prev'']" "oracle_path run_tc [''x''] = [''x'', ''o'']"
  by code_simp+

theorem oracle_from_both_passes_witness:
  "\<exists>w' first second ref.
    run_test run_tc run_outside \<lparr> w_cwd = [''x''], w_files = run_files, w_log = [] \<rparr> = Some (Inr None, w') \<and>
    result_saved run_outside run_tc (w_files w') [''x'', ''r'', ''learn_prev''] first \<and>
    result_saved run_outside run_tc (w_files w') (result_path run_tc [''x'']) second \<and>
    create_differential_oracles (ou_path_diff run_outside) run_tc (sorted_files first) (sorted_files second) no_oracle = Inr ref \<and>
    holds_oracle (w_files w') [''x'', ''o''] ref"
proof -
  let ?w = "\<lparr> w_cwd = [''x''], w_files = run_files, w_log = [] \<rparr>"
  obtain w' where w': "run_test run_tc run_outside ?w = Some (Inr None, w')"
    using sample_learning_run unfolding goes_def by blast
  have "learning run_tc" "separate run_tc [''x'']" by code_simp+
  moreover have "commands_keep run_outside (kept run_tc [''x''])"
    by (auto simp: commands_keep_def kept_def sample_paths run_outside_def node_at_def)
  moreover have "node_at run_files (oracle_path run_tc [''x''] @ [''controller_family.json'']) \<noteq> Some Folder" by code_simp
  ultimately show ?thesis
    using oracle_from_both_passes[of run_tc ?w run_outside w' no_oracle] w' by (auto simp: sample_paths)
qed

end
