(* ===== verification/Reproduce.thy ===== *)
theory Reproduce
  imports Sieve_Main
begin

text \<open>
  Running the known bugs again and reporting, \<^verbatim>\<open>reproduce_bugs.py\<close> and \<^verbatim>\<open>report_bugs.py\<close>. Both read the result files that
  \<^verbatim>\<open>sieve.py\<close> wrote; \<^verbatim>\<open>reproduce_bugs.py\<close> starts \<^verbatim>\<open>sieve.py\<close> as a command.
\<close>

section \<open>The known bugs\<close>

definition manifest_map :: "(string \<times> string) list" where
  "manifest_map =
    [
     (''cass-operator'', ''examples/cass-operator/''),
     (''cassandra-operator'', ''examples/cassandra-operator/''),
     (''casskop-operator'', ''examples/casskop-operator/''),
     (''elastic-operator'', ''examples/elastic-operator/''),
     (''mongodb-operator'', ''examples/mongodb-operator/''),
     (''nifikop-operator'', ''examples/nifikop-operator/''),
     (''rabbitmq-operator'', ''examples/rabbitmq-operator/''),
     (''xtradb-operator'', ''examples/xtradb-operator/''),
     (''yugabyte-operator'', ''examples/yugabyte-operator/''),
     (''zookeeper-operator'', ''examples/zookeeper-operator/'')]"

text \<open>The functions a table entry names, to be called before and after a bug is reproduced.\<close>

datatype hook = Before_Yugabyte | After_Yugabyte | Before_Cassandra | After_Cassandra

text \<open>An entry: the workload, the test plan and the functions that follow them in the list, if any.\<close>

type_synonym known_bug = "string \<times> string \<times> hook list"

definition reprod_map :: "(string \<times> (string \<times> known_bug) list) list" where
  "reprod_map = [
    (''cass-operator'', [
      (''intermediate-state-1'', (''recreate'', ''cass-operator-intermediate-state-1.yaml'', [])),
      (''intermediate-state-2'', (''recreate'', ''cass-operator-intermediate-state-2.yaml'', [])),
      (''stale-state-1'', (''recreate'', ''cass-operator-stale-state-1.yaml'', []))]),
    (''cassandra-operator'', [
      (''stale-state-1'', (''recreate'', ''cassandra-operator-stale-state-1.yaml'', [])),
      (''stale-state-2'', (''scaledown-scaleup'', ''cassandra-operator-stale-state-2.yaml'', [])),
      (''unobserved-state-1'', (''scaledown-scaleup'', ''cassandra-operator-unobserved-state-1.yaml'', [])),
      (''indirect-1'', (''scaledown-scaleup'', ''cassandra-operator-indirect-1.yaml'', [Before_Cassandra, After_Cassandra])),
      (''indirect-2'', (''scaledown-scaleup-brittle'', ''cassandra-operator-indirect-2.yaml'', []))]),
    (''casskop-operator'', [
      (''intermediate-state-1'', (''scaledown-to-zero'', ''casskop-intermediate-state-1.yaml'', [])),
      (''stale-state-1'', (''recreate'', ''casskop-stale-state-1.yaml'', [])),
      (''stale-state-2'', (''reducepdb'', ''casskop-stale-state-2.yaml'', [])),
      (''unobserved-state-1'', (''scaledown-to-zero'', ''casskop-unobserved-state-1.yaml'', []))]),
    (''elastic-operator'', [
      (''stale-state-1'', (''recreate'', ''elastic-operator-stale-state-1.yaml'', [])),
      (''stale-state-2'', (''scaledown-scaleup'', ''elastic-operator-stale-state-2.yaml'', []))]),
    (''mongodb-operator'', [
      (''intermediate-state-1'', (''disable-enable-shard'', ''mongodb-operator-intermediate-state-1.yaml'', [])),
      (''intermediate-state-2'', (''run-cert-manager'', ''mongodb-operator-intermediate-state-2.yaml'', [])),
      (''stale-state-1'', (''recreate'', ''mongodb-operator-stale-state-1.yaml'', [])),
      (''stale-state-2'', (''disable-enable-shard'', ''mongodb-operator-stale-state-2.yaml'', [])),
      (''stale-state-3'', (''disable-enable-arbiter'', ''mongodb-operator-stale-state-3.yaml'', [])),
      (''unobserved-state-1'', (''disable-enable-arbiter'', ''mongodb-operator-unobserved-state-1.yaml'', [])),
      (''indirect-1'', (''disable-enable-shard'', ''mongodb-operator-indirect-1.yaml'', [])),
      (''indirect-2'', (''recreate'', ''mongodb-operator-indirect-2.yaml'', [])),
      (''indirect-3'', (''disable-enable-shard-brittle'', ''mongodb-operator-indirect-3.yaml'', []))]),
    (''nifikop-operator'', [
      (''intermediate-state-1'', (''change-config'', ''nifikop-intermediate-state-1.yaml'', [])),
      (''intermediate-state-2'', (''recreate'', ''nifikop-intermediate-state-2.yaml'', [])),
      (''indirect-1'', (''scaledown-scaleup'', ''nifikop-indirect-1.yaml'', []))]),
    (''rabbitmq-operator'', [
      (''intermediate-state-1'', (''resize-pvc'', ''rabbitmq-operator-intermediate-state-1.yaml'', [])),
      (''stale-state-1'', (''recreate'', ''rabbitmq-operator-stale-state-1.yaml'', [])),
      (''stale-state-2'', (''resize-pvc'', ''rabbitmq-operator-stale-state-2.yaml'', [])),
      (''unobserved-state-1'', (''scaleup-scaledown'', ''rabbitmq-operator-unobserved-state-1.yaml'', []))]),
    (''xtradb-operator'', [
      (''intermediate-state-1'', (''disable-enable-proxysql'', ''xtradb-operator-intermediate-state-1.yaml'', [])),
      (''intermediate-state-2'', (''run-cert-manager'', ''xtradb-operator-intermediate-state-2.yaml'', [])),
      (''intermediate-state-3'', (''recreate'', ''xtradb-operator-intermediate-state-3.yaml'', [])),
      (''stale-state-1'', (''recreate'', ''xtradb-operator-stale-state-1.yaml'', [])),
      (''stale-state-2'', (''disable-enable-haproxy'', ''xtradb-operator-stale-state-2.yaml'', [])),
      (''stale-state-3'', (''disable-enable-proxysql'', ''xtradb-operator-stale-state-3.yaml'', [])),
      (''unobserved-state-1'', (''scaleup-scaledown'', ''xtradb-operator-unobserved-state-1.yaml'', []))]),
    (''yugabyte-operator'', [
      (''stale-state-1'', (''disable-enable-tls'', ''yugabyte-operator-stale-state-1.yaml'', [])),
      (''stale-state-2'', (''disable-enable-tuiport'', ''yugabyte-operator-stale-state-2.yaml'', [])),
      (''unobserved-state-1'', (''scaleup-scaledown-tserver'', ''yugabyte-operator-unobserved-state-1.yaml'', [])),
      (''indirect-1'', (''disable-enable-tuiport'', ''yugabyte-operator-indirect-1.yaml'', [Before_Yugabyte, After_Yugabyte])),
      (''indirect-2'', (''disable-enable-tls'', ''yugabyte-operator-indirect-2.yaml'', []))]),
    (''zookeeper-operator'', [
      (''stale-state-1'', (''recreate'', ''zookeeper-operator-stale-state-1.yaml'', [])),
      (''stale-state-2'', (''scaledown-scaleup'', ''zookeeper-operator-stale-state-2.yaml'', [])),
      (''unobserved-state-1'', (''scaledown-scaleup'', ''zookeeper-operator-unobserved-state-1.yaml'', [])),
      (''indirect-1'', (''recreate'', ''zookeeper-operator-indirect-1.yaml'', []))])]"

section \<open>Before and after\<close>

definition yugabyte_crd :: string where
  "yugabyte_crd = ''examples/yugabyte-operator/deploy/crds/yugabyte.com_ybclusters_crd.yaml''"

definition cassandra_cfg :: string where
  "cassandra_cfg = ''examples/cassandra-operator/config.json''"

definition bkp :: "string \<Rightarrow> string" where
  "bkp name = name @ ''.bkp''"

definition before_reproducing_yugabyte_operator_indirect_1 :: "unit shell" where
  "before_reproducing_yugabyte_operator_indirect_1 =
     sh_bind (copy yugabyte_crd (bkp yugabyte_crd)) (\<lambda>_.
     sh_bind (read_text yugabyte_crd) (\<lambda>data.
       write_text yugabyte_crd (py_replace ''# minimum: 1'' ''minimum: 1'' data)))"

definition after_reproducing_yugabyte_operator_indirect_1 :: "unit shell" where
  "after_reproducing_yugabyte_operator_indirect_1 = move (bkp yugabyte_crd) yugabyte_crd"

definition build_cassandra :: "unit shell" where
  "build_cassandra = sh_bind (system ''python3 build.py -c cassandra-operator -m test > /dev/null 2>&1'') (\<lambda>_. sh_return ())"

text \<open>\<open>del data[k]\<close>.\<close>

definition del_key :: "string \<Rightarrow> json \<Rightarrow> json res" where
  "del_key k j = (case j of
       JObj m \<Rightarrow> if map_of m k = None then Inl KeyError else Inr (JObj (AList.delete k m))
     | _ \<Rightarrow> Inl TypeError)"

definition before_reproducing_cassandra_operator_indirect_1 :: "unit shell" where
  "before_reproducing_cassandra_operator_indirect_1 =
     sh_bind (copy cassandra_cfg (bkp cassandra_cfg)) (\<lambda>_.
     sh_bind (load_json cassandra_cfg) (\<lambda>data.
     sh_bind (sh_of (del_key ''cherry_pick_commits'' data)) (\<lambda>data. in_order
       [dump_doc data cassandra_cfg, build_cassandra])))"

definition after_reproducing_cassandra_operator_indirect_1 :: "unit shell" where
  "after_reproducing_cassandra_operator_indirect_1 = in_order [move (bkp cassandra_cfg) cassandra_cfg, build_cassandra]"

primrec run_hook :: "hook \<Rightarrow> unit shell" where
  "run_hook Before_Yugabyte = before_reproducing_yugabyte_operator_indirect_1"
| "run_hook After_Yugabyte = after_reproducing_yugabyte_operator_indirect_1"
| "run_hook Before_Cassandra = before_reproducing_cassandra_operator_indirect_1"
| "run_hook After_Cassandra = after_reproducing_cassandra_operator_indirect_1"

definition before_hook :: "hook list \<Rightarrow> unit shell" where
  "before_hook hooks = (case hooks of [] \<Rightarrow> sh_return () | h # _ \<Rightarrow> run_hook h)"

definition after_hook :: "hook list \<Rightarrow> unit shell" where
  "after_hook hooks = (if length hooks = 2 then run_hook (hooks ! 1) else sh_return ())"

section \<open>Reproducing\<close>

definition bug_of :: "string \<Rightarrow> string \<Rightarrow> known_bug res" where
  "bug_of controller bug = res_bind (from_option KeyError (map_of reprod_map controller)) (\<lambda>bugs.
     from_option KeyError (map_of bugs bug))"

text \<open>\<open>n > 0\<close> for a JSON value.\<close>

definition py_positive :: "json \<Rightarrow> bool res" where
  "py_positive j = (case j of JInt i \<Rightarrow> Inr (i > 0) | JBool b \<Rightarrow> Inr b | _ \<Rightarrow> Inl TypeError)"

definition reproduction_plan :: "string \<Rightarrow> string" where
  "reproduction_plan file_name = path_join ''bug_reproduction_test_plans'' file_name"

definition sieve_command :: "string \<Rightarrow> string \<Rightarrow> string \<Rightarrow> string" where
  "sieve_command manifest test_plan registry =
     ''python3 sieve.py -c '' @ manifest @ '' -m test -p '' @ test_plan @ '' -r '' @ registry"

definition test_result_file :: "string \<Rightarrow> string \<Rightarrow> string \<Rightarrow> string" where
  "test_result_file controller test_workload test_plan =
     ''sieve_test_results/'' @ controller @ ''-'' @ test_workload @ ''-'' @ basename test_plan @ ''.json''"

text \<open>Whether the result file of the run tells of errors.\<close>

definition reproduced :: "string \<Rightarrow> string \<Rightarrow> string \<Rightarrow> json \<Rightarrow> bool res" where
  "reproduced controller test_workload test_plan test_result =
     res_bind (py_getitem test_result controller) (\<lambda>r1.
     res_bind (py_getitem r1 test_workload) (\<lambda>r2.
     res_bind (py_getitem r2 ''test'') (\<lambda>r3.
     res_bind (py_getitem r3 test_plan) (\<lambda>content.
     res_bind (py_getitem content ''number_errors'') py_positive))))"

text \<open>The result: whether the bug showed, and the file that says so.\<close>

definition reproduce_single_bug :: "string \<Rightarrow> string \<Rightarrow> string \<Rightarrow> bool \<Rightarrow> (bool \<times> string) shell" where
  "reproduce_single_bug controller bug registry skip =
     sh_bind (sh_of (bug_of controller bug)) (\<lambda>(test_workload, plan_name, hooks).
     sh_bind (before_hook hooks) (\<lambda>_.
     let test_plan = reproduction_plan plan_name; result = test_result_file controller test_workload test_plan in
     sh_bind (sh_of (from_option KeyError (map_of manifest_map controller))) (\<lambda>manifest.
     sh_bind (sh_when (\<not> skip) (sh_bind (system (sieve_command manifest test_plan registry)) (\<lambda>_. sh_return ()))) (\<lambda>_.
     sh_bind (after_hook hooks) (\<lambda>_.
     sh_bind (load_json result) (\<lambda>test_result.
     sh_bind (sh_of (reproduced controller test_workload test_plan test_result)) (\<lambda>b.
       sh_return (b, result))))))))"

definition categories :: "string list" where
  "categories = [''intermediate-state'', ''unobserved-state'', ''stale-state'', ''indirect'']"

text \<open>The bugs of a controller that a name given on the command line stands for.\<close>

definition selected_bugs :: "string \<Rightarrow> string \<Rightarrow> string list res" where
  "selected_bugs controller bug =
     (if bug = ''all'' \<or> bug \<in> set categories then
        res_bind (from_option KeyError (map_of reprod_map controller)) (\<lambda>bugs.
          Inr (filter (\<lambda>b. if bug = ''all'' then \<not> py_contains ''indirect'' b else py_startswith b bug) (map fst bugs)))
      else Inr [bug])"

type_synonym bug_stats = "(string \<times> bool \<times> string) list"

definition reproduce_bug :: "string \<Rightarrow> string \<Rightarrow> string \<Rightarrow> bool \<Rightarrow> bug_stats shell" where
  "reproduce_bug controller bug registry skip =
     sh_bind (sh_of (selected_bugs controller bug)) (\<lambda>bugs.
       sh_map (\<lambda>b. sh_bind (reproduce_single_bug controller b registry skip) (\<lambda>r. sh_return (b, r))) bugs)"

section \<open>Tables\<close>

definition row :: "string list \<Rightarrow> string" where
  "row cells = py_join [CHR 0x09] cells @ newline"

definition stats_rows :: "(string \<times> bug_stats) list \<Rightarrow> string list" where
  "stats_rows stats_map = concat (map (\<lambda>(controller, bugs). map (\<lambda>(bug, b, result).
     row [controller, bug, if b then ''True'' else ''False'', result]) bugs) stats_map)"

definition stats_table :: "(string \<times> bug_stats) list \<Rightarrow> string" where
  "stats_table stats_map =
     row [''controller'', ''bug'', ''reproduced'', ''test-result-file''] @ concat (stats_rows stats_map)"

text \<open>The counts of table 3: of the controllers, in the order they come, and in total.\<close>

record counts =
  ct_intermediate :: nat
  ct_stale :: nat
  ct_unobserved :: nat

definition no_counts :: counts where
  "no_counts = \<lparr> ct_intermediate = 0, ct_stale = 0, ct_unobserved = 0 \<rparr>"

definition count_bug :: "string \<Rightarrow> counts \<Rightarrow> counts" where
  "count_bug bug c =
     (if py_startswith bug ''intermediate-state'' then c\<lparr> ct_intermediate := ct_intermediate c + 1 \<rparr>
      else if py_startswith bug ''stale-state'' then c\<lparr> ct_stale := ct_stale c + 1 \<rparr>
      else if py_startswith bug ''unobserved-state'' then c\<lparr> ct_unobserved := ct_unobserved c + 1 \<rparr>
      else c)"

type_synonym table3 = "(string \<times> counts) list \<times> counts"

definition count_line :: "table3 \<Rightarrow> string \<Rightarrow> table3 res" where
  "count_line t line =
     (case py_split (CHR 0x09) (strip_while py_space line) of
        controller # bug # _ \<Rightarrow>
          (case t of (rows, sums) \<Rightarrow>
            let c = (case map_of rows controller of None \<Rightarrow> no_counts | Some c \<Rightarrow> c)
            in Inr (AList.update controller (count_bug bug c) rows, count_bug bug sums))
      | _ \<Rightarrow> Inl IndexError)"

definition counts_row :: "string \<Rightarrow> counts \<Rightarrow> string" where
  "counts_row name c = row [name, nat_str (ct_intermediate c), nat_str (ct_stale c), nat_str (ct_unobserved c)]"

definition name_in_table :: "string \<Rightarrow> string" where
  "name_in_table controller = (if controller = ''casskop-operator'' \<or> controller = ''nifikop-operator''
     then hd (py_split (CHR ''-'') controller) else controller)"

definition table3_text :: "table3 \<Rightarrow> string" where
  "table3_text t = row [''Controller'', ''Intermediate-State'', ''Stale-State'', ''Unobserved-State''] @
     concat (map (\<lambda>(controller, c). counts_row (name_in_table controller) c) (fst t)) @ counts_row ''Total'' (snd t)"

text \<open>The table is written after every line, so that the last one stays.\<close>

primrec table3_lines :: "string list \<Rightarrow> table3 \<Rightarrow> unit shell" where
  "table3_lines [] t = sh_return ()"
| "table3_lines (line # lines) t = sh_bind (sh_of (count_line t line)) (\<lambda>t1.
     sh_bind (write_text ''table3.tsv'' (table3_text t1)) (\<lambda>_. table3_lines lines t1))"

definition generate_table3 :: "unit shell" where
  "generate_table3 = sh_bind (read_lines ''bug_reproduction_stats.tsv'') (\<lambda>lines. table3_lines (tl lines) ([], no_counts))"

section \<open>The scripts\<close>

text \<open>On the parsed options: no registry stands for the default of the configuration.\<close>

definition reproduce_main :: "string option \<Rightarrow> string \<Rightarrow> string option \<Rightarrow> bool \<Rightarrow> unit shell" where
  "reproduce_main controller bug registry skip =
     sh_bind load_common_config (\<lambda>common_config.
     sh_bind (sh_of (case registry of
         Some r \<Rightarrow> Inr r
       | None \<Rightarrow> (case cc_container_registry common_config of JStr r \<Rightarrow> Inr r | _ \<Rightarrow> Inl OutOfModel))) (\<lambda>registry.
     case controller of
       None \<Rightarrow> sh_raise SystemExit
     | Some controller \<Rightarrow>
       sh_bind (sh_when (\<not> skip) (rmtree_if_exists ''sieve_test_results'')) (\<lambda>_.
       sh_bind (sh_map (\<lambda>c. sh_bind (reproduce_bug c bug registry skip) (\<lambda>stats. sh_return (c, stats)))
         (if controller = ''all'' then map fst reprod_map else [controller])) (\<lambda>stats_map.
       sh_bind (write_text ''bug_reproduction_stats.tsv'' (stats_table stats_map)) (\<lambda>_.
         sh_when (controller = ''all'' \<and> bug = ''all'') generate_table3)))))"

text \<open>
  \<^verbatim>\<open>report_bugs.py\<close>: the result files with a run that was completed, ended without an exception and found
  errors. A file is named once for each such run.
\<close>

definition as_items :: "json \<Rightarrow> (string \<times> json) list res" where
  "as_items j = (case j of JObj m \<Rightarrow> Inr m | _ \<Rightarrow> Inl OutOfModel)"

definition potential_bug :: "json \<Rightarrow> bool res" where
  "potential_bug inner_result =
     res_bind (py_getitem inner_result ''injection_completed'') (\<lambda>a. if \<not> py_truth a then Inr False else
     res_bind (py_getitem inner_result ''workload_completed'') (\<lambda>b. if \<not> py_truth b then Inr False else
     res_bind (py_getitem inner_result ''no_exception'') (\<lambda>c. if \<not> py_truth c then Inr False else
     res_bind (py_getitem inner_result ''number_errors'') py_positive)))"

definition results_in :: "json \<Rightarrow> json list res" where
  "results_in test_result =
     res_bind (as_items test_result) (\<lambda>controllers.
     res_bind (res_map (\<lambda>(_, r). res_bind (as_items r) (\<lambda>test_cases.
       res_bind (res_map (\<lambda>(_, r). res_bind (as_items r) (\<lambda>modes.
         res_bind (res_map (\<lambda>(_, r). res_bind (as_items r) (\<lambda>plans. Inr (map snd plans))) modes)
           (\<lambda>rs. Inr (concat rs)))) test_cases) (\<lambda>rs. Inr (concat rs)))) controllers) (\<lambda>rs. Inr (concat rs)))"

definition report_of_file :: "string \<Rightarrow> json \<Rightarrow> string res" where
  "report_of_file name test_result =
     res_bind (results_in test_result) (\<lambda>rs.
     res_bind (res_filter potential_bug rs) (\<lambda>bugs. Inr (concat (replicate (length bugs) (name @ newline)))))"

definition report_bugs :: "string shell" where
  "report_bugs =
     sh_bind (glob_ending ''sieve_test_results'' ''.json'') (\<lambda>test_result_files.
     sh_bind (sh_map (\<lambda>f. sh_bind (load_json f) (\<lambda>r. sh_of (report_of_file f r))) test_result_files) (\<lambda>reports.
       sh_return (concat reports)))"

end
