(* ===== verification/Sieve_Cluster.thy ===== *)
theory Sieve_Cluster
  imports Sieve_Run
begin

text \<open>
  How the creation of a cluster ends, and what deploying the controller does to the deployment file.
\<close>

section \<open>Creating the cluster\<close>

definition exit_code :: "outside \<Rightarrow> action list \<Rightarrow> path \<Rightarrow> string \<Rightarrow> files \<Rightarrow> nat" where
  "exit_code out log cwd command fs = WEXITSTATUS (fst (ou_system out log cwd command fs))"

definition is_run :: "string \<Rightarrow> action \<Rightarrow> bool" where
  "is_run command a \<longleftrightarrow> (case a of Ran _ c _ \<Rightarrow> c = command | _ \<Rightarrow> False)"

lemma is_run_simps [simp]: "is_run c (Ran p c' s) \<longleftrightarrow> c' = c" "\<not> is_run c (Slept n)"
  by (simp_all add: is_run_def)

text \<open>A command that may fail the script: what it does, and when it raises.\<close>

lemma sh_cmd_steps:
  "\<exists>w' status. sh_cmd command out w = Some (if WEXITSTATUS status = 0 then Inr ()
      else Inl (PyException (''Failed to execute '' @ command @ '' with return code '' @ nat_str (WEXITSTATUS status))), w') \<and>
    WEXITSTATUS status = exit_code out (w_log w) (w_cwd w) command (w_files w) \<and>
    w_log w' = w_log w @ [Ran (w_cwd w) command status]"
proof -
  obtain status fs where "ou_system out (w_log w) (w_cwd w) command (w_files w) = (status, fs)" by fastforce
  then show ?thesis
    by (simp add: sh_cmd_def os_system_def system_def sh_bind_def sh_return_def sh_raise_def Let_def exit_code_def)
qed

definition deletion :: string where "deletion = ''kind delete cluster''"

definition copy_config :: string where
  "copy_config = ''docker exec kind-control-plane bash -c '' @ [CHR 0x27] @
     ''mkdir -p /root/.kube/ && cp /etc/kubernetes/admin.conf /root/.kube/config'' @ [CHR 0x27]"

lemma delete_steps:
  "\<exists>r w' new. delete_old_cluster n out w = Some (r, w') \<and> w_log w' = w_log w @ new \<and>
    length (filter (is_run deletion) new) = 1 \<and>
    ((\<exists>u. r = Inr u) \<longleftrightarrow> exit_code out (w_log w) (w_cwd w) deletion (w_files w) = 0)"
proof -
  obtain w1 status where w1: "sh_cmd deletion out w = Some (if WEXITSTATUS status = 0 then Inr ()
      else Inl (PyException (''Failed to execute '' @ deletion @ '' with return code '' @ nat_str (WEXITSTATUS status))), w1)"
    "WEXITSTATUS status = exit_code out (w_log w) (w_cwd w) deletion (w_files w)"
    "w_log w1 = w_log w @ [Ran (w_cwd w) deletion status]" using sh_cmd_steps by blast
  then show ?thesis unfolding delete_old_cluster_def in_order.simps deletion_def[symmetric]
    by (cases "WEXITSTATUS status = 0") (auto simp: sh_bind_def sh_return_def sleep_def sh_log_def)
qed

definition created :: "string \<Rightarrow> action list \<Rightarrow> bool" where
  "created create new \<longleftrightarrow> (\<exists>p q s t. new = [Ran p create s, Ran q copy_config t] \<and> WEXITSTATUS s = 0 \<and> WEXITSTATUS t = 0)"

lemma create_steps:
  assumes "create \<noteq> deletion"
  shows "\<exists>r w' new. create_new_cluster create out w = Some (r, w') \<and> w_log w' = w_log w @ new \<and>
    filter (is_run deletion) new = [] \<and> (\<forall>u. r = Inr u \<longrightarrow> created create new)"
proof -
  obtain w1 s where w1: "sh_cmd create out w = Some (if WEXITSTATUS s = 0 then Inr ()
      else Inl (PyException (''Failed to execute '' @ create @ '' with return code '' @ nat_str (WEXITSTATUS s))), w1)"
    "w_log w1 = w_log w @ [Ran (w_cwd w) create s]" using sh_cmd_steps by blast
  obtain w2 t where w2: "sh_cmd copy_config out w1 = Some (if WEXITSTATUS t = 0 then Inr ()
      else Inl (PyException (''Failed to execute '' @ copy_config @ '' with return code '' @ nat_str (WEXITSTATUS t))), w2)"
    "w_log w2 = w_log w1 @ [Ran (w_cwd w1) copy_config t]" using sh_cmd_steps by blast
  have "copy_config \<noteq> deletion" by (simp add: copy_config_def deletion_def)
  then show ?thesis using w1 w2 assms unfolding create_new_cluster_def in_order.simps copy_config_def[symmetric]
    by (cases "WEXITSTATUS s = 0"; cases "WEXITSTATUS t = 0") (auto simp: sh_bind_def sh_return_def created_def)
qed

text \<open>How the attempts end: with a cluster, or because there were enough of them.\<close>

definition attempts_end :: "string \<Rightarrow> nat \<Rightarrow> action list \<Rightarrow> bool" where
  "attempts_end create n new \<longleftrightarrow>
     length (filter (is_run deletion) new) = n \<or>
     length (filter (is_run deletion) new) \<le> n \<and>
       (\<exists>before after. new = before @ after \<and> created create after)"

lemma attempts_return:
  assumes "\<And>log cwd fs. exit_code out log cwd deletion fs = 0" "create \<noteq> deletion" "n \<le> 5"
  shows "\<exists>w' new. kind_attempts create n out w = Some (Inr (), w') \<and> w_log w' = w_log w @ new \<and> attempts_end create (5 - n) new"
  using assms(3)
proof (induction "5 - n" arbitrary: n w)
  case 0
  then show ?case by (auto simp: kind_attempts.simps attempts_end_def)
next
  case (Suc k)
  then have n: "\<not> 5 \<le> n" "5 - Suc n = k" "Suc n \<le> 5" by auto
  obtain r w1 new1 where d: "delete_old_cluster n out w = Some (r, w1)" "w_log w1 = w_log w @ new1"
    "length (filter (is_run deletion) new1) = 1" "\<exists>u. r = Inr u"
    using delete_steps[of n out w] assms(1) by auto
  obtain r2 w2 new2 where c: "create_new_cluster create out w1 = Some (r2, w2)" "w_log w2 = w_log w1 @ new2"
    "filter (is_run deletion) new2 = []" "\<forall>u. r2 = Inr u \<longrightarrow> created create new2"
    using create_steps[OF assms(2), of out w1] by blast
  show ?case
  proof (cases r2)
    case (Inr u)
    then have "kind_attempts create n out w = Some (Inr (), w2)" using d(1,4) c(1) n by (auto simp: kind_attempts.simps)
    moreover have "attempts_end create (5 - n) (new1 @ new2)" using c(3,4) d(3) Inr n by (fastforce simp: attempts_end_def)
    ultimately show ?thesis using c(2) d(2) by auto
  next
    case (Inl e)
    then have step: "kind_attempts create n out w = kind_attempts create (Suc n) out w2"
      using d(1,4) c(1) n by (auto simp: kind_attempts.simps)
    obtain w' new where w': "kind_attempts create (Suc n) out w2 = Some (Inr (), w')" "w_log w' = w_log w2 @ new"
      "attempts_end create k new" using Suc.hyps(1)[of "Suc n" w2] n by auto
    have count: "length (filter (is_run deletion) ((new1 @ new2) @ new)) = Suc (length (filter (is_run deletion) new))"
      using d(3) c(3) by simp
    have "attempts_end create (5 - n) ((new1 @ new2) @ new)" using w'(3) n Suc.hyps(2) unfolding attempts_end_def count
      by (metis Suc_le_mono append.assoc)
    then show ?thesis using w'(1,2) step c(2) d(2) by auto
  qed
qed

lemma attempts_diverge:
  assumes "\<And>log cwd fs. exit_code out log cwd deletion fs \<noteq> 0" "n < 5"
  shows "kind_attempts create n out w = None"
proof -
  have "False" if "kind_attempts create n out' w = Some y" "out' = out" "n < 5" for create n out' w y
    using that
  proof (induction create n out' w y rule: kind_attempts.raw_induct[rotated, consumes 1, case_names step])
    case (step f create n out' w y)
    obtain r w1 where "delete_old_cluster n out w = Some (r, w1)" "\<nexists>u. r = Inr u"
      using delete_steps[of n out w] assms(1) by auto
    then show ?case using step by (cases r; cases y) (auto split: if_splits)
  qed
  then show ?thesis using assms(2) by (metis not_Some_eq)
qed

text \<open>
  C15: when the old cluster can be deleted, the creation of the cluster returns after at most five
  attempts, with a cluster or after five failed attempts, and both times without an exception; when
  the deletion keeps failing it never returns, because the counter only goes up after a deletion.
\<close>

theorem cluster_attempts:
  assumes "create \<noteq> ''kind delete cluster''"
  shows "((\<forall>log cwd fs. exit_code out log cwd ''kind delete cluster'' fs = 0) \<longrightarrow>
      (\<exists>w' new. kind_attempts create 0 out w = Some (Inr (), w') \<and> w_log w' = w_log w @ new \<and> attempts_end create 5 new)) \<and>
    ((\<forall>log cwd fs. exit_code out log cwd ''kind delete cluster'' fs \<noteq> 0) \<longrightarrow> kind_attempts create 0 out w = None)"
  using attempts_return[of out create 0 w] attempts_diverge[of out 0 create w] assms by (auto simp: deletion_def)

text \<open>One outside where every command succeeds and one where every command fails.\<close>

definition all_exit :: "nat \<Rightarrow> outside" where
  "all_exit status = \<lparr> ou_system = (\<lambda>log cwd command fs. (status, fs)), ou_kill = (\<lambda>log p. Inr ()), ou_kube = (\<lambda>log. Inr ()),
     ou_pods = (\<lambda>log ns label. Inr []), ou_port = (\<lambda>log name. Inr []), ou_yaml = loads, ou_json = loads, ou_doc = dumps,
     ou_path_diff = (\<lambda>a b. ([], [])), ou_tree_diff = (\<lambda>a b. []), ou_environ = (\<lambda>v. None), ou_darwin = False,
     ou_hostname = [], ou_traceback = (\<lambda>e. []) \<rparr>"

definition empty_world :: world where
  "empty_world = \<lparr> w_cwd = [], w_files = [], w_log = [] \<rparr>"

theorem cluster_attempts_witness:
  "(\<exists>w' new. kind_attempts ''kind create cluster'' 0 (all_exit 0) empty_world = Some (Inr (), w') \<and> w_log w' = new \<and>
      attempts_end ''kind create cluster'' 5 new) \<and>
    kind_attempts ''kind create cluster'' 0 (all_exit 256) empty_world = None"
proof -
  have "''kind create cluster'' \<noteq> ''kind delete cluster''" by simp
  note c = cluster_attempts[OF this, of _ empty_world]
  have "\<forall>log cwd fs. exit_code (all_exit 0) log cwd ''kind delete cluster'' fs = 0"
    by (simp add: exit_code_def all_exit_def WEXITSTATUS_def)
  moreover have "\<forall>log cwd fs. exit_code (all_exit 256) log cwd ''kind delete cluster'' fs \<noteq> 0"
    by (simp add: exit_code_def all_exit_def WEXITSTATUS_def)
  ultimately show ?thesis using c[of "all_exit 0"] c[of "all_exit 256"] by (auto simp: empty_world_def)
qed

section \<open>The deployment file\<close>

text \<open>What the deploy script is given: the registry and the tag of the run in place of the marks.\<close>

definition deployed_text :: "test_context \<Rightarrow> string \<Rightarrow> string" where
  "deployed_text tc data = py_replace ''${SIEVE-DT}'' (tc_image_tag tc) (py_replace ''${SIEVE-DR}'' (tc_container_registry tc) data)"

definition deployment_paths :: "path \<Rightarrow> string \<Rightarrow> path \<Rightarrow> bool" where
  "deployment_paths c name q \<longleftrightarrow> q = resolve c name \<or> q = resolve c (name @ ''.bkp'')"

lemma copyfile_returns: "copyfile src dst out w = Some (Inr u, w') \<longleftrightarrow>
    (\<exists>x fs. node_at (w_files w) (resolve (w_cwd w) src) = Some (File x) \<and>
      put_file (resolve (w_cwd w) dst) x (w_files w) = Inr fs \<and> w' = w\<lparr> w_files := fs \<rparr>)"
  by (auto simp: copyfile_def copyfile_at_def sh_update_returns res_simps read_node_def split: option.splits node.splits)

lemma chdir_returns: "chdir p out w = Some (Inr u, w') \<longleftrightarrow>
    node_at (w_files w) (resolve (w_cwd w) p) = Some Folder \<and> w' = w\<lparr> w_cwd := resolve (w_cwd w) p \<rparr>"
  by (auto simp: chdir_def Let_def split: option.splits node.splits)

lemma remove_returns:
  assumes "remove_file p out w = Some (Inr u, w')"
  shows "w_cwd w' = w_cwd w" "node_at (w_files w') (resolve (w_cwd w) p) = None"
    "q \<noteq> resolve (w_cwd w) p \<Longrightarrow> node_at (w_files w') q = node_at (w_files w) q"
  using assms by (auto simp: remove_file_def sh_update_returns node_at_def map_of_filter_keys split: option.splits node.splits if_splits)

lemma read_text_returns: "read_text p out w = Some (Inr s, w') \<longleftrightarrow>
    w' = w \<and> (\<exists>x. node_at (w_files w) (resolve (w_cwd w) p) = Some (File x) \<and> s = text_of out x)"
  by (auto simp: read_text_def read_content_def read_node_def sh_returns split: option.splits node.splits)

lemma write_text_returns: "write_text p s out w = Some (Inr u, w') \<longleftrightarrow>
    (\<exists>fs. put_file (resolve (w_cwd w) p) (Text s) (w_files w) = Inr fs \<and> w' = w\<lparr> w_files := fs \<rparr>)"
  by (auto simp: write_text_def write_content_def sh_update_returns)

text \<open>The part of the deployment up to the script, in a directory \<open>c\<close>.\<close>

lemma deploy_until_script:
  assumes "copyfile name (name @ ''.bkp'') out w = Some (Inr (), w1)" "read_text name out w1 = Some (Inr data, w2)"
    "write_text name (deployed_text tc data) out w2 = Some (Inr (), w3)" "name_at = resolve (w_cwd w) name"
    "bkp_at = resolve (w_cwd w) (name @ ''.bkp'')" "name_at \<noteq> bkp_at"
  shows "\<exists>x. node_at (w_files w) name_at = Some (File x) \<and> node_at (w_files w3) bkp_at = Some (File x) \<and>
    node_at (w_files w3) name_at = Some (File (Text (deployed_text tc (text_of out x)))) \<and> w_cwd w3 = w_cwd w"
proof -
  obtain x fs1 where 1: "node_at (w_files w) name_at = Some (File x)" "put_file bkp_at x (w_files w) = Inr fs1" "w1 = w\<lparr> w_files := fs1 \<rparr>"
    using assms(1,4,5) by (auto simp: copyfile_returns)
  have 2: "w2 = w1" "data = text_of out x" using assms(2) 1 put_file_other[OF 1(2) assms(6)] assms(4) by (auto simp: read_text_returns)
  obtain fs3 where 3: "put_file name_at (Text (deployed_text tc data)) fs1 = Inr fs3" "w3 = w\<lparr> w_files := fs3 \<rparr>"
    using assms(3,4) 1(3) 2(1) by (auto simp: write_text_returns)
  show ?thesis using 1(1) put_file_same[OF 1(2)] put_file_other[OF 3(1)] put_file_same[OF 3(1)] assms(6) 2(2) 3(2) by auto
qed

text \<open>Work on files raises an \<open>OSError\<close> of some kind, a failing command raises an \<open>Exception\<close>.\<close>

lemma file_errors:
  "copyfile src dst out w \<noteq> Some (Inl (PyException m), w')" "read_text p out w \<noteq> Some (Inl (PyException m), w')"
  "write_text p s out w \<noteq> Some (Inl (PyException m), w')" "chdir p out w \<noteq> Some (Inl (PyException m), w')"
  "getcwd out w \<noteq> Some (Inl (PyException m), w')" "remove_file p out w \<noteq> Some (Inl (PyException m), w')"
  by (auto simp: copyfile_def copyfile_at_def sh_update_def read_node_def put_file_def read_text_def read_content_def sh_bind_raises
      sh_files_def sh_outside_def write_text_def write_content_def chdir_def Let_def getcwd_def remove_file_def res_simps
      split: option.splits node.splits sum.splits if_splits)

text \<open>The deployment of a file, and the two ways it can end that the property tells apart.\<close>

definition deploy_file :: "test_context \<Rightarrow> string \<Rightarrow> unit shell" where
  "deploy_file tc name =
     sh_bind (copyfile name (name @ ''.bkp'')) (\<lambda>_. sh_bind (read_text name) (\<lambda>data.
     sh_bind (write_text name (deployed_text tc data)) (\<lambda>_. sh_bind getcwd (\<lambda>org_dir. in_order
       [chdir (deploy_directory tc), sh_cmd ''./deploy.sh'', chdir org_dir,
        copyfile (name @ ''.bkp'') name, remove_file (name @ ''.bkp'')]))))"

lemma deploy_controller_file:
  assumes "kc_controller_deployment_file_path (tc_controller_config tc) = JStr name" "\<not> tc_use_csi_driver tc"
  shows "deploy_controller tc = deploy_file tc name"
  using assms by (simp add: deploy_controller_def deploy_file_def as_str_def sh_when_def Let_def deployed_text_def)

lemma script_keeps_files:
  assumes "commands_keep out (deployment_paths c name)" "sh_cmd ''./deploy.sh'' out w1 = Some (r, w2)"
    "q = resolve c name \<or> q = resolve c (name @ ''.bkp'')"
  shows "node_at (w_files w2) q = node_at (w_files w1) q \<and> w_cwd w2 = w_cwd w1"
  using alwaysD[OF frame_cmd_always assms(2), OF assms(1), of "w_cwd w1"] assms(3) by (auto simp: frame_def deployment_paths_def)

lemma deploy_file_returns:
  assumes "deploy_file tc name out w = Some (Inr (), w')" "c = w_cwd w" "F = resolve c name" "B = resolve c (name @ ''.bkp'')"
    "F \<noteq> B" "clean_path c" "commands_keep out (deployment_paths c name)"
  shows "\<exists>x w1 w2. node_at (w_files w) F = Some (File x) \<and>
    sh_cmd ''./deploy.sh'' out w1 = Some (Inr (), w2) \<and> w_cwd w1 = resolve c (deploy_directory tc) \<and>
    node_at (w_files w1) F = Some (File (Text (deployed_text tc (text_of out x)))) \<and>
    node_at (w_files w') F = Some (File x) \<and> node_at (w_files w') B = None \<and> w_cwd w' = c"
proof -
  obtain w1 data w3 w4 w5 w6 w7 where s: "copyfile name (name @ ''.bkp'') out w = Some (Inr (), w1)" "read_text name out w1 = Some (Inr data, w1)"
    "write_text name (deployed_text tc data) out w1 = Some (Inr (), w3)" "chdir (deploy_directory tc) out w3 = Some (Inr (), w4)"
    "sh_cmd ''./deploy.sh'' out w4 = Some (Inr (), w5)" "chdir (path_str (w_cwd w3)) out w5 = Some (Inr (), w6)"
    "copyfile (name @ ''.bkp'') name out w6 = Some (Inr (), w7)" "remove_file (name @ ''.bkp'') out w7 = Some (Inr (), w')"
    using assms(1) unfolding deploy_file_def by (auto simp: sh_bind_returns in_order.simps sh_return_returns getcwd_def read_text_returns)
  obtain x where x: "node_at (w_files w) F = Some (File x)" "node_at (w_files w3) B = Some (File x)"
    "node_at (w_files w3) F = Some (File (Text (deployed_text tc (text_of out x))))" "w_cwd w3 = c"
    using deploy_until_script[OF s(1-3) assms(3)[unfolded assms(2)] assms(4)[unfolded assms(2)] assms(5)] assms(2) by blast
  have w4: "w_cwd w4 = resolve c (deploy_directory tc)" "w_files w4 = w_files w3" using s(4) x(4) by (auto simp: chdir_returns)
  have w5: "node_at (w_files w5) B = Some (File x)" using script_keeps_files[OF assms(7) s(5)] assms(4) x(2) w4(2) by auto
  have w6: "w_cwd w6 = c" "w_files w6 = w_files w5" using s(6) x(4) assms(6) by (auto simp: chdir_returns resolve_path_str)
  obtain fs where w7: "put_file F x (w_files w5) = Inr fs" "w7 = w6\<lparr> w_files := fs \<rparr>"
    using s(7) w5 w6 assms(3,4) by (auto simp: copyfile_returns)
  have "node_at (w_files w') F = Some (File x)" "node_at (w_files w') B = None" "w_cwd w' = c"
    using remove_returns[OF s(8)] put_file_same[OF w7(1)] w7(2) w6(1) assms(3-5) by auto
  then show ?thesis using x(1,3) s(5) w4 by auto
qed

lemma deploy_file_fails:
  assumes "deploy_file tc name out w = Some (Inl (PyException m), w')" "c = w_cwd w" "F = resolve c name" "B = resolve c (name @ ''.bkp'')"
    "F \<noteq> B" "commands_keep out (deployment_paths c name)"
  shows "\<exists>x. node_at (w_files w) F = Some (File x) \<and>
    node_at (w_files w') F = Some (File (Text (deployed_text tc (text_of out x)))) \<and>
    node_at (w_files w') B = Some (File x) \<and> w_cwd w' = resolve c (deploy_directory tc)"
proof -
  obtain w1 data w3 w4 where s: "copyfile name (name @ ''.bkp'') out w = Some (Inr (), w1)" "read_text name out w1 = Some (Inr data, w1)"
    "write_text name (deployed_text tc data) out w1 = Some (Inr (), w3)" "chdir (deploy_directory tc) out w3 = Some (Inr (), w4)"
    "sh_cmd ''./deploy.sh'' out w4 = Some (Inl (PyException m), w')"
    using assms(1) unfolding deploy_file_def
    by (auto simp: sh_bind_raises in_order.simps file_errors getcwd_def read_text_returns sh_return_def)
  obtain x where x: "node_at (w_files w) F = Some (File x)" "node_at (w_files w3) B = Some (File x)"
    "node_at (w_files w3) F = Some (File (Text (deployed_text tc (text_of out x))))" "w_cwd w3 = c"
    using deploy_until_script[OF s(1-3) assms(3)[unfolded assms(2)] assms(4)[unfolded assms(2)] assms(5)] assms(2) by blast
  have w4: "w_cwd w4 = resolve c (deploy_directory tc)" "w_files w4 = w_files w3" using s(4) x(4) by (auto simp: chdir_returns)
  then show ?thesis using script_keeps_files[OF assms(6) s(5)] x assms(3,4) by auto
qed

text \<open>
  C14: in a run without the CSI driver, deploying the controller runs the deploy script on a deployment file with the registry and the tag of
  the run filled in; when it returns, the file holds again what it held, its copy is gone and the
  directory is the one before. When the script fails, the filled-in file and the copy stay, and so does
  the directory. Of the commands it is used that they leave both files alone.
\<close>

theorem deployment_file_restored:
  assumes "kc_controller_deployment_file_path (tc_controller_config tc) = JStr name" "\<not> tc_use_csi_driver tc"
    "clean_path (w_cwd w)" "resolve (w_cwd w) name \<noteq> resolve (w_cwd w) (name @ ''.bkp'')"
    "commands_keep out (deployment_paths (w_cwd w) name)" "deploy_controller tc out w = Some (r, w')"
  shows "(r = Inr () \<longrightarrow> (\<exists>x w1 w2. node_at (w_files w) (resolve (w_cwd w) name) = Some (File x) \<and>
      sh_cmd ''./deploy.sh'' out w1 = Some (Inr (), w2) \<and> w_cwd w1 = resolve (w_cwd w) (deploy_directory tc) \<and>
      node_at (w_files w1) (resolve (w_cwd w) name) = Some (File (Text (deployed_text tc (text_of out x)))) \<and>
      node_at (w_files w') (resolve (w_cwd w) name) = Some (File x) \<and>
      node_at (w_files w') (resolve (w_cwd w) (name @ ''.bkp'')) = None \<and> w_cwd w' = w_cwd w)) \<and>
    (\<forall>m. r = Inl (PyException m) \<longrightarrow> (\<exists>x. node_at (w_files w) (resolve (w_cwd w) name) = Some (File x) \<and>
      node_at (w_files w') (resolve (w_cwd w) name) = Some (File (Text (deployed_text tc (text_of out x)))) \<and>
      node_at (w_files w') (resolve (w_cwd w) (name @ ''.bkp'')) = Some (File x) \<and>
      w_cwd w' = resolve (w_cwd w) (deploy_directory tc)))"
proof -
  have run: "deploy_file tc name out w = Some (r, w')" using assms(6) deploy_controller_file[OF assms(1,2)] by simp
  show ?thesis
    using deploy_file_returns[OF _ refl refl refl assms(4,3,5)] deploy_file_fails[OF _ refl refl refl assms(4,5)] run by blast
qed

definition deploy_tc :: test_context where
  "deploy_tc = oracle_tc\<lparr> tc_use_csi_driver := False, tc_controller_config_dir := ''f'', tc_container_registry := ''g'',
     tc_controller_config := (tc_controller_config oracle_tc)\<lparr> kc_controller_deployment_file_path := JStr ''d'' \<rparr> \<rparr>"

definition deploy_world :: world where
  "deploy_world = \<lparr> w_cwd = [''x''], w_files = [([''x''], Folder), ([''x'', ''f''], Folder), ([''x'', ''f'', ''deploy''], Folder),
     ([''x'', ''d''], File (Text ''${SIEVE-DR}''))], w_log = [] \<rparr>"

definition exception_raised :: "('a res \<times> world) option \<Rightarrow> bool" where
  "exception_raised t = (case t of Some (Inl (PyException m), w) \<Rightarrow> True | _ \<Rightarrow> False)"

lemma exception_raisedD: "exception_raised t \<Longrightarrow> \<exists>m w. t = Some (Inl (PyException m), w)"
  by (cases t; cases "fst (the t)"; cases "projl (fst (the t))") (auto simp: exception_raised_def)

lemma map_option_fstD: "map_option fst t = Some x \<Longrightarrow> \<exists>w. t = Some (x, w)"
  by auto

lemma deploy_sample:
  "map_option fst (deploy_controller deploy_tc (all_exit 0) deploy_world) = Some (Inr ())"
  "exception_raised (deploy_controller deploy_tc (all_exit 256) deploy_world)"
  by code_simp+

theorem deployment_file_restored_witness:
  "(\<exists>w'. deploy_controller deploy_tc (all_exit 0) deploy_world = Some (Inr (), w') \<and>
      node_at (w_files w') [''x'', ''d''] = Some (File (Text ''${SIEVE-DR}''))) \<and>
    (\<exists>m w'. deploy_controller deploy_tc (all_exit 256) deploy_world = Some (Inl (PyException m), w') \<and>
      node_at (w_files w') [''x'', ''d''] = Some (File (Text ''g'')))"
proof -
  have path: "resolve [''x''] ''d'' = [''x'', ''d'']" "resolve (w_cwd deploy_world) ''d'' \<noteq> resolve (w_cwd deploy_world) (''d'' @ ''.bkp'')"
    "w_cwd deploy_world = [''x'']" "clean_path (w_cwd deploy_world)" by code_simp+
  have file_at: "node_at (w_files deploy_world) [''x'', ''d''] = Some (File (Text ''${SIEVE-DR}''))"
    "deployed_text deploy_tc ''${SIEVE-DR}'' = ''g''" by code_simp+
  have tc: "kc_controller_deployment_file_path (tc_controller_config deploy_tc) = JStr ''d''" "\<not> tc_use_csi_driver deploy_tc"
    by (simp_all add: deploy_tc_def)
  have keep: "commands_keep (all_exit n) S" for n S by (simp add: commands_keep_def all_exit_def)
  note t = deployment_file_restored[OF tc path(4,2) keep]
  obtain w1 where w1: "deploy_controller deploy_tc (all_exit 0) deploy_world = Some (Inr (), w1)"
    using map_option_fstD[OF deploy_sample(1)] by blast
  obtain m w2 where w2: "deploy_controller deploy_tc (all_exit 256) deploy_world = Some (Inl (PyException m), w2)"
    using exception_raisedD[OF deploy_sample(2)] by blast
  have f: "x = Text ''${SIEVE-DR}''" if "node_at (w_files deploy_world) (resolve (w_cwd deploy_world) ''d'') = Some (File x)" for x
    using that file_at(1) unfolding path(1,3) by simp
  have "node_at (w_files w1) [''x'', ''d''] = Some (File (Text ''${SIEVE-DR}''))"
    using t[OF w1, THEN conjunct1] f unfolding path(1,3) by blast
  moreover have "node_at (w_files w2) [''x'', ''d''] = Some (File (Text (deployed_text deploy_tc (text_of (all_exit 256) (Text ''${SIEVE-DR}'')))))"
    using t[OF w2, THEN conjunct2] f unfolding path(1,3) by blast
  ultimately show ?thesis using w1 w2 unfolding text_of_def content.case file_at(2) by blast
qed

end
