(* ===== verification/Reproduce_Facts.thy ===== *)
theory Reproduce_Facts
  imports Reproduce Sieve_Cluster
begin

text \<open>
  What running the known bugs again reports: the outcome of the run it started, from the result file;
  and what its tables hold.
\<close>

section \<open>The result file read back\<close>

lemma result_files_agree:
  "test_result_file (tc_controller tc) (tc_test_workload tc) (tc_original_test_plan tc) = result_filename tc"
  if "tc_result_root_dir tc = ''sieve_test_results''"
  using that by (simp add: test_result_file_def result_filename_def)

lemma number_of_errors:
  "int (length (tr_common_errors r)) + int (length (tr_end_state_errors r)) + int (length (tr_history_errors r)) =
     int (length (detected_errors r))"
  by (simp add: detected_errors_def)

lemma reproduced_result_map:
  "tc_mode tc = TEST \<Longrightarrow>
   reproduced (tc_controller tc) (tc_test_workload tc) (tc_original_test_plan tc) (result_map tc r duration plan host) =
     Inr (detected_errors r \<noteq> [])"
  by (simp add: reproduced_def result_map_def py_positive_def TEST_def number_of_errors)

lemma save_run_result_writes:
  assumes "save_run_result tc (Some r) duration out w = Some (Inr (), w')" "tc_mode tc = TEST"
  shows "\<exists>plan. node_at (w_files w') (resolve (w_cwd w) (result_filename tc)) =
      Some (File (Doc (result_map tc r duration plan (ou_hostname out)))) \<and> w_cwd w' = w_cwd w"
proof -
  obtain plan b w1 w2 where w1: "path_exists (dirname (result_filename tc)) out w = Some (Inr b, w1)"
    and w2: "sh_when (\<not> b) (sh_try (makedirs (dirname (result_filename tc)) False)
        (\<lambda>e. if e = FileExistsError then sh_return () else sh_raise e)) out w1 = Some (Inr (), w2)"
    and w': "dump_doc (result_map tc r duration plan (ou_hostname out)) (result_filename tc) out w2 = Some (Inr (), w')"
    using assms by (auto simp: save_run_result_def sh_bind_returns sh_outside_returns read_text_def read_content_def sh_files_returns)
  have "w_cwd w2 = w_cwd w1"
    using w2 by (auto simp: sh_when_def sh_try_def makedirs_def sh_update_def sh_return_def sh_raise_def
        split: if_splits sum.splits option.splits prod.splits)
  moreover have "w1 = w" using w1 by (simp add: path_exists_def sh_files_returns)
  ultimately show ?thesis using w' put_file_same
    by (auto simp: dump_doc_def write_content_def sh_update_returns)
qed

lemma manifest_of_bug: "bug_of controller bug = Inr b \<Longrightarrow> \<exists>m. map_of manifest_map controller = Some m"
proof -
  assume "bug_of controller bug = Inr b"
  then have "map_of reprod_map controller \<noteq> None" by (auto simp: bug_of_def res_simps split: option.splits)
  then have "controller \<in> set (map fst reprod_map)" by (auto simp: map_of_eq_None_iff)
  also have "map fst reprod_map = map fst manifest_map" by code_simp
  finally show ?thesis by (metis map_of_eq_None_iff not_None_eq set_map)
qed

text \<open>
  C5: a known bug that is reproduced without hooks (no command of its own runs before or after the test) counts as
  reproduced exactly when the run that was started for it found errors: when the command ends with the files that \<open>save_run_result\<close> of that run left, the script answers from them, whatever the exit
  status of the command was.
\<close>

theorem reproduced_iff_errors:
  assumes "bug_of controller bug = Inr (tc_test_workload tc, plan, [])" "map_of manifest_map controller = Some manifest"
    "tc_controller tc = controller" "tc_original_test_plan tc = reproduction_plan plan" "tc_mode tc = TEST"
    "tc_result_root_dir tc = ''sieve_test_results''"
    "save_run_result tc (Some r) duration out w1 = Some (Inr (), w2)" "w_cwd w1 = w_cwd w"
    "ou_system out (w_log w) (w_cwd w) (sieve_command manifest (reproduction_plan plan) registry) (w_files w) = (status, w_files w2)"
  shows "\<exists>w'. reproduce_single_bug controller bug registry False out w =
    Some (Inr (detected_errors r \<noteq> [], result_filename tc), w') \<and> w_files w' = w_files w2"
proof -
  let ?w = "w\<lparr> w_files := w_files w2, w_log := w_log w @ [Ran (w_cwd w) (sieve_command manifest (reproduction_plan plan) registry) status] \<rparr>"
  obtain p where "node_at (w_files w2) (resolve (w_cwd w) (result_filename tc)) =
      Some (File (Doc (result_map tc r duration p (ou_hostname out))))"
    using save_run_result_writes[OF assms(7,5)] assms(8) by auto
  then have load: "load_json (result_filename tc) out ?w = Some (Inr (result_map tc r duration p (ou_hostname out)), ?w)"
    by (simp add: load_json_def sh_bind_returns read_content_def sh_files_returns read_node_def sh_return_def)
  have name: "test_result_file controller (tc_test_workload tc) (reproduction_plan plan) = result_filename tc"
    using result_files_agree[OF assms(6)] assms(3,4) by simp
  have verdict: "reproduced controller (tc_test_workload tc) (reproduction_plan plan) (result_map tc r duration p (ou_hostname out)) =
      Inr (detected_errors r \<noteq> [])" using reproduced_result_map[OF assms(5)] assms(3,4) by simp
  have "reproduce_single_bug controller bug registry False out w = Some (Inr (detected_errors r \<noteq> [], result_filename tc), ?w)"
    unfolding reproduce_single_bug_def assms(1) assms(2)
    by (simp add: before_hook_def after_hook_def Let_def name sh_bind_returns sh_when_def system_def assms(9) load verdict sh_return_def sh_of_def)
  then show ?thesis by auto
qed

text \<open>A run of a plan that found one error.\<close>

definition bug_tc :: test_context where
  "bug_tc = oracle_tc\<lparr> tc_controller := ''cass-operator'', tc_test_workload := ''recreate'', tc_mode := TEST,
     tc_result_root_dir := ''sieve_test_results'', tc_original_test_plan := reproduction_plan ''cass-operator-stale-state-1.yaml'' \<rparr>"

definition bug_result :: test_result where
  "bug_result = \<lparr> tr_injection_completed = True, tr_workload_completed = True, tr_common_errors = [''e''],
     tr_end_state_errors = [], tr_history_errors = [], tr_no_exception = True, tr_exception_message = [] \<rparr>"

definition bug_files :: files where
  "bug_files = [([''sieve_test_results''], Folder), ([''bug_reproduction_test_plans'', ''cass-operator-stale-state-1.yaml''], File (Text ''p''))]"

definition bug_saved :: files where
  "bug_saved = AList.update [''sieve_test_results'', ''cass-operator-recreate-cass-operator-stale-state-1.yaml.json'']
     (File (Doc (result_map bug_tc bug_result (JInt 1) ''p'' []))) bug_files"

definition bug_outside :: outside where
  "bug_outside = (all_exit 0)\<lparr> ou_system := \<lambda>log cwd command fs. (256, bug_saved) \<rparr>"

definition bug_world :: "files \<Rightarrow> world" where
  "bug_world fs = \<lparr> w_cwd = [], w_files = fs, w_log = [] \<rparr>"

theorem reproduced_iff_errors_witness:
  "\<exists>w'. reproduce_single_bug ''cass-operator'' ''stale-state-1'' ''r'' False bug_outside (bug_world bug_files) =
     Some (Inr (True, result_filename bug_tc), w')"
proof -
  have plan: "bug_of ''cass-operator'' ''stale-state-1'' = Inr (tc_test_workload bug_tc, ''cass-operator-stale-state-1.yaml'', [])"
    "map_of manifest_map ''cass-operator'' = Some ''examples/cass-operator/''" by code_simp+
  have tc: "tc_controller bug_tc = ''cass-operator''" "tc_original_test_plan bug_tc = reproduction_plan ''cass-operator-stale-state-1.yaml''"
    "tc_mode bug_tc = TEST" "tc_result_root_dir bug_tc = ''sieve_test_results''" by (simp_all add: bug_tc_def)
  have paths: "resolve [] (tc_original_test_plan bug_tc) = [''bug_reproduction_test_plans'', ''cass-operator-stale-state-1.yaml'']"
    "resolve [] (dirname (result_filename bug_tc)) = [''sieve_test_results'']"
    "resolve [] (result_filename bug_tc) = [''sieve_test_results'', ''cass-operator-recreate-cass-operator-stale-state-1.yaml.json'']"
    by code_simp+
  have saved: "save_run_result bug_tc (Some bug_result) (JInt 1) bug_outside (bug_world bug_files) = Some (Inr (), bug_world bug_saved)"
    by (simp add: save_run_result_def sh_bind_def sh_of_def sh_outside_def sh_return_def read_text_def read_content_def sh_files_def read_node_def
        path_exists_def sh_when_def dump_doc_def write_content_def sh_update_def put_file_def bug_world_def paths paths(1)[unfolded tc] tc text_of_def
        bug_files_def node_at_def bug_saved_def bug_outside_def all_exit_def)
  have "detected_errors bug_result \<noteq> []" by (simp add: detected_errors_def bug_result_def)
  then show ?thesis
    using reproduced_iff_errors[OF plan tc saved, of "bug_world bug_files" "''r''" 256] by (auto simp: bug_world_def bug_outside_def)
qed

text \<open>And \<^verbatim>\<open>report_bugs.py\<close> names the file exactly when the run was completed, without an exception, and found errors.\<close>

lemma report_of_result_map:
  "report_of_file name (result_map tc r duration plan host) =
     Inr (if tr_injection_completed r \<and> tr_workload_completed r \<and> tr_no_exception r \<and> detected_errors r \<noteq> []
          then name @ newline else [])"
  by (simp add: report_of_file_def results_in_def as_items_def result_map_def potential_bug_def py_positive_def
      py_truth_def number_of_errors)

section \<open>The files a reproduction changes\<close>

definition changed_file :: "hook list \<Rightarrow> string option" where
  "changed_file hooks = (case hooks of
       Before_Yugabyte # _ \<Rightarrow> Some yugabyte_crd
     | Before_Cassandra # _ \<Rightarrow> Some cassandra_cfg
     | _ \<Rightarrow> None)"

lemma known_hooks:
  assumes "bug_of controller bug = Inr (wl, plan, hooks)" "changed_file hooks = Some name"
  shows "hooks = [Before_Yugabyte, After_Yugabyte] \<and> name = yugabyte_crd \<or> hooks = [Before_Cassandra, After_Cassandra] \<and> name = cassandra_cfg"
proof -
  have ok: "list_all (\<lambda>(c, bugs). list_all (\<lambda>(b, wl, plan, hooks). hooks = [] \<or> hooks = [Before_Yugabyte, After_Yugabyte] \<or>
      hooks = [Before_Cassandra, After_Cassandra]) bugs) reprod_map" by code_simp
  obtain bugs where "map_of reprod_map controller = Some bugs" "map_of bugs bug = Some (wl, plan, hooks)"
    using assms(1) by (auto simp: bug_of_def res_simps)
  then have "hooks = [] \<or> hooks = [Before_Yugabyte, After_Yugabyte] \<or> hooks = [Before_Cassandra, After_Cassandra]"
    using ok by (fastforce simp: list_all_iff dest!: map_of_SomeD)
  then show ?thesis using assms(2) by (auto simp: changed_file_def)
qed

text \<open>The file, its copy and their folder; moving the copy back restores the file.\<close>

definition file_and_copy :: "path \<Rightarrow> string \<Rightarrow> path \<Rightarrow> bool" where
  "file_and_copy cwd name q \<longleftrightarrow> q = resolve cwd name \<or> q = resolve cwd (bkp name) \<or> q = butlast (resolve cwd name)"

definition backed_up :: "path \<Rightarrow> string \<Rightarrow> content \<Rightarrow> world \<Rightarrow> bool" where
  "backed_up cwd name x w \<longleftrightarrow> w_cwd w = cwd \<and> node_at (w_files w) (resolve cwd (bkp name)) = Some (File x) \<and>
     node_at (w_files w) (butlast (resolve cwd name)) = Some Folder \<and> (\<exists>y. node_at (w_files w) (resolve cwd name) = Some (File y))"

definition has_file :: "path \<Rightarrow> string \<Rightarrow> content \<Rightarrow> world \<Rightarrow> bool" where
  "has_file cwd name x w \<longleftrightarrow> w_cwd w = cwd \<and> node_at (w_files w) (resolve cwd name) = Some (File x)"

lemma hooked_paths:
  assumes "name = yugabyte_crd \<or> name = cassandra_cfg"
  shows "resolve c (bkp name) \<noteq> resolve c name" "resolve c name \<noteq> []" "resolve c (bkp name) \<noteq> []"
    "butlast (resolve c (bkp name)) = butlast (resolve c name)"
  using assms by (auto simp: yugabyte_crd_def cassandra_cfg_def bkp_def resolve_def path_walk_def py_startswith_def butlast_append)

lemma put_file_folders: "put_file p x fs = Inr fs' \<Longrightarrow> node_at fs q = Some Folder \<Longrightarrow> node_at fs' q = Some Folder"
  by (auto simp: put_file_def node_at_def split: option.splits node.splits if_splits)

lemma copy_backs_up:
  assumes "name = yugabyte_crd \<or> name = cassandra_cfg" "has_file c name x w"
    "node_at (w_files w) (resolve c (bkp name)) \<noteq> Some Folder" "copy name (bkp name) out w = Some (r, w1)"
  shows "if r = Inr () then backed_up c name x w1 \<and> has_file c name x w1 else w1 = w"
proof -
  note paths = hooked_paths[OF assms(1), of c]
  have "sh_update (\<lambda>cwd fs. copyfile_at (resolve cwd name) (inside_folder fs (resolve cwd (bkp name)) (basename name)) fs) out w = Some (r, w1)"
    using assms(4) by (simp add: copy_def)
  moreover have "inside_folder (w_files w) (resolve c (bkp name)) (basename name) = resolve c (bkp name)"
    using assms(3) by (simp add: inside_folder_def)
  moreover have "copyfile_at (resolve c name) q (w_files w) = put_file q x (w_files w)" for q
    using assms(2) by (simp add: copyfile_at_def read_node_def has_file_def)
  ultimately have "(case put_file (resolve c (bkp name)) x (w_files w) of Inl e \<Rightarrow> Some (Inl e, w) | Inr fs \<Rightarrow> Some (Inr (), w\<lparr> w_files := fs \<rparr>)) = Some (r, w1)"
    using assms(2) by (simp add: sh_update_def has_file_def)
  then consider e where "r = Inl e" "w1 = w" | fs where "put_file (resolve c (bkp name)) x (w_files w) = Inr fs" "r = Inr ()" "w1 = w\<lparr> w_files := fs \<rparr>"
    by (auto split: sum.splits)
  then show ?thesis
  proof cases
    case 2
    have "node_at (w_files w) (butlast (resolve c name)) = Some Folder"
      using 2(1) paths(4) by (auto simp: put_file_def split: option.splits node.splits)
    then show ?thesis using 2 assms(2) put_file_same[OF 2(1)] put_file_other[OF 2(1), of "resolve c name"] put_file_folders[OF 2(1)] paths(1)
      by (auto simp: backed_up_def has_file_def)
  qed simp
qed

lemma write_keeps_backup:
  assumes "name = yugabyte_crd \<or> name = cassandra_cfg" "backed_up c name x w" "write_content name y out w = Some (r, w1)"
  shows "r = Inr () \<and> backed_up c name x w1"
proof -
  obtain z where z: "node_at (w_files w) (resolve c name) = Some (File z)" "node_at (w_files w) (butlast (resolve c name)) = Some Folder"
    using assms(2) by (auto simp: backed_up_def)
  obtain fs where fs: "put_file (resolve c name) y (w_files w) = Inr fs" using z by (simp add: put_file_def)
  then have "r = Inr ()" "w1 = w\<lparr> w_files := fs \<rparr>" using assms(2,3) by (auto simp: write_content_def sh_update_def backed_up_def)
  then show ?thesis using assms(2) put_file_same[OF fs] put_file_other[OF fs] put_file_folders[OF fs] hooked_paths(1)[OF assms(1), of c]
    by (auto simp: backed_up_def)
qed

lemma command_keeps:
  assumes "commands_keep out (file_and_copy c name)" "system command out w = Some (r, w1)"
  shows "\<exists>n. r = Inr n" "backed_up c name x w \<Longrightarrow> backed_up c name x w1" "has_file c name x w \<Longrightarrow> has_file c name x w1"
proof -
  show "\<exists>n. r = Inr n" using assms(2) by (auto simp: system_def split: prod.splits)
  have "frame c (file_and_copy c name) w w1" using alwaysD[OF frame_system_always[OF assms(1)] assms(2)] .
  then show "backed_up c name x w \<Longrightarrow> backed_up c name x w1" "has_file c name x w \<Longrightarrow> has_file c name x w1"
    by (auto simp: frame_def file_and_copy_def backed_up_def has_file_def)
qed

lemma move_restores:
  assumes "name = yugabyte_crd \<or> name = cassandra_cfg" "backed_up c name x w" "move (bkp name) name out w = Some (r, w1)"
  shows "r = Inr () \<and> has_file c name x w1"
proof -
  obtain y where y: "node_at (w_files w) (resolve c name) = Some (File y)" using assms(2) by (auto simp: backed_up_def)
  have w: "w_cwd w = c" "node_at (w_files w) (resolve c (bkp name)) = Some (File x)" "node_at (w_files w) (butlast (resolve c name)) = Some Folder"
    using assms(2) by (auto simp: backed_up_def)
  show ?thesis using assms(3) y w hooked_paths(2)[OF assms(1), of c]
    by (auto simp: move_def sh_update_def Let_def inside_folder_def move_at_def has_file_def node_at_def split: if_splits)
qed

lemma sh_bind_ends: "sh_bind m f out w = Some (r, w') \<longleftrightarrow>
    (\<exists>e. m out w = Some (Inl e, w') \<and> r = Inl e) \<or> (\<exists>x w1. m out w = Some (Inr x, w1) \<and> f x out w1 = Some (r, w'))"
  by (cases r) (auto simp: sh_bind_returns sh_bind_raises)

lemma reads_end:
  "read_text p out w = Some (r, w1) \<Longrightarrow> w1 = w" "load_json p out w = Some (u, w1) \<Longrightarrow> w1 = w" "sh_of v out w = Some (t, w1) \<Longrightarrow> w1 = w"
  by (auto simp: read_text_def load_json_def read_content_def sh_files_def sh_bind_ends sh_outside_def sh_of_def sh_return_def
      split: content.splits) (metis content.exhaust)

lemma before_hook_ends:
  assumes "hooks = [Before_Yugabyte, After_Yugabyte] \<and> name = yugabyte_crd \<or> hooks = [Before_Cassandra, After_Cassandra] \<and> name = cassandra_cfg"
    "has_file c name x w" "node_at (w_files w) (resolve c (bkp name)) \<noteq> Some Folder"
    "commands_keep out (file_and_copy c name)" "before_hook hooks out w = Some (r, w1)"
  shows "if r = Inr () then backed_up c name x w1 else has_file c name x w1"
proof -
  have name: "name = yugabyte_crd \<or> name = cassandra_cfg" using assms(1) by blast
  let ?rest = "\<lambda>h. if h = Before_Yugabyte then sh_bind (read_text name) (\<lambda>data. write_text name (py_replace ''# minimum: 1'' ''minimum: 1'' data))
    else sh_bind (load_json name) (\<lambda>data. sh_bind (sh_of (del_key ''cherry_pick_commits'' data)) (\<lambda>data. in_order [dump_doc data name, build_cassandra]))"
  have run: "sh_bind (copy name (bkp name)) (\<lambda>_. ?rest (hd hooks)) out w = Some (r, w1)"
    using assms(1,5) by (auto simp: before_hook_def before_reproducing_yugabyte_operator_indirect_1_def
        before_reproducing_cassandra_operator_indirect_1_def)
  show ?thesis
  proof (cases "\<exists>w2. copy name (bkp name) out w = Some (Inr (), w2)")
    case False
    then obtain e where "copy name (bkp name) out w = Some (Inl e, w1)" "r = Inl e" using run by (auto simp: sh_bind_ends)
    then show ?thesis using copy_backs_up[OF name assms(2,3)] assms(2) by fastforce
  next
    case True
    then obtain w2 where w2: "copy name (bkp name) out w = Some (Inr (), w2)" and rest: "?rest (hd hooks) out w2 = Some (r, w1)"
      using run by (auto simp: sh_bind_ends)
    then have b: "backed_up c name x w2" "has_file c name x w2" using copy_backs_up[OF name assms(2,3) w2] by auto
    have build: "r' = Inr () \<and> backed_up c name x w4" if "build_cassandra out w3 = Some (r', w4)" "backed_up c name x w3" for w3 r' w4
      using that command_keeps[OF assms(4)] unfolding build_cassandra_def by (fastforce simp: sh_bind_ends sh_return_def)
    note wr = write_keeps_backup[OF name b(1)]
    show ?thesis
    proof (cases "hd hooks = Before_Yugabyte")
      case True
      then show ?thesis using rest b wr by (auto simp: sh_bind_ends write_text_def dest!: reads_end)
    next
      case False
      then show ?thesis using rest b
        by (auto simp: sh_bind_ends dump_doc_def in_order.simps sh_return_def dest!: reads_end wr dest: build)
    qed
  qed
qed

lemma after_hook_ends:
  assumes "hooks = [Before_Yugabyte, After_Yugabyte] \<and> name = yugabyte_crd \<or> hooks = [Before_Cassandra, After_Cassandra] \<and> name = cassandra_cfg"
    "backed_up c name x w" "commands_keep out (file_and_copy c name)" "after_hook hooks out w = Some (r, w1)"
  shows "r = Inr () \<and> has_file c name x w1"
proof -
  have name: "name = yugabyte_crd \<or> name = cassandra_cfg" using assms(1) by blast
  consider "move (bkp name) name out w = Some (r, w1)" | "in_order [move (bkp name) name, build_cassandra] out w = Some (r, w1)"
    using assms(1,4) by (auto simp: after_hook_def after_reproducing_yugabyte_operator_indirect_1_def
        after_reproducing_cassandra_operator_indirect_1_def)
  then show ?thesis
  proof cases
    case 2
    have build: "r' = Inr () \<and> has_file c name x w4" if "build_cassandra out w3 = Some (r', w4)" "has_file c name x w3" for w3 r' w4
      using that command_keeps[OF assms(3)] unfolding build_cassandra_def by (fastforce simp: sh_bind_ends sh_return_def)
    show ?thesis using 2 by (auto simp: sh_bind_ends in_order.simps sh_return_def dest!: move_restores[OF name assms(2)] dest: build)
  qed (rule move_restores[OF name assms(2)])
qed

text \<open>
  C19: a reproduction that changes a file puts it back: the manifest of the operator, or its configuration,
  ends as it was, however the script ends, also when the run fails or leaves no result file. Of the
  commands it is used that they leave the file, its copy and their folder alone.
\<close>

theorem hooked_file_restored:
  assumes "bug_of controller bug = Inr (wl, plan, hooks)" "changed_file hooks = Some name"
    "node_at (w_files w) (resolve (w_cwd w) name) = Some (File x)" "node_at (w_files w) (resolve (w_cwd w) (bkp name)) \<noteq> Some Folder"
    "commands_keep out (file_and_copy (w_cwd w) name)" "reproduce_single_bug controller bug registry skip out w = Some (r, w')"
  shows "node_at (w_files w') (resolve (w_cwd w) name) = Some (File x) \<and> w_cwd w' = w_cwd w"
proof -
  define c where "c = w_cwd w"
  note hooks = known_hooks[OF assms(1,2)]
  obtain manifest where m: "map_of manifest_map controller = Some manifest" using manifest_of_bug[OF assms(1)] by blast
  let ?sieve = "sh_when (\<not> skip) (sh_bind (system (sieve_command manifest (reproduction_plan plan) registry)) (\<lambda>_. sh_return ()))"
  let ?finish = "sh_bind (load_json (test_result_file controller wl (reproduction_plan plan))) (\<lambda>test_result.
     sh_bind (sh_of (reproduced controller wl (reproduction_plan plan) test_result)) (\<lambda>b.
       sh_return (b, test_result_file controller wl (reproduction_plan plan))))"
  have run: "sh_bind (before_hook hooks) (\<lambda>_. sh_bind ?sieve (\<lambda>_. sh_bind (after_hook hooks) (\<lambda>_. ?finish))) out w = Some (r, w')"
    using assms(6) unfolding reproduce_single_bug_def assms(1) m by (simp add: Let_def)
  have start: "has_file c name x w" using assms(3) by (simp add: has_file_def c_def)
  note before = before_hook_ends[OF hooks start assms(4)[folded c_def] assms(5)[folded c_def]]
  have ending: "w2 = w1" if "?finish out w1 = Some (t, w2)" for w1 w2 t using that by (auto simp: sh_bind_ends sh_return_def dest!: reads_end)
  have sieve: "t = Inr () \<and> backed_up c name x w2" if "?sieve out w1 = Some (t, w2)" "backed_up c name x w1" for w1 w2 t
    using that command_keeps[OF assms(5)[folded c_def]]
    by (fastforce simp: sh_when_def sh_bind_ends sh_return_def split: if_splits)
  have "has_file c name x w'"
  proof (cases "\<exists>w1. before_hook hooks out w = Some (Inr (), w1)")
    case False
    then obtain e where "before_hook hooks out w = Some (Inl e, w')" using run by (auto simp: sh_bind_ends)
    then show ?thesis using before by fastforce
  next
    case True
    then obtain w1 where w1: "backed_up c name x w1" "sh_bind ?sieve (\<lambda>_. sh_bind (after_hook hooks) (\<lambda>_. ?finish)) out w1 = Some (r, w')"
      using run before by (fastforce simp: sh_bind_ends)
    then obtain w2 where w2: "backed_up c name x w2" "sh_bind (after_hook hooks) (\<lambda>_. ?finish) out w2 = Some (r, w')"
      using sieve by (subst (asm) sh_bind_ends) fast
    note after = after_hook_ends[OF hooks w2(1) assms(5)[folded c_def]]
    obtain w3 t where "after_hook hooks out w2 = Some (t, w3)" "w3 = w'"
      using w2(2) ending by (subst (asm) sh_bind_ends) fast
    then show ?thesis using after by blast
  qed
  then show ?thesis by (simp add: has_file_def c_def)
qed

text \<open>A reproduction that ends without a result file.\<close>

definition crd_files :: files where
  "crd_files = [([''examples'', ''yugabyte-operator'', ''deploy'', ''crds''], Folder),
     ([''examples'', ''yugabyte-operator'', ''deploy'', ''crds'', ''yugabyte.com_ybclusters_crd.yaml''], File (Text ''# minimum: 1''))]"

text \<open>The script always comes to an end.\<close>

lemma ends_hook: "ends out (run_hook h)"
  by (cases h) (auto simp: before_reproducing_yugabyte_operator_indirect_1_def after_reproducing_yugabyte_operator_indirect_1_def
      before_reproducing_cassandra_operator_indirect_1_def after_reproducing_cassandra_operator_indirect_1_def build_cassandra_def
      copy_def move_def write_text_def write_content_def dump_doc_def in_order.simps ends_steps ends_load intro!: ends_bind)

lemma reproduction_ends: "ends out (reproduce_single_bug controller bug registry skip)"
  by (auto simp: reproduce_single_bug_def before_hook_def after_hook_def Let_def sh_when_def ends_steps ends_load ends_hook
      split: list.split prod.split intro!: ends_bind)

theorem hooked_file_restored_witness:
  "\<exists>r w'. reproduce_single_bug ''yugabyte-operator'' ''indirect-1'' ''r'' False (all_exit 256) (bug_world crd_files) = Some (r, w') \<and>
     node_at (w_files w') (resolve [] yugabyte_crd) = Some (File (Text ''# minimum: 1''))"
proof -
  have plan: "bug_of ''yugabyte-operator'' ''indirect-1'' = Inr (''disable-enable-tuiport'', ''yugabyte-operator-indirect-1.yaml'', [Before_Yugabyte, After_Yugabyte])"
    "changed_file [Before_Yugabyte, After_Yugabyte] = Some yugabyte_crd" by code_simp+
  obtain r w' where w': "reproduce_single_bug ''yugabyte-operator'' ''indirect-1'' ''r'' False (all_exit 256) (bug_world crd_files) = Some (r, w')"
    using reproduction_ends unfolding ends_def by fast
  have "w_cwd (bug_world crd_files) = []" "w_files (bug_world crd_files) = crd_files" by (simp_all add: bug_world_def)
  moreover have "node_at crd_files (resolve [] yugabyte_crd) = Some (File (Text ''# minimum: 1''))" "node_at crd_files (resolve [] (bkp yugabyte_crd)) \<noteq> Some Folder"
    by code_simp+
  moreover have "commands_keep (all_exit 256) S" for S by (simp add: commands_keep_def all_exit_def)
  ultimately show ?thesis using hooked_file_restored[OF plan _ _ _ w', of "Text ''# minimum: 1''"] w' by simp
qed

end
