(* ===== verification/Reproduce_Table.thy ===== *)
theory Reproduce_Table
  imports Reproduce_Facts Workload_Log
begin

text \<open>
  The two tables of \<^verbatim>\<open>reproduce_bugs.py\<close>: the statistics it writes for every bug it ran, and the table of counts it
  makes from them by reading them back.
\<close>

section \<open>A row read back\<close>

definition clean_cell :: "string \<Rightarrow> bool" where
  "clean_cell s \<longleftrightarrow> s \<noteq> [] \<and> \<not> py_space (hd s) \<and> \<not> py_space (last s) \<and> CHR 0x09 \<notin> set s \<and> CHR 0x0A \<notin> set s"

lemma strip_row:
  assumes "clean_cell a" "clean_cell b" shows "strip_while py_space (a @ s @ b @ newline) = a @ s @ b"
proof -
  have "strip_while py_space (a @ s @ b) = a @ s @ b"
    using assms by (intro strip_while_id) (auto simp: clean_cell_def hd_append)
  moreover have end_of: "strip_while py_space (x @ newline) = strip_while py_space x" if "x \<noteq> []" "\<not> py_space (hd x)" for x
    using that by (cases x) (simp_all add: strip_while_def newline_def py_space_def)
  have "strip_while py_space ((a @ s @ b) @ newline) = strip_while py_space (a @ s @ b)"
    using assms(1) by (intro end_of) (auto simp: clean_cell_def hd_append)
  ultimately show ?thesis by simp
qed

definition tally_bug :: "table3 \<Rightarrow> string \<times> string \<Rightarrow> table3" where
  "tally_bug t cb = (case (t, cb) of ((rows, sums), controller, bug) \<Rightarrow>
     (AList.update controller (count_bug bug (case map_of rows controller of None \<Rightarrow> no_counts | Some c \<Rightarrow> c)) rows,
      count_bug bug sums))"

lemma count_line_row:
  assumes "clean_cell c" "clean_cell b" "clean_cell x" "clean_cell f"
  shows "count_line t (row [c, b, x, f]) = Inr (tally_bug t (c, b))"
proof -
  have "strip_while py_space (row [c, b, x, f]) = py_join [CHR 0x09] [c, b, x, f]"
    using strip_row[OF assms(1,4), of "[CHR 0x09] @ b @ [CHR 0x09] @ x @ [CHR 0x09]"] by (simp add: row_def)
  moreover have "py_split (CHR 0x09) (py_join [CHR 0x09] [c, b, x, f]) = [c, b, x, f]"
    using assms by (intro py_split_py_join) (auto simp: clean_cell_def)
  ultimately show ?thesis by (cases t) (simp add: count_line_def tally_bug_def Let_def)
qed

lemma readlines_rows:
  assumes "\<forall>cells\<in>set rows. \<forall>s\<in>set cells. CHR 0x0A \<notin> set s"
  shows "readlines (concat (map row rows)) = map row rows"
proof -
  have "CHR 0x0A \<notin> set (py_join [CHR 0x09] cells)" if "\<forall>s\<in>set cells. CHR 0x0A \<notin> set s" for cells
    using that by (induction "[CHR 0x09]" cells rule: py_join.induct) auto
  then show ?thesis using assms
    by (induction rows) (simp_all add: row_def newline_def readlines_line[unfolded line_end_def append_Cons append_Nil])
qed

section \<open>The loop\<close>

type_synonym stats_row = "string \<times> string \<times> bool \<times> string"

definition row_cells :: "stats_row \<Rightarrow> string list" where
  "row_cells r = (case r of (controller, bug, b, result) \<Rightarrow> [controller, bug, if b then ''True'' else ''False'', result])"

definition clean_row :: "stats_row \<Rightarrow> bool" where
  "clean_row r \<longleftrightarrow> (case r of (controller, bug, b, result) \<Rightarrow> clean_cell controller \<and> clean_cell bug \<and> clean_cell result)"

lemma clean_outcome: "clean_cell (if b then ''True'' else ''False'')"
  by (simp add: clean_cell_def py_space_def)

lemma table3_lines_result:
  assumes "table3_lines (map (\<lambda>r. row (row_cells r)) rs) t out w = Some (Inr (), w')" "\<forall>r\<in>set rs. clean_row r" "rs \<noteq> []"
  shows "node_at (w_files w') (resolve (w_cwd w) ''table3.tsv'') =
    Some (File (Text (table3_text (foldl tally_bug t (map (\<lambda>(c, b, _). (c, b)) rs)))))"
  using assms
proof (induction rs arbitrary: t w)
  case (Cons r rs)
  obtain c b x f where r: "r = (c, b, x, f)" by (cases r) auto
  have line: "count_line t (row (row_cells r)) = Inr (tally_bug t (c, b))"
    using Cons.prems(2) count_line_row clean_outcome by (simp add: r row_cells_def clean_row_def)
  obtain w1 where w1: "write_text ''table3.tsv'' (table3_text (tally_bug t (c, b))) out w = Some (Inr (), w1)"
    and rest: "table3_lines (map (\<lambda>r. row (row_cells r)) rs) (tally_bug t (c, b)) out w1 = Some (Inr (), w')"
    using Cons.prems(1) line by (auto simp: sh_bind_returns)
  have cwd: "w_cwd w1 = w_cwd w" and written: "node_at (w_files w1) (resolve (w_cwd w) ''table3.tsv'') = Some (File (Text (table3_text (tally_bug t (c, b)))))"
    using w1 put_file_same by (auto simp: write_text_def write_content_def sh_update_returns)
  show ?case
  proof (cases "rs = []")
    case True
    then show ?thesis using rest written by (simp add: r sh_return_def)
  next
    case False
    then show ?thesis using Cons.IH[OF rest] Cons.prems(2) cwd by (simp add: r)
  qed
qed simp

section \<open>The whole script\<close>

lemma map_returns:
  assumes "sh_map f xs out w = Some (Inr ys, w')" "\<And>x y w w'. x \<in> set xs \<Longrightarrow> f x out w = Some (Inr y, w') \<Longrightarrow> P x y"
  shows "list_all2 P xs ys"
  using assms
proof (induction xs arbitrary: w ys)
  case Nil
  then show ?case by (auto simp: sh_return_def)
next
  case (Cons x xs)
  then show ?case by (fastforce simp: sh_map.simps(2) sh_returns)
qed

text \<open>The rows of a statistics table, whatever the outcomes were.\<close>

definition selected :: "string \<Rightarrow> string list" where
  "selected controller = filter (\<lambda>b. \<not> py_contains ''indirect'' b) (map fst (the (map_of reprod_map controller)))"

definition rows_of :: "(string \<times> bug_stats) list \<Rightarrow> stats_row list" where
  "rows_of stats_map = concat (map (\<lambda>(c, bugs). map (\<lambda>(b, x, f). (c, b, x, f)) bugs) stats_map)"

lemma stats_table_rows:
  "stats_table stats_map = concat (map row ([''controller'', ''bug'', ''reproduced'', ''test-result-file''] # map row_cells (rows_of stats_map)))"
  by (simp add: stats_table_def stats_rows_def rows_of_def row_cells_def map_concat comp_def split_def)

text \<open>What a run over the bugs of a controller returns: their names with clean names of result files.\<close>

definition one_line :: "string \<Rightarrow> bool" where
  "one_line s \<longleftrightarrow> list_all (\<lambda>c. c \<noteq> CHR 0x09 \<and> c \<noteq> CHR 0x0A) s"

lemma one_line_iff: "one_line s \<longleftrightarrow> CHR 0x09 \<notin> set s \<and> CHR 0x0A \<notin> set s"
  by (auto simp: one_line_def list_all_iff)

lemma known_all:
  assumes "bug_of c b = Inr k" "list_all (\<lambda>(c, bugs). list_all (\<lambda>(b, k). P c b k) bugs) reprod_map" shows "P c b k"
proof -
  obtain bugs where "map_of reprod_map c = Some bugs" "map_of bugs b = Some k" using assms(1) by (auto simp: bug_of_def res_simps)
  then show ?thesis using assms(2) by (fastforce simp: list_all_iff dest!: map_of_SomeD)
qed

lemma known_names:
  "list_all (\<lambda>(c, bugs). list_all (\<lambda>(b, k). clean_cell c \<and> clean_cell b \<and> one_line (fst k) \<and> one_line (fst (snd k))) bugs) reprod_map"
  by (simp add: reprod_map_def clean_cell_def py_space_def one_line_def)

lemma result_file_clean:
  assumes "clean_cell c" "one_line wl" "one_line plan" shows "clean_cell (test_result_file c wl (reproduction_plan plan))"
proof -
  let ?p = "reproduction_plan plan"
  have "one_line (path_join ''bug_reproduction_test_plans'' plan)" using assms(3) by (simp add: path_join_def py_endswith_def one_line_def)
  moreover have "set (basename ?p) \<subseteq> set ?p" by (auto simp: basename_def dest: set_takeWhileD)
  ultimately have "one_line (basename ?p)" by (auto simp: one_line_iff reproduction_plan_def)
  then show ?thesis using assms by (auto simp: clean_cell_def test_result_file_def py_space_def one_line_iff)
qed

lemma known_bug_names:
  assumes "bug_of c b = Inr (wl, plan, hooks)"
  shows "clean_cell c \<and> clean_cell b \<and> clean_cell (test_result_file c wl (reproduction_plan plan))"
  using known_all[OF assms known_names] result_file_clean by simp

lemma single_bug_names:
  assumes "reproduce_single_bug c b registry skip out w = Some (Inr (x, f), w')"
  shows "clean_cell c \<and> clean_cell b \<and> clean_cell f"
proof -
  obtain wl plan hooks where "bug_of c b = Inr (wl, plan, hooks)" "f = test_result_file c wl (reproduction_plan plan)"
    using assms by (auto simp: reproduce_single_bug_def sh_bind_returns sh_of_returns Let_def sh_return_returns)
  then show ?thesis using known_bug_names by blast
qed

definition stats_for :: "string \<Rightarrow> string \<times> bug_stats \<Rightarrow> bool" where
  "stats_for c cs \<longleftrightarrow> fst cs = c \<and> map fst (snd cs) = selected c \<and> (\<forall>(b, x, f)\<in>set (snd cs). clean_cell c \<and> clean_cell b \<and> clean_cell f)"

lemma reproduce_bug_stats:
  assumes "reproduce_bug c ''all'' registry skip out w = Some (Inr stats, w')" shows "stats_for c (c, stats)"
proof -
  obtain bugs w1 where bugs: "selected_bugs c ''all'' = Inr bugs"
    and run: "sh_map (\<lambda>b. sh_bind (reproduce_single_bug c b registry skip) (\<lambda>r. sh_return (b, r))) bugs out w1 = Some (Inr stats, w')"
    using assms by (auto simp: reproduce_bug_def sh_bind_returns sh_of_returns)
  have "list_all2 (\<lambda>b bxf. fst bxf = b \<and> clean_cell c \<and> clean_cell b \<and> clean_cell (snd (snd bxf))) bugs stats"
    by (rule map_returns[OF run]) (auto simp: sh_bind_returns sh_return_returns dest!: single_bug_names)
  then have "map fst stats = bugs" "\<forall>(b, x, f)\<in>set stats. clean_cell c \<and> clean_cell b \<and> clean_cell f"
    by (induction rule: list_all2_induct) auto
  moreover have "bugs = selected c" using bugs by (auto simp: selected_bugs_def selected_def res_simps)
  ultimately show ?thesis by (simp add: stats_for_def)
qed

text \<open>The table that the known bugs give: in each row, and in total, how many names start with the category.\<close>

definition names_starting :: "string \<Rightarrow> string list \<Rightarrow> nat" where
  "names_starting category bugs = length (filter (\<lambda>b. py_startswith b category) bugs)"

definition counts_of :: "string list \<Rightarrow> counts" where
  "counts_of bugs = \<lparr> ct_intermediate = names_starting ''intermediate-state'' bugs,
     ct_stale = names_starting ''stale-state'' bugs, ct_unobserved = names_starting ''unobserved-state'' bugs \<rparr>"

definition known_bugs_table :: table3 where
  "known_bugs_table = (map (\<lambda>(c, bugs). (c, counts_of (map fst bugs))) reprod_map,
     counts_of (concat (map (\<lambda>(c, bugs). map fst bugs) reprod_map)))"

definition pairs_of :: "(string \<times> bug_stats) list \<Rightarrow> (string \<times> string) list" where
  "pairs_of stats_map = concat (map (\<lambda>(c, bugs). map (\<lambda>b. (c, b)) (map fst bugs)) stats_map)"

lemma rows_of_simps [simp]:
  "rows_of [] = []" "rows_of ((c, bugs) # m) = map (\<lambda>(b, x, f). (c, b, x, f)) bugs @ rows_of m"
  "pairs_of [] = []" "pairs_of ((c, bugs) # m) = map (\<lambda>b. (c, b)) (map fst bugs) @ pairs_of m"
  by (simp_all add: rows_of_def pairs_of_def)

lemma pairs_of_rows: "map (\<lambda>(c, b, _). (c, b)) (rows_of stats_map) = pairs_of stats_map"
  by (induction stats_map) auto

lemma pairs_of_stats:
  "list_all2 stats_for cs stats_map \<Longrightarrow> pairs_of stats_map = concat (map (\<lambda>c. map (\<lambda>b. (c, b)) (selected c)) cs)"
proof (induction rule: list_all2_induct)
  case (Cons c cs stats stats_map)
  obtain bugs where "stats = (c, bugs)" "map fst bugs = selected c" using Cons.hyps(1) by (cases stats) (auto simp: stats_for_def)
  then show ?case using Cons.IH by (simp del: map_map)
qed simp

lemma rows_clean: "list_all2 stats_for cs stats_map \<Longrightarrow> \<forall>r\<in>set (rows_of stats_map). clean_row r"
proof (induction rule: list_all2_induct)
  case (Cons c cs stats stats_map)
  obtain bugs where "stats = (c, bugs)" "\<forall>(b, x, f)\<in>set bugs. clean_cell c \<and> clean_cell b \<and> clean_cell f"
    using Cons.hyps(1) by (cases stats) (auto simp: stats_for_def)
  then show ?case using Cons.IH by (auto simp: clean_row_def)
qed simp

lemma known_tally: "foldl tally_bug ([], no_counts) (concat (map (\<lambda>c. map (\<lambda>b. (c, b)) (selected c)) (map fst reprod_map))) = known_bugs_table"
  by code_simp

lemma row_cells_clean: "clean_row r \<Longrightarrow> s \<in> set (row_cells r) \<Longrightarrow> CHR 0x0A \<notin> set s"
  by (cases r) (auto simp: clean_row_def row_cells_def clean_cell_def split: if_splits)

lemma stats_lines:
  assumes "list_all2 stats_for cs stats_map"
  shows "readlines (stats_table stats_map) =
    row [''controller'', ''bug'', ''reproduced'', ''test-result-file''] # map (\<lambda>r. row (row_cells r)) (rows_of stats_map)"
proof -
  let ?header = "[''controller'', ''bug'', ''reproduced'', ''test-result-file'']"
  have "\<forall>cells\<in>set (?header # map row_cells (rows_of stats_map)). \<forall>s\<in>set cells. CHR 0x0A \<notin> set s"
    using rows_clean[OF assms] row_cells_clean by auto
  from readlines_rows[OF this] show ?thesis by (simp add: stats_table_rows comp_def)
qed

lemma concat_some: "x \<in> set xs \<Longrightarrow> f x \<noteq> [] \<Longrightarrow> concat (map f xs) \<noteq> []"
  by auto

lemma generate_table3_result:
  assumes "list_all2 stats_for (map fst reprod_map) stats_map" "generate_table3 out w = Some (Inr (), w')"
    "node_at (w_files w) (resolve (w_cwd w) ''bug_reproduction_stats.tsv'') = Some (File (Text (stats_table stats_map)))"
  shows "node_at (w_files w') (resolve (w_cwd w) ''table3.tsv'') = Some (File (Text (table3_text known_bugs_table)))"
proof -
  have pairs: "map (\<lambda>(c, b, _). (c, b)) (rows_of stats_map) = concat (map (\<lambda>c. map (\<lambda>b. (c, b)) (selected c)) (map fst reprod_map))"
    using pairs_of_stats[OF assms(1)] by (simp add: pairs_of_rows)
  have "\<not> list_all (\<lambda>c. selected c = []) (map fst reprod_map)" by code_simp
  then obtain c where "c \<in> set (map fst reprod_map)" "selected c \<noteq> []" unfolding list_all_iff by blast
  then have "concat (map (\<lambda>c. map (\<lambda>b. (c, b)) (selected c)) (map fst reprod_map)) \<noteq> []" by (intro concat_some) auto
  then have ne: "rows_of stats_map \<noteq> []" unfolding pairs[symmetric] by blast
  note clean = rows_clean[OF assms(1)] and lines = stats_lines[OF assms(1)]
  obtain w1 where "read_lines ''bug_reproduction_stats.tsv'' out w = Some (Inr (readlines (stats_table stats_map)), w1)" "w1 = w"
    and "table3_lines (tl (readlines (stats_table stats_map))) ([], no_counts) out w1 = Some (Inr (), w')"
    using assms(2,3) by (auto simp: generate_table3_def sh_returns read_lines_def read_text_def read_content_def read_node_def text_of_def)
  then have "table3_lines (map (\<lambda>r. row (row_cells r)) (rows_of stats_map)) ([], no_counts) out w = Some (Inr (), w')"
    by (simp add: lines)
  from table3_lines_result[OF this clean ne] show ?thesis unfolding pairs known_tally .
qed

text \<open>No part of the script leaves the directory it was started in.\<close>

lemma stays_hook: "ensures (frame c (\<lambda>_. False)) out (run_hook h)"
  by (cases h) (auto simp: before_reproducing_yugabyte_operator_indirect_1_def after_reproducing_yugabyte_operator_indirect_1_def
      before_reproducing_cassandra_operator_indirect_1_def after_reproducing_cassandra_operator_indirect_1_def build_cassandra_def
      copy_def move_def write_text_def write_content_def dump_doc_def any_commands intro!: stays_rules)

lemma stays_single: "ensures (frame c (\<lambda>_. False)) out (reproduce_single_bug controller bug registry skip)"
  by (auto simp: reproduce_single_bug_def before_hook_def after_hook_def Let_def any_commands split: list.split prod.split
      intro!: stays_rules stays_hook)

lemma stays_table: "ensures (frame c (\<lambda>_. False)) out generate_table3"
proof -
  have "ensures (frame c (\<lambda>_. False)) out (table3_lines lines t)" for lines t
    by (induction lines arbitrary: t) (auto simp: write_text_def write_content_def intro!: stays_rules)
  then show ?thesis by (auto simp: generate_table3_def read_lines_def intro!: stays_rules)
qed

lemma stays_main: "ensures (frame c (\<lambda>_. False)) out (reproduce_main controller bug registry skip)"
proof -
  have config: "ensures (frame c (\<lambda>_. False)) out load_common_config"
    unfolding load_common_config_def by (auto intro!: stays_rules)
  show ?thesis
    by (auto simp: reproduce_main_def reproduce_bug_def write_text_def write_content_def
        rmtree_if_exists_def rmtree_def split: option.split intro!: stays_rules stays_single stays_table config)
qed

text \<open>
  C20: table 3, made when all bugs of all controllers are run, counts the bugs that the script knows: its text
  is the same whatever was reproduced, since the column that says so is never read.
\<close>

theorem table3_counts_known_bugs:
  assumes "reproduce_main (Some ''all'') ''all'' registry skip out w = Some (Inr (), w')"
  shows "node_at (w_files w') (resolve (w_cwd w) ''table3.tsv'') = Some (File (Text (table3_text known_bugs_table)))"
proof -
  obtain r w1 stats_map w2 w3 where
      run: "sh_map (\<lambda>c. sh_bind (reproduce_bug c ''all'' r skip) (\<lambda>stats. sh_return (c, stats))) (map fst reprod_map) out w1 = Some (Inr stats_map, w2)"
    and stats: "write_text ''bug_reproduction_stats.tsv'' (stats_table stats_map) out w2 = Some (Inr (), w3)"
    and table: "generate_table3 out w3 = Some (Inr (), w')"
    using assms by (auto simp: reproduce_main_def sh_bind_returns sh_when_def)
  have "list_all2 stats_for (map fst reprod_map) stats_map"
    by (rule map_returns[OF run]) (auto simp: sh_bind_returns sh_return_returns dest!: reproduce_bug_stats)
  moreover have "node_at (w_files w3) (resolve (w_cwd w3) ''bug_reproduction_stats.tsv'') = Some (File (Text (stats_table stats_map)))"
    using stats put_file_same by (auto simp: write_text_def write_content_def sh_update_returns)
  ultimately have "node_at (w_files w') (resolve (w_cwd w3) ''table3.tsv'') = Some (File (Text (table3_text known_bugs_table)))"
    using generate_table3_result table by blast
  moreover have "w_cwd w3 = w_cwd w"
    using ensuresD[OF stays_main assms] ensuresD[OF stays_table table] by (simp add: frame_def)
  ultimately show ?thesis by simp
qed

text \<open>A world with a result file for every bug, each holding the results of all, none of them reproduced.\<close>

definition all_results :: json where
  "all_results = JObj (map (\<lambda>(c, bugs). (c, JObj (map (\<lambda>b. (fst (snd b), JObj [(''test'',
     JObj (map (\<lambda>b. (reproduction_plan (fst (snd (snd b))), JObj [(''number_errors'', JInt 0)])) bugs))])) bugs))) reprod_map)"

definition result_paths :: "path list" where
  "result_paths = concat (map (\<lambda>(c, bugs). map (\<lambda>b. resolve [] (test_result_file c (fst (snd b)) (reproduction_plan (fst (snd (snd b)))))) bugs) reprod_map)"

definition table_files :: files where
  "table_files = ([''config.json''], File (Doc (JObj sample_common))) # map (\<lambda>p. (p, File (Doc all_results))) result_paths"

lemma map_of_same: "x \<in> set xs \<Longrightarrow> map_of (map (\<lambda>x. (k x, v)) xs) (k x) = Some v"
  by (induction xs) auto

lemma all_not_reproduced:
  assumes "bug_of c b = Inr (wl, plan, hooks)" shows "reproduced c wl (reproduction_plan plan) all_results = Inr False"
proof -
  obtain bugs where bugs: "map_of reprod_map c = Some bugs" "map_of bugs b = Some (wl, plan, hooks)"
    using assms by (auto simp: bug_of_def res_simps)
  then have b: "(b, wl, plan, hooks) \<in> set bugs" by (simp add: map_of_SomeD)
  show ?thesis
    by (simp add: reproduced_def all_results_def map_of_map bugs(1) py_positive_def
        map_of_same[OF b, of "\<lambda>b. fst (snd b)", simplified] map_of_same[OF b, of "\<lambda>b. reproduction_plan (fst (snd (snd b)))", simplified])
qed

lemma result_paths_apart: "list_all (\<lambda>p. p \<noteq> [] \<and> p \<noteq> [''config.json''] \<and> p \<noteq> [''sieve_config.json'']) result_paths"
  by (simp add: result_paths_def reprod_map_def test_result_file_def resolve_def py_startswith_def path_walk_def
      reproduction_plan_def path_join_def py_endswith_def basename_def)

lemma result_there:
  assumes "bug_of c b = Inr (wl, plan, hooks)"
  shows "node_at table_files (resolve [] (test_result_file c wl (reproduction_plan plan))) = Some (File (Doc all_results))"
proof -
  obtain bugs where bugs: "map_of reprod_map c = Some bugs" "map_of bugs b = Some (wl, plan, hooks)"
    using assms by (auto simp: bug_of_def res_simps)
  let ?p = "resolve [] (test_result_file c wl (reproduction_plan plan))"
  have "(c, bugs) \<in> set reprod_map" "(b, wl, plan, hooks) \<in> set bugs" using bugs by (simp_all add: map_of_SomeD)
  then have "?p \<in> set result_paths" unfolding result_paths_def by force
  from map_of_same[OF this, of id] have "map_of (map (\<lambda>p. (p, File (Doc all_results))) result_paths) ?p = Some (File (Doc all_results))" by simp
  moreover have "?p \<noteq> []" "?p \<noteq> [''config.json'']"
    using \<open>?p \<in> set result_paths\<close> result_paths_apart unfolding list_all_iff by blast+
  ultimately show ?thesis by (auto simp: table_files_def node_at_def)
qed

lemma goes_single:
  assumes "bug_of c b = Inr (wl, plan, [])"
  shows "\<exists>x. goes out [] table_files (reproduce_single_bug c b registry True) x [] table_files"
proof -
  obtain manifest where m: "map_of manifest_map c = Some manifest" using manifest_of_bug[OF assms] by blast
  let ?file = "test_result_file c wl (reproduction_plan plan)"
  have load: "goes out [] table_files (load_json ?file) all_results [] table_files"
    by (rule goes_load) (simp add: evals_def result_there[OF assms])
  have verdict: "goes out [] table_files (sh_of (reproduced c wl (reproduction_plan plan) all_results)) False [] table_files"
    by (rule goes_of) (simp add: evals_def all_not_reproduced[OF assms])
  show ?thesis unfolding reproduce_single_bug_def assms m
    by (auto simp: before_hook_def after_hook_def Let_def sh_when_def intro!: exI goes_bind[OF load] goes_bind[OF verdict] goes_return)
qed

lemma goes_map_some:
  "(\<And>x. x \<in> set xs \<Longrightarrow> \<exists>y. goes out c fs (f x) y c fs) \<Longrightarrow> \<exists>ys. goes out c fs (sh_map f xs) ys c fs"
proof (induction xs)
  case (Cons x xs)
  obtain y where y: "goes out c fs (f x) y c fs" using Cons.prems[of x] by auto
  obtain ys where "goes out c fs (sh_map f xs) ys c fs" using Cons.IH Cons.prems by auto
  from goes_map_Cons[where f = f, OF y this] show ?case by (rule exI)
qed (intro exI, rule goes_map_Nil)

lemma direct_bugs:
  "list_all (\<lambda>(c, bugs). list_all (\<lambda>(b, k). py_contains ''indirect'' b \<or> snd (snd k) = []) bugs) reprod_map"
  by code_simp

lemma goes_bug:
  assumes "c \<in> set (map fst reprod_map)"
  shows "\<exists>stats. goes out [] table_files (reproduce_bug c ''all'' registry True) stats [] table_files"
proof -
  obtain bugs where bugs: "map_of reprod_map c = Some bugs" using assms by (metis map_of_eq_None_iff not_None_eq set_map)
  let ?names = "filter (\<lambda>b. \<not> py_contains ''indirect'' b) (map fst bugs)"
  have single: "\<exists>r. goes out [] table_files (sh_bind (reproduce_single_bug c b registry True) (\<lambda>r. sh_return (b, r))) r [] table_files"
    if "b \<in> set ?names" for b
  proof -
    have "b \<in> set (map fst bugs)" and direct: "\<not> py_contains ''indirect'' b" using that by simp_all
    then obtain k where "map_of bugs b = Some k" by (metis map_of_eq_None_iff not_None_eq set_map)
    then have k: "bug_of c b = Inr k" using bugs by (simp add: bug_of_def)
    obtain wl plan hooks where "k = (wl, plan, hooks)" by (cases k)
    then have "bug_of c b = Inr (wl, plan, [])" using k known_all[OF k direct_bugs] direct by simp
    then obtain r where "goes out [] table_files (reproduce_single_bug c b registry True) r [] table_files" using goes_single by blast
    then show ?thesis by (intro exI) (rule goes_bind, assumption, rule goes_return)
  qed
  from goes_map_some[where f = "\<lambda>b. sh_bind (reproduce_single_bug c b registry True) (\<lambda>r. sh_return (b, r))", OF single]
  obtain stats where "goes out [] table_files (sh_map (\<lambda>b. sh_bind (reproduce_single_bug c b registry True) (\<lambda>r. sh_return (b, r))) ?names) stats [] table_files"
    by blast
  moreover have "selected_bugs c ''all'' = Inr ?names" by (simp add: selected_bugs_def bugs)
  ultimately have "goes out [] table_files (reproduce_bug c ''all'' registry True) stats [] table_files" unfolding reproduce_bug_def by simp
  then show ?thesis by (rule exI)
qed

lemma goes_table3:
  assumes "\<forall>r\<in>set rs. clean_row r" "\<forall>n. node_at fs [''table3.tsv''] = Some n \<longrightarrow> (\<exists>x. n = File x)"
  shows "\<exists>fs'. goes out [] fs (table3_lines (map (\<lambda>r. row (row_cells r)) rs) t) () [] fs'"
  using assms
proof (induction rs arbitrary: t fs)
  case Nil
  show ?case unfolding list.map table3_lines.simps by (rule exI, rule goes_return)
next
  case (Cons r rs)
  obtain c b x f where r: "r = (c, b, x, f)" by (cases r) auto
  have line: "count_line t (row (row_cells r)) = Inr (tally_bug t (c, b))"
    using Cons.prems(1) count_line_row clean_outcome by (simp add: r row_cells_def clean_row_def)
  obtain fs1 where fs1: "put_file [''table3.tsv''] (Text (table3_text (tally_bug t (c, b)))) fs = Inr fs1"
    using Cons.prems(2) by (cases "node_at fs [''table3.tsv'']") (auto simp: put_file_def node_at_def)
  have "goes out [] fs (write_text ''table3.tsv'' (table3_text (tally_bug t (c, b)))) () [] fs1"
    unfolding write_text_def write_content_def
    by (rule goes_update) (simp add: evals_def fs1 resolve_plain plain_def)
  moreover obtain fs2 where "goes out [] fs1 (table3_lines (map (\<lambda>r. row (row_cells r)) rs) (tally_bug t (c, b))) () [] fs2"
    using Cons.IH[of fs1 "tally_bug t (c, b)"] Cons.prems(1) put_file_same[OF fs1] by fastforce
  ultimately have "goes out [] fs (table3_lines (map (\<lambda>r. row (row_cells r)) (r # rs)) t) () [] fs2"
    using line goes_bind by fastforce
  then show ?case by blast
qed

lemma table_files_node: "p \<noteq> [] \<Longrightarrow> node_at table_files p = Some n \<Longrightarrow> \<exists>x. n = File x"
  by (auto simp: node_at_def table_files_def dest!: map_of_SomeD split: if_splits)

lemma goes_config:
  "\<exists>cc. goes (all_exit 0) [] table_files load_common_config cc [] table_files"
proof -
  have "list_all (\<lambda>k. map_of sample_common k \<noteq> None) common_config_keys" by code_simp
  then obtain cc where cc: "get_common_config (JObj sample_common) None = Inr cc"
    using common_config_required_keys[of sample_common] by (auto simp del: not_None_eq)
  have paths: "resolve [] ''config.json'' = [''config.json'']" "resolve [] ''sieve_config.json'' = [''sieve_config.json'']"
    by (simp_all add: resolve_plain plain_def)
  have "[''sieve_config.json''] \<notin> set result_paths" using result_paths_apart unfolding list_all_iff by blast
  then have "node_at table_files [''sieve_config.json''] = None"
    by (auto simp: table_files_def node_at_def map_of_eq_None_iff)
  moreover have "node_at table_files [''config.json''] = Some (File (Doc (JObj sample_common)))" by (simp add: table_files_def node_at_def)
  ultimately have "goes (all_exit 0) [] table_files load_common_config cc [] table_files" unfolding load_common_config_def
    by (intro goes_bind[OF goes_load(1)] goes_bind[OF goes_files, where x = False] goes_of)
      (auto simp: evals_def paths cc intro!: goes_bind[OF goes_return] goes_of)
  then show ?thesis by blast
qed

theorem table3_counts_known_bugs_witness:
  "\<exists>w'. reproduce_main (Some ''all'') ''all'' (Some ''r'') True (all_exit 0) \<lparr> w_cwd = [], w_files = table_files, w_log = [] \<rparr> = Some (Inr (), w') \<and>
     node_at (w_files w') [''table3.tsv''] = Some (File (Text (table3_text known_bugs_table)))"
proof -
  let ?w = "\<lparr> w_cwd = [], w_files = table_files, w_log = [] \<rparr>"
  have writable: "\<exists>fs'. put_file [x] y fs = Inr fs'" if "\<And>n. node_at fs [x] = Some n \<Longrightarrow> \<exists>z. n = File z" for x y fs
    using that by (cases "node_at fs [x]") (auto simp: put_file_def node_at_def)
  obtain cc where config: "goes (all_exit 0) [] table_files load_common_config cc [] table_files" using goes_config by blast
  have bugs: "\<exists>cs. goes (all_exit 0) [] table_files (sh_bind (reproduce_bug c ''all'' ''r'' True) (\<lambda>stats. sh_return (c, stats))) cs [] table_files"
    if "c \<in> set (map fst reprod_map)" for c
    using goes_bug[OF that, of "all_exit 0" "''r''"] by (elim exE) (intro exI, rule goes_bind, assumption, rule goes_return)
  obtain stats_map where run: "goes (all_exit 0) [] table_files (sh_map (\<lambda>c. sh_bind (reproduce_bug c ''all'' ''r'' True) (\<lambda>stats. sh_return (c, stats))) (map fst reprod_map)) stats_map [] table_files"
    using goes_map_some[where f = "\<lambda>c. sh_bind (reproduce_bug c ''all'' ''r'' True) (\<lambda>stats. sh_return (c, stats))", OF bugs] by blast
  have stats: "list_all2 stats_for (map fst reprod_map) stats_map"
  proof -
    obtain w' where "sh_map (\<lambda>c. sh_bind (reproduce_bug c ''all'' ''r'' True) (\<lambda>stats. sh_return (c, stats))) (map fst reprod_map) (all_exit 0) ?w = Some (Inr stats_map, w')"
      using run unfolding goes_def by blast
    then show ?thesis by (rule map_returns) (auto simp: sh_bind_returns sh_return_returns dest!: reproduce_bug_stats)
  qed
  obtain fs1 where fs1: "put_file [''bug_reproduction_stats.tsv''] (Text (stats_table stats_map)) table_files = Inr fs1"
    using writable[of table_files] table_files_node by blast
  have paths: "resolve [] ''bug_reproduction_stats.tsv'' = [''bug_reproduction_stats.tsv'']" "resolve [] ''table3.tsv'' = [''table3.tsv'']"
    by (simp_all add: resolve_plain plain_def)
  have saved: "goes (all_exit 0) [] table_files (write_text ''bug_reproduction_stats.tsv'' (stats_table stats_map)) () [] fs1"
    unfolding write_text_def write_content_def by (rule goes_update) (simp add: evals_def fs1 paths)
  have "node_at fs1 [''table3.tsv''] = node_at table_files [''table3.tsv'']" using put_file_other[OF fs1] by simp
  then obtain fs2 where "goes (all_exit 0) [] fs1 (table3_lines (map (\<lambda>r. row (row_cells r)) (rows_of stats_map)) ([], no_counts)) () [] fs2"
    using goes_table3[OF rows_clean[OF stats], of fs1] table_files_node[of "[''table3.tsv'']"] by (metis list.distinct(1))
  then have table: "goes (all_exit 0) [] fs1 generate_table3 () [] fs2" unfolding generate_table3_def read_lines_def
    by (intro goes_bind[OF goes_bind[OF goes_read_text[where s = "stats_table stats_map" and x = "Text (stats_table stats_map)"] goes_return]])
      (simp_all add: evals_def paths put_file_same[OF fs1] text_of_def stats_lines[OF stats])
  have "goes (all_exit 0) [] table_files (reproduce_main (Some ''all'') ''all'' (Some ''r'') True) () [] fs2"
    unfolding reproduce_main_def
    by (rule goes_bind[OF config]) (simp add: sh_when_def goes_bind[OF run] goes_bind[OF saved] table)
  then obtain w' where w': "reproduce_main (Some ''all'') ''all'' (Some ''r'') True (all_exit 0) ?w = Some (Inr (), w')"
    unfolding goes_def by blast
  with table3_counts_known_bugs[OF w'] show ?thesis by (simp add: paths)
qed

end
