(* ===== verification/Build.thy ===== *)
theory Build
  imports Sieve_Main
begin

text \<open>
  Building the instrumented images, \<^verbatim>\<open>build.py\<close>: Kubernetes or a controller is downloaded, the client of Sieve and the
  modules to instrument are copied into it, its \<open>go.mod\<close> is changed to use them, the instrumentation is
  run and the image built, tagged and pushed.
\<close>

section \<open>The environment of the script\<close>

text \<open>The directory it was started in and the variable \<open>GOPATH\<close>, read when the script is loaded.\<close>

record build_env =
  be_original_dir :: string
  be_gopath :: string

definition load_build_env :: "build_env shell" where
  "load_build_env =
     sh_bind getcwd (\<lambda>original_dir.
     sh_bind (sh_outside (\<lambda>out. from_option KeyError (ou_environ out ''GOPATH''))) (\<lambda>gopath.
     sh_bind (sh_of gopath) (\<lambda>gopath.
       sh_return \<lparr> be_original_dir = original_dir, be_gopath = gopath \<rparr>)))"

definition DEFAULT_K8S_VERSION :: string where
  "DEFAULT_K8S_VERSION = ''v1.18.9''"

definition k8s_version_to_apimachinery_version :: "string \<Rightarrow> string" where
  "k8s_version_to_apimachinery_version k8s_version = ''v0'' @ drop 2 k8s_version"

definition update_sieve_client_go_mod_with_version :: "string \<Rightarrow> string \<Rightarrow> unit shell" where
  "update_sieve_client_go_mod_with_version go_mod_path version =
     sh_bind (read_text go_mod_path) (\<lambda>data.
       write_text go_mod_path (py_replace ''k8s.io/apimachinery v0.18.9'' (''k8s.io/apimachinery '' @ version) data))"

text \<open>\<open>os.symlink\<close>.\<close>

definition symlink :: "string \<Rightarrow> string \<Rightarrow> unit shell" where
  "symlink target p = sh_update (\<lambda>cwd fs. let q = resolve cwd p in
     if node_at fs q \<noteq> None then Inl FileExistsError
     else if node_at fs (butlast q) = Some Folder then Inr (AList.update q (Link target) fs)
     else if node_at fs (butlast q) = None then Inl FileNotFoundError
     else Inl OSError)"

text \<open>
  \<open>add_mod\<close> and \<open>add_mod_recursively\<close> of \<^verbatim>\<open>sieve_common/common.py\<close>. Of the order of the walk only that the folder itself comes
  first is kept.
\<close>

definition add_mod :: "path \<Rightarrow> unit shell" where
  "add_mod q = sh_bind (sh_files (\<lambda>cwd fs. if node_at fs q = None then Inl FileNotFoundError else Inr ())) (\<lambda>_.
     sh_log (Changed_mode q))"

definition add_mod_recursively :: "string \<Rightarrow> unit shell" where
  "add_mod_recursively dir_name =
     sh_bind (sh_files (\<lambda>cwd fs. Inr (resolve cwd dir_name))) (\<lambda>q.
     sh_bind (add_mod q) (\<lambda>_.
     sh_bind (sh_files (\<lambda>cwd fs. Inr (remdups (filter (strict_prefix q) (map fst fs))))) (\<lambda>below. sh_for below add_mod)))"

section \<open>Kubernetes\<close>

definition download_kubernetes :: "build_env \<Rightarrow> string \<Rightarrow> unit shell" where
  "download_kubernetes be version = in_order
     [rmtree_if_exists ''fakegopath'',
      makedirs ''fakegopath/src/k8s.io'' False,
      sh_cmd (''git clone --single-branch --branch '' @ version @
        '' https://github.com/kubernetes/kubernetes.git fakegopath/src/k8s.io/kubernetes >> /dev/null''),
      chdir ''fakegopath/src/k8s.io/kubernetes'',
      sh_cmd ''git checkout -b sieve >> /dev/null'',
      chdir (be_original_dir be)]"

definition install_lib_for_kubernetes :: "string \<Rightarrow> unit shell" where
  "install_lib_for_kubernetes version = in_order
     [append_text ''fakegopath/src/k8s.io/kubernetes/staging/src/k8s.io/apiserver/go.mod''
        (''require sieve.client v0.0.0'' @ newline @ ''replace sieve.client => ../../sieve.client'' @ newline),
      copytree ''sieve_client'' ''fakegopath/src/k8s.io/kubernetes/staging/src/sieve.client'',
      sh_when (version \<noteq> DEFAULT_K8S_VERSION) (update_sieve_client_go_mod_with_version
        ''fakegopath/src/k8s.io/kubernetes/staging/src/sieve.client/go.mod'' (k8s_version_to_apimachinery_version version)),
      symlink ''../staging/src/sieve.client'' ''fakegopath/src/k8s.io/kubernetes/vendor/sieve.client'']"

text \<open>Running the instrumentation on a configuration, the same for Kubernetes and the controllers.\<close>

definition run_instrumentation :: "build_env \<Rightarrow> json \<Rightarrow> unit shell" where
  "run_instrumentation be config = in_order
     [dump_doc config ''config.json'',
      sh_cmd ''go mod tidy'',
      sh_cmd ''go build'',
      sh_cmd ''./instrumentation config.json'',
      chdir (be_original_dir be)]"

definition instrument_kubernetes :: "build_env \<Rightarrow> string \<Rightarrow> unit shell" where
  "instrument_kubernetes be mode = in_order
     [chdir ''sieve_instrumentation'',
      run_instrumentation be (JObj [(''project'', JStr ''kubernetes''), (''mode'', JStr mode),
        (''k8s_filepath'', JStr (be_original_dir be @ ''/fakegopath/src/k8s.io/kubernetes''))])]"

definition build_kubernetes :: "build_env \<Rightarrow> string \<Rightarrow> string \<Rightarrow> string \<Rightarrow> unit shell" where
  "build_kubernetes be version container_registry image_tag = in_order
     [chdir ''fakegopath/src/k8s.io/kubernetes'',
      sh_cmd (''GOPATH='' @ be_original_dir be @ ''/fakegopath KUBE_GIT_VERSION='' @ version @
        ''-sieve-`git rev-parse HEAD` kind build node-image''),
      chdir (be_original_dir be),
      sh_cmd (''docker image tag kindest/node:latest '' @ container_registry @ ''/node:'' @ image_tag)]"

definition push_kubernetes :: "string \<Rightarrow> string \<Rightarrow> unit shell" where
  "push_kubernetes container_registry image_tag = sh_cmd (''docker push '' @ container_registry @ ''/node:'' @ image_tag)"

definition setup_kubernetes :: "build_env \<Rightarrow> string \<Rightarrow> string \<Rightarrow> string \<Rightarrow> string \<Rightarrow> bool \<Rightarrow> unit shell" where
  "setup_kubernetes be version mode container_registry image_tag push_to_remote = in_order
     [download_kubernetes be version,
      install_lib_for_kubernetes version,
      instrument_kubernetes be mode,
      build_kubernetes be version container_registry image_tag,
      sh_when push_to_remote (push_kubernetes container_registry image_tag)]"

section \<open>Getting a controller\<close>

text \<open>A field of the configuration that is joined to a path.\<close>

definition field :: "json \<Rightarrow> string shell" where
  "field j = sh_of (as_str j)"

definition application_dir :: "controller_config \<Rightarrow> string shell" where
  "application_dir kc = sh_bind (field (kc_controller_name kc)) (\<lambda>name. sh_return (path_join ''app'' name))"

definition download_controller :: "build_env \<Rightarrow> controller_config \<Rightarrow> unit shell" where
  "download_controller be kc =
     sh_bind (application_dir kc) (\<lambda>dir. in_order
       [rmtree_if_exists dir,
        sh_cmd (''git clone '' @ py_format (kc_github_link kc) @ '' '' @ dir @ '' >> /dev/null''),
        chdir dir,
        sh_cmd (''git checkout '' @ py_format (kc_commit kc) @ '' >> /dev/null''),
        sh_cmd ''git checkout -b sieve >> /dev/null'',
        sh_bind (sh_of (py_iter (kc_cherry_pick_commits kc))) (\<lambda>commits.
          sh_for commits (\<lambda>commit. sh_cmd (''git cherry-pick '' @ py_format commit))),
        chdir (be_original_dir be)])"

text \<open>
  The folder above the module is made with \<open>os.makedirs\<close>, which raises when it is there already.
\<close>

definition install_module :: "build_env \<Rightarrow> string \<Rightarrow> string \<Rightarrow> unit shell" where
  "install_module be module sieve_dep_src_dir =
     (let module_src = path_join (path_join (be_gopath be) ''pkg/mod'') module;
          module_dst = path_join sieve_dep_src_dir module in in_order
       [sh_cmd (''go mod download '' @ module @ '' >> /dev/null''),
        makedirs (path_join sieve_dep_src_dir (dirname module)) False,
        copytree module_src module_dst,
        add_mod_recursively module_dst])"

definition api_module :: "json \<Rightarrow> string res" where
  "api_module api = res_bind (py_getitem api ''module'') as_str"

primrec install_modules :: "build_env \<Rightarrow> string \<Rightarrow> json list \<Rightarrow> string list \<Rightarrow> unit shell" where
  "install_modules be dir [] downloaded = sh_return ()"
| "install_modules be dir (api # apis) downloaded =
     sh_bind (sh_of (api_module api)) (\<lambda>module.
       if module \<in> set downloaded then install_modules be dir apis downloaded
       else sh_bind (install_module be module dir) (\<lambda>_. install_modules be dir apis (module # downloaded)))"

text \<open>The version of the client's \<open>go.mod\<close>, in a controller.\<close>

definition set_client_version :: "controller_config \<Rightarrow> string \<Rightarrow> unit shell" where
  "set_client_version kc go_mod =
     (if kc_kubernetes_version kc \<noteq> JStr DEFAULT_K8S_VERSION then
        sh_bind (field (kc_kubernetes_version kc)) (\<lambda>version.
          update_sieve_client_go_mod_with_version go_mod (k8s_version_to_apimachinery_version version))
      else if kc_apimachinery_version kc \<noteq> JNull then
        update_sieve_client_go_mod_with_version go_mod (py_format (kc_apimachinery_version kc))
      else sh_return ())"

definition commit_all :: "build_env \<Rightarrow> string \<Rightarrow> string \<Rightarrow> unit shell" where
  "commit_all be dir message = in_order
     [chdir dir,
      sh_cmd ''git add -A >> /dev/null'',
      sh_cmd (''git commit -m '' @ [CHR 0x22] @ message @ [CHR 0x22] @ '' >> /dev/null''),
      chdir (be_original_dir be)]"

definition install_lib_for_controller :: "build_env \<Rightarrow> controller_config \<Rightarrow> unit shell" where
  "install_lib_for_controller be kc =
     sh_bind (application_dir kc) (\<lambda>dir.
     let sieve_dep_src_dir = path_join dir ''sieve-dependency/src'' in in_order
       [copytree ''sieve_client'' (path_join sieve_dep_src_dir ''sieve.client''),
        set_client_version kc (path_join (path_join sieve_dep_src_dir ''sieve.client'') ''go.mod''),
        install_module be (''k8s.io/client-go@'' @ py_format (kc_client_go_version kc)) sieve_dep_src_dir,
        sh_bind (sh_of (py_iter (kc_apis_to_instrument kc))) (\<lambda>apis. install_modules be sieve_dep_src_dir apis []),
        commit_all be dir ''install the lib''])"

definition remove_replacement_in_go_mod_file :: "string \<Rightarrow> unit shell" where
  "remove_replacement_in_go_mod_file go_mod =
     sh_bind (read_lines go_mod) (\<lambda>lines.
       write_text go_mod (concat (filter (\<lambda>line. \<not> py_contains ''k8s.io/client-go => '' line) lines)))"

definition replace_line :: "string \<Rightarrow> string" where
  "replace_line module = ''replace '' @ hd (py_split (CHR ''@'') module) @ '' => ./sieve-dependency/src/'' @ module @ newline"

primrec add_replacements :: "string \<Rightarrow> json list \<Rightarrow> string list \<Rightarrow> unit shell" where
  "add_replacements go_mod [] added = sh_return ()"
| "add_replacements go_mod (api # apis) added =
     sh_bind (sh_of (api_module api)) (\<lambda>module.
       if module \<in> set added then add_replacements go_mod apis added
       else sh_bind (append_text go_mod (replace_line module)) (\<lambda>_. add_replacements go_mod apis (module # added)))"

definition copy_build_files :: "string \<Rightarrow> controller_config \<Rightarrow> string \<Rightarrow> unit shell" where
  "copy_build_files controller_config_dir kc dir = in_order
     [copy (path_join (path_join controller_config_dir ''build'') ''build.sh'') (path_join dir ''build.sh''),
      sh_bind (field (kc_dockerfile_path kc)) (\<lambda>dockerfile.
        copy (path_join (path_join controller_config_dir ''build'') ''Dockerfile'') (path_join dir dockerfile))]"

definition update_go_mod_for_controller :: "string \<Rightarrow> controller_config \<Rightarrow> unit shell" where
  "update_go_mod_for_controller controller_config_dir kc =
     sh_bind (application_dir kc) (\<lambda>dir. let go_mod = path_join dir ''go.mod'' in in_order
       [remove_replacement_in_go_mod_file go_mod,
        append_text go_mod (''require sieve.client v0.0.0'' @ newline),
        append_text go_mod (''replace sieve.client => ./sieve-dependency/src/sieve.client'' @ newline),
        append_text go_mod (''replace k8s.io/client-go => ./sieve-dependency/src/k8s.io/client-go@'' @
          py_format (kc_client_go_version kc) @ newline),
        sh_bind (sh_of (py_iter (kc_apis_to_instrument kc))) (\<lambda>apis. add_replacements go_mod apis []),
        copy_build_files controller_config_dir kc dir])"

definition instrumentation_config :: "controller_config \<Rightarrow> string \<Rightarrow> string \<Rightarrow> string \<Rightarrow> json" where
  "instrumentation_config kc mode app_file_path client_go_filepath = JObj
     [(''project'', kc_controller_name kc), (''mode'', JStr mode), (''app_file_path'', JStr app_file_path),
      (''client_go_filepath'', JStr client_go_filepath),
      (''annotated_reconcile_functions'', kc_annotated_reconcile_functions kc),
      (''apis_to_instrument'', kc_apis_to_instrument kc)]"

definition instrument_controller :: "build_env \<Rightarrow> controller_config \<Rightarrow> string \<Rightarrow> unit shell" where
  "instrument_controller be kc mode =
     sh_bind (application_dir kc) (\<lambda>dir. in_order
       [chdir ''sieve_instrumentation'',
        run_instrumentation be (instrumentation_config kc mode (path_join (be_original_dir be) dir)
          (be_original_dir be @ ''/'' @ dir @ ''/sieve-dependency/src/k8s.io/client-go@'' @ py_format (kc_client_go_version kc)))])"

section \<open>Controllers that use vendor\<close>

definition install_lib_for_controller_with_vendor :: "build_env \<Rightarrow> controller_config \<Rightarrow> unit shell" where
  "install_lib_for_controller_with_vendor be kc =
     sh_bind (application_dir kc) (\<lambda>dir.
     sh_bind (field (kc_vendored_sieve_client_path kc)) (\<lambda>client. in_order
       [copytree ''sieve_client'' (path_join dir client),
        set_client_version kc (path_join (path_join dir client) ''go.mod''),
        commit_all be dir ''install the lib'']))"

definition update_go_mod_for_controller_with_vendor :: "build_env \<Rightarrow> string \<Rightarrow> controller_config \<Rightarrow> unit shell" where
  "update_go_mod_for_controller_with_vendor be controller_config_dir kc =
     sh_bind (application_dir kc) (\<lambda>dir. in_order
       [append_text (path_join dir ''go.mod'') (''require sieve.client v0.0.0'' @ newline),
        copy_build_files controller_config_dir kc dir,
        commit_all be dir ''import the lib''])"

definition instrument_controller_with_vendor :: "build_env \<Rightarrow> controller_config \<Rightarrow> string \<Rightarrow> unit shell" where
  "instrument_controller_with_vendor be kc mode =
     sh_bind (application_dir kc) (\<lambda>dir.
     sh_bind (chdir ''sieve_instrumentation'') (\<lambda>_.
     sh_bind (field (kc_vendored_client_go_path kc)) (\<lambda>client_go.
       run_instrumentation be (instrumentation_config kc mode (path_join (be_original_dir be) dir)
         (path_join (path_join (be_original_dir be) dir) client_go)))))"

section \<open>Building and pushing\<close>

text \<open>The exit status of \<open>docker tag\<close> is not looked at.\<close>

definition build_controller :: "build_env \<Rightarrow> controller_config \<Rightarrow> string \<Rightarrow> string \<Rightarrow> unit shell" where
  "build_controller be kc image_tag container_registry =
     sh_bind (application_dir kc) (\<lambda>dir. in_order
       [chdir dir,
        sh_cmd (''./build.sh '' @ container_registry @ '' '' @ image_tag),
        chdir (be_original_dir be),
        sh_bind (system (''docker tag '' @ py_format (kc_controller_image_name kc) @ '' '' @ container_registry @ ''/'' @
          py_format (kc_controller_name kc) @ '':'' @ image_tag)) (\<lambda>_. sh_return ())])"

definition push_controller :: "controller_config \<Rightarrow> string \<Rightarrow> string \<Rightarrow> unit shell" where
  "push_controller kc image_tag container_registry =
     sh_cmd (''docker push '' @ container_registry @ ''/'' @ py_format (kc_controller_name kc) @ '':'' @ image_tag)"

definition setup_controller ::
  "build_env \<Rightarrow> string \<Rightarrow> controller_config \<Rightarrow> string \<Rightarrow> string \<Rightarrow> bool \<Rightarrow> bool \<Rightarrow> string \<Rightarrow> unit shell" where
  "setup_controller be controller_config_dir kc mode image_tag build_only push_to_remote container_registry = in_order
     [sh_when (\<not> build_only) (in_order
        [download_controller be kc,
         if kc_go_mod kc = JStr ''mod'' then in_order
           [install_lib_for_controller be kc,
            update_go_mod_for_controller controller_config_dir kc,
            instrument_controller be kc mode]
         else in_order
           [install_lib_for_controller_with_vendor be kc,
            update_go_mod_for_controller_with_vendor be controller_config_dir kc,
            instrument_controller_with_vendor be kc mode]]),
      build_controller be kc image_tag container_registry,
      sh_when push_to_remote (push_controller kc image_tag container_registry)]"

section \<open>The script\<close>

definition BUILD_ALL :: string where "BUILD_ALL = ''all''"

definition modes_to_build :: "string \<Rightarrow> string list" where
  "modes_to_build mode = (if mode = BUILD_ALL then [LEARN, TEST, VANILLA] else [mode])"

definition setup_kubernetes_wrapper :: "build_env \<Rightarrow> string \<Rightarrow> string \<Rightarrow> string \<Rightarrow> bool \<Rightarrow> unit shell" where
  "setup_kubernetes_wrapper be version mode container_registry push_to_remote =
     sh_bind (sh_outside (\<lambda>out. if ou_darwin out then ''macos-'' else [])) (\<lambda>platform.
       sh_for (modes_to_build mode) (\<lambda>this_mode.
         setup_kubernetes be version this_mode container_registry (version @ ''-'' @ platform @ this_mode) push_to_remote))"

definition setup_controller_wrapper ::
  "build_env \<Rightarrow> string \<Rightarrow> controller_config \<Rightarrow> string \<Rightarrow> bool \<Rightarrow> bool \<Rightarrow> string \<Rightarrow> unit shell" where
  "setup_controller_wrapper be controller_config_dir kc mode build_only push_to_remote container_registry =
     sh_for (modes_to_build mode) (\<lambda>this_mode.
       setup_controller be controller_config_dir kc this_mode this_mode build_only push_to_remote container_registry)"

record build_options =
  bo_controller_config_dir :: "string option"
  bo_mode :: "string option"
  bo_version :: string
  bo_sha :: "string option"
  bo_build_only :: bool
  bo_push_to_remote :: bool
  bo_registry :: "string option"

text \<open>The mode, or the refusal of the parser.\<close>

definition accept_mode :: "build_options \<Rightarrow> string res" where
  "accept_mode opts = (case bo_mode opts of
       None \<Rightarrow> Inl SystemExit
     | Some mode \<Rightarrow>
         if mode \<notin> {VANILLA, TEST, LEARN, BUILD_ALL} then Inl SystemExit
         else if mode = BUILD_ALL \<and> bo_build_only opts then Inl SystemExit
         else Inr mode)"

definition build_main :: "build_options \<Rightarrow> unit shell" where
  "build_main opts =
     sh_bind load_build_env (\<lambda>be.
     sh_bind load_common_config (\<lambda>common_config.
     sh_bind (sh_of (case bo_registry opts of
         Some r \<Rightarrow> Inr r
       | None \<Rightarrow> (case cc_container_registry common_config of JStr r \<Rightarrow> Inr r | _ \<Rightarrow> Inl OutOfModel))) (\<lambda>registry.
     sh_bind (sh_of (accept_mode opts)) (\<lambda>mode.
     case bo_controller_config_dir opts of
       None \<Rightarrow> setup_kubernetes_wrapper be (bo_version opts) mode registry (bo_push_to_remote opts)
     | Some controller_config_dir \<Rightarrow>
         sh_bind (load_json (path_join controller_config_dir ''config.json'')) (\<lambda>config.
         sh_bind (sh_of (load_controller_config config)) (\<lambda>kc.
         let kc = (case bo_sha opts of None \<Rightarrow> kc | Some sha \<Rightarrow> kc\<lparr> kc_commit := JStr sha \<rparr>) in
           setup_controller_wrapper be controller_config_dir kc mode (bo_build_only opts) (bo_push_to_remote opts) registry))))))"

end
