(* ===== verification/Build_Facts.thy ===== *)
theory Build_Facts
  imports Build Sieve_Cluster
begin

text \<open>
  What the build leaves: the \<open>go.mod\<close> of the controller, the directory of the script, and which modules
  can be installed together.
\<close>

section \<open>The module file\<close>

lemma append_text_returns:
  assumes "append_text p s out w = Some (Inr u, w')" "node_at (w_files w) (resolve (w_cwd w) p) = Some (File (Text old))"
  shows "node_at (w_files w') (resolve (w_cwd w) p) = Some (File (Text (old @ s))) \<and> w_cwd w' = w_cwd w"
  using assms put_file_same
  by (auto simp: append_text_def sh_returns path_exists_def read_text_def read_content_def read_node_def text_of_def
      write_text_def write_content_def)

text \<open>The first occurrence of every element, in order.\<close>

definition first_occurrences :: "'a list \<Rightarrow> 'a list" where
  "first_occurrences xs = rev (remdups (rev xs))"

lemma remdups_snoc: "remdups (xs @ [x]) = filter (\<lambda>y. y \<noteq> x) (remdups xs) @ [x]"
  by (induction xs) auto

lemma first_occurrences_Cons: "first_occurrences (x # xs) = x # filter (\<lambda>y. y \<noteq> x) (first_occurrences xs)"
  by (simp add: first_occurrences_def remdups_snoc rev_filter)

lemma first_occurrences_Nil [simp]: "first_occurrences [] = []"
  by (simp add: first_occurrences_def)

lemma add_replacements_text:
  assumes "add_replacements p apis added out w = Some (Inr (), w')" "res_map api_module apis = Inr ms"
    "node_at (w_files w) (resolve (w_cwd w) p) = Some (File (Text old))"
  shows "node_at (w_files w') (resolve (w_cwd w) p) =
      Some (File (Text (old @ concat (map replace_line (filter (\<lambda>m. m \<notin> set added) (first_occurrences ms)))))) \<and> w_cwd w' = w_cwd w"
  using assms
proof (induction apis arbitrary: added w ms old)
  case Nil
  then show ?case by (auto simp: sh_return_returns)
next
  case (Cons api apis)
  obtain m ms' where m: "api_module api = Inr m" "res_map api_module apis = Inr ms'" "ms = m # ms'"
    using Cons.prems(2) by (auto simp: res_simps)
  show ?case
  proof (cases "m \<in> set added")
    case True
    then have run: "add_replacements p apis added out w = Some (Inr (), w')" using Cons.prems(1) m(1) by simp
    have "filter (\<lambda>x. x \<notin> set added) (first_occurrences ms) = filter (\<lambda>x. x \<notin> set added) (first_occurrences ms')"
      using True by (auto simp: m(3) first_occurrences_Cons intro: filter_cong)
    then show ?thesis using Cons.IH[OF run m(2) Cons.prems(3)] by simp
  next
    case False
    then obtain w1 where w1: "append_text p (replace_line m) out w = Some (Inr (), w1)"
      and run: "add_replacements p apis (m # added) out w1 = Some (Inr (), w')" using Cons.prems(1) m(1) by (auto simp: sh_bind_returns)
    note a = append_text_returns[OF w1 Cons.prems(3)]
    then have start: "node_at (w_files w1) (resolve (w_cwd w1) p) = Some (File (Text (old @ replace_line m)))" by simp
    have "filter (\<lambda>x. x \<notin> set added) (first_occurrences ms) = m # filter (\<lambda>x. x \<notin> set (m # added)) (first_occurrences ms')"
      using False by (auto simp: m(3) first_occurrences_Cons intro: filter_cong)
    then show ?thesis using Cons.IH[OF run m(2) start] a by simp
  qed
qed

lemma basename_slash: "CHR ''/'' \<notin> set b \<Longrightarrow> basename (a @ ''/'' @ b) = b"
proof -
  assume "CHR ''/'' \<notin> set b"
  then have "takeWhile (\<lambda>c. c \<noteq> CHR ''/'') (rev b @ CHR ''/'' # rev a) = rev b" by (subst takeWhile_append2) auto
  then show ?thesis by (simp add: basename_def)
qed

lemma basename_join: "plain b \<Longrightarrow> a \<noteq> [] \<Longrightarrow> basename (path_join a b) = b"
proof -
  assume b: "plain b" and a: "a \<noteq> []"
  have "\<exists>a'. path_join a b = a' @ ''/'' @ b"
  proof (cases "py_endswith a ''/''")
    case True
    then obtain a' where "a = a' @ ''/''" by (cases a rule: rev_cases) (auto simp: py_endswith_def)
    then have "path_join a b = a' @ ''/'' @ b" using plain_relative[OF b] by (simp add: path_join_def py_endswith_def)
    then show ?thesis ..
  next
    case False
    then have "path_join a b = a @ ''/'' @ b" using plain_relative[OF b] a by (simp add: path_join_def)
    then show ?thesis ..
  qed
  then show ?thesis using basename_slash[of b] b by (auto simp: plain_def)
qed

text \<open>
  C17: the \<open>go.mod\<close> of a controller after the update: the lines it had, but for replacements of
  \<open>client-go\<close>, then the client of Sieve as a requirement, and one replacement each for the client, for \<open>client-go\<close>
  and for every module to instrument, in the order of the configuration.
\<close>

theorem go_mod_exact:
  assumes "kc_controller_name kc = JStr name" "kc_dockerfile_path kc = JStr dockerfile"
    "kc_apis_to_instrument kc = JList apis" "res_map api_module apis = Inr modules"
    "go_mod = resolve (w_cwd w) (path_join (path_join ''app'' name) ''go.mod'')"
    "resolve (w_cwd w) (path_join (path_join ''app'' name) dockerfile) \<noteq> go_mod"
    "update_go_mod_for_controller config_dir kc out w = Some (Inr (), w')"
  shows "\<exists>x. node_at (w_files w) go_mod = Some (File x) \<and> node_at (w_files w') go_mod = Some (File (Text (
      concat (filter (\<lambda>line. \<not> py_contains ''k8s.io/client-go => '' line) (readlines (text_of out x))) @
      ''require sieve.client v0.0.0'' @ newline @
      ''replace sieve.client => ./sieve-dependency/src/sieve.client'' @ newline @
      ''replace k8s.io/client-go => ./sieve-dependency/src/k8s.io/client-go@'' @ py_format (kc_client_go_version kc) @ newline @
      concat (map replace_line (first_occurrences modules)))))"
proof -
  define c where "c = w_cwd w"
  let ?dir = "path_join ''app'' name" and ?p = "path_join (path_join ''app'' name) ''go.mod''"
  have p: "resolve c ?p = go_mod" by (simp add: assms(5) c_def)
  have plains: "plain ''go.mod''" "plain ''build.sh''" "plain ''Dockerfile''" by (simp_all add: plain_def)
  let ?copies = "copy_build_files config_dir kc ?dir"
  obtain w1 w2 w3 w4 w5 where s: "remove_replacement_in_go_mod_file ?p out w = Some (Inr (), w1)"
    "append_text ?p (''require sieve.client v0.0.0'' @ newline) out w1 = Some (Inr (), w2)"
    "append_text ?p (''replace sieve.client => ./sieve-dependency/src/sieve.client'' @ newline) out w2 = Some (Inr (), w3)"
    "append_text ?p (''replace k8s.io/client-go => ./sieve-dependency/src/k8s.io/client-go@'' @ py_format (kc_client_go_version kc) @ newline) out w3 = Some (Inr (), w4)"
    "add_replacements ?p apis [] out w4 = Some (Inr (), w5)" "?copies out w5 = Some (Inr (), w')"
    using assms(7) unfolding update_go_mod_for_controller_def application_dir_def field_def assms(1,3)
    by (auto simp: as_str_def Let_def sh_bind_returns in_order.simps sh_return_returns py_iter_def)
  obtain x where x: "node_at (w_files w) go_mod = Some (File x)"
    and w1: "node_at (w_files w1) go_mod = Some (File (Text (concat (filter (\<lambda>line. \<not> py_contains ''k8s.io/client-go => '' line) (readlines (text_of out x))))))"
      "w_cwd w1 = c"
    using s(1) put_file_same p
    by (auto simp: remove_replacement_in_go_mod_file_def sh_returns read_lines_def read_text_def read_content_def read_node_def
        write_text_def write_content_def c_def[symmetric] split: option.splits node.splits)
  note w2 = append_text_returns[OF s(2), unfolded w1(2) p, OF w1(1)]
  note w3 = append_text_returns[OF s(3), unfolded w2[THEN conjunct2] p, OF w2[THEN conjunct1]]
  note w4 = append_text_returns[OF s(4), unfolded w3[THEN conjunct2] p, OF w3[THEN conjunct1]]
  note w5 = add_replacements_text[OF s(5) assms(4), unfolded w4[THEN conjunct2] p, OF w4[THEN conjunct1]]
  have at: "go_mod = resolve c ?dir @ [''go.mod'']" using resolve_file[OF plains(1), of c ?dir] unfolding p .
  have apart: "resolve c (path_join ?dir ''build.sh'') \<noteq> go_mod" "resolve c (path_join ?dir dockerfile) \<noteq> go_mod"
    using assms(6) unfolding resolve_file[OF plains(2)] c_def[symmetric] by (simp_all add: at)
  have names: "basename (path_join (path_join config_dir ''build'') ''build.sh'') = ''build.sh''"
    "basename (path_join (path_join config_dir ''build'') ''Dockerfile'') = ''Dockerfile''"
    by (intro basename_join plains; simp add: path_join_def)+
  have below: "q @ [''build.sh''] \<noteq> go_mod" "q @ [''Dockerfile''] \<noteq> go_mod" for q
    unfolding at by simp_all
  have "ensures (frame c (\<lambda>q. q = go_mod)) out ?copies"
    by (simp add: copy_build_files_def field_def assms(2) as_str_def)
      (intro fr.ensures_Cons fr.ensures_Nil frame_copy; simp add: names apart below)
  from ensuresD[OF this s(6)] have "node_at (w_files w') go_mod = node_at (w_files w5) go_mod" using w5 by (simp add: frame_def)
  then show ?thesis using x w5 by (simp add: filter_True)
qed

section \<open>The directory of the script\<close>

text \<open>A statement that, when it returns, has come to a directory, from wherever it started.\<close>

definition arrives :: "path \<Rightarrow> outside \<Rightarrow> 'a shell \<Rightarrow> bool" where
  "arrives c out m \<longleftrightarrow> (\<forall>w x w'. m out w = Some (Inr x, w') \<longrightarrow> w_cwd w' = c)"

lemma arrives_bind: "(\<And>x. arrives c out (f x)) \<Longrightarrow> arrives c out (sh_bind m f)"
  unfolding arrives_def sh_bind_returns by blast

lemma arrives_stays: "arrives c out m \<Longrightarrow> ensures (frame c (\<lambda>_. False)) out m"
  by (auto simp: arrives_def ensures_def frame_def)

lemma arrives_then: "arrives c out m \<Longrightarrow> (\<And>x. ensures (frame c (\<lambda>_. False)) out (f x)) \<Longrightarrow> arrives c out (sh_bind m f)"
  unfolding arrives_def sh_bind_returns ensures_def frame_def by blast

lemma arrives_chdir: "clean_path c \<Longrightarrow> arrives c out (chdir (path_str c))"
  by (auto simp: arrives_def chdir_returns resolve_path_str)

lemma arrives_here: "arrives c out (in_order (m # ms))" if "arrives c out m" "ensures (frame c (\<lambda>_. False)) out (in_order ms)"
  unfolding in_order.simps by (rule arrives_then[OF that(1)]) (rule that(2))

lemma arrives_later: "arrives c out (in_order ms) \<Longrightarrow> arrives c out (in_order (m # ms))"
  unfolding in_order.simps by (rule arrives_bind)

lemma stays_append: "ensures (frame c (\<lambda>_. False)) out (append_text p s)"
  unfolding append_text_def write_text_def write_content_def by (intro stays_rules)

lemma stays_version: "ensures (frame c (\<lambda>_. False)) out (update_sieve_client_go_mod_with_version p v)"
  unfolding update_sieve_client_go_mod_with_version_def write_text_def write_content_def by (intro stays_rules)

lemma stays_set_version: "ensures (frame c (\<lambda>_. False)) out (set_client_version kc p)"
  unfolding set_client_version_def field_def by (intro stays_rules stays_version)

lemma stays_application_dir: "ensures (frame c (\<lambda>_. False)) out (application_dir kc)" "ensures (frame c (\<lambda>_. False)) out (field j)"
  unfolding application_dir_def field_def by (intro stays_rules)+

lemma stays_trees:
  "ensures (frame c (\<lambda>_. False)) out (copytree a b)" "ensures (frame c (\<lambda>_. False)) out (copy a b)" "ensures (frame c (\<lambda>_. False)) out (symlink a b)"
  "ensures (frame c (\<lambda>_. False)) out (makedirs a e)" "ensures (frame c (\<lambda>_. False)) out (rmtree_if_exists a)" "ensures (frame c (\<lambda>_. False)) out (dump_doc v p)"
  unfolding copytree_def copy_def symlink_def makedirs_def rmtree_if_exists_def rmtree_def dump_doc_def write_content_def by (intro stays_rules)+

lemma stays_install: "ensures (frame c (\<lambda>_. False)) out (install_module be m dir)"
proof -
  have "ensures (frame c (\<lambda>_. False)) out (add_mod q)" for q unfolding add_mod_def by (intro stays_rules)
  then show ?thesis unfolding install_module_def Let_def add_mod_recursively_def by (intro stays_rules stays_trees)
qed

lemma stays_install_all: "ensures (frame c (\<lambda>_. False)) out (install_modules be dir apis done_already)"
  by (induction apis arbitrary: done_already) (auto intro!: stays_rules stays_install)

lemma stays_replacements: "ensures (frame c (\<lambda>_. False)) out (add_replacements p apis added)"
  by (induction apis arbitrary: added) (auto intro!: stays_rules stays_append)

lemma stays_build_files: "ensures (frame c (\<lambda>_. False)) out (copy_build_files d kc dir)"
  unfolding copy_build_files_def by (intro stays_rules stays_trees stays_application_dir)

lemma stays_remove: "ensures (frame c (\<lambda>_. False)) out (remove_replacement_in_go_mod_file p)"
  unfolding remove_replacement_in_go_mod_file_def read_lines_def write_text_def write_content_def by (intro stays_rules)

lemmas build_stays = stays_rules stays_trees stays_append stays_version stays_set_version stays_application_dir stays_install
  stays_install_all stays_replacements stays_build_files stays_remove

lemma stays_update_go_mod: "ensures (frame c (\<lambda>_. False)) out (update_go_mod_for_controller d kc)"
  unfolding update_go_mod_for_controller_def Let_def by (intro build_stays)

definition home :: "path \<Rightarrow> build_env \<Rightarrow> bool" where
  "home c be \<longleftrightarrow> clean_path c \<and> be_original_dir be = path_str c"

lemma arrives_home: "home c be \<Longrightarrow> arrives c out (chdir (be_original_dir be))"
  using arrives_chdir by (simp add: home_def)

lemma arrives_instrumentation: "home c be \<Longrightarrow> arrives c out (run_instrumentation be config)"
  unfolding run_instrumentation_def
  by ((rule arrives_here[OF arrives_home], assumption, intro build_stays) | rule arrives_later)+

lemma arrives_commit: "home c be \<Longrightarrow> arrives c out (commit_all be dir message)"
  unfolding commit_all_def
  by ((rule arrives_here[OF arrives_home], assumption, intro build_stays) | rule arrives_later)+

lemma arrives_kubernetes:
  assumes "home c be"
  shows "arrives c out (download_kubernetes be version)" "arrives c out (instrument_kubernetes be mode)"
    "arrives c out (build_kubernetes be version registry tag)"
  unfolding download_kubernetes_def instrument_kubernetes_def build_kubernetes_def
  by ((rule arrives_here[OF arrives_home[OF assms]], intro build_stays) |
    (rule arrives_here[OF arrives_instrumentation[OF assms]], intro build_stays) | rule arrives_later)+

lemma arrives_controller:
  assumes "home c be"
  shows "arrives c out (download_controller be kc)" "arrives c out (install_lib_for_controller be kc)"
    "arrives c out (instrument_controller be kc mode)" "arrives c out (install_lib_for_controller_with_vendor be kc)"
    "arrives c out (update_go_mod_for_controller_with_vendor be d kc)" "arrives c out (instrument_controller_with_vendor be kc mode)"
    "arrives c out (build_controller be kc tag registry)"
  unfolding download_controller_def install_lib_for_controller_def instrument_controller_def install_lib_for_controller_with_vendor_def
    update_go_mod_for_controller_with_vendor_def instrument_controller_with_vendor_def build_controller_def Let_def
  by ((rule arrives_here[OF arrives_home[OF assms]], intro build_stays) | (rule arrives_instrumentation[OF assms]) |
    (rule arrives_here[OF arrives_instrumentation[OF assms]], intro build_stays) |
    (rule arrives_here[OF arrives_commit[OF assms]], intro build_stays) | rule arrives_later | rule arrives_bind)+

lemma stays_setup:
  assumes "home c be"
  shows "ensures (frame c (\<lambda>_. False)) out (setup_kubernetes be version mode registry tag push)"
    "ensures (frame c (\<lambda>_. False)) out (setup_controller be d kc mode tag build_only push registry)"
  unfolding setup_kubernetes_def setup_controller_def install_lib_for_kubernetes_def push_kubernetes_def push_controller_def
  by (intro build_stays stays_update_go_mod arrives_stays[OF arrives_kubernetes(1)] arrives_stays[OF arrives_kubernetes(2)]
      arrives_stays[OF arrives_kubernetes(3)] arrives_controller[OF assms, THEN arrives_stays] assms)+

text \<open>
  C18: a build that returns has come back to the directory it was started in, whichever of its stages
  it ran: all its paths are relative to that directory.
\<close>

theorem build_returns_home:
  assumes "build_main opts out w = Some (Inr (), w')" "clean_path (w_cwd w)"
  shows "w_cwd w' = w_cwd w"
proof -
  obtain be w1 where be: "load_build_env out w = Some (Inr be, w1)" and "home (w_cwd w) be"
    using assms by (auto simp: build_main_def sh_bind_returns load_build_env_def getcwd_def sh_outside_returns sh_of_returns sh_return_returns home_def)
  have config: "ensures (frame (w_cwd w) (\<lambda>_. False)) out load_common_config"
    unfolding load_common_config_def by (auto intro!: stays_rules)
  have "ensures (frame (w_cwd w) (\<lambda>_. False)) out (sh_bind load_common_config (\<lambda>common_config.
     sh_bind (sh_of (case bo_registry opts of
         Some r \<Rightarrow> Inr r
       | None \<Rightarrow> (case cc_container_registry common_config of JStr r \<Rightarrow> Inr r | _ \<Rightarrow> Inl OutOfModel))) (\<lambda>registry.
     sh_bind (sh_of (accept_mode opts)) (\<lambda>mode.
     case bo_controller_config_dir opts of
       None \<Rightarrow> setup_kubernetes_wrapper be (bo_version opts) mode registry (bo_push_to_remote opts)
     | Some controller_config_dir \<Rightarrow>
         sh_bind (load_json (path_join controller_config_dir ''config.json'')) (\<lambda>config.
         sh_bind (sh_of (load_controller_config config)) (\<lambda>kc.
         let kc = (case bo_sha opts of None \<Rightarrow> kc | Some sha \<Rightarrow> kc\<lparr> kc_commit := JStr sha \<rparr>) in
           setup_controller_wrapper be controller_config_dir kc mode (bo_build_only opts) (bo_push_to_remote opts) registry))))))"
    by (auto simp: Let_def setup_kubernetes_wrapper_def setup_controller_wrapper_def split: option.split
        intro!: stays_rules config stays_setup[OF \<open>home (w_cwd w) be\<close>])
  moreover have "w_cwd w1 = w_cwd w" using be by (auto simp: load_build_env_def getcwd_def sh_returns)
  ultimately show ?thesis using assms(1) be unfolding build_main_def sh_bind_returns[of load_build_env] ensures_def frame_def
    by (metis (no_types, lifting) Inr_inject Pair_inject option.inject)
qed

section \<open>Modules that cannot be installed together\<close>

definition make_step :: "files \<Rightarrow> path \<Rightarrow> files res" where
  "make_step fs p = (case node_at fs p of None \<Rightarrow> Inr (AList.update p Folder fs) | Some Folder \<Rightarrow> Inr fs | Some _ \<Rightarrow> Inl OSError)"

lemma makedirs_steps:
  "makedirs_at q e fs = (if node_at fs q = Some Folder \<and> e then Inr fs else if node_at fs q \<noteq> None then Inl FileExistsError
     else res_fold make_step fs (map (\<lambda>i. take (Suc i) q) [0..<length q]))"
  by (simp add: makedirs_at_def make_step_def[abs_def])

lemma make_step_keeps: "make_step fs p = Inr fs' \<Longrightarrow> node_at fs q = Some Folder \<Longrightarrow> node_at fs' q = Some Folder"
  by (auto simp: make_step_def node_at_def split: option.splits node.splits if_splits)

lemma make_steps_make: "res_fold make_step fs ps = Inr fs' \<Longrightarrow> q \<in> set ps \<or> node_at fs q = Some Folder \<Longrightarrow> node_at fs' q = Some Folder"
proof (induction ps arbitrary: fs)
  case (Cons p ps)
  obtain fs1 where fs1: "make_step fs p = Inr fs1" "res_fold make_step fs1 ps = Inr fs'" using Cons.prems(1) by (auto simp: res_simps)
  have "node_at fs1 p = Some Folder" using fs1(1) by (auto simp: make_step_def node_at_def split: option.splits node.splits if_splits)
  then show ?case using Cons.IH[OF fs1(2)] Cons.prems(2) make_step_keeps[OF fs1(1)] by auto
qed simp

lemma makedirs_makes:
  assumes "makedirs_at q e fs = Inr fs'" shows "node_at fs' q = Some Folder"
proof -
  have "q \<in> set (map (\<lambda>i. take (Suc i) q) [0..<length q])" if "q \<noteq> []"
    using that by (auto simp: image_iff intro!: bexI[of _ "length q - 1"])
  then show ?thesis using assms make_steps_make[of fs _ fs' q] unfolding makedirs_steps
    by (cases "q = []") (auto simp: node_at_def split: if_splits)
qed

lemma makedirs_keeps: "makedirs_at q e fs = Inr fs' \<Longrightarrow> node_at fs p = Some Folder \<Longrightarrow> node_at fs' p = Some Folder"
  unfolding makedirs_steps using make_steps_make by (auto split: if_splits)

lemma graft_below: "map_of (graft src dst fs) q = Some n \<Longrightarrow> prefix dst q"
  by (auto simp: graft_def dest!: map_of_SomeD)

lemma copytree_keeps:
  assumes "copytree_at src dst fs = Inr fs'" "node_at fs p = Some Folder" "\<not> prefix dst p" shows "node_at fs' p = Some Folder"
proof -
  obtain fs1 where fs1: "makedirs_at dst False fs = Inr fs1" "fs' = graft src dst fs @ fs1"
    using assms(1) by (auto simp: copytree_at_def res_simps split: option.splits node.splits)
  have "map_of (graft src dst fs) p = None" using graft_below assms(3) by (metis not_None_eq)
  then show ?thesis using makedirs_keeps[OF fs1(1) assms(2)] by (auto simp: fs1(2) node_at_def map_add_def)
qed

lemma add_mod_files: "add_mod q out w = Some (Inr (), w') \<Longrightarrow> w_files w' = w_files w"
  by (auto simp: add_mod_def sh_bind_returns sh_files_returns sh_log_def)

lemma add_mods_files: "sh_for qs add_mod out w = Some (Inr (), w') \<Longrightarrow> w_files w' = w_files w"
  by (induction qs arbitrary: w) (auto simp: sh_for.simps(2) sh_bind_returns sh_return_returns dest!: add_mod_files)

text \<open>A module that is installed has its folder made anew; with the folder there, it cannot be installed.\<close>

lemma installed_module:
  assumes "install_module be m dir out w = Some (Inr (), w')" "F = resolve (w_cwd w) (path_join dir (dirname m))"
    "commands_keep out (\<lambda>q. q = F)" "\<not> prefix (resolve (w_cwd w) (path_join dir m)) F"
  shows "node_at (w_files w) F = None" "node_at (w_files w') F = Some Folder" "w_cwd w' = w_cwd w"
proof -
  let ?c = "w_cwd w" and ?dst = "path_join dir m"
  obtain w1 w2 w3 where s: "sh_cmd (''go mod download '' @ m @ '' >> /dev/null'') out w = Some (Inr (), w1)"
    "makedirs (path_join dir (dirname m)) False out w1 = Some (Inr (), w2)"
    "copytree (path_join (path_join (be_gopath be) ''pkg/mod'') m) ?dst out w2 = Some (Inr (), w3)"
    "add_mod_recursively ?dst out w3 = Some (Inr (), w')"
    using assms(1) by (auto simp: install_module_def Let_def in_order.simps sh_bind_returns sh_return_returns)
  have w1: "w_cwd w1 = ?c" "node_at (w_files w1) F = node_at (w_files w) F"
    using ensuresD[OF frame_cmd[OF assms(3)] s(1), of ?c] by (simp_all add: frame_def)
  obtain fs2 where fs2: "makedirs_at F False (w_files w1) = Inr fs2" "w2 = w1\<lparr> w_files := fs2 \<rparr>"
    using s(2) w1(1) assms(2) by (auto simp: makedirs_def sh_update_returns)
  show "node_at (w_files w) F = None" using fs2(1) w1(2) by (auto simp: makedirs_at_def split: if_splits)
  have "node_at (w_files w3) F = Some Folder" "w_cwd w3 = ?c"
    using s(3) copytree_keeps[OF _ makedirs_makes[OF fs2(1)]] assms(4) w1(1) by (auto simp: copytree_def sh_update_returns fs2(2))
  moreover have "w_files w' = w_files w3"
    using s(4) by (auto simp: add_mod_recursively_def sh_bind_returns sh_files_returns dest!: add_mod_files add_mods_files)
  moreover have "w_cwd w' = ?c" using ensuresD[OF stays_install assms(1), of ?c] by (simp add: frame_def)
  ultimately show "node_at (w_files w') F = Some Folder" "w_cwd w' = ?c" by simp_all
qed

lemma present_module:
  assumes "install_module be m dir out w = Some (r, w')" "F = resolve (w_cwd w) (path_join dir (dirname m))"
    "commands_keep out (\<lambda>q. q = F)" "node_at (w_files w) F = Some Folder"
  shows "r \<noteq> Inr ()"
proof
  assume "r = Inr ()"
  then obtain w1 w2 where s: "sh_cmd (''go mod download '' @ m @ '' >> /dev/null'') out w = Some (Inr (), w1)"
    "makedirs (path_join dir (dirname m)) False out w1 = Some (Inr (), w2)"
    using assms(1) by (auto simp: install_module_def Let_def in_order.simps sh_bind_returns sh_return_returns)
  have "w_cwd w1 = w_cwd w" "node_at (w_files w1) F = Some Folder"
    using ensuresD[OF frame_cmd[OF assms(3)] s(1), of "w_cwd w"] assms(4) by (simp_all add: frame_def)
  then show False using s(2) assms(2) by (auto simp: makedirs_def sh_update_returns makedirs_at_def)
qed

lemma dirname_file: "CHR ''/'' \<notin> set b \<Longrightarrow> dirname (''k8s.io/'' @ b) = ''k8s.io''"
proof -
  assume "CHR ''/'' \<notin> set b"
  then have "dropWhile (\<lambda>c. c \<noteq> CHR ''/'') (rev b @ rev ''k8s.io/'') = rev ''k8s.io/''" by (subst dropWhile_append2) auto
  then show ?thesis by (simp add: dirname_def)
qed

text \<open>
  C23: since the folder of a module is made with \<open>os.makedirs\<close> without \<open>exist_ok\<close>, a controller whose first module to
  instrument lies in \<open>k8s.io\<close>, next to \<open>client-go\<close>, cannot be built: installing the libraries never returns. Of
  the commands it is used that they leave that folder alone.
\<close>

theorem k8s_modules_clash:
  assumes "kc_controller_name kc = JStr name" "kc_client_go_version kc = JStr version" "CHR ''/'' \<notin> set version"
    "kc_apis_to_instrument kc = JList (api # apis)" "api_module api = Inr m" "dirname m = ''k8s.io''"
    "commands_keep out (\<lambda>q. q = resolve (w_cwd w) (path_join (path_join (path_join ''app'' name) ''sieve-dependency/src'') ''k8s.io''))"
    "install_lib_for_controller be kc out w = Some (r, w')"
  shows "r \<noteq> Inr ()"
proof
  assume "r = Inr ()"
  let ?c = "w_cwd w" and ?dep = "path_join (path_join ''app'' name) ''sieve-dependency/src''" and ?go = "''k8s.io/client-go@'' @ version"
  define F where "F = resolve ?c (path_join ?dep ''k8s.io'')"
  obtain w1 w2 w3 w4 where s: "copytree ''sieve_client'' (path_join ?dep ''sieve.client'') out w = Some (Inr (), w1)"
    "set_client_version kc (path_join (path_join ?dep ''sieve.client'') ''go.mod'') out w1 = Some (Inr (), w2)"
    "install_module be ?go ?dep out w2 = Some (Inr (), w3)"
    "install_modules be ?dep (api # apis) [] out w3 = Some (Inr (), w4)"
    using assms(8) unfolding \<open>r = Inr ()\<close> install_lib_for_controller_def application_dir_def field_def assms(1,2,4)
    by (auto simp: as_str_def Let_def sh_bind_returns in_order.simps sh_return_returns py_iter_def py_format_def)
  have w2: "w_cwd w2 = ?c"
    using ensuresD[OF stays_trees(1) s(1), of ?c] ensuresD[OF stays_set_version s(2), of ?c] by (simp add: frame_def)
  have go: "dirname ?go = ''k8s.io''" using dirname_file[of "''client-go@'' @ version"] assms(3) by simp
  have "plain (''client-go@'' @ version)" "plain ''k8s.io''" using assms(3) by (simp_all add: plain_def)
  note in_folder = resolve_file[OF this(1)] and folder = resolve_file[OF this(2)]
  have "\<not> py_startswith ?go ''/''" by (simp add: py_startswith_def)
  moreover have "?go = path_join ''k8s.io'' (''client-go@'' @ version)" by (simp add: path_join_def py_startswith_def py_endswith_def)
  ultimately have "resolve ?c (path_join ?dep ?go) = F @ [''client-go@'' @ version]"
    using in_folder[of "resolve ?c ?dep" "''k8s.io''"] folder[of ?c ?dep] resolve_join resolve_plain[OF \<open>plain ''k8s.io''\<close>] by (simp add: F_def)
  then have below: "\<not> prefix (resolve ?c (path_join ?dep ?go)) F" by (simp add: prefix_def)
  have keep: "commands_keep out (\<lambda>q. q = F)" using assms(7) by (simp add: F_def)
  note first = installed_module[OF s(3) _ keep, unfolded go w2, OF F_def below]
  obtain w5 where "install_module be m ?dep out w3 = Some (Inr (), w5)" using s(4) assms(5) by (auto simp: sh_bind_returns)
  from present_module[OF this _ keep first(2)] show False by (simp add: F_def first(3) assms(6))
qed

section \<open>Samples\<close>

definition go_controller :: controller_config where
  "go_controller = (tc_controller_config oracle_tc)\<lparr> kc_controller_name := JStr ''n'', kc_dockerfile_path := JStr ''Dockerfile'',
     kc_client_go_version := JStr ''v1'', kc_kubernetes_version := JStr DEFAULT_K8S_VERSION, kc_apimachinery_version := JNull,
     kc_apis_to_instrument := JList [JObj [(''module'', JStr ''k8s.io/api@v2'')], JObj [(''module'', JStr ''k8s.io/api@v2'')]] \<rparr>"

definition go_world :: world where
  "go_world = \<lparr> w_cwd = [], w_files = [([''app'', ''n''], Folder), ([''app'', ''n'', ''go.mod''], File (Text ''m'')),
     ([''k'', ''build'', ''build.sh''], File (Text ''b'')), ([''k'', ''build'', ''Dockerfile''], File (Text ''d''))], w_log = [] \<rparr>"

text \<open>A build of a controller whose code is there already.\<close>

definition only_options :: build_options where
  "only_options = \<lparr> bo_controller_config_dir = Some ''k'', bo_mode = Some TEST, bo_version = [], bo_sha = None, bo_build_only = True,
     bo_push_to_remote = False, bo_registry = Some ''r'' \<rparr>"

definition only_world :: world where
  "only_world = \<lparr> w_cwd = [''x''], w_files = [([''x''], Folder), ([''x'', ''config.json''], File (Doc (JObj sample_common))),
     ([''x'', ''k'', ''config.json''], File (Doc (JObj (map (\<lambda>k. (k, JStr ''n'')) [''name'', ''github_link'', ''commit'', ''kubernetes_version'',
        ''client_go_version'', ''dockerfile_path'', ''controller_image_name'', ''test_command'', ''custom_resource_definitions'',
        ''annotated_reconcile_functions'', ''controller_pod_label'', ''controller_deployment_file_path''])))),
     ([''x'', ''app'', ''n''], Folder)], w_log = [] \<rparr>"

lemmas build_defs = update_go_mod_for_controller_def application_dir_def field_def remove_replacement_in_go_mod_file_def read_lines_def
  append_text_def write_text_def write_content_def path_exists_def copy_build_files_def copy_def add_replacements.simps Let_def
  build_main_def load_build_env_def load_common_config_def accept_mode_def setup_controller_wrapper_def setup_controller_def
  build_controller_def only_options_def build_options.simps option.case sh_bind_return sh_bind_of

lemma go_mod_run: "\<exists>c fs. goes (all_exit 0) [] (w_files go_world) (update_go_mod_for_controller ''k'' go_controller) () c fs"
  unfolding go_world_def world.simps
  by (intro exI, ((rule goes_steps goes_for goes_map) | (rule goes_choices, (code_simp; fail)) |
    (rule evals_now, (code_simp)?, rule evals_refl) | (simp only: build_defs))+)

theorem go_mod_exact_witness:
  "\<exists>w'. update_go_mod_for_controller ''k'' go_controller (all_exit 0) go_world = Some (Inr (), w') \<and>
     node_at (w_files w') [''app'', ''n'', ''go.mod''] = Some (File (Text (''m'' @ ''require sieve.client v0.0.0'' @ newline @
       ''replace sieve.client => ./sieve-dependency/src/sieve.client'' @ newline @
       ''replace k8s.io/client-go => ./sieve-dependency/src/k8s.io/client-go@v1'' @ newline @
       ''replace k8s.io/api => ./sieve-dependency/src/k8s.io/api@v2'' @ newline)))"
proof -
  obtain w' where w': "update_go_mod_for_controller ''k'' go_controller (all_exit 0) go_world = Some (Inr (), w')"
    using go_mod_run unfolding goes_def go_world_def world.simps by blast
  have kc: "kc_controller_name go_controller = JStr ''n''" "kc_dockerfile_path go_controller = JStr ''Dockerfile''"
    "kc_apis_to_instrument go_controller = JList [JObj [(''module'', JStr ''k8s.io/api@v2'')], JObj [(''module'', JStr ''k8s.io/api@v2'')]]"
    "py_format (kc_client_go_version go_controller) = ''v1''" by (simp_all add: go_controller_def py_format_def)
  have ms: "res_map api_module [JObj [(''module'', JStr ''k8s.io/api@v2'')], JObj [(''module'', JStr ''k8s.io/api@v2'')]] = Inr [''k8s.io/api@v2'', ''k8s.io/api@v2'']"
    "concat (map replace_line (first_occurrences [''k8s.io/api@v2'', ''k8s.io/api@v2''])) = ''replace k8s.io/api => ./sieve-dependency/src/k8s.io/api@v2'' @ newline"
    "[''app'', ''n'', ''go.mod''] = resolve (w_cwd go_world) (path_join (path_join ''app'' ''n'') ''go.mod'')"
    "resolve (w_cwd go_world) (path_join (path_join ''app'' ''n'') ''Dockerfile'') \<noteq> [''app'', ''n'', ''go.mod'']"
    "node_at (w_files go_world) [''app'', ''n'', ''go.mod''] = Some (File (Text ''m''))"
    "concat (filter (\<lambda>line. \<not> py_contains ''k8s.io/client-go => '' line) (readlines ''m'')) = ''m''" by code_simp+
  note updated = go_mod_exact[OF kc(1-3) ms(1,3,4) w', unfolded ms(2,5) kc(4)]
  then have "node_at (w_files w') [''app'', ''n'', ''go.mod''] = Some (File (Text (
      concat (filter (\<lambda>line. \<not> py_contains ''k8s.io/client-go => '' line) (readlines (text_of (all_exit 0) (Text ''m'')))) @
      ''require sieve.client v0.0.0'' @ newline @ ''replace sieve.client => ./sieve-dependency/src/sieve.client'' @ newline @
      ''replace k8s.io/client-go => ./sieve-dependency/src/k8s.io/client-go@'' @ ''v1'' @ newline @
      ''replace k8s.io/api => ./sieve-dependency/src/k8s.io/api@v2'' @ newline)))"
    by (elim exE conjE) (simp only: option.inject node.inject)
  then show ?thesis using w' unfolding text_of_def content.case ms(6) by (simp only: append.simps append_assoc) blast
qed

text \<open>A world in which \<open>client-go\<close> can be installed, and the module after it cannot.\<close>

definition module_world :: world where
  "module_world = \<lparr> w_cwd = [], w_files = [([''sieve_client''], Folder), ([''g'', ''pkg'', ''mod'', ''k8s.io'', ''client-go@v1''], Folder)], w_log = [] \<rparr>"

lemma install_ends: "ends out (install_lib_for_controller be kc)"
proof -
  have "ends out (set_client_version kc p)" for p
    unfolding set_client_version_def update_sieve_client_go_mod_with_version_def write_text_def write_content_def field_def
    by (intro ends_rules)
  moreover have module: "ends out (install_module be m dir)" for m dir
    unfolding install_module_def Let_def makedirs_def copytree_def add_mod_recursively_def add_mod_def by (intro ends_rules)
  have "ends out (install_modules be dir apis got)" for dir apis got
    by (induction apis arbitrary: got) (auto intro!: ends_rules module)
  ultimately show ?thesis
    unfolding install_lib_for_controller_def application_dir_def field_def Let_def copytree_def commit_all_def
    by (intro ends_rules module) auto
qed

theorem k8s_modules_clash_witness:
  "\<exists>r w'. install_lib_for_controller \<lparr> be_original_dir = ''/'', be_gopath = ''/g'' \<rparr> go_controller (all_exit 0) module_world = Some (r, w') \<and> r \<noteq> Inr ()"
proof -
  let ?be = "\<lparr> be_original_dir = ''/'', be_gopath = ''/g'' \<rparr>"
  obtain r w' where w': "install_lib_for_controller ?be go_controller (all_exit 0) module_world = Some (r, w')"
    using endsD[OF install_ends] by blast
  have kc: "kc_controller_name go_controller = JStr ''n''" "kc_client_go_version go_controller = JStr ''v1''" "CHR ''/'' \<notin> set ''v1''"
    "kc_apis_to_instrument go_controller = JList (JObj [(''module'', JStr ''k8s.io/api@v2'')] # [JObj [(''module'', JStr ''k8s.io/api@v2'')]])"
    "api_module (JObj [(''module'', JStr ''k8s.io/api@v2'')]) = Inr ''k8s.io/api@v2''" by (simp_all add: go_controller_def api_module_def as_str_def)
  have dir: "dirname ''k8s.io/api@v2'' = ''k8s.io''" by code_simp
  have keep: "commands_keep (all_exit 0) S" for S by (simp add: commands_keep_def all_exit_def)
  show ?thesis using k8s_modules_clash[OF kc dir keep w'] w' by blast
qed

lemma only_run: "\<exists>c fs. goes ((all_exit 0)\<lparr> ou_environ := \<lambda>v. Some ''/g'' \<rparr>) [''x''] (w_files only_world) (build_main only_options) () c fs"
  unfolding only_world_def world.simps
  by (intro exI, ((rule goes_steps goes_for goes_map) | (rule goes_choices, (code_simp; fail)) |
    (rule evals_now, (code_simp)?, rule evals_refl) | (simp only: build_defs))+)

theorem build_returns_home_witness:
  "\<exists>w'. build_main only_options ((all_exit 0)\<lparr> ou_environ := \<lambda>v. Some ''/g'' \<rparr>) only_world = Some (Inr (), w') \<and> w_cwd w' = [''x'']"
proof -
  let ?out = "(all_exit 0)\<lparr> ou_environ := \<lambda>v. Some ''/g'' \<rparr>"
  obtain w' where w': "build_main only_options ?out only_world = Some (Inr (), w')"
    using only_run unfolding goes_def only_world_def world.simps by blast
  have "clean_path (w_cwd only_world)" "w_cwd only_world = [''x'']" by code_simp+
  with build_returns_home[OF w'] w' show ?thesis by simp
qed

end
