(* ===== verification/Workflows.thy ===== *)
theory Workflows
  imports Reproduce
begin

text \<open>
  The workflows of the continuous integration, \<^verbatim>\<open>gen_github_action.py\<close>: for every operator a job that builds its images,
  one that learns its oracles and one that reproduces its known bugs, with the commands they run.
\<close>

section \<open>Values\<close>

text \<open>What is dumped as YAML; a floating-point number is kept as it is written.\<close>

datatype yaml = YNull | YStr string | YDecimal string | YList "yaml list" | YMap "(string \<times> yaml) list"

definition quote :: string where "quote = [CHR 0x22]"

definition operators_for_CI :: "(string \<times> string list) list" where
  "operators_for_CI = [
    (''cassandra-operator'', [''recreate'', ''scaledown-scaleup'']),
    (''casskop-operator'', [''recreate'', ''scaledown-to-zero'', ''reducepdb'']),
    (''mongodb-operator'', [''recreate'', ''scaleup-scaledown'', ''disable-enable-shard'', ''disable-enable-arbiter'', ''run-cert-manager'']),
    (''nifikop-operator'', [''recreate'', ''scaledown-scaleup'', ''change-config'']),
    (''rabbitmq-operator'', [''recreate'', ''scaleup-scaledown'', ''resize-pvc'']),
    (''xtradb-operator'', [''recreate'', ''disable-enable-haproxy'', ''disable-enable-proxysql'', ''run-cert-manager'', ''scaleup-scaledown'']),
    (''yugabyte-operator'', [''recreate'', ''scaleup-scaledown-tserver'', ''disable-enable-tls'', ''disable-enable-tuiport'']),
    (''zookeeper-operator'', [''recreate'', ''scaledown-scaleup''])]"

text \<open>All entries of this list are commented out.\<close>

definition operators_to_run_tests :: "string list" where
  "operators_to_run_tests = []"

definition ci_manifest_map :: "(string \<times> string) list" where
  "ci_manifest_map =
    [
     (''cass-operator'', ''examples/cass-operator/''),
     (''cassandra-operator'', ''examples/cassandra-operator/''),
     (''casskop-operator'', ''examples/casskop-operator/''),
     (''elastic-operator'', ''examples/elastic-operator/''),
     (''mongodb-operator'', ''examples/mongodb-operator/''),
     (''nifikop-operator'', ''examples/nifikop-operator/''),
     (''rabbitmq-operator'', ''examples/rabbitmq-operator/''),
     (''xtradb-operator'', ''examples/xtradb-operator/''),
     (''yugabyte-operator'', ''examples/yugabyte-operator/''),
     (''zookeeper-operator'', ''examples/zookeeper-operator/'')]"

definition manifest_of :: "string \<Rightarrow> string res" where
  "manifest_of operator = from_option KeyError (map_of ci_manifest_map operator)"

section \<open>Steps\<close>

definition setup_steps :: "yaml list" where
  "setup_steps = [
     YMap [(''uses'', YStr (''actions/checkout@v2''))],
     YMap [(''name'', YStr ''Setup Git''), (''run'', YStr (''git config --global user.name '' @ quote @ ''sieve'' @ quote @ newline @ ''git config --global user.email '' @ quote @ ''sieve@sieve.com'' @ quote))],
     YMap [(''name'', YStr ''Setup Go environment''), (''uses'', YStr (''actions/setup-go@v2.1.3'')), (''with'', YMap [(''go-version'', YDecimal ''1.19'')])],
     YMap [(''name'', YStr ''Setup Python''), (''uses'', YStr (''actions/setup-python@v2.2.2'')), (''with'', YMap [(''python-version'', YDecimal ''3.7'')])],
     YMap [(''name'', YStr ''Setup GitHub Package Registry''), (''run'', YStr (''echo '' @ quote @ ''${{ secrets.GITHUB_TOKEN }}'' @ quote @ '' | docker login ghcr.io -u '' @ quote @ ''${{ github.actor }}'' @ quote @ '' --password-stdin''))],
     YMap [(''name'', YStr ''Install Python Packages''), (''run'', YStr ''pip install -r requirements.txt'')],
     YMap [(''name'', YStr ''Install Kind''), (''run'', YStr (''GO111MODULE='' @ quote @ ''on'' @ quote @ '' go install sigs.k8s.io/kind@v0.13.0'' @ newline @ ''kind''))],
     YMap [(''name'', YStr ''Install Helm''), (''run'', YStr (''wget https://get.helm.sh/helm-v3.6.0-linux-amd64.tar.gz'' @ newline @ ''tar -zxvf helm-v3.6.0-linux-amd64.tar.gz'' @ newline @ ''sudo mv linux-amd64/helm /usr/local/bin/helm'' @ newline @ ''helm''))],
     YMap [(''name'', YStr ''Sieve CI config generate''), (''run'', YStr (''echo '' @ quote @ ''{'' @ [CHR 0x5C] @ quote @ ''workload_conditional_wait_timeout'' @ [CHR 0x5C] @ quote @ '': 1000}'' @ quote @ '' > sieve_config.json'' @ newline @ ''cat sieve_config.json''))]]"

text \<open>The template with the steps that are appended to it.\<close>

definition job_template :: "bool \<Rightarrow> yaml list \<Rightarrow> yaml" where
  "job_template self_hosted steps = YMap
     [(''runs-on'', YStr (if self_hosted then ''self-hosted'' else ''ubuntu-latest'')),
      (''env'', YMap [(''GOPATH'', YStr ''/home/runner/go''), (''KUBECONFIG'', YStr ''/home/runner/.kube/config'')]),
      (''steps'', YList (setup_steps @ steps))]"

definition collect_log_step :: "string \<Rightarrow> yaml" where
  "collect_log_step operator = YMap [(''uses'', YStr (''actions/upload-artifact@v2'')), (''if'', YStr ''always()''),
     (''with'', YMap [(''name'', YStr (''sieve-'' @ operator @ ''-log'')), (''path'', YStr ''log'')])]"

definition persistent_data_step :: "string \<Rightarrow> yaml" where
  "persistent_data_step operator = YMap [(''uses'', YStr (''JamesIves/github-pages-deploy-action@4.1.5'')), (''name'', YStr ''Persistent oracle data''),
     (''with'', YMap [(''branch'', YStr ''oracle-data''), (''folder'', YStr (''examples/'' @ operator @ ''/oracle'')),
       (''target-folder'', YStr (operator @ ''/oracle''))])]"

definition remove_cluster_step :: yaml where
  "remove_cluster_step = YMap [(''name'', YStr ''Remove cluster''), (''if'', YStr ''always()''), (''run'', YStr ''kind delete cluster'')]"

definition clean_images_step :: yaml where
  "clean_images_step = YMap [(''name'', YStr ''Clean images''), (''if'', YStr ''always()''),
     (''run'', YStr ''docker image prune -a -f && docker builder prune -a -f && docker system df'')]"

definition run_step :: "string \<Rightarrow> string \<Rightarrow> yaml" where
  "run_step name command = YMap [(''name'', YStr name), (''run'', YStr command)]"

definition learn_step :: "string \<Rightarrow> string \<Rightarrow> string \<Rightarrow> yaml" where
  "learn_step operator manifest workload = run_step (''Sieve Learn - '' @ operator @ '' '' @ workload)
     (''python3 sieve.py -c '' @ manifest @ '' -w '' @ workload @ '' -m learn --build-oracle -r $IMAGE_NAMESPACE'')"

definition reproduce_step :: "string \<Rightarrow> string \<Rightarrow> yaml" where
  "reproduce_step operator bug = run_step (''Sieve Test - '' @ operator @ '' '' @ bug)
     (''python3 reproduce_bugs.py -c '' @ operator @ '' -b '' @ bug @ '' -r $IMAGE_NAMESPACE'')"

section \<open>Jobs\<close>

definition jobs_for :: "(string \<times> string list \<Rightarrow> yaml list res) \<Rightarrow> bool \<Rightarrow> (string \<times> yaml) list res" where
  "jobs_for steps self_hosted = res_map (\<lambda>op. res_bind (steps op) (\<lambda>ss. Inr (fst op, job_template self_hosted ss))) operators_for_CI"

definition build_modes :: "string list" where
  "build_modes = [LEARN, TEST, VANILLA]"

definition image_steps :: "string \<times> string list \<Rightarrow> yaml list res" where
  "image_steps op = res_bind (manifest_of (fst op)) (\<lambda>manifest.
     Inr (map (\<lambda>mode. run_step (''Build Image - '' @ mode)
       (''python3 build.py -c '' @ manifest @ '' -m '' @ mode @ '' -p -r $IMAGE_NAMESPACE '')) build_modes @ [clean_images_step]))"

definition generate_controller_image_build_jobs :: "bool \<Rightarrow> (string \<times> yaml) list res" where
  "generate_controller_image_build_jobs = jobs_for image_steps"

definition learn_steps :: "string \<times> string list \<Rightarrow> yaml list res" where
  "learn_steps op = res_bind (manifest_of (fst op)) (\<lambda>manifest.
     Inr (map (learn_step (fst op) manifest) (sort (remdups (snd op)))))"

definition oracle_steps :: "string \<times> string list \<Rightarrow> yaml list res" where
  "oracle_steps op = res_bind (learn_steps op) (\<lambda>ss.
     Inr (ss @ [collect_log_step (fst op), remove_cluster_step, persistent_data_step (fst op), clean_images_step]))"

definition generate_oracle_build_jobs :: "bool \<Rightarrow> (string \<times> yaml) list res" where
  "generate_oracle_build_jobs = jobs_for oracle_steps"

definition bug_steps :: "string \<times> string list \<Rightarrow> yaml list res" where
  "bug_steps op = res_bind (from_option KeyError (map_of reprod_map (fst op))) (\<lambda>bugs.
     Inr (map (reproduce_step (fst op)) (filter (\<lambda>b. \<not> py_contains ''indirect'' b) (sort (map fst bugs)))))"

definition bug_reproduction_steps :: "string \<times> string list \<Rightarrow> yaml list res" where
  "bug_reproduction_steps op = res_bind (bug_steps op) (\<lambda>ss.
     Inr (ss @ [collect_log_step (fst op), remove_cluster_step, persistent_data_step (fst op), clean_images_step]))"

definition generate_bug_reproduction_jobs :: "bool \<Rightarrow> (string \<times> yaml) list res" where
  "generate_bug_reproduction_jobs = jobs_for bug_reproduction_steps"

definition test_steps :: "string \<times> string list \<Rightarrow> yaml list res" where
  "test_steps op = res_bind (manifest_of (fst op)) (\<lambda>manifest.
     let build_image = map (\<lambda>mode. run_step (''Build Image - '' @ mode)
       (''python3 build.py -c '' @ manifest @ '' -m '' @ mode @ '' -r $IMAGE_NAMESPACE'')) build_modes in
     if fst op \<in> set operators_to_run_tests then
       res_bind (learn_steps op) (\<lambda>sieve_learn. res_bind (bug_steps op) (\<lambda>sieve_test.
         Inr (build_image @ sieve_learn @ sieve_test @ [collect_log_step (fst op), remove_cluster_step])))
     else Inr build_image)"

definition generate_test_jobs :: "bool \<Rightarrow> (string \<times> yaml) list res" where
  "generate_test_jobs = jobs_for test_steps"

section \<open>The files\<close>

text \<open>The first line of a file tells the time; the time and the dump of a value are arguments.\<close>

definition write_workflow ::
  "string \<Rightarrow> (yaml \<Rightarrow> string) \<Rightarrow> string \<Rightarrow> string \<Rightarrow> (string \<times> yaml) list \<Rightarrow> (string \<times> yaml) list res \<Rightarrow> unit shell" where
  "write_workflow now dump file_name title events jobs =
     sh_bind (write_text (''.github/workflows/'' @ file_name) []) (\<lambda>_.
     sh_bind (sh_of jobs) (\<lambda>jobs.
       write_text (''.github/workflows/'' @ file_name)
         (''# This file is automatically generated by gen_github_action.py on '' @ now @ newline @
          dump (YMap [(''name'', YStr title), (''on'', YMap events),
            (''env'', YMap [(''IMAGE_NAMESPACE'', YStr ''ghcr.io/sieve-project/action'')]), (''jobs'', YMap jobs)]))))"

definition gen_github_action :: "string \<Rightarrow> (yaml \<Rightarrow> string) \<Rightarrow> unit shell" where
  "gen_github_action now dump = in_order
     [write_workflow now dump ''regression-testing.yml'' ''Regression Testing''
        [(''pull_request'', YNull), (''workflow_dispatch'', YNull)] (generate_test_jobs False),
      write_workflow now dump ''example-controller-image-build.yml'' ''Example Controller Image Build''
        [(''workflow_dispatch'', YNull)] (generate_controller_image_build_jobs False),
      write_workflow now dump ''oracle-generation.yml'' ''Oracle Generation''
        [(''workflow_dispatch'', YNull)] (generate_oracle_build_jobs True),
      write_workflow now dump ''bug-reproduction.yml'' ''Bug Reproduction''
        [(''workflow_dispatch'', YNull)] (generate_bug_reproduction_jobs True)]"

section \<open>The workflows fit together\<close>

text \<open>The steps of a job.\<close>

definition steps_of :: "yaml \<Rightarrow> yaml list" where
  "steps_of job = (case job of YMap m \<Rightarrow> (case map_of m ''steps'' of Some (YList ss) \<Rightarrow> ss | _ \<Rightarrow> []) | _ \<Rightarrow> [])"

lemma steps_of_template [simp]: "steps_of (job_template self_hosted ss) = setup_steps @ ss"
  by (simp add: steps_of_def job_template_def)

lemma jobs_of_each:
  assumes "res_map (\<lambda>op. res_bind (steps op) (\<lambda>ss. Inr (fst op, job_template self_hosted ss))) ops = Inr jobs"
    "op \<in> set ops" "distinct (map fst ops)"
  shows "\<exists>ss. steps op = Inr ss \<and> map_of jobs (fst op) = Some (job_template self_hosted ss)"
  using assms
proof (induction ops arbitrary: jobs)
  case (Cons o' ops)
  then obtain ss jobs' where first: "steps o' = Inr ss" and jobs: "jobs = (fst o', job_template self_hosted ss) # jobs'"
    and rest: "res_map (\<lambda>op. res_bind (steps op) (\<lambda>ss. Inr (fst op, job_template self_hosted ss))) ops = Inr jobs'"
    by (auto simp: res_bind_eq_Inr)
  show ?case
  proof (cases "op = o'")
    case True
    then show ?thesis using first jobs by simp
  next
    case False
    then have op: "op \<in> set ops" using Cons.prems(2) by simp
    then have "fst op \<noteq> fst o'" using Cons.prems(3) by (auto simp: image_iff)
    then show ?thesis using Cons.IH[OF rest op] Cons.prems(3) jobs by simp
  qed
qed simp

lemma jobs_for_each:
  assumes "jobs_for steps self_hosted = Inr jobs" "op \<in> set operators_for_CI" "distinct (map fst operators_for_CI)"
  shows "\<exists>ss. steps op = Inr ss \<and> map_of jobs (fst op) = Some (job_template self_hosted ss)"
  using jobs_of_each[OF assms(1)[unfolded jobs_for_def] assms(2,3)] .


lemma operators_distinct: "distinct (map fst operators_for_CI)"
  by code_simp

lemma operators_have_manifests: "list_all (\<lambda>op. map_of ci_manifest_map op \<noteq> None) (map fst operators_for_CI)"
  by (simp add: ci_manifest_map_def operators_for_CI_def)

lemma operators_have_bugs: "list_all (\<lambda>op. op \<in> set (map fst reprod_map)) (map fst operators_for_CI)"
  by (simp add: reprod_map_def operators_for_CI_def)

lemma bugs_reproduced_with:
  "list_all (\<lambda>(op, bugs). list_all (\<lambda>(op', workloads). op = op' \<longrightarrow> list_all (\<lambda>(b, wl, plan, hooks). take 8 b = ''indirect'' \<or> wl \<in> set workloads) bugs)
     operators_for_CI) reprod_map"
  by (simp add: reprod_map_def operators_for_CI_def)

text \<open>No generator raises an error: it finds every operator in both tables.\<close>

lemma entry_of_operator:
  assumes "(operator, workloads) \<in> set operators_for_CI"
  obtains m bugs where "manifest_of operator = Inr m" "map_of reprod_map operator = Some bugs"
proof -
  have op: "operator \<in> set (map fst operators_for_CI)" using assms by force
  have "map_of ci_manifest_map operator \<noteq> None" "operator \<in> set (map fst reprod_map)"
    using operators_have_manifests operators_have_bugs op unfolding list_all_iff by blast+
  then have "\<exists>m. map_of ci_manifest_map operator = Some m" "\<exists>bugs. map_of reprod_map operator = Some bugs"
    by (auto simp: map_of_eq_None_iff simp flip: not_None_eq)
  then show thesis using that by (auto simp: manifest_of_def)
qed

lemma jobs_for_total:
  assumes "\<And>op. op \<in> set operators_for_CI \<Longrightarrow> \<exists>ss. steps op = Inr ss"
  shows "\<exists>jobs. jobs_for steps self_hosted = Inr jobs"
proof -
  obtain g where "\<forall>op\<in>set operators_for_CI. steps op = Inr (g op)" using assms by metis
  then have "\<forall>op\<in>set operators_for_CI. res_bind (steps op) (\<lambda>ss. Inr (fst op, job_template self_hosted ss)) =
      Inr (fst op, job_template self_hosted (g op))" by simp
  from res_map_total[OF this] show ?thesis unfolding jobs_for_def by (rule exI)
qed

lemma learn_steps_total:
  assumes "op \<in> set operators_for_CI"
  shows "\<exists>m. learn_steps op = Inr (map (learn_step (fst op) m) (sort (remdups (snd op))))"
proof -
  obtain m bugs where "manifest_of (fst op) = Inr m" using entry_of_operator[of "fst op" "snd op"] assms by auto
  then show ?thesis by (auto simp: learn_steps_def)
qed

lemma bug_steps_total:
  assumes "op \<in> set operators_for_CI"
  shows "\<exists>bugs. map_of reprod_map (fst op) = Some bugs \<and>
    bug_steps op = Inr (map (reproduce_step (fst op)) (filter (\<lambda>b. \<not> py_contains ''indirect'' b) (sort (map fst bugs))))"
proof -
  obtain m bugs where "map_of reprod_map (fst op) = Some bugs" using entry_of_operator[of "fst op" "snd op"] assms by auto
  then show ?thesis by (auto simp: bug_steps_def)
qed

lemma oracle_jobs_total: "\<exists>jobs. generate_oracle_build_jobs self_hosted = Inr jobs"
  unfolding generate_oracle_build_jobs_def by (rule jobs_for_total) (auto simp: oracle_steps_def dest: learn_steps_total)

lemma bug_jobs_total: "\<exists>jobs. generate_bug_reproduction_jobs self_hosted = Inr jobs"
  unfolding generate_bug_reproduction_jobs_def by (rule jobs_for_total) (auto simp: bug_reproduction_steps_def dest: bug_steps_total)

lemma direct_bugs_learned:
  assumes "(operator, workloads) \<in> set operators_for_CI" "map_of reprod_map operator = Some bugs"
    "(b, wl, plan, hooks) \<in> set bugs" "\<not> py_contains ''indirect'' b"
  shows "wl \<in> set workloads"
proof -
  have "take 8 b \<noteq> ''indirect''"
  proof
    assume "take 8 b = ''indirect''"
    then have "b = ''indirect'' @ drop 8 b" by (metis append_take_drop_id)
    then have "\<exists>u v. b = u @ ''indirect'' @ v" by (metis append_Nil)
    then show False using assms(4) unfolding py_contains_iff by blast
  qed
  moreover have "(operator, bugs) \<in> set reprod_map" using assms(2) by (rule map_of_SomeD)
  ultimately show ?thesis using bugs_reproduced_with assms(1,3) by (fastforce simp: list_all_iff)
qed

text \<open>The jobs of a workflow are those of the operators of the list.\<close>

lemma res_map_keys:
  "res_map (\<lambda>op. res_bind (steps op) (\<lambda>ss. Inr (fst op, job_template self_hosted ss))) ops = Inr jobs \<Longrightarrow>
   map fst jobs = map fst ops"
  by (induction ops arbitrary: jobs) (auto simp: res_bind_eq_Inr)

lemma jobs_for_none:
  assumes "jobs_for steps self_hosted = Inr jobs" "operator \<notin> fst ` set operators_for_CI"
  shows "map_of jobs operator = None"
proof -
  have "map fst jobs = map fst operators_for_CI" using res_map_keys assms(1) unfolding jobs_for_def by blast
  then have "fst ` set jobs = fst ` set operators_for_CI" by (metis set_map)
  then show ?thesis using assms(2) by (simp add: map_of_eq_None_iff)
qed

text \<open>The operators that are commented out of the list and have known bugs.\<close>

definition operators_left_out :: "string list" where
  "operators_left_out = [''cass-operator'', ''elastic-operator'']"

lemma operators_of_bugs:
  "list_all (\<lambda>op. op \<in> set operators_left_out \<longleftrightarrow> op \<notin> set (map fst operators_for_CI)) (map fst reprod_map)"
  by (simp add: reprod_map_def operators_for_CI_def operators_left_out_def)

lemma CI_bug_jobs:
  assumes "(operator, workloads) \<in> set operators_for_CI" "map_of reprod_map operator = Some bugs"
    "(b, workload, plan, hooks) \<in> set bugs" "\<not> py_contains ''indirect'' b"
    and l: "generate_oracle_build_jobs self_hosted = Inr learn_jobs"
    and r: "generate_bug_reproduction_jobs self_hosted = Inr bug_jobs"
  shows "\<exists>m learn bug. manifest_of operator = Inr m \<and> map_of learn_jobs operator = Some learn \<and>
    learn_step operator m workload \<in> set (steps_of learn) \<and> map_of bug_jobs operator = Some bug \<and>
    reproduce_step operator b \<in> set (steps_of bug)"
proof -
  obtain m where m: "manifest_of operator = Inr m" using entry_of_operator[OF assms(1)] .
  obtain ls where ls: "oracle_steps (operator, workloads) = Inr ls" "map_of learn_jobs operator = Some (job_template self_hosted ls)"
    using jobs_for_each[OF l[unfolded generate_oracle_build_jobs_def] assms(1) operators_distinct] by auto
  obtain bs where bs: "bug_reproduction_steps (operator, workloads) = Inr bs" "map_of bug_jobs operator = Some (job_template self_hosted bs)"
    using jobs_for_each[OF r[unfolded generate_bug_reproduction_jobs_def] assms(1) operators_distinct] by auto
  have b: "b \<in> fst ` set bugs" using assms(3) by force
  have "workload \<in> set workloads" using direct_bugs_learned[OF assms(1-4)] .
  then have "learn_step operator m workload \<in> set ls" using ls(1) m by (auto simp: oracle_steps_def learn_steps_def)
  moreover have "reproduce_step operator b \<in> set bs"
  proof -
    have "b \<in> set (filter (\<lambda>b. \<not> py_contains ''indirect'' b) (sort (map fst bugs)))" using b assms(4) by simp
    then have "reproduce_step operator b \<in> set (map (reproduce_step operator)
        (filter (\<lambda>b. \<not> py_contains ''indirect'' b) (sort (map fst bugs))))"
      unfolding set_map by (rule imageI)
    moreover have "bs = map (reproduce_step operator) (filter (\<lambda>b. \<not> py_contains ''indirect'' b) (sort (map fst bugs))) @
        [collect_log_step operator, remove_cluster_step, persistent_data_step operator, clean_images_step]"
      using bs(1) assms(2) by (simp add: bug_reproduction_steps_def bug_steps_def)
    ultimately show ?thesis by (metis UnI1 set_append)
  qed
  ultimately show ?thesis using m ls(2) bs(2) by auto
qed

text \<open>
  C22: The workflows fit together. The generators of the oracle and of the bug reproduction workflow never fail. For a known
  bug that is not an indirect one, of any operator of the table of known bugs: when the operator is one of the continuous
  integration, the bug reproduction workflow has a job of the operator with a step that reproduces the bug, and the oracle
  workflow has one with a step that learns the oracle of the workload the bug is reproduced with. The exceptions are exactly
  \<open>cass-operator\<close> and \<open>elastic-operator\<close>, which are commented out of the list of operators (\<^verbatim>\<open>docs/reprod.md\<close>: they no longer
  build): neither workflow has a job for them.
\<close>

theorem workflows_fit:
  assumes "map_of reprod_map operator = Some bugs" "(b, workload, plan, hooks) \<in> set bugs" "\<not> py_contains ''indirect'' b"
  shows "\<exists>learn_jobs bug_jobs. generate_oracle_build_jobs self_hosted = Inr learn_jobs \<and>
    generate_bug_reproduction_jobs self_hosted = Inr bug_jobs \<and>
    (if operator \<in> {''cass-operator'', ''elastic-operator''}
     then map_of learn_jobs operator = None \<and> map_of bug_jobs operator = None
     else \<exists>m learn bug. manifest_of operator = Inr m \<and> map_of learn_jobs operator = Some learn \<and>
       learn_step operator m workload \<in> set (steps_of learn) \<and> map_of bug_jobs operator = Some bug \<and>
       reproduce_step operator b \<in> set (steps_of bug))"
proof -
  obtain learn_jobs where l: "generate_oracle_build_jobs self_hosted = Inr learn_jobs" using oracle_jobs_total by blast
  obtain bug_jobs where r: "generate_bug_reproduction_jobs self_hosted = Inr bug_jobs" using bug_jobs_total by blast
  have "operator \<in> set (map fst reprod_map)" using map_of_SomeD[OF assms(1)] by force
  then have out: "operator \<in> set operators_left_out \<longleftrightarrow> operator \<notin> set (map fst operators_for_CI)"
    using operators_of_bugs unfolding list_all_iff by blast
  show ?thesis
  proof (cases "operator \<in> set operators_left_out")
    case True
    then have "operator \<notin> fst ` set operators_for_CI" using out by simp
    then have "map_of learn_jobs operator = None" "map_of bug_jobs operator = None"
      using jobs_for_none l r unfolding generate_oracle_build_jobs_def generate_bug_reproduction_jobs_def by blast+
    with l r True show ?thesis by (simp add: operators_left_out_def)
  next
    case False
    then obtain workloads where "(operator, workloads) \<in> set operators_for_CI" using out by auto
    from CI_bug_jobs[OF this assms l r] l r False show ?thesis by (auto simp: operators_left_out_def)
  qed
qed

theorem workflows_fit_witness:
  "\<exists>learn_jobs bug_jobs m learn bug. generate_oracle_build_jobs True = Inr learn_jobs \<and>
    generate_bug_reproduction_jobs True = Inr bug_jobs \<and> manifest_of ''zookeeper-operator'' = Inr m \<and>
    map_of learn_jobs ''zookeeper-operator'' = Some learn \<and>
    learn_step ''zookeeper-operator'' m ''recreate'' \<in> set (steps_of learn) \<and>
    map_of bug_jobs ''zookeeper-operator'' = Some bug \<and>
    reproduce_step ''zookeeper-operator'' ''stale-state-1'' \<in> set (steps_of bug)"
proof -
  obtain bugs where bugs: "map_of reprod_map ''zookeeper-operator'' = Some bugs"
    "(''stale-state-1'', ''recreate'', ''zookeeper-operator-stale-state-1.yaml'', []) \<in> set bugs" by (simp add: reprod_map_def)
  have "\<not> py_contains ''indirect'' ''stale-state-1''" by code_simp
  from workflows_fit[OF bugs this, of True] show ?thesis by auto
qed

end
