(* ===== verification/Check_Env.thy ===== *)
theory Check_Env
  imports Prelude
begin

text \<open>
  The check of the installed tools, \<^verbatim>\<open>check_env.py\<close>. The machine is an argument: the exit status and the output of
  a command, the variables of the environment that are set and the Python modules that can be imported.
  What the script prints is its result.
\<close>

section \<open>Reports\<close>

datatype message = Ok_note string | Warn_note string | Fail_note string

text \<open>
  The machine; a command whose output is asked for with \<open>check_output\<close> raises when it fails, and the text of an
  exception is up to Python.
\<close>

record machine =
  mc_status :: "string \<Rightarrow> nat"
  mc_output :: "string \<Rightarrow> string res"
  mc_popen :: "string \<Rightarrow> string"
  mc_variables :: "string list"
  mc_modules :: "string list"
  mc_error_text :: "py_error \<Rightarrow> string"

text \<open>What has been printed, and whether an exception ended the check.\<close>

type_synonym report = "message list \<times> unit res"

definition say :: "message \<Rightarrow> report" where
  "say n = ([n], Inr ())"

definition and_then :: "report \<Rightarrow> report \<Rightarrow> report" where
  "and_then r s = (case r of (notes, Inr _) \<Rightarrow> (notes @ fst s, snd s) | (notes, Inl e) \<Rightarrow> (notes, Inl e))"

definition with_value :: "'a res \<Rightarrow> ('a \<Rightarrow> report) \<Rightarrow> report" where
  "with_value r f = (case r of Inl e \<Rightarrow> ([], Inl e) | Inr x \<Rightarrow> f x)"

text \<open>\<open>s.split()\<close>: the words between blanks.\<close>

fun py_words :: "string \<Rightarrow> string list" where
  "py_words [] = []"
| "py_words (c # s) = (if py_space c then py_words s
     else (case s of [] \<Rightarrow> [[c]] | d # _ \<Rightarrow> if py_space d then [c] # py_words s
       else (case py_words s of [] \<Rightarrow> [[c]] | w # ws \<Rightarrow> (c # w) # ws)))"

text \<open>\<open>xs[i]\<close>.\<close>

definition item :: "'a list \<Rightarrow> nat \<Rightarrow> 'a res" where
  "item xs i = (if i < length xs then Inr (xs ! i) else Inl IndexError)"

definition redirected :: "string \<Rightarrow> string" where
  "redirected command = command @ '' > /dev/null 2>&1''"

text \<open>The first two numbers of a version.\<close>

definition version_numbers :: "string \<Rightarrow> (int \<times> int) res" where
  "version_numbers version =
     (let version_breakdown = py_split (CHR ''.'') version in
      res_bind (res_bind (item version_breakdown 0) py_int) (\<lambda>major.
      res_bind (res_bind (item version_breakdown 1) py_int) (\<lambda>minor. Inr (major, minor))))"

section \<open>The checks\<close>

definition goenv_entry :: "string \<Rightarrow> (string \<times> string) res" where
  "goenv_entry x = (let parts = py_split (CHR ''='') x in
     res_bind (item parts 0) (\<lambda>k. res_bind (item parts 1) (\<lambda>v. Inr (k, strip_while (\<lambda>c. c = CHR 0x22) v))))"

definition go_version :: "machine \<Rightarrow> string res" where
  "go_version mc =
     res_bind (mc_output mc ''go env'') (\<lambda>text_out.
     res_bind (res_map goenv_entry (py_split (CHR 0x0A) (strip_while py_space text_out))) (\<lambda>goenv.
       case map_of (rev goenv) ''GOVERSION'' of
         Some v \<Rightarrow> Inr (drop 2 v)
       | None \<Rightarrow> res_bind (item (py_words (mc_popen mc ''go version'')) 2) (\<lambda>v. Inr (drop 2 v))))"

definition variable_note :: "machine \<Rightarrow> string \<Rightarrow> string \<Rightarrow> report" where
  "variable_note mc name url = (if name \<in> set (mc_variables mc)
     then say (Ok_note (''environment variable $'' @ name @ '' detected''))
     else say (Fail_note (''environment variable $'' @ name @ '' not detected, try to set it according to '' @ url)))"

definition go_satisfies :: "int \<times> int \<Rightarrow> bool" where
  "go_satisfies v = (case v of (major, minor) \<Rightarrow> major > 1 \<or> major = 1 \<and> minor \<ge> 13)"

definition check_go_env :: "machine \<Rightarrow> report" where
  "check_go_env mc =
     (if mc_status mc (redirected ''go version'') \<noteq> 0
      then say (Fail_note ''golang environment not detected, please install it according to https://golang.org/doc/install'')
      else and_then (say (Ok_note ''golang environment detected''))
        (with_value (go_version mc) (\<lambda>version.
         with_value (version_numbers version) (\<lambda>v.
         and_then (if go_satisfies v
             then say (Ok_note (''go version '' @ version @ '' satisfies the requirement''))
             else say (Warn_note (''go version '' @ version @
               '' not satisfies the requirement, the minimum go version should be above 1.13.0'')))
           (variable_note mc ''GOPATH'' ''https://golang.org/doc/gopath_code#GOPATH'')))))"

text \<open>The checks that only look whether a tool is there.\<close>

definition tool_note :: "machine \<Rightarrow> string \<Rightarrow> string \<Rightarrow> string \<Rightarrow> report" where
  "tool_note mc command name advice = (if mc_status mc (redirected command) \<noteq> 0
     then say (Fail_note (name @ '' not detected, please install it according to '' @ advice))
     else say (Ok_note (name @ '' detected'')))"

definition check_kubectl_env :: "machine \<Rightarrow> report" where
  "check_kubectl_env mc = tool_note mc ''kubectl --help'' ''kubectl'' ''https://kubernetes.io/docs/tasks/tools/''"

definition only_certain :: "string \<Rightarrow> message" where
  "only_certain name = Warn_note (name @ '' is only required for certain controllers, please ignore the following failure if your controller does not need '' @ name)"

definition check_helm_env :: "machine \<Rightarrow> report" where
  "check_helm_env mc = and_then (say (only_certain ''helm''))
     (tool_note mc ''helm version'' ''helm'' ''https://helm.sh/docs/intro/install/'')"

definition check_mage_env :: "machine \<Rightarrow> report" where
  "check_mage_env mc = and_then (say (only_certain ''mage'')) (tool_note mc ''mage --version'' ''mage'' ''https://magefile.org/'')"

definition kind_version :: "machine \<Rightarrow> string res" where
  "kind_version mc = res_bind (item (py_words (mc_popen mc ''kind version'')) 1) (\<lambda>w. Inr (hd (py_split (CHR ''-'') w)))"

text \<open>Here every part of the version is to be a number.\<close>

definition kind_numbers :: "string \<Rightarrow> (int \<times> int) res" where
  "kind_numbers version = res_bind (res_map py_int (py_split (CHR ''.'') (drop 1 version))) (\<lambda>parsed.
     res_bind (item parsed 0) (\<lambda>major. res_bind (item parsed 1) (\<lambda>minor. Inr (major, minor))))"

definition kind_satisfies :: "int \<times> int \<Rightarrow> bool" where
  "kind_satisfies v = (case v of (major, minor) \<Rightarrow> major > 0 \<or> major = 0 \<and> minor \<ge> 10)"

definition check_kind_env :: "machine \<Rightarrow> report" where
  "check_kind_env mc =
     (if mc_status mc (redirected ''kind version'') \<noteq> 0
      then say (Fail_note ''kind not detected, please install it according to https://kind.sigs.k8s.io/docs/user/quick-start/#installation'')
      else and_then (say (Ok_note ''kind detected''))
        (with_value (kind_version mc) (\<lambda>version.
         with_value (kind_numbers version) (\<lambda>v.
         and_then (if kind_satisfies v
             then say (Ok_note (''kind version '' @ version @ '' satisfies the requirement''))
             else say (Warn_note (''kind version '' @ version @
               '' not satisfies the requirement, the minimum kind version should be above 0.10.0'')))
           (variable_note mc ''KUBECONFIG'' ''https://kubernetes.io/docs/concepts/configuration/organize-cluster-access-kubeconfig'')))))"

definition module_note :: "machine \<Rightarrow> string \<Rightarrow> string \<Rightarrow> string \<Rightarrow> report" where
  "module_note mc module name advised = (if module \<in> set (mc_modules mc)
     then say (Ok_note (''python module '' @ name @ '' detected''))
     else say (Fail_note (''python module '' @ advised @ '' not detected, try to install it by `pip3 install '' @ name @ ''`'')))"

definition check_python_env :: "machine \<Rightarrow> report" where
  "check_python_env mc =
     and_then (module_note mc ''kubernetes'' ''kubernetes'' ''pysqlite3'')
     (and_then (module_note mc ''docker'' ''docker'' ''docker'')
     (and_then (module_note mc ''yaml'' ''pyyaml'' ''pyyaml'')
       (module_note mc ''deepdiff'' ''deepdiff'' ''deepdiff'')))"

text \<open>This check is in the file, but the script does not call it.\<close>

definition check_sqlite_env :: "machine \<Rightarrow> report" where
  "check_sqlite_env mc =
     and_then (say (Warn_note ''sqlite3 version 3.32 and pysqlite3 are only required for learning mode, please ignore any failures below if you only want to reproduce the bugs''))
     (if mc_status mc (redirected ''sqlite3 -version'') \<noteq> 0
      then say (Fail_note ''sqlite3 not detected, please install it with version above 3.32 according to https://help.dreamhost.com/hc/en-us/articles/360028047592-Installing-a-custom-version-of-SQLite3'')
      else and_then (say (Ok_note ''sqlite3 detected''))
        (with_value (res_bind (mc_output mc ''sqlite3 -version'') (\<lambda>s. item (py_words s) 0)) (\<lambda>version.
         with_value (version_numbers version) (\<lambda>(major, minor).
         and_then (if major > 3 \<or> major = 3 \<and> minor \<ge> 32
             then say (Ok_note (''sqlite3 version '' @ version @ '' satisfies the requirement''))
             else say (Fail_note (''sqlite3 version '' @ version @ '' not satisfies the requirement, the minimum sqlite3 version should be above 3.32, please update according to https://help.dreamhost.com/hc/en-us/articles/360028047592-Installing-a-custom-version-of-SQLite3'')))
           (if ''sqlite3'' \<in> set (mc_modules mc) then say (Ok_note ''python module pysqlite3 detected'')
            else say (Fail_note ''python module pysqlite3 not detected, try to install it by `pip3 install pysqlite3`''))))))"

text \<open>An exception ends one check only.\<close>

definition guarded :: "machine \<Rightarrow> string \<Rightarrow> report \<Rightarrow> message list" where
  "guarded mc name r = (case r of
       (notes, Inr _) \<Rightarrow> notes
     | (notes, Inl e) \<Rightarrow> notes @ [Warn_note (''unable to check '' @ name @ '' env due to exception '' @ mc_error_text mc e)])"

definition check_env :: "machine \<Rightarrow> message list" where
  "check_env mc =
     guarded mc ''go'' (check_go_env mc) @ guarded mc ''kubectl'' (check_kubectl_env mc) @
     guarded mc ''kind'' (check_kind_env mc) @ guarded mc ''python'' (check_python_env mc) @
     guarded mc ''helm'' (check_helm_env mc) @ guarded mc ''mage'' (check_mage_env mc)"

section \<open>The verdict on a version\<close>

text \<open>A version as a tool prints it: numbers with dots between them.\<close>

definition dotted :: "nat list \<Rightarrow> string" where
  "dotted ns = py_join ''.'' (map nat_str ns)"

text \<open>Comparing two versions number by number.\<close>

fun version_le :: "nat list \<Rightarrow> nat list \<Rightarrow> bool" where
  "version_le [] ns \<longleftrightarrow> True"
| "version_le (m # ms) [] \<longleftrightarrow> False"
| "version_le (m # ms) (n # ns) \<longleftrightarrow> m < n \<or> m = n \<and> version_le ms ns"

lemma split_dotted: "ns \<noteq> [] \<Longrightarrow> py_split (CHR ''.'') (dotted ns) = map nat_str ns"
proof -
  assume "ns \<noteq> []"
  moreover have "CHR ''.'' \<notin> set (nat_str n)" for n using nat_str_digits[of n] by (auto simp: is_digit_def)
  ultimately show ?thesis unfolding dotted_def by (intro py_split_py_join) auto
qed

lemma py_int_nat_str: "py_int (nat_str n) = Inr (int n)"
  using py_int_int_str[of "int n"] by (simp add: int_str_def)

lemma numbers_dotted:
  assumes "2 \<le> length ns"
  shows "version_numbers (dotted ns) = Inr (int (ns ! 0), int (ns ! 1))" "kind_numbers (CHR ''v'' # dotted ns) = Inr (int (ns ! 0), int (ns ! 1))"
proof -
  obtain a b ms where ns: "ns = a # b # ms" using assms by (cases ns; cases "tl ns") auto
  have "res_map py_int (map nat_str ns) = Inr (map int ns)" by (induction ns) (simp_all add: py_int_nat_str)
  then show "version_numbers (dotted ns) = Inr (int (ns ! 0), int (ns ! 1))" "kind_numbers (CHR ''v'' # dotted ns) = Inr (int (ns ! 0), int (ns ! 1))"
    by (simp_all add: version_numbers_def kind_numbers_def split_dotted ns item_def py_int_nat_str)
qed

lemma satisfies_dotted:
  assumes "2 \<le> length ns"
  shows "go_satisfies (int (ns ! 0), int (ns ! 1)) \<longleftrightarrow> version_le [1, 13] ns" "kind_satisfies (int (ns ! 0), int (ns ! 1)) \<longleftrightarrow> version_le [0, 10] ns"
proof -
  obtain a b ms where ns: "ns = a # b # ms" using assms by (cases ns; cases "tl ns") auto
  show "go_satisfies (int (ns ! 0), int (ns ! 1)) \<longleftrightarrow> version_le [1, 13] ns" "kind_satisfies (int (ns ! 0), int (ns ! 1)) \<longleftrightarrow> version_le [0, 10] ns"
    by (auto simp: ns go_satisfies_def kind_satisfies_def)
qed

text \<open>
  When the tools are there and print versions made of numbers, the script accepts Go exactly from
  version 1.13 and kind exactly from version 0.10, in the order of versions, and warns otherwise; whatever
  it says about the versions, it goes on to the variables of the environment.
\<close>

theorem version_verdicts:
  assumes "2 \<le> length ns" "go_version mc = Inr (dotted ns)" "mc_status mc (redirected ''go version'') = 0"
    "2 \<le> length ks" "kind_version mc = Inr (CHR ''v'' # dotted ks)" "mc_status mc (redirected ''kind version'') = 0"
  shows "check_go_env mc = ([Ok_note ''golang environment detected'',
      if version_le [1, 13] ns then Ok_note (''go version '' @ dotted ns @ '' satisfies the requirement'')
      else Warn_note (''go version '' @ dotted ns @ '' not satisfies the requirement, the minimum go version should be above 1.13.0'')] @
      fst (variable_note mc ''GOPATH'' ''https://golang.org/doc/gopath_code#GOPATH''), Inr ()) \<and>
    check_kind_env mc = ([Ok_note ''kind detected'',
      if version_le [0, 10] ks then Ok_note (''kind version '' @ (CHR ''v'' # dotted ks) @ '' satisfies the requirement'')
      else Warn_note (''kind version '' @ (CHR ''v'' # dotted ks) @ '' not satisfies the requirement, the minimum kind version should be above 0.10.0'')] @
      fst (variable_note mc ''KUBECONFIG'' ''https://kubernetes.io/docs/concepts/configuration/organize-cluster-access-kubeconfig''), Inr ())"
proof -
  have var: "variable_note mc x y = (fst (variable_note mc x y), Inr ())" for x y by (simp add: variable_note_def say_def)
  show ?thesis unfolding check_go_env_def check_kind_env_def assms(2,3,5,6) with_value_def sum.case numbers_dotted[OF assms(1)] numbers_dotted[OF assms(4)]
      satisfies_dotted[OF assms(1)] satisfies_dotted[OF assms(4)]
    by (subst (1 2) var) (simp add: and_then_def say_def)
qed

definition sample_machine :: machine where
  "sample_machine = \<lparr> mc_status = (\<lambda>command. 0),
     mc_output = (\<lambda>command. Inr (''A=1'' @ [CHR 0x0A] @ ''GOVERSION='' @ [CHR 0x22] @ ''go1.9.2'' @ [CHR 0x22, CHR 0x0A])),
     mc_popen = (\<lambda>command. ''kind v0.13.0-a go''), mc_variables = [''GOPATH''], mc_modules = [], mc_error_text = (\<lambda>e. []) \<rparr>"

theorem version_verdicts_witness:
  "fst (check_go_env sample_machine) ! 1 = Warn_note (''go version 1.9.2 not satisfies the requirement, the minimum go version should be above 1.13.0'') \<and>
     fst (check_kind_env sample_machine) ! 1 = Ok_note ''kind version v0.13.0 satisfies the requirement''"
proof -
  have "go_version sample_machine = Inr (dotted [1, 9, 2])" "kind_version sample_machine = Inr (CHR ''v'' # dotted [0, 13, 0])"
    "mc_status sample_machine (redirected ''go version'') = 0" "mc_status sample_machine (redirected ''kind version'') = 0"
    "dotted [1, 9, 2] = ''1.9.2''" "dotted [0, 13, 0] = ''0.13.0''" by code_simp+
  then show ?thesis using version_verdicts[of "[1, 9, 2]" sample_machine "[0, 13, 0]"] by simp
qed

end
