(* ===== verification/Parallel.thy ===== *)
theory Parallel
  imports Reproduce_Facts
begin

text \<open>
  The scripts beside the tool: parallel testing (\<^verbatim>\<open>parallel_testing/combine_json.py\<close>, \<^verbatim>\<open>runlearn.py\<close>,
  \<^verbatim>\<open>gen_commands.py\<close>), the folder a new controller starts from (\<^verbatim>\<open>start_porting.py\<close>) and the check
  of the generated test plans (\<^verbatim>\<open>check_test_plan_gen.py\<close>).
\<close>

section \<open>Files by pattern\<close>

text \<open>
  \<open>glob.glob\<close> below a folder. The patterns of the scripts have no special character but the star, which
  does not match a leading dot; the order is the one of the files.
\<close>

fun star_match :: "string \<Rightarrow> string \<Rightarrow> bool" where
  "star_match [] [] = True"
| "star_match [] (c # s) = False"
| "star_match (p # ps) [] = (p = CHR ''*'' \<and> star_match ps [])"
| "star_match (p # ps) (c # s) =
     (if p = CHR ''*'' then star_match ps (c # s) \<or> star_match (p # ps) s else p = c \<and> star_match ps s)"

definition glob_name :: "string \<Rightarrow> string \<Rightarrow> bool" where
  "glob_name p s \<longleftrightarrow> star_match p s \<and> (CHR ''*'' \<in> set p \<and> \<not> py_startswith p ''.'' \<longrightarrow> \<not> py_startswith s ''.'')"

definition glob :: "string \<Rightarrow> string list \<Rightarrow> string list shell" where
  "glob root patterns = sh_files (\<lambda>cwd fs.
     let base = resolve cwd root; below = (\<lambda>p. drop (length base) p) in
     Inr (map (\<lambda>p. path_join root (py_join ''/'' (below p)))
       (filter (\<lambda>p. prefix base p \<and> list_all2 glob_name patterns (below p)) (remdups (map fst fs)))))"

definition listdir :: "string \<Rightarrow> string list shell" where
  "listdir p = sh_files (\<lambda>cwd fs.
     let base = resolve cwd p in
     case node_at fs base of
       Some Folder \<Rightarrow> Inr (map last (filter (\<lambda>q. q \<noteq> [] \<and> butlast q = base) (remdups (map fst fs))))
     | Some _ \<Rightarrow> Inl OSError
     | None \<Rightarrow> Inl FileNotFoundError)"

text \<open>\<open>get_all_controllers\<close> of \<^verbatim>\<open>sieve_common/common.py\<close>: the second components of the paths that are found, as a list.\<close>

definition get_all_controllers :: "string \<Rightarrow> string list shell" where
  "get_all_controllers dir =
     sh_bind (glob dir [''*'', ''config.json'']) (\<lambda>configs.
       sh_of (res_map (\<lambda>config. let tokens = py_split CHR ''/'' config in
         if 1 < length tokens then Inr (tokens ! 1) else Inl IndexError) configs))"

section \<open>Merging test results\<close>

text \<open>
  \<open>merge(result, patch)\<close> changes \<open>result\<close>, the value returned here. The patch is a dict; a value of \<open>result\<close>
  that is not one has no item to look up or to assign.
\<close>

fun merge :: "json \<Rightarrow> (string \<times> json) list \<Rightarrow> json res" where
  "merge result [] = Inr result"
| "merge (JObj m) ((key, v) # patch) =
     (case map_of m key of
        None \<Rightarrow> merge (JObj (AList.update key v m)) patch
      | Some old \<Rightarrow> (case v of
          JObj inner \<Rightarrow> res_bind (merge old inner) (\<lambda>x. merge (JObj (AList.update key x m)) patch)
        | _ \<Rightarrow> merge (JObj (AList.update key v m)) patch))"
| "merge result ((key, v) # patch) = Inl TypeError"

text \<open>The time of the run, as it is written into the name of the summary.\<close>

definition summary_name :: "int list \<Rightarrow> string" where
  "summary_name t = ''test-summary-'' @ py_join ''-'' (map int_str t) @ ''.json''"

definition from_end :: "string list \<Rightarrow> nat \<Rightarrow> string res" where
  "from_end tokens i = (if i \<le> length tokens then Inr (tokens ! (length tokens - i)) else Inl IndexError)"

definition expected_result :: "string \<Rightarrow> string \<Rightarrow> string res" where
  "expected_result controller test_plan =
     res_bind (from_end (py_split CHR ''/'' test_plan) 6) (\<lambda>workload_name.
       Inr (controller @ ''-'' @ workload_name @ ''-'' @ basename test_plan @ ''.json''))"

definition failed_plans :: "string \<Rightarrow> string list \<Rightarrow> string list \<Rightarrow> string list res" where
  "failed_plans controller json_names test_plans =
     res_filter (\<lambda>test_plan. res_bind (expected_result controller test_plan) (\<lambda>expected_name.
       Inr (\<not> list_ex (\<lambda>json_name. py_endswith json_name expected_name) json_names))) test_plans"

text \<open>A patch that is not a dict is left out of the model; so is a test result that replaces the list of failed plans.\<close>

definition merge_patch :: "json \<Rightarrow> json \<Rightarrow> json res" where
  "merge_patch result patch = (case patch of JObj p \<Rightarrow> merge result p | _ \<Rightarrow> Inl OutOfModel)"

primrec merge_files :: "string list \<Rightarrow> json \<Rightarrow> json shell" where
  "merge_files [] result = sh_return result"
| "merge_files (fname # fnames) result =
     sh_bind (load_json fname) (\<lambda>patch. sh_bind (sh_of (merge_patch result patch)) (\<lambda>result. merge_files fnames result))"

definition append_failed :: "json \<Rightarrow> string list \<Rightarrow> json res" where
  "append_failed result plans = (case result of
       JObj m \<Rightarrow> (case map_of m ''failed'' of
           Some (JList xs) \<Rightarrow> Inr (JObj (AList.update ''failed'' (JList (xs @ map JStr plans)) m))
         | _ \<Rightarrow> Inl OutOfModel)
     | _ \<Rightarrow> Inl OutOfModel)"

definition combine_json :: "int list \<Rightarrow> string \<Rightarrow> string \<Rightarrow> unit shell" where
  "combine_json t result_folder controller =
     sh_bind (glob result_folder [''sieve_test_results'', controller @ ''-*.json'']) (\<lambda>json_names.
     sh_bind (glob result_folder [controller, ''*'', ''learn'', ''*'', ''*-test-plan-*.yaml'']) (\<lambda>generated_test_plans.
     sh_bind (merge_files json_names (JObj [(''failed'', JList [])])) (\<lambda>result.
     sh_bind (sh_of (failed_plans controller json_names generated_test_plans)) (\<lambda>failed.
     sh_bind (sh_of (append_failed result failed)) (\<lambda>result.
       dump_doc (sort_keys result) (summary_name t))))))"

section \<open>Learning runs\<close>

definition controllers_to_run :: "(string \<times> string list) list" where
  "controllers_to_run = [
    (''cassandra-operator'', [''recreate'', ''scaledown-scaleup'']),
    (''zookeeper-operator'', [''recreate'', ''scaledown-scaleup'']),
    (''rabbitmq-operator'', [''recreate'', ''scaleup-scaledown'', ''resize-pvc'']),
    (''mongodb-operator'', [''recreate'', ''scaleup-scaledown'', ''disable-enable-shard'', ''disable-enable-arbiter'', ''run-cert-manager'']),
    (''cass-operator'', [''recreate'', ''scaledown-scaleup'']),
    (''casskop-operator'', [''recreate'', ''scaledown-to-zero'', ''reducepdb'']),
    (''xtradb-operator'', [''recreate'', ''disable-enable-haproxy'', ''disable-enable-proxysql'', ''run-cert-manager'', ''scaleup-scaledown'']),
    (''yugabyte-operator'', [''recreate'', ''scaleup-scaledown-tserver'', ''disable-enable-tls'', ''disable-enable-tuiport'']),
    (''nifikop-operator'', [''recreate'', ''scaledown-scaleup'', ''change-config'']),
    (''elastic-operator'', [''recreate'', ''scaledown-scaleup''])]"

text \<open>\<open>os.system\<close>, whose status the scripts do not look at.\<close>

definition run_command :: "string \<Rightarrow> unit shell" where
  "run_command command = sh_bind (system command) (\<lambda>_. sh_return ())"

definition runlearn :: "string \<Rightarrow> string list option \<Rightarrow> unit shell" where
  "runlearn registry controllers = in_order
     [chdir ''..'',
      run_command (''docker pull '' @ registry @ ''/node:learn''),
      sh_for (case controllers of None \<Rightarrow> map fst controllers_to_run | Some cs \<Rightarrow> cs) (\<lambda>controller.
        sh_bind (run_command (''docker pull '' @ registry @ ''/'' @ controller @ '':learn'')) (\<lambda>_.
        sh_bind (sh_of (from_option KeyError (map_of controllers_to_run controller))) (\<lambda>testcases.
          sh_for testcases (\<lambda>testcase. run_command
            (''python3 sieve.py -m learn -c '' @ controller @ '' -w '' @ testcase @ '' -r '' @ registry)))))]"

section \<open>Commands of the test plans\<close>

definition plan_patterns :: "string list" where
  "plan_patterns = [''intermediate-state'', ''unobserved-state'', ''stale-state'']"

text \<open>The parsed arguments. The container registry is in \<open>registry\<close>; the parser defines no \<open>docker\<close>.\<close>

record command_args =
  ca_registry :: string
  ca_output :: string
  ca_controllers :: "string list option"
  ca_patterns :: "string list option"

definition args_docker :: "command_args \<Rightarrow> string res" where
  "args_docker args = Inl AttributeError"

definition gen_commands :: "command_args \<Rightarrow> unit shell" where
  "gen_commands args =
     sh_bind (case ca_controllers args of None \<Rightarrow> listdir ''../log'' | Some cs \<Rightarrow> sh_return cs) (\<lambda>controllers.
     let patterns = (case ca_patterns args of None \<Rightarrow> plan_patterns | Some ps \<Rightarrow> ps) in
     sh_bind (write_text (ca_output args) []) (\<lambda>_.
     sh_bind (write_text ''pull-commands.txt'' []) (\<lambda>_.
     sh_bind (sh_of (args_docker args)) (\<lambda>docker.
     sh_bind (append_text ''pull-commands.txt'' (''docker pull '' @ docker @ ''/node:v1.18.9-test'' @ newline)) (\<lambda>_.
       sh_for controllers (\<lambda>controller.
         sh_bind (append_text ''pull-commands.txt'' (''docker pull '' @ docker @ ''/'' @ controller @ '':test'' @ newline)) (\<lambda>_.
         sh_for patterns (\<lambda>pattern.
           sh_bind (listdir (path_join ''../sieve_learn_results'' controller)) (\<lambda>workloads.
           sh_for workloads (\<lambda>test_workload.
             sh_bind getcwd (\<lambda>cwd.
             sh_bind (glob (path_str (resolve [] (path_join cwd ''../sieve_learn_results'')))
                 [controller, test_workload, ''learn'', pattern, ''*.yaml'']) (\<lambda>test_plans.
             sh_for test_plans (\<lambda>test_plan. append_text (ca_output args)
               (''python3 sieve.py -m test -c '' @ controller @ '' -w '' @ test_workload @ '' -p '' @ test_plan @ '' -r '' @ docker @ newline))))))))))))))"

section \<open>Starting to port a controller\<close>

definition porting_config :: json where
  "porting_config = JObj [(''name'', JStr ''''), (''github_link'', JStr ''''), (''commit'', JStr ''''),
     (''kubernetes_version'', JStr ''''), (''client_go_version'', JStr ''''), (''dockerfile_path'', JStr ''''),
     (''controller_image_name'', JStr ''''), (''annotated_reconcile_functions'', JObj []), (''test_command'', JStr ''''),
     (''custom_resource_definitions'', JList []), (''controller_pod_label'', JStr ''''),
     (''controller_deployment_file_path'', JStr '''')]"

definition start_porting :: "string \<Rightarrow> unit shell" where
  "start_porting port_folder = in_order
     ([makedirs port_folder True] @
      map (\<lambda>x. makedirs (path_join port_folder x) True) [''build'', ''deploy'', ''test'', ''oracle''] @
      [write_text (path_join (path_join port_folder ''build'') ''build.sh'') (''#!/bin/bash'' @ newline),
       write_text (path_join (path_join port_folder ''deploy'') ''deploy.sh'') (''#!/bin/bash'' @ newline),
       run_command (''chmod +x '' @ path_join (path_join port_folder ''build'') ''build.sh''),
       run_command (''chmod +x '' @ path_join (path_join port_folder ''deploy'') ''deploy.sh''),
       dump_doc porting_config (path_join port_folder ''config.json'')])"

section \<open>Checking the generated test plans\<close>

text \<open>The lines that are printed.\<close>

definition check_plan :: "string list \<Rightarrow> string \<Rightarrow> string list shell" where
  "check_plan gen_configs reprod_config =
     sh_bind (sh_map (\<lambda>gen_config.
       sh_bind (read_text reprod_config) (\<lambda>a. sh_bind (read_text gen_config) (\<lambda>b.
         sh_return (if a = b then [reprod_config @ '' <= '' @ gen_config] else [])))) gen_configs) (\<lambda>found.
       sh_return (if concat found = [] then [CHR 0x1B # ''[91m'' @ reprod_config @ '' not found'' @ [CHR 0x1B] @ ''[0m''] else concat found))"

definition check_bug_reproduction_test_plans :: "string list shell" where
  "check_bug_reproduction_test_plans =
     sh_bind (glob ''sieve_learn_results'' [''*'', ''*'', ''learn'', ''*'', ''*.yaml'']) (\<lambda>gen_configs.
     sh_bind (glob ''bug_reproduction_test_plans'' [''*.yaml'']) (\<lambda>reprod_configs.
     sh_bind (sh_map (check_plan gen_configs) (filter (\<lambda>c. \<not> py_contains ''indirect'' c) reprod_configs)) (\<lambda>ls.
       sh_return (concat ls))))"

section \<open>What the merged results hold\<close>

text \<open>The value at a path of keys; a path on which a dict has no value; a value below a path of keys.\<close>

fun at_path :: "json \<Rightarrow> string list \<Rightarrow> json option" where
  "at_path j [] = Some j"
| "at_path (JObj m) (k # ks) = Option.bind (map_of m k) (\<lambda>v. at_path v ks)"
| "at_path _ (k # ks) = None"

fun vacant :: "json \<Rightarrow> string list \<Rightarrow> bool" where
  "vacant (JObj m) (k # ks) = (case map_of m k of None \<Rightarrow> True | Some v \<Rightarrow> vacant v ks)"
| "vacant _ _ = False"

fun nest :: "string list \<Rightarrow> json \<Rightarrow> json" where
  "nest [] v = v"
| "nest (k # ks) v = JObj [(k, nest ks v)]"

lemma at_nest: "at_path (nest ks v) ks = Some v"
  by (induction ks) auto

lemma nest_elsewhere:
  "length q = length ks \<Longrightarrow> q \<noteq> ks \<Longrightarrow> at_path (nest ks v) q = None \<and> vacant (nest ks v) q"
  by (induction q ks rule: list_induct2) auto

lemma vacant_at: "vacant j ks \<Longrightarrow> at_path j ks = None"
  by (induction j ks rule: vacant.induct) (auto split: option.splits)

text \<open>Merging a value into a vacant place changes no other place at that depth.\<close>

lemma merge_nest:
  assumes "vacant j (k # ks)"
  shows "\<exists>r. merge j [(k, nest ks v)] = Inr r \<and> at_path r (k # ks) = Some v \<and>
    (\<forall>q. length q = Suc (length ks) \<and> q \<noteq> k # ks \<longrightarrow> at_path r q = at_path j q \<and> (vacant j q \<longrightarrow> vacant r q)) \<and>
    (\<forall>q. q \<noteq> [] \<and> hd q \<noteq> k \<longrightarrow> at_path r q = at_path j q)"
  using assms
proof (induction ks arbitrary: j k)
  case (Cons k2 ks)
  obtain m where m: "j = JObj m" using Cons.prems by (cases j) auto
  show ?case
  proof (cases "map_of m k")
    case None
    let ?r = "JObj (AList.update k (nest (k2 # ks) v) m)"
    have "at_path ?r q = at_path j q \<and> (vacant j q \<longrightarrow> vacant ?r q)" if at: "length q = Suc (Suc (length ks))" "q \<noteq> k # k2 # ks" for q
    proof -
      obtain k' q' where q: "q = k' # q'" "length q' = Suc (length ks)" using at(1) by (cases q) auto
      show ?thesis using at(2) q m None nest_elsewhere[of q' "k2 # ks" v] by (cases "k' = k") (auto simp: update_conv')
    qed
    moreover have "at_path ?r q = at_path j q" if "q \<noteq> [] \<and> hd q \<noteq> k" for q using that m by (cases q) (auto simp: update_conv')
    ultimately show ?thesis using m None at_nest[of "k2 # ks" v] by (auto simp: update_conv')
  next
    case (Some old)
    then have "vacant old (k2 # ks)" using Cons.prems m by simp
    from Cons.IH[OF this] obtain x where x: "merge old [(k2, nest ks v)] = Inr x" "at_path x (k2 # ks) = Some v"
      "\<And>q. length q = Suc (length ks) \<Longrightarrow> q \<noteq> k2 # ks \<Longrightarrow> at_path x q = at_path old q \<and> (vacant old q \<longrightarrow> vacant x q)" by blast
    let ?r = "JObj (AList.update k x m)"
    have "at_path ?r q = at_path j q \<and> (vacant j q \<longrightarrow> vacant ?r q)" if at: "length q = Suc (Suc (length ks))" "q \<noteq> k # k2 # ks" for q
    proof -
      obtain k' q' where q: "q = k' # q'" "length q' = Suc (length ks)" using at(1) by (cases q) auto
      show ?thesis using at(2) q m Some x(3)[of q'] by (cases "k' = k") (auto simp: update_conv')
    qed
    moreover have "at_path ?r q = at_path j q" if "q \<noteq> [] \<and> hd q \<noteq> k" for q using that m by (cases q) (auto simp: update_conv')
    ultimately show ?thesis using m Some x(1,2) by (auto simp: update_conv')
  qed
next
  case Nil
  obtain m where m: "j = JObj m" using Nil by (cases j) auto
  have none: "map_of m k = None" using Nil m by (cases "map_of m k") (auto elim: vacant.elims)
  let ?r = "JObj (AList.update k v m)"
  have "at_path ?r q = at_path j q \<and> (vacant j q \<longrightarrow> vacant ?r q)" if "length q = Suc 0" "q \<noteq> [k]" for q
    using that m by (cases q) (auto simp: update_conv')
  moreover have "at_path ?r q = at_path j q" if "q \<noteq> [] \<and> hd q \<noteq> k" for q using that m by (cases q) (auto simp: update_conv')
  ultimately show ?case using m none by (auto simp: update_conv')
qed

definition holds :: "world \<Rightarrow> string \<Rightarrow> json \<Rightarrow> bool" where
  "holds w f j \<longleftrightarrow> node_at (w_files w) (resolve (w_cwd w) f) = Some (File (Doc j))"

lemma load_held: "holds w f j \<Longrightarrow> load_json f out w = Some (Inr j, w)"
  by (simp add: holds_def load_json_def read_content_def sh_bind_def sh_files_def read_node_def sh_return_def)

lemma merge_nested_files:
  assumes "list_all (\<lambda>(f, q, v). holds w f (nest q v) \<and> length q = Suc n \<and> hd q \<noteq> other) docs"
    "distinct (map (\<lambda>(f, q, v). q) docs)" "\<forall>(f, q, v)\<in>set docs. vacant j q"
  shows "\<exists>r. merge_files (map fst docs) j out w = Some (Inr r, w) \<and> (\<forall>(f, q, v)\<in>set docs. at_path r q = Some v) \<and>
    at_path r [other] = at_path j [other] \<and>
    (\<forall>q. length q = Suc n \<and> q \<notin> (\<lambda>(f, q, v). q) ` set docs \<longrightarrow> at_path r q = at_path j q)"
  using assms
proof (induction docs arbitrary: j)
  case (Cons d docs)
  obtain f k ks v where d: "d = (f, k # ks, v)" "length ks = n" "k \<noteq> other" "holds w f (nest (k # ks) v)"
    using Cons.prems(1) by (cases d) (auto simp: length_Suc_conv)
  have vacant: "vacant j (k # ks)" using Cons.prems(3) d(1) by auto
  obtain x where x: "merge j [(k, nest ks v)] = Inr x" "at_path x (k # ks) = Some v"
    "\<And>q. length q = Suc n \<Longrightarrow> q \<noteq> k # ks \<Longrightarrow> at_path x q = at_path j q \<and> (vacant j q \<longrightarrow> vacant x q)"
    "\<And>q. q \<noteq> [] \<Longrightarrow> hd q \<noteq> k \<Longrightarrow> at_path x q = at_path j q"
    using merge_nest[OF vacant, of v] d(2) by auto
  have apart: "length q = Suc n \<and> q \<noteq> k # ks" if "(f', q, v') \<in> set docs" for f' q v'
  proof -
    have "q \<in> (\<lambda>(f, q, v). q) ` set docs" using that by (auto intro!: image_eqI[of _ _ "(f', q, v')"])
    moreover have "length q = Suc n" using that Cons.prems(1) unfolding list_all_iff by auto
    moreover have "k # ks \<notin> (\<lambda>(f, q, v). q) ` set docs" using Cons.prems(2) d(1) by simp
    ultimately show ?thesis by metis
  qed
  have all: "list_all (\<lambda>(f, q, v). holds w f (nest q v) \<and> length q = Suc n \<and> hd q \<noteq> other) docs"
    "distinct (map (\<lambda>(f, q, v). q) docs)" using Cons.prems(1,2) by auto
  have "\<forall>(f, q, v)\<in>set docs. vacant x q" using Cons.prems(3) x(3) apart by fastforce
  from Cons.IH[OF all this] obtain r where r: "merge_files (map fst docs) x out w = Some (Inr r, w)"
    "\<forall>(f, q, v)\<in>set docs. at_path r q = Some v" "at_path r [other] = at_path x [other]"
    "\<And>q. length q = Suc n \<Longrightarrow> q \<notin> (\<lambda>(f, q, v). q) ` set docs \<Longrightarrow> at_path r q = at_path x q" by blast
  have "merge_files (map fst (d # docs)) j out w = Some (Inr r, w)"
    using r(1) x(1) load_held[OF d(4)] by (simp add: d(1) sh_bind_def sh_of_def merge_patch_def)
  moreover have "k # ks \<notin> (\<lambda>(f, q, v). q) ` set docs" using apart by auto
  then have "at_path r (k # ks) = Some v" using r(4)[of "k # ks"] x(2) d(2) by simp
  moreover have "at_path r [other] = at_path j [other]" using r(3) x(4)[of "[other]"] d(3) by simp
  moreover have "at_path r q = at_path j q" if "length q = Suc n" "q \<notin> (\<lambda>(f, q, v). q) ` set (d # docs)" for q
    using that r(4)[of q] x(3)[of q] d(1) by simp
  ultimately show ?case using r(2) d(1) by (intro exI[of _ r]) auto
qed (simp add: sh_return_def)

text \<open>Where the result of a run is in its result file.\<close>

definition result_path :: "test_context \<Rightarrow> string list" where
  "result_path tc = [tc_controller tc, tc_test_workload tc, tc_mode tc, tc_original_test_plan tc]"

lemma result_map_nest: "\<exists>e. result_map tc r d p h = nest (result_path tc) e"
  by (simp add: result_map_def result_path_def)

text \<open>
  C21: The summary of a controller's test results keeps all of them: when the files of a list of runs hold what
  \<open>save_run_result\<close> writes, and no two runs are of the same workload and test plan of a controller, merging them raises no error
  and the result has the outcome of each run where its file has it, beside the empty list of failed plans.
\<close>

theorem test_results_combined:
  assumes "\<forall>(f, tc, r, d, p, h)\<in>set runs. holds w f (result_map tc r d p h) \<and> tc_controller tc \<noteq> ''failed''"
    and "distinct (map (\<lambda>(f, tc, r, d, p, h). result_path tc) runs)"
  shows "\<exists>result. merge_files (map fst runs) (JObj [(''failed'', JList [])]) out w = Some (Inr result, w) \<and>
    at_path result [''failed''] = Some (JList []) \<and>
    (\<forall>(f, tc, r, d, p, h)\<in>set runs. \<exists>outcome. at_path (result_map tc r d p h) (result_path tc) = Some outcome \<and>
       at_path result (result_path tc) = Some outcome)"
proof -
  define outcome where "outcome = (\<lambda>(f :: string, tc, r, d, p, h). the (at_path (result_map tc r d p h) (result_path tc)))"
  have nest: "result_map tc r d p h = nest (result_path tc) (outcome (f, tc, r, d, p, h))" for f tc r d p h
    using result_map_nest[of tc r d p h] at_nest by (auto simp: outcome_def)
  define docs where "docs = map (\<lambda>run. (fst run, result_path (fst (snd run)), outcome run)) runs"
  have run: "holds w (fst run) (nest (result_path (fst (snd run))) (outcome run)) \<and> length (result_path (fst (snd run))) = Suc 3 \<and>
      hd (result_path (fst (snd run))) \<noteq> ''failed''" if "run \<in> set runs" for run
  proof -
    obtain f tc r d p h where run: "run = (f, tc, r, d, p, h)" by (cases run)
    then have "holds w f (result_map tc r d p h)" "tc_controller tc \<noteq> ''failed''" using assms(1) that by auto
    then show ?thesis using nest[of tc r d p h f] by (simp add: run result_path_def)
  qed
  have "list_all (\<lambda>(f, q, v). holds w f (nest q v) \<and> length q = Suc 3 \<and> hd q \<noteq> ''failed'') docs"
    using run by (simp add: docs_def list_all_iff)
  moreover have "distinct (map (\<lambda>(f, q, v). q) docs)" using assms(2) by (simp add: docs_def comp_def split_def)
  moreover have "vacant (JObj [(''failed'', JList [])]) q" if "length q = Suc 3" "hd q \<noteq> ''failed''" for q
    using that by (cases q) auto
  then have "\<forall>(f, q, v)\<in>set docs. vacant (JObj [(''failed'', JList [])]) q" using run by (simp add: docs_def)
  ultimately obtain r where r: "merge_files (map fst docs) (JObj [(''failed'', JList [])]) out w = Some (Inr r, w)"
    "\<forall>(f, q, v)\<in>set docs. at_path r q = Some v" "at_path r [''failed''] = at_path (JObj [(''failed'', JList [])]) [''failed'']"
    using merge_nested_files[of w 3 "''failed''" docs] by blast
  have "\<exists>e. at_path (result_map tc x d p h) (result_path tc) = Some e \<and> at_path r (result_path tc) = Some e"
    if "(f, tc, x, d, p, h) \<in> set runs" for f tc x d p h
  proof (intro exI conjI)
    show "at_path (result_map tc x d p h) (result_path tc) = Some (outcome (f, tc, x, d, p, h))"
      unfolding nest[of tc x d p h f] by (rule at_nest)
    show "at_path r (result_path tc) = Some (outcome (f, tc, x, d, p, h))" using r(2) that by (fastforce simp: docs_def)
  qed
  moreover have "map fst docs = map fst runs" by (simp add: docs_def)
  ultimately show ?thesis using r(1,3) by (intro exI[of _ r]) auto
qed

text \<open>Two plans of one workload.\<close>

definition combined_runs :: "(string \<times> test_context \<times> test_result \<times> json \<times> string \<times> string) list" where
  "combined_runs = [(''a.json'', bug_tc, bug_result, JInt 1, [], []),
     (''b.json'', bug_tc\<lparr> tc_original_test_plan := ''other.yaml'' \<rparr>, bug_result, JInt 1, [], [])]"

definition combined_world :: world where
  "combined_world = bug_world (map (\<lambda>(f, tc, r, d, p, h). ([f], File (Doc (result_map tc r d p h)))) combined_runs)"

theorem test_results_combined_witness:
  "\<exists>result. merge_files (map fst combined_runs) (JObj [(''failed'', JList [])]) bug_outside combined_world = Some (Inr result, combined_world) \<and>
    at_path result [''failed''] = Some (JList []) \<and>
    (\<forall>(f, tc, r, d, p, h)\<in>set combined_runs. \<exists>outcome. at_path (result_map tc r d p h) (result_path tc) = Some outcome \<and>
       at_path result (result_path tc) = Some outcome)"
proof (rule test_results_combined)
  have "resolve [] ''a.json'' = [''a.json'']" "resolve [] ''b.json'' = [''b.json'']" by code_simp+
  then show "\<forall>(f, tc, r, d, p, h)\<in>set combined_runs. holds combined_world f (result_map tc r d p h) \<and> tc_controller tc \<noteq> ''failed''"
    by (simp add: combined_runs_def combined_world_def bug_world_def holds_def node_at_def bug_tc_def oracle_tc_def)
  show "distinct (map (\<lambda>(f, tc, r, d, p, h). result_path tc) combined_runs)"
    by (simp add: combined_runs_def result_path_def bug_tc_def reproduction_plan_def path_join_def py_startswith_def py_endswith_def)
qed

text \<open>
  The test plans whose runs left no file are not told from the others: the name that is looked for has the last component
  of the result folder where the file's name has the workload.
\<close>

lemma basename_last: "basename p = last (py_split CHR ''/'' p)"
proof (cases "CHR ''/'' \<in> set p")
  case True
  then obtain a b where p: "p = a @ CHR ''/'' # b" "CHR ''/'' \<notin> set b" using split_list_last by metis
  have "py_split CHR ''/'' p = py_split CHR ''/'' a @ [b]" unfolding p(1) py_split_join by (simp add: py_split_no_sep p(2))
  moreover have "takeWhile (\<lambda>c. c \<noteq> CHR ''/'') (rev b @ [CHR ''/''] @ rev a) = rev b"
    using p(2) by (subst takeWhile_append2) auto
  ultimately show ?thesis by (simp add: basename_def p(1))
next
  case False
  then have "takeWhile (\<lambda>c. c \<noteq> CHR ''/'') (rev p) = rev p" by (subst takeWhile_eq_all_conv) auto
  then show ?thesis unfolding basename_def py_split_no_sep[OF False] by (simp del: takeWhile_eq_all_conv)
qed

lemma plan_misnamed:
  assumes "CHR ''/'' \<notin> set policy" "CHR ''/'' \<notin> set plan" "CHR ''/'' \<notin> set workload" "CHR ''/'' \<notin> set controller"
  shows "expected_result controller (py_join ''/'' [folder, controller, workload, ''learn'', policy, plan]) =
    Inr (controller @ ''-'' @ basename folder @ ''-'' @ plan @ ''.json'')"
proof -
  let ?rest = "[controller, workload, ''learn'', policy, plan]"
  have "py_split CHR ''/'' (py_join ''/'' (folder # ?rest)) = py_split CHR ''/'' folder @ ?rest"
    using assms by (simp add: py_split_join py_split_no_sep)
  moreover have "basename (py_join ''/'' (folder # ?rest)) = plan"
    using calculation by (simp only: basename_last) simp
  ultimately show ?thesis
    using py_split_nonempty[of "CHR ''/''" folder] by (simp add: basename_last Suc_le_eq expected_result_def from_end_def nth_append last_conv_nth)
qed


section \<open>A folder for a new controller\<close>

text \<open>The configuration that is written there is one that can be loaded.\<close>

lemma ported_config_loads:
  assumes "start_porting port_folder out w = Some (Inr (), w')"
  shows "node_at (w_files w') (resolve (w_cwd w') (path_join port_folder ''config.json'')) = Some (File (Doc porting_config))"
    "\<exists>config. load_controller_config porting_config = Inr config"
proof -
  define d where "d = dump_doc porting_config (path_join port_folder ''config.json'')"
  obtain ms where "start_porting port_folder = in_order (ms @ [d])" unfolding start_porting_def d_def[symmetric] by (metis append.assoc append_Cons append_Nil)
  then obtain w1 where "dump_doc porting_config (path_join port_folder ''config.json'') out w1 = Some (Inr (), w')"
    using assms by (auto simp: in_order_append in_order.simps sh_bind_returns sh_return_returns d_def)
  then show "node_at (w_files w') (resolve (w_cwd w') (path_join port_folder ''config.json'')) = Some (File (Doc porting_config))"
    by (auto simp: dump_doc_def write_content_def sh_update_returns dest: put_file_same)
  show "\<exists>config. load_controller_config porting_config = Inr config"
    by (simp add: load_controller_config_def porting_config_def get_or_def py_getitem_def)
qed

end
