(* ===== verification/Queries.thy ===== *)
theory Queries
  imports Sieve_Main
begin

text \<open>
  The helpers that read the results of a run back (\<^verbatim>\<open>safety_checker.py\<close>, \<^verbatim>\<open>liveness_checker.py\<close>) and those that ask the
  cluster (\<^verbatim>\<open>liveness_checker.py\<close>, \<^verbatim>\<open>test_framework.py\<close>). What a command prints, what the client answers and the JSON
  parser are arguments.
\<close>

section \<open>Results read back\<close>

definition first_pass_file :: "test_context \<Rightarrow> string \<Rightarrow> string" where
  "first_pass_file tc name = path_join (first_pass_learn_result_dir (tc_result_dir tc)) name"

definition get_canonicalized_state :: "test_context \<Rightarrow> json shell" where
  "get_canonicalized_state tc = load_json (path_join (tc_oracle_dir tc) ''state.json'')"

definition get_learning_once_state :: "test_context \<Rightarrow> json shell" where
  "get_learning_once_state tc = load_json (first_pass_file tc ''state.json'')"

definition get_learning_twice_state :: "test_context \<Rightarrow> json shell" where
  "get_learning_twice_state tc = load_json (result_file tc ''state.json'')"

definition get_testing_state :: "test_context \<Rightarrow> json shell" where
  "get_testing_state tc = load_json (result_file tc ''state.json'')"

definition get_canonicalized_history_digest :: "test_context \<Rightarrow> json shell" where
  "get_canonicalized_history_digest tc = load_json (path_join (tc_oracle_dir tc) ''event.json'')"

definition get_learning_once_history_digest :: "test_context \<Rightarrow> json shell" where
  "get_learning_once_history_digest tc = load_json (first_pass_file tc ''event.json'')"

definition get_learning_twice_history_digest :: "test_context \<Rightarrow> json shell" where
  "get_learning_twice_history_digest tc = load_json (result_file tc ''event.json'')"

text \<open>This function is defined twice, the second time as the first.\<close>

definition get_testing_history_digest :: "test_context \<Rightarrow> json shell" where
  "get_testing_history_digest tc = load_json (result_file tc ''event.json'')"

definition get_learning_once_history :: "test_context \<Rightarrow> json shell" where
  "get_learning_once_history tc = load_json (first_pass_file tc ''history.json'')"

definition get_learning_twice_history :: "test_context \<Rightarrow> json shell" where
  "get_learning_twice_history tc = load_json (result_file tc ''history.json'')"

definition get_testing_history :: "test_context \<Rightarrow> json shell" where
  "get_testing_history tc = load_json (result_file tc ''history.json'')"

definition get_event_mask :: "test_context \<Rightarrow> json" where
  "get_event_mask tc = kc_state_update_summary_checker_mask (tc_controller_config tc)"

section \<open>Questions to the cluster\<close>

definition items_of :: "(string \<Rightarrow> json res) \<Rightarrow> string \<Rightarrow> json list res" where
  "items_of json_loads data = res_bind (json_loads data) (\<lambda>j. res_bind (py_getitem j ''items'') py_iter)"

definition object_name :: "json \<Rightarrow> string res" where
  "object_name item = res_bind (py_getitem item ''metadata'') (\<lambda>m. res_bind (py_getitem m ''name'') as_str)"

definition get_resource_helper :: "(string \<Rightarrow> json res) \<Rightarrow> (string \<Rightarrow> string) \<Rightarrow> string \<Rightarrow> jdict res" where
  "get_resource_helper json_loads func namespace =
     res_bind (items_of json_loads (func namespace)) (\<lambda>resources.
       res_fold (\<lambda>m resource. res_bind (object_name resource) (\<lambda>name. Inr (AList.update name resource m))) [] resources)"

text \<open>\<open>try\<close> around a loop: what was collected before the exception is kept.\<close>

fun collect :: "('b \<Rightarrow> 'a \<Rightarrow> 'b res) \<Rightarrow> 'b \<Rightarrow> 'a list \<Rightarrow> 'b res" where
  "collect f data [] = Inr data"
| "collect f data (x # xs) = (case f data x of
       Inl e \<Rightarrow> if caught e then Inr data else Inl e
     | Inr data' \<Rightarrow> collect f data' xs)"

definition collected :: "json list res \<Rightarrow> ('b \<Rightarrow> json \<Rightarrow> 'b res) \<Rightarrow> 'b \<Rightarrow> 'b res" where
  "collected items f data = (case items of Inl e \<Rightarrow> if caught e then Inr data else Inl e | Inr xs \<Rightarrow> collect f data xs)"

definition get_crd_list :: "(string \<Rightarrow> json res) \<Rightarrow> (string \<Rightarrow> string) \<Rightarrow> json list res" where
  "get_crd_list json_loads popen = collected (items_of json_loads (popen ''kubectl get crd -o json''))
     (\<lambda>data item. res_bind (py_getitem item ''spec'') (\<lambda>spec. res_bind (py_getitem spec ''names'') (\<lambda>names.
        res_bind (py_getitem names ''singular'') (\<lambda>s. Inr (data @ [s]))))) []"

definition get_crd :: "(string \<Rightarrow> json res) \<Rightarrow> (string \<Rightarrow> string) \<Rightarrow> string \<Rightarrow> jdict res" where
  "get_crd json_loads popen crd = collected (items_of json_loads (popen (''kubectl get '' @ crd @ '' -o json'')))
     (\<lambda>data item. res_bind (object_name item) (\<lambda>name. Inr (AList.update name item data))) []"

definition get_custom_resource :: "(string \<Rightarrow> json res) \<Rightarrow> (string \<Rightarrow> string) \<Rightarrow> string \<Rightarrow> string \<Rightarrow> string \<Rightarrow> json option res" where
  "get_custom_resource json_loads popen custom_resource_type resource_name namespace =
     (case json_loads (popen (''kubectl get '' @ custom_resource_type @ '' '' @ resource_name @ '' -o json -n '' @ namespace)) of
        Inl e \<Rightarrow> if caught e then Inr None else Inl e
      | Inr custom_resource \<Rightarrow> Inr (Some custom_resource))"

text \<open>A malformed item hides all that follow it.\<close>

lemma collect_until:
  assumes "res_fold f data xs = Inr data'" "f data' y = Inl e" "caught e"
  shows "collect f data (xs @ y # ys) = Inr data'"
  using assms by (induction xs arbitrary: data) (auto simp: res_simps split: sum.splits)

lemma collect_all: "res_fold f data xs = Inr data' \<Longrightarrow> collect f data xs = Inr data'"
  by (induction xs arbitrary: data) (auto simp: res_simps split: sum.splits)

text \<open>Of a cluster that answers with well-formed objects both ways to list them give the same.\<close>

lemma listings_agree:
  assumes "get_resource_helper json_loads func namespace = Inr m" "func namespace = popen (''kubectl get '' @ crd @ '' -o json'')"
  shows "get_crd json_loads popen crd = Inr m"
  using assms collect_all by (auto simp: get_resource_helper_def get_crd_def collected_def res_simps)

end
