(* ===== verification/Graph_Errors.thy ===== *)
theory Graph_Errors
  imports Causality
begin

text \<open>
  What the construction of the event graph can raise. Every attribute access, dict item and
  assertion of the annotation passes is followed through \<open>compute_event_diff\<close> and
  \<open>compute_event_cancel\<close>: only an empty path in a mask, and an object of a write or of a read that is
  no dict, can make them fail.
\<close>

section \<open>Masks\<close>

text \<open>A mask fails on a key when an entry that matches the key lists an empty path.\<close>

definition mask_fails :: "mask_map \<Rightarrow> string \<Rightarrow> bool" where
  "mask_fails m key \<longleftrightarrow> (\<exists>(pattern, paths)\<in>set m. (pattern = key \<or> path_match key pattern) \<and> [] \<in> set paths)"

definition masks_of :: "event_graph \<Rightarrow> mask_map \<times> mask_map \<times> mask_map" where
  "masks_of g = (eg_configured_masked_keys g, eg_configured_masked_paths g, eg_learned_masked_paths g)"

definition masks_fail :: "mask_map \<times> mask_map \<times> mask_map \<Rightarrow> string \<Rightarrow> bool" where
  "masks_fail ms key \<longleftrightarrow> (case ms of (a, b, c) \<Rightarrow> mask_fails a key \<or> mask_fails b key \<or> mask_fails c key)"

lemma masks_of_paths:
  "res_map mask_of_path paths = Inl AssertionError \<and> [] \<in> set paths \<or>
   (\<exists>ms. res_map mask_of_path paths = Inr ms) \<and> [] \<notin> set paths"
  by (induction paths) (auto simp: mask_of_path_def)

lemma mask_fails_Cons [simp]:
  "mask_fails ((pat, paths) # m) key \<longleftrightarrow>
     (pat = key \<or> path_match key pat) \<and> [] \<in> set paths \<or> mask_fails m key"
  "mask_fails [] key \<longleftrightarrow> False"
  by (auto simp: mask_fails_def)

abbreviation mask_step :: "string \<Rightarrow> string list \<Rightarrow> string \<times> string list list \<Rightarrow> string list res" where
  "mask_step resource_key \<equiv> \<lambda>masked_keys (key, paths).
     if key = resource_key \<or> path_match resource_key key
     then res_bind (res_map mask_of_path paths) (\<lambda>ms. Inr (masked_keys @ ms))
     else Inr masked_keys"

lemma mask_loop:
  "res_fold (mask_step key) acc m = Inl AssertionError \<and> mask_fails m key \<or>
   (\<exists>ms. res_fold (mask_step key) acc m = Inr ms) \<and> \<not> mask_fails m key"
proof (induction m arbitrary: acc)
  case (Cons e m)
  obtain pat paths where e: "e = (pat, paths)" by fastforce
  note IH = Cons.IH[of acc] and paths = masks_of_paths[of paths]
  show ?case
  proof (cases "pat = key \<or> path_match key pat")
    case True
    have "mask_step key acc e = res_bind (res_map mask_of_path paths) (\<lambda>ms. Inr (acc @ ms))"
      using True by (simp add: e)
    then show ?thesis using True paths Cons.IH by (elim disjE conjE exE) (simp_all add: e)
  next
    case False
    then show ?thesis using IH by (simp add: e)
  qed
qed simp

lemma get_mask_outcome:
  "get_mask_by_resource_key m key = Inl AssertionError \<and> mask_fails m key \<or>
   (\<exists>ms. get_mask_by_resource_key m key = Inr ms) \<and> \<not> mask_fails m key"
  using mask_loop[of key "[]" m] unfolding get_mask_by_resource_key_def .

lemma retrieve_masked_outcome:
  "retrieve_masked g key = Inl AssertionError \<and> masks_fail (masks_of g) key \<or>
   (\<exists>x. retrieve_masked g key = Inr x) \<and> \<not> masks_fail (masks_of g) key"
  using get_mask_outcome[of "eg_configured_masked_keys g" key] get_mask_outcome[of "eg_configured_masked_paths g" key]
    get_mask_outcome[of "eg_learned_masked_paths g" key]
  by (auto simp: retrieve_masked_def masks_fail_def masks_of_def)

lemma retrieve_masked_raises:
  "raises_only E (retrieve_masked g key) \<longleftrightarrow> \<not> masks_fail (masks_of g) key \<or> AssertionError \<in> E"
  using retrieve_masked_outcome[of g key] by (auto simp: raises_only_def)

lemma graph_ann_masks: "graph_ann g g' \<Longrightarrow> masks_of g' = masks_of g"
  using graph_ann_fields(14-16)[of g g'] by (simp add: masks_of_def)

section \<open>Events the passes accept\<close>

text \<open>
  What the passes use of an event: the masks of its key, its object as a dict, and, for a read, the
  objects of exactly the keys of its key set.
\<close>

fun event_fine :: "py_error set \<Rightarrow> mask_map \<times> mask_map \<times> mask_map \<Rightarrow> event \<Rightarrow> bool" where
  "event_fine E ms (Hear h) \<longleftrightarrow> (masks_fail ms (ch_key h) \<longrightarrow> AssertionError \<in> E) \<and> is_dict (ch_obj_map h)"
| "event_fine E ms (Write w) \<longleftrightarrow> (masks_fail ms (cw_key w) \<longrightarrow> AssertionError \<in> E) \<and>
     raises_only E (as_dict (cw_obj_map w))"
| "event_fine E ms (Read r) \<longleftrightarrow> cr_key_set r = map fst (cr_key_to_obj r) \<and>
     (\<forall>kv\<in>set (cr_key_to_obj r). raises_only E (as_dict (snd kv)))"
| "event_fine E ms e \<longleftrightarrow> True"

definition graph_fine :: "py_error set \<Rightarrow> event_graph \<Rightarrow> bool" where
  "graph_fine E g \<longleftrightarrow> graph_ok g \<and> (\<forall>v < length (eg_vertices g). event_fine E (masks_of g) (content g v)) \<and>
     (\<forall>u < length (eg_vertices g). \<forall>v < length (eg_vertices g).
        read_sat (\<lambda>_. True) (content g u) \<longrightarrow> write_sat (\<lambda>_. True) (content g v) \<longrightarrow>
        event_time (content g u) \<noteq> event_time (content g v))"

lemma core_event_fine [simp]: "event_fine E ms (core e) = event_fine E ms e"
  by (cases e) simp_all

lemma core_kind:
  assumes "core e = core e'"
  shows "event_fine E ms e = event_fine E ms e'" "read_sat P e = read_sat P e'"
    "write_sat (\<lambda>_. b) e = write_sat (\<lambda>_. b) e'" "hear_sat (\<lambda>_. b) e = hear_sat (\<lambda>_. b) e'"
    "nk_write_sat (\<lambda>_. b) e = nk_write_sat (\<lambda>_. b) e'" "event_time e = event_time e'"
  using assms core_event_fine core_static core_fine(3) by metis+

lemma graph_fine_ann:
  assumes "graph_fine E g" "graph_ann g g'"
  shows "graph_fine E g'"
proof -
  note c = core_kind[OF graph_ann_vertex(1)[OF assms(2)]]
  show ?thesis
    using assms(1) graph_ann_ok[OF assms(2)] graph_ann_masks[OF assms(2)] graph_ann_fields(13)[OF assms(2)] c
    unfolding graph_fine_def by auto
qed

lemma is_dict_as_dict: "is_dict j \<Longrightarrow> \<exists>m. as_dict j = Inr m"
  by (auto simp: is_dict_iff as_dict_def)

section \<open>Annotating one event\<close>

text \<open>A computation from a graph to a graph that raises at most \<open>E\<close> and only annotates.\<close>

definition careful :: "py_error set \<Rightarrow> event_graph \<Rightarrow> event_graph res \<Rightarrow> bool" where
  "careful E g r \<longleftrightarrow> raises_only E r \<and> (\<forall>g'. r = Inr g' \<longrightarrow> graph_ann g g')"

lemma fine_retrieve:
  assumes "masks_fail (masks_of g) key \<longrightarrow> AssertionError \<in> E"
  shows "raises_only E (retrieve_masked g key)"
  using assms by (auto simp: retrieve_masked_raises)

lemma hear_step_careful:
  assumes "graph_fine E (hl_graph st)" "v < length (eg_vertices (hl_graph st))"
    "hear_sat (\<lambda>_. True) (content (hl_graph st) v)" "is_dict (hl_prev_obj st)"
  shows "raises_only E (hear_diff_step st v) \<and>
    (\<forall>st'. hear_diff_step st v = Inr st' \<longrightarrow> is_dict (hl_prev_obj st'))"
proof -
  obtain h where h: "content (hl_graph st) v = Hear h"
    using assms(3) by (cases "content (hl_graph st) v") (simp_all add: sat_defs)
  have fine: "event_fine E (masks_of (hl_graph st)) (Hear h)"
    using assms(1,2) h unfolding graph_fine_def by metis
  obtain p c where d: "as_dict (hl_prev_obj st) = Inr p" "as_dict (ch_obj_map h) = Inr c" "is_dict (ch_obj_map h)"
    using assms(4) fine is_dict_as_dict by fastforce
  have "raises_only E (retrieve_masked (hl_graph st) (ch_key h))" using fine fine_retrieve by simp
  then show ?thesis
    by (cases "retrieve_masked (hl_graph st) (ch_key h)")
       (auto simp: hear_diff_step_def as_hear_def h d get_event_signature_def Let_def)
qed

lemma last_read_fine:
  assumes "\<forall>v\<in>set vs. \<exists>r. content g v = Read r \<and> event_fine E ms (Read r) \<and>
      cw_key w \<in> set (cr_key_set r) \<and> cr_end_timestamp r \<noteq> cw_start_timestamp w"
    and "raises_only E (as_dict (fst acc))"
  shows "\<exists>acc'. last_read g w acc vs = Inr acc' \<and> raises_only E (as_dict (fst acc'))"
  using assms
proof (induction vs arbitrary: acc)
  case (Cons v vs)
  obtain r where r: "content g v = Read r" "event_fine E ms (Read r)"
    "cw_key w \<in> set (cr_key_set r)" "cr_end_timestamp r \<noteq> cw_start_timestamp w"
    using Cons.prems(1) by auto
  have "cw_key w \<in> set (map fst (cr_key_to_obj r))" using r(2,3) by simp
  then obtain j where j: "map_of (cr_key_to_obj r) (cw_key w) = Some j"
    by (metis map_of_eq_None_iff not_None_eq set_map)
  have "raises_only E (as_dict j)" using r(2) map_of_SomeD[OF j] by fastforce
  have IH: "\<exists>acc'. last_read g w a vs = Inr acc' \<and> raises_only E (as_dict (fst acc'))"
    if "raises_only E (as_dict (fst a))" for a
    using Cons.IH[OF _ that] Cons.prems(1) by simp
  have step: "last_read g w acc (v # vs) =
      (if cw_start_timestamp w < cr_end_timestamp r then Inr acc
       else if cr_reconcile_fun r = cw_reconcile_fun w \<and> cr_reconcile_id r = cw_reconcile_id w
         then last_read g w (j, cr_etype r) vs else last_read g w acc vs)"
    using r(3,4) j by (simp add: r(1) as_read_def dict_item_def)
  show ?case
    using IH[of acc] IH[of "(j, cr_etype r)"] Cons.prems(2) \<open>raises_only E (as_dict j)\<close>
    unfolding step fst_conv by (metis (full_types))
qed simp

lemma prev_read_fine:
  assumes "graph_fine E g" "v < length (eg_vertices g)" "content g v = Write w"
  shows "\<exists>acc. prev_read g w = Inr acc \<and> raises_only E (as_dict (fst acc))"
proof -
  have none: "raises_only E (as_dict (JObj []))" by (simp add: as_dict_def raises_only_def)
  show ?thesis
  proof (cases "map_of (eg_read_key g) (cw_key w)")
    case None
    then show ?thesis using none by (simp add: prev_read_def)
  next
    case (Some vs)
    have "dict_group (eg_read_key g) (cw_key w) = verts g (read_sat (\<lambda>r. cw_key w \<in> set (cr_key_set r)))"
      using assms(1) by (simp add: graph_fine_def graph_ok_def keys_ok_def)
    then have vs: "vs = verts g (read_sat (\<lambda>r. cw_key w \<in> set (cr_key_set r)))"
      using Some by (simp add: dict_group_def)
    have "\<exists>r. content g u = Read r \<and> event_fine E (masks_of g) (Read r) \<and>
        cw_key w \<in> set (cr_key_set r) \<and> cr_end_timestamp r \<noteq> cw_start_timestamp w" if "u \<in> set vs" for u
    proof -
      have u: "u < length (eg_vertices g)" "read_sat (\<lambda>r. cw_key w \<in> set (cr_key_set r)) (content g u)"
        using that unfolding vs verts_props by blast+
      then obtain r where r: "content g u = Read r" "cw_key w \<in> set (cr_key_set r)"
        by (cases "content g u") (simp_all add: sat_defs)
      have "event_fine E (masks_of g) (Read r)" "event_time (content g u) \<noteq> event_time (content g v)"
        using assms u(1) r(1) unfolding graph_fine_def by (fastforce simp: sat_defs)+
      with r assms(3) show ?thesis by simp
    qed
    then show ?thesis using last_read_fine[of vs g E "masks_of g" w "(JObj [], EVENT_NONE_TYPE)"] none Some
      by (simp add: prev_read_def)
  qed
qed

lemma write_step_raises:
  assumes "graph_fine E (fst st)" "v < length (eg_vertices (fst st))"
    "write_sat (\<lambda>_. True) (content (fst st) v)"
  shows "raises_only E (write_diff_step st v)"
proof -
  obtain w where w: "content (fst st) v = Write w"
    using assms(3) by (cases "content (fst st) v") (simp_all add: sat_defs)
  have fine: "event_fine E (masks_of (fst st)) (Write w)"
    using assms(1,2) w unfolding graph_fine_def by metis
  obtain obj etype where p: "prev_read (fst st) w = Inr (obj, etype)" "raises_only E (as_dict obj)"
    using prev_read_fine[OF assms(1,2) w] by auto
  have "raises_only E (retrieve_masked (fst st) (cw_key w))" "raises_only E (as_dict (cw_obj_map w))"
    using fine fine_retrieve by simp_all
  with p show ?thesis
    by (auto simp: write_diff_step_def split_beta as_write_def w get_event_signature_def Let_def
        intro!: raises_only_bind)
qed

lemma nk_step_raises:
  assumes "nk_write_sat (\<lambda>_. True) (content (fst st) v)"
  shows "raises_only E (nk_count_step st v)"
  using assms by (cases "content (fst st) v") (auto simp: nk_count_step_def split_beta as_nk_write_def sat_defs Let_def)

context counting_step
begin

lemma step_ann: "step st v = Inr st' \<Longrightarrow> graph_ann (graph st) (graph st')"
  using step_counts set_content_ann by metis

text \<open>A loop over vertices of one kind, whose body raises at most \<open>E\<close> in a fine graph.\<close>

lemma fold_raises:
  assumes "\<forall>v\<in>set vs. v < length (eg_vertices (graph st)) \<and> kind (content (graph st) v)"
    and "\<And>e e'. core e = core e' \<Longrightarrow> kind e = kind e'" "graph_fine E (graph st)" "I st"
    and "\<And>s v. graph_fine E (graph s) \<Longrightarrow> v < length (eg_vertices (graph s)) \<Longrightarrow>
      kind (content (graph s) v) \<Longrightarrow> I s \<Longrightarrow> raises_only E (step s v) \<and> (\<forall>s'. step s v = Inr s' \<longrightarrow> I s')"
  shows "raises_only E (res_fold step st vs) \<and>
    (\<forall>st'. res_fold step st vs = Inr st' \<longrightarrow> graph_ann (graph st) (graph st') \<and> I st')"
proof (rule raises_only_fold[where I = "\<lambda>s. graph_ann (graph st) (graph s) \<and> I s"])
  fix s v
  assume v: "v \<in> set vs" and s: "graph_ann (graph st) (graph s) \<and> I s"
  have "v < length (eg_vertices (graph s))" "kind (content (graph s) v)"
    using assms(1) v graph_ann_fields(13)[of "graph st" "graph s"]
      assms(2)[OF graph_ann_vertex(1)[of "graph st" "graph s" v]] s by auto
  moreover have "graph_fine E (graph s)" using graph_fine_ann[OF assms(3)] s by blast
  ultimately have r: "raises_only E (step s v)" "\<And>s'. step s v = Inr s' \<Longrightarrow> I s'"
    using assms(5) s by blast+
  show "raises_only E (step s v) \<and>
      (\<forall>s'. step s v = Inr s' \<longrightarrow> graph_ann (graph st) (graph s') \<and> I s')"
    using r step_ann s graph_ann_trans by blast
qed (use assms(4) in simp)

end

section \<open>The passes\<close>

text \<open>The contract of a pass over the vertices of one key, and what it gives for a whole key index.\<close>

locale careful_pass =
  fixes kind :: "event \<Rightarrow> bool"
    and pass :: "event_graph \<Rightarrow> nat list \<Rightarrow> event_graph res"
  assumes kind_core: "core e = core e' \<Longrightarrow> kind e = kind e'"
    and pass_careful: "graph_fine E g \<Longrightarrow>
      \<forall>v\<in>set vs. v < length (eg_vertices g) \<and> kind (content g v) \<Longrightarrow> careful E g (pass g vs)"
begin

lemma all_careful:
  assumes "graph_fine E g" "\<forall>v\<in>set (concat (map snd d)). v < length (eg_vertices g) \<and> kind (content g v)"
  shows "careful E g (res_fold (\<lambda>g (k, vs). pass g vs) g d)"
  unfolding careful_def
proof (rule raises_only_fold[where I = "graph_ann g"])
  fix t kv
  assume kv: "kv \<in> set d" and t: "graph_ann g t"
  have "v < length (eg_vertices t) \<and> kind (content t v)" if "v \<in> set (snd kv)" for v
    using assms(2) kv that graph_ann_fields(13)[OF t] kind_core[OF graph_ann_vertex(1)[OF t]] by auto
  then have "careful E t (pass t (snd kv))" using pass_careful graph_fine_ann[OF assms(1) t] by blast
  then show "raises_only E (case kv of (k, vs) \<Rightarrow> pass t vs) \<and>
      (\<forall>t'. (case kv of (k, vs) \<Rightarrow> pass t vs) = Inr t' \<longrightarrow> graph_ann g t')"
    using graph_ann_trans[OF t] by (simp add: careful_def split_beta)
qed simp

end

interpretation hear_careful: careful_pass "hear_sat (\<lambda>_. True)" hear_diff_key
proof
  fix E g vs
  assume g: "graph_fine E g" "\<forall>v\<in>set vs. v < length (eg_vertices g) \<and> hear_sat (\<lambda>_. True) (content g v)"
  let ?st = "\<lparr> hl_graph = g, hl_counter = [], hl_prev_obj = JObj [], hl_prev_etype = EVENT_NONE_TYPE \<rparr>"
  have "raises_only E (res_fold hear_diff_step ?st vs) \<and>
    (\<forall>st'. res_fold hear_diff_step ?st vs = Inr st' \<longrightarrow>
       graph_ann (hl_graph ?st) (hl_graph st') \<and> is_dict (hl_prev_obj st'))"
    by (rule hear_count.fold_raises[where kind = "hear_sat (\<lambda>_. True)"]; (rule core_kind(4) hear_step_careful)?)
       (use g in simp_all)
  then show "careful E g (hear_diff_key g vs)"
    by (auto simp: careful_def hear_diff_key_def res_simps intro!: raises_only_bind)
qed (rule core_kind(4))

interpretation write_careful: careful_pass "write_sat (\<lambda>_. True)" write_diff_key
proof
  fix E g vs
  assume g: "graph_fine E g" "\<forall>v\<in>set vs. v < length (eg_vertices g) \<and> write_sat (\<lambda>_. True) (content g v)"
  let ?st = "(g, []) :: event_graph \<times> (string, nat) dict"
  have "raises_only E (res_fold write_diff_step ?st vs) \<and>
    (\<forall>st'. res_fold write_diff_step ?st vs = Inr st' \<longrightarrow> graph_ann (fst ?st) (fst st') \<and> True)"
    by (rule write_count.fold_raises[where kind = "write_sat (\<lambda>_. True)"]; (rule core_kind(3))?)
       (use g write_step_raises in simp_all)
  then show "careful E g (write_diff_key g vs)"
    by (auto simp: careful_def write_diff_key_def res_simps intro!: raises_only_bind)
qed (rule core_kind(3))

lemma nk_careful:
  assumes "graph_fine E g" "\<forall>v\<in>set vs. v < length (eg_vertices g) \<and> nk_write_sat (\<lambda>_. True) (content g v)"
  shows "careful E g (res_bind (res_fold nk_count_step (g, []) vs) (\<lambda>(g3, _). Inr g3))"
proof -
  let ?st = "(g, []) :: event_graph \<times> (string, nat) dict"
  have "raises_only E (res_fold nk_count_step ?st vs) \<and>
    (\<forall>st'. res_fold nk_count_step ?st vs = Inr st' \<longrightarrow> graph_ann (fst ?st) (fst st') \<and> True)"
    by (rule nk_count.fold_raises[where kind = "nk_write_sat (\<lambda>_. True)"]; (rule core_kind(5))?)
       (use assms nk_step_raises in simp_all)
  then show ?thesis by (auto simp: careful_def res_simps intro!: raises_only_bind)
qed

lemma conflicting_event_dict: "is_dict (ch_obj_map cur) \<Longrightarrow> \<exists>b. conflicting_event prev cur ks ps = Inr b"
  using is_dict_as_dict by (fastforce simp: conflicting_event_def split: option.splits)

lemma cancel_fold_raises:
  assumes "graph_fine E g" "\<forall>u\<in>set vs. u < length (eg_vertices g) \<and> hear_sat (\<lambda>_. True) (content g u)"
    "masks_fail (masks_of g) (ch_key cur) \<longrightarrow> AssertionError \<in> E"
  shows "raises_only E (res_fold (cancel_step g is_first cur) acc vs)"
proof -
  have "raises_only E (cancel_step g is_first cur c u)" if u: "u \<in> set vs" for c u
  proof -
    obtain h where h: "content g u = Hear h"
      using assms(2) u by (cases "content g u") (auto simp: sat_defs)
    have "event_fine E (masks_of g) (Hear h)" using assms(1,2) u h unfolding graph_fine_def by metis
    then have "is_dict (ch_obj_map h)" by simp
    then have "raises_only E (conflicting_event cur h ks ps)" for ks ps
      using conflicting_event_dict[of h cur ks ps] by auto
    then show ?thesis
      using fine_retrieve[OF assms(3)]
      by (auto simp: cancel_step_def as_hear_def h intro!: raises_only_bind)
  qed
  then have "raises_only E (res_fold (cancel_step g is_first cur) acc vs) \<and>
      (\<forall>s'. res_fold (cancel_step g is_first cur) acc vs = Inr s' \<longrightarrow> True)"
    by (intro raises_only_fold) simp_all
  then show ?thesis by simp
qed

lemma cancel_key_careful:
  "graph_fine E g \<Longrightarrow> \<forall>v\<in>set vs. v < length (eg_vertices g) \<and> hear_sat (\<lambda>_. True) (content g v) \<Longrightarrow>
   careful E g (cancel_key is_first g vs)"
proof (induction is_first g vs rule: cancel_key.induct)
  case (3 b g v u vs)
  obtain h where h: "content g v = Hear h"
    using "3.prems"(2) by (cases "content g v") (auto simp: sat_defs)
  have "event_fine E (masks_of g) (Hear h)" using "3.prems" h unfolding graph_fine_def by fastforce
  then have m: "masks_fail (masks_of g) (ch_key h) \<longrightarrow> AssertionError \<in> E" by simp
  have fold: "raises_only E (res_fold (cancel_step g b h) [] (u # vs))"
    by (rule cancel_fold_raises[OF "3.prems"(1) _ m]) (use "3.prems"(2) in simp)
  show ?case
  proof (cases "res_fold (cancel_step g b h) [] (u # vs)")
    case (Inl e)
    then show ?thesis using fold h by (simp add: as_hear_def careful_def)
  next
    case (Inr c)
    let ?g = "set_content v (Hear (h\<lparr> ch_cancelled_by := c \<rparr>)) g"
    have ann: "graph_ann g ?g" using set_content_ann[of "Hear (h\<lparr> ch_cancelled_by := c \<rparr>)" g v] h by simp
    have "x < length (eg_vertices ?g) \<and> hear_sat (\<lambda>_. True) (content ?g x)" if "x \<in> set (u # vs)" for x
      using "3.prems"(2) that graph_ann_fields(13)[OF ann] core_kind(4)[OF graph_ann_vertex(1)[OF ann]]
      by (metis list.set_intros(2))
    then have "careful E ?g (cancel_key False ?g (u # vs))"
      using "3.IH"[OF _ Inr] h graph_fine_ann[OF "3.prems"(1) ann] by (simp add: as_hear_def)
    then show ?thesis using h Inr graph_ann_trans[OF ann] by (simp add: as_hear_def careful_def)
  qed
qed (simp_all add: careful_def)

interpretation cancel_careful: careful_pass "hear_sat (\<lambda>_. True)" "cancel_key True"
  by unfold_locales (erule core_kind(4), rule cancel_key_careful)

lemma careful_bind:
  "careful E g m \<Longrightarrow> (\<And>g1. m = Inr g1 \<Longrightarrow> graph_ann g g1 \<Longrightarrow> careful E g1 (f g1)) \<Longrightarrow> careful E g (res_bind m f)"
  using graph_ann_trans by (cases m) (auto simp: careful_def)

lemma finalize_careful:
  assumes "graph_fine E g"
  shows "careful E g (finalize g)"
proof -
  have ok: "graph_ok t" "graph_fine E t" if "graph_ann g t" for t
    using graph_fine_ann[OF assms that] by (simp_all add: graph_fine_def)
  have nk: "\<forall>v\<in>set (eg_nk_writes t). v < length (eg_vertices t) \<and> nk_write_sat (\<lambda>_. True) (content t v)"
    if "graph_ok t" for t using that by (simp add: graph_ok_def lists_ok_def verts_props)
  have diff: "careful E g (compute_event_diff g)"
    unfolding compute_event_diff_def
  proof (intro careful_bind)
    show "careful E g (res_fold (\<lambda>g (key, vertices). hear_diff_key g vertices) g (eg_hear_key g))"
      using hear_careful.all_careful[OF assms hear_groups(2)] ok[OF graph_ann_refl] by blast
    fix g1 assume a1: "graph_ann g g1"
    show "careful E g1 (res_fold (\<lambda>g (key, vertices). write_diff_key g vertices) g1 (eg_write_key g1))"
      using write_careful.all_careful[OF ok(2)[OF a1] write_groups(2)[OF ok(1)[OF a1]]] .
    fix g2 assume "graph_ann g1 g2"
    then have a2: "graph_ann g g2" using graph_ann_trans[OF a1] by blast
    show "careful E g2 (res_bind (res_fold nk_count_step (g2, []) (eg_nk_writes g2)) (\<lambda>(g3, _). Inr g3))"
      using nk_careful[OF ok(2)[OF a2] nk[OF ok(1)[OF a2]]] .
  qed
  have "careful E t (compute_event_cancel t)" if "graph_ann g t" for t
    unfolding compute_event_cancel_def
    using cancel_careful.all_careful[OF ok(2)[OF that] hear_groups(2)[OF ok(1)[OF that]]] .
  with diff show ?thesis unfolding finalize_def by (rule careful_bind)
qed

section \<open>What a pass that returns has looked up\<close>

lemma hear_step_masks:
  assumes "hear_diff_step st v = Inr st'" "content (hl_graph st) v = Hear h"
  shows "\<not> masks_fail (masks_of (hl_graph st)) (ch_key h)"
  using assms retrieve_masked_outcome[of "hl_graph st" "ch_key h"]
  by (auto simp: hear_diff_step_def as_hear_def Let_def)

lemma write_step_masks:
  assumes "write_diff_step st v = Inr st'" "content (fst st) v = Write w"
  shows "\<not> masks_fail (masks_of (fst st)) (cw_key w)"
  using assms retrieve_masked_outcome[of "fst st" "cw_key w"]
  by (auto simp: write_diff_step_def split_beta as_write_def Let_def res_simps)

lemma ann_keys:
  assumes "graph_ann g t" "v < length (eg_vertices g)"
  shows "content g v = Hear h \<Longrightarrow> \<exists>h'. content t v = Hear h' \<and> ch_key h' = ch_key h"
    "content g v = Write w \<Longrightarrow> \<exists>w'. content t v = Write w' \<and> cw_key w' = cw_key w"
  using graph_ann_vertex(1)[OF assms] by (cases "content t v"; force dest: arg_cong[of _ _ ch_key] arg_cong[of _ _ cw_key])+

context counting_step
begin

lemma fold_visits:
  assumes "res_fold step st vs = Inr st'"
  shows "graph_ann (graph st) (graph st')"
    "v \<in> set vs \<Longrightarrow> \<exists>s s'. graph_ann (graph st) (graph s) \<and> step s v = Inr s'"
proof -
  have "graph_ann (graph st) (graph s')" if "graph_ann (graph st) (graph s)" "step s x = Inr s'" for s x s'
    using graph_ann_trans[OF that(1) step_ann[OF that(2)]] .
  then show "graph_ann (graph st) (graph st')"
    "v \<in> set vs \<Longrightarrow> \<exists>s s'. graph_ann (graph st) (graph s) \<and> step s v = Inr s'"
    using res_fold_invariant[OF assms, of "\<lambda>s. graph_ann (graph st) (graph s)"]
      res_fold_visits[OF assms, of v "\<lambda>s. graph_ann (graph st) (graph s)"] by simp_all
qed

end

lemma hear_key_visits:
  assumes "hear_diff_key g vs = Inr g'"
  shows "graph_ann g g'"
    "v \<in> set vs \<Longrightarrow> v < length (eg_vertices g) \<Longrightarrow> content g v = Hear h \<Longrightarrow> \<not> masks_fail (masks_of g) (ch_key h)"
proof -
  let ?st = "\<lparr> hl_graph = g, hl_counter = [], hl_prev_obj = JObj [], hl_prev_etype = EVENT_NONE_TYPE \<rparr>"
  obtain st' where st': "res_fold hear_diff_step ?st vs = Inr st'" "g' = hl_graph st'"
    using assms by (auto simp: hear_diff_key_def res_simps)
  show "graph_ann g g'" using hear_count.fold_visits(1)[OF st'(1)] st'(2) by simp
  assume v: "v \<in> set vs" "v < length (eg_vertices g)" "content g v = Hear h"
  obtain s s' where s: "graph_ann g (hl_graph s)" "hear_diff_step s v = Inr s'"
    using hear_count.fold_visits(2)[OF st'(1) v(1)] by auto
  obtain h' where "content (hl_graph s) v = Hear h'" "ch_key h' = ch_key h"
    using ann_keys(1)[OF s(1) v(2) v(3)] by blast
  then show "\<not> masks_fail (masks_of g) (ch_key h)"
    using hear_step_masks[OF s(2)] graph_ann_masks[OF s(1)] by simp
qed

lemma write_key_visits:
  assumes "write_diff_key g vs = Inr g'"
  shows "graph_ann g g'"
    "v \<in> set vs \<Longrightarrow> v < length (eg_vertices g) \<Longrightarrow> content g v = Write w \<Longrightarrow> \<not> masks_fail (masks_of g) (cw_key w)"
proof -
  obtain st' where st': "res_fold write_diff_step (g, []) vs = Inr st'" "g' = fst st'"
    using assms by (auto simp: write_diff_key_def res_simps)
  show "graph_ann g g'" using write_count.fold_visits(1)[OF st'(1)] st'(2) by simp
  assume v: "v \<in> set vs" "v < length (eg_vertices g)" "content g v = Write w"
  obtain s s' where s: "graph_ann g (fst s)" "write_diff_step s v = Inr s'"
    using write_count.fold_visits(2)[OF st'(1) v(1)] by auto
  obtain w' where "content (fst s) v = Write w'" "cw_key w' = cw_key w"
    using ann_keys(2)[OF s(1) v(2) v(3)] by blast
  then show "\<not> masks_fail (masks_of g) (cw_key w)"
    using write_step_masks[OF s(2)] graph_ann_masks[OF s(1)] by simp
qed

lemma groups_visits:
  assumes "res_fold (\<lambda>g (k, vs). pass g vs) g d = Inr g'"
    and "\<And>g vs g'. pass g vs = Inr g' \<Longrightarrow> graph_ann g g'"
  shows "graph_ann g g'" "(k, vs) \<in> set d \<Longrightarrow> \<exists>t t'. graph_ann g t \<and> pass t vs = Inr t'"
proof -
  have keep: "graph_ann g t'" if "graph_ann g t" "(case kv of (k, vs) \<Rightarrow> pass t vs) = Inr t'" for t kv t'
    using graph_ann_trans[OF that(1)] assms(2) that(2) by (cases kv) auto
  show "graph_ann g g'" by (rule res_fold_invariant[where I = "graph_ann g", OF assms(1)]) (simp, erule (1) keep)
  show "\<exists>t t'. graph_ann g t \<and> pass t vs = Inr t'" if kv: "(k, vs) \<in> set d"
  proof -
    have "\<exists>t t'. graph_ann g t \<and> (case (k, vs) of (k, vs) \<Rightarrow> pass t vs) = Inr t'"
      by (rule res_fold_visits[where I = "graph_ann g", OF assms(1) kv]) (simp, erule (1) keep)
    then show ?thesis by simp
  qed
qed

lemma grouped:
  assumes "dict_group d k = vs" "v \<in> set vs"
  shows "(k, vs) \<in> set d"
  using assms by (cases "map_of d k") (auto simp: dict_group_def dest: map_of_SomeD)

lemma finalize_masks:
  assumes "graph_ok g" "finalize g = Inr g'" "v < length (eg_vertices g)"
  shows "content g v = Hear h \<Longrightarrow> \<not> masks_fail (masks_of g) (ch_key h)"
    and "content g v = Write w \<Longrightarrow> \<not> masks_fail (masks_of g) (cw_key w)"
proof -
  obtain g1 g2 where
    g1: "res_fold (\<lambda>g (key, vertices). hear_diff_key g vertices) g (eg_hear_key g) = Inr g1"
    and g2: "res_fold (\<lambda>g (key, vertices). write_diff_key g vertices) g1 (eg_write_key g1) = Inr g2"
    using assms(2) by (auto simp: finalize_def compute_event_diff_def res_simps)
  have ann: "graph_ann g g1" using groups_visits(1)[OF g1] hear_key_visits(1) by blast
  show "\<not> masks_fail (masks_of g) (ch_key h)" if h: "content g v = Hear h"
  proof -
    have "dict_group (eg_hear_key g) (ch_key h) = verts g (hear_sat (\<lambda>x. ch_key x = ch_key h))"
      using assms(1) by (simp add: graph_ok_def keys_ok_def)
    then have "v \<in> set (dict_group (eg_hear_key g) (ch_key h))" using assms(3) h by (simp add: verts_props sat_defs)
    from groups_visits(2)[OF g1 _ grouped[OF refl this]] obtain t t' where
      t: "graph_ann g t" "hear_diff_key t (dict_group (eg_hear_key g) (ch_key h)) = Inr t'"
      using hear_key_visits(1) by blast
    obtain h' where "content t v = Hear h'" "ch_key h' = ch_key h"
      using ann_keys(1)[OF t(1) assms(3) h] by blast
    then show ?thesis
      using hear_key_visits(2)[OF t(2) \<open>v \<in> _\<close>] graph_ann_masks[OF t(1)] graph_ann_fields(13)[OF t(1)] assms(3) by simp
  qed
  show "\<not> masks_fail (masks_of g) (cw_key w)" if w: "content g v = Write w"
  proof -
    have "dict_group (eg_write_key g) (cw_key w) = verts g (write_sat (\<lambda>x. cw_key x = cw_key w))"
      using assms(1) by (simp add: graph_ok_def keys_ok_def)
    then have "v \<in> set (dict_group (eg_write_key g1) (cw_key w))"
      using assms(3) w graph_ann_fields(8)[OF ann] by (simp add: verts_props sat_defs)
    from groups_visits(2)[OF g2 _ grouped[OF refl this]] obtain t t' where
      t1: "graph_ann g1 t" and t2: "write_diff_key t (dict_group (eg_write_key g1) (cw_key w)) = Inr t'"
      using write_key_visits(1) by blast
    note t = graph_ann_trans[OF ann t1]
    obtain w' where "content t v = Write w'" "cw_key w' = cw_key w"
      using ann_keys(2)[OF t assms(3) w] by blast
    then show ?thesis
      using write_key_visits(2)[OF t2 \<open>v \<in> _\<close>] graph_ann_masks[OF t] graph_ann_fields(13)[OF t] assms(3) by simp
  qed
qed

section \<open>The construction keeps the masks\<close>

interpretation hear_masks: step_invariant "\<lambda>g. masks_of g = ms" "\<lambda>_. True" add_controller_hear for ms
  by unfold_locales (auto simp: masks_of_def add_controller_hear_def new_vertex_def Let_def res_simps)

interpretation event_masks: step_invariant "\<lambda>g. masks_of g = ms" "\<lambda>_. True" add_reconciler_event for ms
  by unfold_locales
     (auto simp: masks_of_def add_reconciler_event_def new_vertex_def Let_def split: event.splits)

interpretation connect_masks: step_invariant "\<lambda>g. masks_of g = ms" "\<lambda>_. True" connect_hear_to_write for ms
  by unfold_locales
     (auto simp: masks_of_def add_inter_edge_def split_paired_all dest!: connect_hear_to_write_edge(2))

lemma intra_masks: "masks_of (fold add_intra_edge ps g) = masks_of g"
  by (induction ps arbitrary: g) (simp_all add: masks_of_def add_intra_edge_def split_beta Let_def)

lemma build_masks:
  assumes "parse_receiver_events lines = Inr hs" "parse_reconciler_events loosen compress lines = Inr evs"
    "distinct (map ch_id hs)"
  shows "\<exists>g. connected_graph hs evs g \<and> masks_of g = (fk, fp, lm) \<and>
    build_controller_event_graph loosen compress fk fp lm lines = finalize g"
proof -
  let ?g0 = "EventGraph lm fk fp"
  obtain g1 where g1: "add_sorted_controller_hears ?g0 hs = Inr g1"
    using add_hears_total[OF assms(3), of ?g0]
    by (auto simp: add_sorted_controller_hears_def EventGraph_def)
  obtain g2' where g2': "res_fold add_reconciler_event g1 evs = Inr g2'"
    using add_events_total[OF reconciler_events(2)[OF assms(2)], of g1] by blast
  then obtain ps where g2: "add_sorted_reconciler_events g1 evs = Inr (fold add_intra_edge ps g2')"
    by (auto simp: add_sorted_reconciler_events_def Let_def)
  obtain pairs g3 where g3: "generate_hear_write_pairs (fold add_intra_edge ps g2') = Inr pairs"
    "res_fold connect_hear_to_write (fold add_intra_edge ps g2') pairs = Inr g3" "connected_graph hs evs g3"
    using connect_pairs_ok[OF g1 g2 reconciler_events(2)[OF assms(2)]] by blast
  have "masks_of ?g0 = (fk, fp, lm)" by (simp add: EventGraph_def masks_of_def)
  then have "masks_of g1 = (fk, fp, lm)"
    using hear_masks.fold_inv[OF g1[unfolded add_sorted_controller_hears_def]] by simp
  then have "masks_of g2' = (fk, fp, lm)" using event_masks.fold_inv[OF g2'] by simp
  then have masks: "masks_of g3 = (fk, fp, lm)"
    using connect_masks.fold_inv[OF g3(2)] by (simp add: intra_masks)
  have "sanity_check g4 = Inr ()" if "finalize g3 = Inr g4" for g4
    using sanity_ok[OF g3(3) log_order_of_log[OF assms(1,3,2)]] connected_finalize(2)[OF g3(3) that] .
  then have "build_controller_event_graph loosen compress fk fp lm lines = finalize g3"
    using assms(1,2) g1 g2 g3 by (cases "finalize g3") (simp_all add: build_controller_event_graph_def)
  with g3(3) masks show ?thesis by blast
qed

lemma add_hears_repeated:
  "\<not> distinct (map ch_id hs) \<or> (\<exists>h\<in>set hs. map_of (eg_hear_id g) (ch_id h) \<noteq> None) \<Longrightarrow>
   res_fold add_controller_hear g hs = Inl AssertionError"
proof (induction hs arbitrary: g)
  case (Cons h hs)
  show ?case
  proof (cases "map_of (eg_hear_id g) (ch_id h)")
    case None
    obtain g1 where g1: "add_controller_hear g h = Inr g1"
      "eg_hear_id g1 = AList.update (ch_id h) (length (eg_vertices g)) (eg_hear_id g)"
      using None by (auto simp: add_controller_hear_def Let_def)
    have "\<not> distinct (map ch_id hs) \<or> (\<exists>h\<in>set hs. map_of (eg_hear_id g1) (ch_id h) \<noteq> None)"
      using Cons.prems None by (auto simp: g1(2))
    then show ?thesis using Cons.IH g1(1) by simp
  qed (simp add: add_controller_hear_def Let_def)
qed simp

section \<open>What the construction raises\<close>

fun mask_key :: "event \<Rightarrow> string option" where
  "mask_key (Hear h) = Some (ch_key h)"
| "mask_key (Write w) = Some (cw_key w)"
| "mask_key e = None"

text \<open>The objects of the event that are compared are dicts; a hear is parsed only if its object is one.\<close>

fun dict_objects :: "event \<Rightarrow> bool" where
  "dict_objects (Write w) = is_dict (cw_obj_map w)"
| "dict_objects (Read r) = list_all (\<lambda>kv. is_dict (snd kv)) (cr_key_to_obj r)"
| "dict_objects e = True"

definition unmaskable :: "mask_map \<times> mask_map \<times> mask_map \<Rightarrow> event \<Rightarrow> bool" where
  "unmaskable ms e \<longleftrightarrow> (case mask_key e of None \<Rightarrow> False | Some key \<Rightarrow> masks_fail ms key)"

lemma event_fine_iff:
  assumes "event_ok e \<or> (\<exists>h. e = Hear h \<and> is_dict (ch_obj_map h))"
    and "unmaskable ms e \<longrightarrow> AssertionError \<in> E" "dict_objects e \<or> {TypeError, AttributeError} \<subseteq> E"
  shows "event_fine E ms e"
proof -
  have "raises_only E (as_dict j)" if "is_dict j \<or> {TypeError, AttributeError} \<subseteq> E" for j
    using that by (cases j) (auto simp: as_dict_def)
  then show ?thesis
    using assms by (cases e) (auto simp: unmaskable_def list_all_iff)
qed

lemma receiver_dicts:
  assumes "parse_receiver_events lines = Inr hs" "distinct (map ch_id hs)" "h \<in> set hs"
  shows "is_dict (ch_obj_map h)"
proof -
  obtain i h0 where "parse_controller_hear (lines ! i) = Inr h0" "ch_obj_map h = ch_obj_map h0"
    using receiver_events(2)[OF assms(1,2)] assms(3) unfolding hear_of_def by fastforce
  then show ?thesis
    by (auto simp: parse_controller_hear_def Let_def res_simps dest!: ControllerHear_dict)
qed

lemma connected_fine:
  assumes "connected_graph hs evs g" "log_order hs evs" "\<forall>e\<in>set (map Hear hs @ evs). event_fine E (masks_of g) e"
  shows "graph_fine E g"
proof -
  have c: "graph_ok g" "map ev_content (eg_vertices g) = map Hear hs @ evs"
    using assms(1) by (simp_all add: connected_graph_def)
  have at: "content g v \<in> set (map Hear hs @ evs)" if "v < length (eg_vertices g)" for v
    unfolding c(2)[symmetric] using that by simp
  have "distinct (map event_time evs)"
    using assms(2) by (auto simp: log_order_def strict_sorted_iff)
  then have inj: "inj_on event_time (set evs)" by (simp add: distinct_map)
  have "event_time (content g u) \<noteq> event_time (content g v)"
    if "u < length (eg_vertices g)" "v < length (eg_vertices g)"
      "read_sat (\<lambda>_. True) (content g u)" "write_sat (\<lambda>_. True) (content g v)" for u v
  proof -
    have "content g u \<in> set evs" "content g v \<in> set evs"
      using at[OF that(1)] at[OF that(2)] that(3,4) by (auto simp: sat_defs)
    moreover have "content g u \<noteq> content g v" using that(3,4) by (cases "content g u"; cases "content g v") (simp_all add: sat_defs)
    ultimately show ?thesis using inj by (auto dest: inj_onD)
  qed
  with c(1) assms(3) at show ?thesis by (simp add: graph_fine_def)
qed

lemma build_errors:
  assumes "parse_receiver_events lines = Inr hs" "parse_reconciler_events loosen compress lines = Inr evs"
    and "distinct (map ch_id hs)"
    and "(\<exists>e\<in>set (map Hear hs @ evs). unmaskable (fk, fp, lm) e) \<longrightarrow> AssertionError \<in> E"
    and "(\<forall>e\<in>set evs. dict_objects e) \<or> {TypeError, AttributeError} \<subseteq> E"
  shows "raises_only E (build_controller_event_graph loosen compress fk fp lm lines)"
proof -
  obtain g where g: "connected_graph hs evs g" "masks_of g = (fk, fp, lm)"
    "build_controller_event_graph loosen compress fk fp lm lines = finalize g"
    using build_masks[OF assms(1-3)] by blast
  have "event_fine E (masks_of g) e" if "e \<in> set (map Hear hs @ evs)" for e
  proof (rule event_fine_iff)
    show "event_ok e \<or> (\<exists>h. e = Hear h \<and> is_dict (ch_obj_map h))"
      using that reconciler_events(2)[OF assms(2)] receiver_dicts[OF assms(1,3)] by auto
    show "unmaskable (masks_of g) e \<longrightarrow> AssertionError \<in> E" using that assms(4) g(2) by auto
    show "dict_objects e \<or> {TypeError, AttributeError} \<subseteq> E" using that assms(5) by auto
  qed
  then have "graph_fine E g" using connected_fine[OF g(1) log_order_of_log[OF assms(1,3,2)]] by blast
  then show ?thesis using finalize_careful g(3) by (simp add: careful_def)
qed

lemma build_masks_used:
  assumes "parse_receiver_events lines = Inr hs" "parse_reconciler_events loosen compress lines = Inr evs"
    and "distinct (map ch_id hs)" "build_controller_event_graph loosen compress fk fp lm lines = Inr g"
    and "e \<in> set (map Hear hs @ evs)"
  shows "\<not> unmaskable (fk, fp, lm) e"
proof -
  obtain g3 where g3: "connected_graph hs evs g3" "masks_of g3 = (fk, fp, lm)" "finalize g3 = Inr g"
    using build_masks[OF assms(1-3)] assms(4) by metis
  then have c: "graph_ok g3" "map ev_content (eg_vertices g3) = map Hear hs @ evs"
    by (simp_all add: connected_graph_def)
  obtain v where "v < length (eg_vertices g3)" "content g3 v = e"
    using assms(5) unfolding c(2)[symmetric] by (auto simp: in_set_conv_nth)
  with finalize_masks[OF c(1) g3(3)] g3(2) show ?thesis
    by (cases e) (auto simp: unmaskable_def)
qed

text \<open>
  C11: what \<open>build_controller_event_graph\<close> raises on a log both readers accept. Two hears with one
  id always fail the assertion of \<open>add_controller_hear\<close>. With distinct ids, and masks that list no
  empty path for the key of a hear or of a write, no assertion of the construction, of the
  differences, of the cancellation or of the closing \<open>sanity_check\<close> can fail: only an object of a
  write or of a read that is no dict raises (\<open>TypeError\<close> or \<open>AttributeError\<close>). When these objects
  are dicts the outcome is exact: \<open>AssertionError\<close> if an id repeats or a mask that applies lists
  an empty path, and a graph in every other case.
\<close>

theorem construction_errors_exact:
  assumes "parse_receiver_events lines = Inr hs" "parse_reconciler_events loosen compress lines = Inr evs"
  shows "let result = build_controller_event_graph loosen compress field_key_mask field_path_mask learned lines;
      repeated = (\<not> distinct (map ch_id hs));
      empty_mask = (\<exists>e\<in>set (map Hear hs @ evs). unmaskable (field_key_mask, field_path_mask, learned) e)
    in (repeated \<longrightarrow> result = Inl AssertionError) \<and>
      (\<not> repeated \<and> \<not> empty_mask \<longrightarrow> raises_only {TypeError, AttributeError} result) \<and>
      ((\<forall>e\<in>set evs. dict_objects e) \<longrightarrow>
         (if repeated \<or> empty_mask then result = Inl AssertionError else \<exists>g. result = Inr g))"
proof -
  let ?r = "build_controller_event_graph loosen compress field_key_mask field_path_mask learned lines"
  let ?bad = "\<exists>e\<in>set (map Hear hs @ evs). unmaskable (field_key_mask, field_path_mask, learned) e"
  let ?dicts = "\<forall>e\<in>set evs. dict_objects e"
  have repeated: "?r = Inl AssertionError" if "\<not> distinct (map ch_id hs)"
    using add_hears_repeated[of hs "EventGraph learned field_key_mask field_path_mask"] that assms
    by (simp add: build_controller_event_graph_def add_sorted_controller_hears_def)
  have other: "raises_only {TypeError, AttributeError} ?r" if "distinct (map ch_id hs)" "\<not> ?bad"
    using build_errors[OF assms that(1), where fk = field_key_mask and fp = field_path_mask and lm = learned and E = "{TypeError, AttributeError}"] that(2) by blast
  have "\<exists>g. ?r = Inr g" if "distinct (map ch_id hs)" "\<not> ?bad" "?dicts"
    using build_errors[OF assms that(1), where fk = field_key_mask and fp = field_path_mask and lm = learned and E = "{}"] that(2,3) by (cases ?r) auto
  moreover have "?r = Inl AssertionError" if "distinct (map ch_id hs)" "?bad" "?dicts"
    using build_errors[OF assms that(1), where fk = field_key_mask and fp = field_path_mask and lm = learned and E = "{AssertionError}"] that(2,3)
      build_masks_used[OF assms that(1)] by (cases ?r) auto
  ultimately show ?thesis using repeated other by (auto simp: Let_def)
qed

lemma sample_dict_events:
  "\<exists>evs. parse_reconciler_events False False sample_log = Inr evs \<and>
     (map dict_objects evs, map mask_key evs) = ([True, True, True], [None, None, Some ''pod/default/a''])"
proof (rule map_sum_Inr)
  show "map_sum id (\<lambda>evs. (map dict_objects evs, map mask_key evs))
      (parse_reconciler_events False False sample_log) =
    Inr ([True, True, True], [None, None, Some ''pod/default/a''])" by code_simp
qed

theorem construction_errors_exact_witness:
  "(\<exists>g. build_controller_event_graph False False [] [] [] sample_log = Inr g) \<and>
   build_controller_event_graph False False [(''pod/default/a'', [[]])] [] [] sample_log = Inl AssertionError"
proof -
  obtain hs where hs: "parse_receiver_events sample_log = Inr hs" "map ch_id hs = [1]"
    using sample_hears by (elim exE conjE)
  then have ids: "distinct (map ch_id hs)" by simp
  obtain evs where evs: "parse_reconciler_events False False sample_log = Inr evs"
    "map dict_objects evs = [True, True, True]" "map mask_key evs = [None, None, Some ''pod/default/a'']"
    using sample_dict_events by auto
  have dicts: "\<forall>e\<in>set evs. dict_objects e"
    using arg_cong[OF evs(2), of "list_all id"] by (simp add: list_all_iff)
  have "Some ''pod/default/a'' \<in> set (map mask_key evs)" unfolding evs(3) by simp
  then obtain e where e: "e \<in> set evs" "mask_key e = Some ''pod/default/a''" unfolding set_map image_iff by metis
  have "unmaskable ([(''pod/default/a'', [[]])], [], []) e"
    using e(2) by (simp add: unmaskable_def masks_fail_def)
  then have bad: "\<exists>e\<in>set (map Hear hs @ evs). unmaskable ([(''pod/default/a'', [[]])], [], []) e" using e(1) by auto
  have good: "\<not> (\<exists>e\<in>set (map Hear hs @ evs). unmaskable ([], [], []) e)"
    by (auto simp: unmaskable_def masks_fail_def split: option.splits)
  show ?thesis
    using construction_errors_exact[OF hs(1) evs(1), of "[(''pod/default/a'', [[]])]" "[]" "[]"]
      construction_errors_exact[OF hs(1) evs(1), of "[]" "[]" "[]"] dicts bad good ids
    unfolding Let_def by presburger
qed

end
