(* ===== verification/Spec2Isabelle.thy ===== *)
theory Spec2Isabelle
  imports Learn_Oracle Reproduce_Table Build_Facts Workflows Check_Env Parallel Queries Graph_Errors
begin

text \<open>
  Verification of the core of Sieve, a tool that tests Kubernetes controllers by perturbing what they
  see of the cluster.

  \<^bold>\<open>The program.\<close> A run of Sieve has two phases. In a learning run the controller under test is
  instrumented; the coordinator writes \<open>sieve-server.log\<close>, one line per event (a notification the
  controller hears, a read or write it issues, the begin and end of a reconcile), and the API server
  writes \<open>apiserver1.log\<close>, one line per change of an object. The analyzer
  (\<^verbatim>\<open>sieve_analyzer/analyze.py\<close>, \<^verbatim>\<open>event_graph.py\<close>) builds a graph of the events of the first log, with an
  edge from each notification to the writes it can have caused, and three policies
  (\<^verbatim>\<open>sieve_perturbation_policies\<close>) turn it into test plans. From two learning runs the oracle
  (\<^verbatim>\<open>sieve_oracle\<close>) derives a reference: the end state, a summary of the changes, and what is
  nondeterministic. A test run executes one plan, and the oracle compares its logs with the reference.
  The data all parts share are in \<^verbatim>\<open>sieve_common\<close>.

  \<^bold>\<open>Foundations.\<close> \<open>Prelude\<close>: results that are a value or a Python exception, the loops over them, the
  locale of loop invariants, strings and numbers. \<open>Py_Dict\<close>: Python dicts as association lists, with the
  locales of tallies and groupings. \<open>Json_Value\<close>, \<open>Json_Text\<close>, \<open>Py_Repr\<close>: JSON values with Python's
  equality, \<open>json.loads\<close> and \<open>json.dumps\<close>, and \<open>repr\<close>. \<open>Patterns\<close>: the regular expressions of \<open>common.py\<close>
  with a matcher by derivatives that is proved correct, shell wildcards, and \<open>PurePath.match\<close>.

  \<^bold>\<open>Data.\<close> \<open>Event_Delta\<close> models \<open>event_delta.py\<close>: the difference of two objects loses nothing, is absent
  exactly for objects that are equal up to masks, shows no masked value, and never conflicts with
  itself. \<open>K8s_Event\<close> models \<open>k8s_event.py\<close>: one record per class, one constructor and parser each; keys
  and log lines round-trip, and signatures identify events.

  \<^bold>\<open>Analyzer.\<close> \<open>Sieve_Log\<close> is the sanity check of a log, equivalent to a declarative notion of a sane log.
  \<open>Log_Events\<close> are the two readers of a log, with the invariant of the events they return. \<open>Event_Graph\<close>
  holds the state of the graph: an explicit store of vertices that edges name by index. \<open>Graph_Reach\<close>
  decides reachability, \<open>Graph_Build\<close> the invariant of construction, \<open>Graph_Diff\<close> the differences and
  counters of the events. \<open>Analyze\<close> are the causality passes; \<open>Causality\<close> shows that the edges of a
  returned graph are exactly the pairs the causality rule relates, that the graph is well-formed and
  acyclic. \<open>Graph_Errors\<close> says what the construction can raise: the assertion on the ids of the hears and that on
  the paths of the masks, exactly when an id repeats or a mask that applies lists an empty path; no other assertion,
  key or attribute can fail, and objects that are no dicts raise what Python raises for them. \<open>Intra_Chain\<close> orders the events within
  the reconcilers.

  \<^bold>\<open>Policies.\<close> \<open>Config\<close> models \<open>config.py\<close> and the test context; \<open>Policy_Common\<close> what the policies share.
  \<open>Intermediate_State\<close>, \<open>Stale_State\<close> and \<open>Unobserved_State\<close> are the three policies: each saves the plans
  of exactly the candidates its passes keep, one by one in their order, and reports their number. \<open>Test_Plans\<close> runs them on a log.
  \<open>Plan_Description\<close> describes a plan in words; every plan a learning run writes can be described and
  run.

  \<^bold>\<open>Oracle.\<close> \<open>Controller_Family\<close> are the objects of the controller itself, by a loop that is shown to
  end in the closure under owner references. \<open>History\<close> models \<open>safety_checker.py\<close>: the digest counts
  events, the user's checker sees every state of the run. \<open>End_State\<close> and \<open>Compare_States\<close> model
  \<open>liveness_checker.py\<close>: the state read backwards from the log is the replay of its events, the mask
  holds exactly the ignored paths, and the alarms are exactly the unmasked differences. \<open>Oracle\<close> models
  \<open>oracle.py\<close>: a run that reproduces what was learned raises no alarm.

  \<^bold>\<open>Scripts.\<close> \<open>Shell\<close> is the world the scripts work in: a tree of files, a current directory, the log of the
  actions done. A script is a function of that world and of the outside (what commands do to the files and
  exit with, what the clients of docker and the cluster answer), and returns a value or an exception, or never
  returns. \<open>Shell_Frame\<close> is how they are reasoned about: what a script that returned went through, a locale
  of relations between the worlds before and after, which files are left alone, and rules to run a script on
  concrete files. \<open>Queries\<close> are the helpers that load the results of a run and list objects of the cluster.

  \<^bold>\<open>Test driver.\<close> \<open>Test_Driver\<close> models \<open>test_framework.py\<close>: the conditional waits, with the loop that ends
  once the clock passes the timeout, and the workloads. \<open>Workload_Log\<close> shows that the oracle reads from
  \<open>workload.log\<close> what the workload ran into.

  \<^bold>\<open>The command.\<close> \<open>Sieve_Run\<close> (the cluster, the controller, the workload) and \<open>Sieve_Main\<close> (the stages after the
  workload, the result file, the command line) model \<open>sieve.py\<close>. \<open>Sieve_Cluster\<close>: how the attempts to create
  a cluster end, and what deploying does to the deployment file. \<open>Learn_Run\<close> and \<open>Learn_Oracle\<close>: a learning run that
  builds the oracle leaves in the oracle directory what the oracle functions make of the logs of both passes.

  \<^bold>\<open>Around the command.\<close> \<open>Reproduce\<close> models \<open>reproduce_bugs.py\<close> and \<open>report_bugs.py\<close>; \<open>Reproduce_Facts\<close>: a bug
  counts as reproduced exactly when the run that was started found errors, and the files a reproduction
  changes are put back; \<open>Reproduce_Table\<close>: what the printed table counts. \<open>Build\<close> models \<open>build.py\<close>, and \<open>Build_Facts\<close> the
  \<open>go.mod\<close> it writes, that it returns to its directory, and a configuration it cannot build. \<open>Check_Env\<close> models
  \<open>check_env.py\<close>, with the versions it accepts; \<open>Workflows\<close> models \<open>gen_github_action.py\<close>, whose jobs learn the
  oracles that the reproductions of the operators of the CI need; \<open>Parallel\<close> models \<open>parallel_testing\<close>, \<open>start_porting.py\<close> and
  \<open>check_test_plan_gen.py\<close>, and shows that combining result files keeps every outcome.

  \<^bold>\<open>Conventions.\<close> A function that can raise returns \<open>res\<close>: \<open>Inl\<close> the kind of exception or \<open>Inr\<close> the value;
  an \<open>assert\<close> is a branch to \<open>AssertionError\<close>. \<open>OutOfModel\<close> marks values that are not represented, such as
  floating-point numbers. Characters are those up to U+00FF, JSON numbers are integers. A Python set
  is a list in the order of insertion; what depends on that order in Python is compared up to order,
  sorted, or printed with sorted keys. A reconcile id of \<open>-1\<close> in the code is \<open>None\<close> here. Fields of the
  configuration keep their JSON value and are tested for truth as Python does. Masks are dicts from
  patterns of keys to lists of paths, and uids are strings or absent. The functions of the analyzer and the
  oracle take the contents of logs, of the configuration and of the JSON files of earlier runs as arguments;
  the scripts read and write them as files. A file that was written as JSON or YAML holds the value.

  \<^bold>\<open>Fuel.\<close> The loop that decides the timing of a stale-state plan has no bound in the source; here it gets
  one more step than the graph has vertices, and on graphs built from a log it never runs out, because
  every step follows an edge forward in the log. The JSON scanner gets twice the length of its input,
  and two more. The conditional waits and the attempts to create a cluster are partial functions, for which
  never returning is a value, and theorems say when they return. Every other loop is structural or has a
  termination proof.

  \<^bold>\<open>Libraries.\<close> The \<open>deepdiff\<close> package is an argument: a function to the paths or the tree of differences
  it reports. The one fact used of it is that it reports nothing on equal values, and it is a
  hypothesis where it is used.

  \<^bold>\<open>Not modelled.\<close> What is printed, but for the errors and reports the properties are about; the modes and times of
  files, and symbolic links beyond their creation; the parsing of command lines, whose result is an
  argument, but for the checks the scripts make themselves. What a shell command does to the files is an
  argument: git, docker, kind, kubectl and go are not modelled. The example checker that multiplies with a
  floating-point ratio is left out, and so are the packages of the controllers under test, which are
  data. The coordinator, the client and the instrumentation are written in Go.
\<close>

end
